(* ===== verification/Hn_Prelude.thy ===== *)
theory Hn_Prelude
  imports Main "HOL-Library.AList" "HOL-Library.Multiset" "HOL-Library.List_Lexorder"
begin

text \<open>
  What the component theories share: Python strings as lists of code points, insertion-ordered
  dictionaries as association lists, exceptions as values, decimal numerals, and the generic
  locale that turns "every operation keeps the invariant" into "every run keeps it".
\<close>

named_theorems model_simps
  \<open>defining equations of record-level operations, unfolded together by the component proofs\<close>

section \<open>Python strings\<close>

text \<open>
  A Python \<open>str\<close> is a sequence of Unicode code points, so it is a list of naturals
  here: lengths count code points, and characters beyond Latin-1 (the ellipsis of the previews)
  are one element.  \<open>lit\<close> writes an ASCII literal of the source.
\<close>

type_synonym pystr = "nat list"

definition lit :: "string \<Rightarrow> pystr" where
  "lit s = map of_char s"

lemma lit_eq [simp]: "lit s = lit t \<longleftrightarrow> s = t"
  by (simp add: lit_def inj_on_def)

lemma lit_Nil [simp]: "lit [] = []"
  by (simp add: lit_def)

lemma lit_eq_Nil [simp]: "lit s = [] \<longleftrightarrow> s = []" "[] = lit s \<longleftrightarrow> s = []"
  by (simp_all add: lit_def)

lemma length_lit [simp]: "length (lit s) = length s"
  by (simp add: lit_def)

text \<open>\<open>sep.join(parts)\<close>.\<close>

fun py_join :: "pystr \<Rightarrow> pystr list \<Rightarrow> pystr" where
  "py_join sep [] = []"
| "py_join sep [x] = x"
| "py_join sep (x # y # zs) = x @ sep @ py_join sep (y # zs)"

lemma py_join_Nil_concat: "py_join [] xs = concat xs"
  by (induction "[] :: pystr" xs rule: py_join.induct) auto

text \<open>Decimal numerals: \<open>str(n)\<close> and \<open>f"{n:0wd}"\<close> for a natural number.\<close>

fun dec_digits :: "nat \<Rightarrow> nat list" where
  "dec_digits n = (if n < 10 then [48 + n] else dec_digits (n div 10) @ [48 + n mod 10])"

declare dec_digits.simps [simp del]

definition pad_left :: "nat \<Rightarrow> pystr \<Rightarrow> pystr" where
  "pad_left w s = replicate (w - length s) 48 @ s"

fun dec_value :: "pystr \<Rightarrow> nat" where
  "dec_value s = foldl (\<lambda>a d. 10 * a + (d - 48)) 0 s"

declare dec_value.simps [simp del]

lemma dec_value_snoc: "dec_value (s @ [d]) = 10 * dec_value s + (d - 48)"
  by (simp add: dec_value.simps)

lemma dec_value_zeros: "dec_value (replicate k 48 @ s) = dec_value s"
  by (induction k) (simp_all add: dec_value.simps)

lemma dec_value_digits [simp]: "dec_value (dec_digits n) = n"
proof (induction n rule: dec_digits.induct)
  case (1 n)
  then show ?case
    by (cases "n < 10")
      (simp_all add: dec_digits.simps [of n] dec_value_snoc, simp add: dec_value.simps)
qed

lemma dec_value_pad_left [simp]: "dec_value (pad_left w (dec_digits n)) = n"
  by (simp add: pad_left_def dec_value_zeros)

lemma pad_left_dec_inject: "pad_left w (dec_digits m) = pad_left w (dec_digits n) \<longleftrightarrow> m = n"
  by (metis dec_value_pad_left)

definition int_str :: "int \<Rightarrow> pystr" where
  "int_str i = (if i < 0 then lit ''-'' @ dec_digits (nat (- i)) else dec_digits (nat i))"

section \<open>Clock values\<close>

text \<open>
  \<open>time.time()\<close> gives a float.  Times are counted here in units of its last place (2 to
  the power -22 seconds for the current epoch): in that unit the clock's values are whole numbers
  and the code's subtractions and comparisons of them are exact.
\<close>

type_synonym time = int

section \<open>Python dictionaries\<close>

text \<open>
  A \<open>dict\<close> keeps insertion order, and assigning to a present key keeps the key's place:
  exactly \<^const>\<open>AList.update\<close>; \<open>d.pop(k, None)\<close> is \<^const>\<open>AList.delete\<close>
  and \<open>d.get(k)\<close> is \<^const>\<open>map_of\<close>.
\<close>

type_synonym ('k, 'v) pydict = "('k \<times> 'v) list"

abbreviation dict_get :: "('k, 'v) pydict \<Rightarrow> 'k \<Rightarrow> 'v option" where
  "dict_get d k \<equiv> map_of d k"

abbreviation dict_set :: "'k \<Rightarrow> 'v \<Rightarrow> ('k, 'v) pydict \<Rightarrow> ('k, 'v) pydict" where
  "dict_set k v d \<equiv> AList.update k v d"

abbreviation dict_pop :: "'k \<Rightarrow> ('k, 'v) pydict \<Rightarrow> ('k, 'v) pydict" where
  "dict_pop k d \<equiv> AList.delete k d"

abbreviation dict_keys :: "('k, 'v) pydict \<Rightarrow> 'k list" where
  "dict_keys d \<equiv> map fst d"

abbreviation dict_values :: "('k, 'v) pydict \<Rightarrow> 'v list" where
  "dict_values d \<equiv> map snd d"

abbreviation dict_ok :: "('k, 'v) pydict \<Rightarrow> bool" where
  "dict_ok d \<equiv> distinct (map fst d)"

text \<open>Lookups stay lookups: the library's rules that turn them into membership are off.\<close>

declare map_of_eq_Some_iff [simp del] Some_eq_map_of_iff [simp del]

text \<open>\<open>for k in ks: d.pop(k, None)\<close>.\<close>

definition dict_pop_all :: "'k list \<Rightarrow> ('k, 'v) pydict \<Rightarrow> ('k, 'v) pydict" where
  "dict_pop_all ks d = fold AList.delete ks d"

lemma dict_get_set [simp]: "dict_get (dict_set k v d) k' = (if k' = k then Some v else dict_get d k')"
  by (simp add: AList.update_conv')

lemma dict_get_pop [simp]: "dict_get (dict_pop k d) k' = (if k' = k then None else dict_get d k')"
  by (simp add: AList.delete_conv')

lemma dict_ok_set [simp]: "dict_ok d \<Longrightarrow> dict_ok (dict_set k v d)"
  by (rule AList.distinct_update)

lemma dict_ok_pop [simp]: "dict_ok d \<Longrightarrow> dict_ok (dict_pop k d)"
  by (rule AList.distinct_delete)

lemma dict_get_pop_all [simp]:
  "dict_get (dict_pop_all ks d) k = (if k \<in> set ks then None else dict_get d k)"
  by (induction ks arbitrary: d) (auto simp: dict_pop_all_def)

lemma dict_ok_pop_all [simp]: "dict_ok d \<Longrightarrow> dict_ok (dict_pop_all ks d)"
  by (induction ks arbitrary: d) (auto simp: dict_pop_all_def)

lemma dict_pop_all_filter: "dict_pop_all ks d = filter (\<lambda>(k, _). k \<notin> set ks) d"
proof (induction ks arbitrary: d)
  case Nil
  then show ?case by (auto simp: dict_pop_all_def intro!: filter_True [symmetric])
next
  case (Cons k ks)
  then show ?case
    by (auto simp: dict_pop_all_def AList.delete_eq intro!: filter_cong)
qed

lemma dict_set_new: "k \<notin> set (dict_keys d) \<Longrightarrow> dict_set k v d = d @ [(k, v)]"
  by (induction d) auto

lemma dict_get_None_iff: "dict_get d k = None \<longleftrightarrow> k \<notin> set (dict_keys d)"
  by (simp add: map_of_eq_None_iff)

lemma dict_value_member: "dict_get d k = Some v \<Longrightarrow> v \<in> set (dict_values d)"
  by (force dest: map_of_SomeD)

lemma dict_value_get:
  "dict_ok d \<Longrightarrow> v \<in> set (dict_values d) \<Longrightarrow> \<exists>k. dict_get d k = Some v"
  by (force simp: map_of_eq_Some_iff)

section \<open>Exceptions as values\<close>

text \<open>
  The exceptions the server-side code raises, distinguishes or lets pass.  \<open>HTTPError\<close>
  is tornado's (status and reason); \<open>OtherError\<close> is any other exception, with its class
  name and its \<open>str()\<close>.
\<close>

datatype pyexc =
    ValueError pystr
  | RuntimeError pystr
  | KernelMismatch pystr "pystr option" pystr
  | HTTPError nat pystr
  | OtherError pystr pystr

type_synonym ('a, 's) outcome = "(pyexc + 'a) \<times> 's"

text \<open>
  An operation on a state may raise; the state it left is kept.  \<open>mbind\<close> runs the next operation
  when the first returned, and \<open>of_result\<close> makes a pure computation that may raise an operation.
\<close>

definition mret :: "'a \<Rightarrow> 's \<Rightarrow> ('a, 's) outcome" where
  "mret x s = (Inr x, s)"

definition mraise :: "pyexc \<Rightarrow> 's \<Rightarrow> ('a, 's) outcome" where
  "mraise e s = (Inl e, s)"

definition of_result :: "pyexc + 'a \<Rightarrow> 's \<Rightarrow> ('a, 's) outcome" where
  "of_result r s = (r, s)"

definition mbind :: "('s \<Rightarrow> ('a, 's) outcome) \<Rightarrow> ('a \<Rightarrow> 's \<Rightarrow> ('b, 's) outcome) \<Rightarrow> 's \<Rightarrow> ('b, 's) outcome" where
  "mbind m f s = (case m s of (Inl e, s1) \<Rightarrow> (Inl e, s1) | (Inr x, s1) \<Rightarrow> f x s1)"

lemma mbind_simps [simp]:
  "mbind (mret x) f = f x"
  "mbind (mraise e) f = mraise e"
  "mbind (of_result (Inr x)) f = f x"
  "mbind (of_result (Inl e)) f = mraise e"
  by (simp_all add: mbind_def mret_def mraise_def of_result_def fun_eq_iff)

lemma mbind_eq_Inr:
  "mbind m f s = (Inr y, s') \<longleftrightarrow> (\<exists>x s1. m s = (Inr x, s1) \<and> f x s1 = (Inr y, s'))"
  by (auto simp: mbind_def split: prod.splits sum.splits)

lemma mbind_eq_Inl:
  "mbind m f s = (Inl e, s') \<longleftrightarrow>
     m s = (Inl e, s') \<or> (\<exists>x s1. m s = (Inr x, s1) \<and> f x s1 = (Inl e, s'))"
  by (auto simp: mbind_def split: prod.splits sum.splits)

lemma mret_eq [simp]: "mret x s = (r, s') \<longleftrightarrow> r = Inr x \<and> s' = s"
  by (auto simp: mret_def)

lemma mraise_eq [simp]: "mraise e s = (r, s') \<longleftrightarrow> r = Inl e \<and> s' = s"
  by (auto simp: mraise_def)

lemma of_result_eq [simp]: "of_result v s = (r, s') \<longleftrightarrow> v = r \<and> s' = s"
  by (auto simp: of_result_def)

text \<open>\<open>for x in xs: f(x)\<close>, stopped by the first exception.\<close>

primrec mfor :: "('a \<Rightarrow> 's \<Rightarrow> (unit, 's) outcome) \<Rightarrow> 'a list \<Rightarrow> 's \<Rightarrow> (unit, 's) outcome" where
  "mfor f [] = mret ()"
| "mfor f (x # xs) = mbind (f x) (\<lambda>_. mfor f xs)"

text \<open>\<open>try: m except E as exc: raise ...\<close>: the exceptions of \<open>m\<close> go through \<open>h\<close>.\<close>

definition catching :: "(pyexc \<Rightarrow> pyexc) \<Rightarrow> ('s \<Rightarrow> ('a, 's) outcome) \<Rightarrow> 's \<Rightarrow> ('a, 's) outcome" where
  "catching h m s = (case m s of (Inl e, s1) \<Rightarrow> (Inl (h e), s1) | (Inr x, s1) \<Rightarrow> (Inr x, s1))"

section \<open>Lists\<close>

text \<open>\<open>drop_first P n xs\<close> drops the first \<open>n\<close> elements that satisfy \<open>P\<close>.\<close>

fun drop_first :: "('a \<Rightarrow> bool) \<Rightarrow> nat \<Rightarrow> 'a list \<Rightarrow> 'a list" where
  "drop_first P 0 xs = xs"
| "drop_first P (Suc n) [] = []"
| "drop_first P (Suc n) (x # xs) = (if P x then drop_first P n xs else x # drop_first P (Suc n) xs)"

lemma set_drop_first: "set (drop_first P n xs) \<subseteq> set xs"
  by (induction P n xs rule: drop_first.induct) auto

lemma filter_drop_first: "filter P (drop_first P n xs) = drop n (filter P xs)"
  by (induction P n xs rule: drop_first.induct) auto

lemma filter_not_drop_first:
  "filter (\<lambda>x. \<not> P x) (drop_first P n xs) = filter (\<lambda>x. \<not> P x) xs"
  by (induction P n xs rule: drop_first.induct) auto

lemma map_drop_first: "map f (drop_first (\<lambda>x. P (f x)) n xs) = drop_first P n (map f xs)"
  by (induction P n "map f xs" arbitrary: xs rule: drop_first.induct) auto

lemma drop_first_cong:
  "(\<And>x. x \<in> set xs \<Longrightarrow> P x = Q x) \<Longrightarrow> drop_first P n xs = drop_first Q n xs"
  by (induction P n xs rule: drop_first.induct) auto

lemma filter_notin_take:
  "distinct xs \<Longrightarrow> filter (\<lambda>x. x \<notin> set (take n (filter P xs))) xs = drop_first P n xs"
proof (induction P n xs rule: drop_first.induct)
  case (3 P n x xs)
  have x: "x \<notin> set (take k (filter P xs))" for k
    using "3.prems" by (auto dest: in_set_takeD)
  show ?case
  proof (cases "P x")
    case True
    have "filter (\<lambda>y. y \<noteq> x \<and> y \<notin> set (take n (filter P xs))) xs
        = filter (\<lambda>y. y \<notin> set (take n (filter P xs))) xs"
      using "3.prems" by (intro filter_cong) auto
    with True "3.IH"(1) "3.prems" show ?thesis by simp
  next
    case False
    with x [of "Suc n"] "3.IH"(2) "3.prems" show ?thesis by simp
  qed
qed simp_all

lemma map_filter_all:
  "(\<And>x. x \<in> set xs \<Longrightarrow> f x \<noteq> None) \<Longrightarrow> List.map_filter f xs = map (\<lambda>x. the (f x)) xs"
  by (induction xs) (fastforce simp: List.map_filter_simps)+

section \<open>Runs of operations\<close>

text \<open>
  A component's operations as one step function over its events; \<open>admissible\<close> says that
  every event of a list is allowed in the state it meets (for instance that a fresh identifier
  is fresh).
\<close>

fun admissible :: "('e \<Rightarrow> 's \<Rightarrow> bool) \<Rightarrow> ('e \<Rightarrow> 's \<Rightarrow> 's) \<Rightarrow> 'e list \<Rightarrow> 's \<Rightarrow> bool" where
  "admissible ok step [] s = True"
| "admissible ok step (e # es) s = (ok e s \<and> admissible ok step es (step e s))"

lemma admissible_append:
  "admissible ok step (es @ fs) s \<longleftrightarrow>
   admissible ok step es s \<and> admissible ok step fs (fold step es s)"
  by (induction es arbitrary: s) auto

locale invariant_ops =
  fixes ok :: "'e \<Rightarrow> 's \<Rightarrow> bool"
    and step :: "'e \<Rightarrow> 's \<Rightarrow> 's"
    and inv :: "'s \<Rightarrow> bool"
  assumes step_inv: "inv s \<Longrightarrow> ok e s \<Longrightarrow> inv (step e s)"
begin

lemma run_inv: "inv s \<Longrightarrow> admissible ok step es s \<Longrightarrow> inv (fold step es s)"
  by (induction es arbitrary: s) (auto intro: step_inv)

lemma run_stable:
  assumes stable: "\<And>s e. inv s \<Longrightarrow> ok e s \<Longrightarrow> Q e \<Longrightarrow> P s \<Longrightarrow> P (step e s)"
  shows "inv s \<Longrightarrow> admissible ok step es s \<Longrightarrow> list_all Q es \<Longrightarrow> P s \<Longrightarrow> P (fold step es s)"
  by (induction es arbitrary: s) (auto intro: step_inv stable)

end

end
