(* ===== verification/Hn_Ledger.thy ===== *)
theory Hn_Ledger
  imports Hn_Prelude
begin

text \<open>
  The in-memory ledger of \<^verbatim>\<open>src/hypernote/actor_ledger.py\<close>: job records per notebook with a
  bounded history of completed jobs, and cell attribution.  Every operation runs under the
  ledger's lock without an inner await, so it is one atomic function on the state.  The clock
  and the random identifier are arguments: \<open>now\<close> is \<open>time.time()\<close> and
  \<open>new_id\<close> is \<open>uuid.uuid4().hex[:12]\<close>.
\<close>

section \<open>Data\<close>

datatype job_status = QUEUED | RUNNING | AWAITING_INPUT | SUCCEEDED | FAILED | INTERRUPTED

datatype actor_type = HUMAN | AGENT

datatype job_action = EXECUTE | INTERRUPT | STDIN_REPLY

fun job_status_value :: "job_status \<Rightarrow> pystr" where
  "job_status_value QUEUED = lit ''queued''"
| "job_status_value RUNNING = lit ''running''"
| "job_status_value AWAITING_INPUT = lit ''awaiting_input''"
| "job_status_value SUCCEEDED = lit ''succeeded''"
| "job_status_value FAILED = lit ''failed''"
| "job_status_value INTERRUPTED = lit ''interrupted''"

fun actor_type_value :: "actor_type \<Rightarrow> pystr" where
  "actor_type_value HUMAN = lit ''human''"
| "actor_type_value AGENT = lit ''agent''"

fun job_action_value :: "job_action \<Rightarrow> pystr" where
  "job_action_value EXECUTE = lit ''execute''"
| "job_action_value INTERRUPT = lit ''interrupt''"
| "job_action_value STDIN_REPLY = lit ''stdin_reply''"

record job =
  job_id :: pystr
  job_notebook_id :: pystr
  job_actor_id :: pystr
  job_actor_type :: actor_type
  job_action :: job_action
  job_status :: job_status
  job_created_at :: time
  job_runtime_id :: "pystr option"
  job_target_cells :: "pystr option"
  job_request_uids :: "pystr list"
  job_started_at :: "time option"
  job_completed_at :: "time option"

record cell_attribution =
  attr_notebook_id :: pystr
  attr_cell_id :: pystr
  attr_updated_at :: time
  last_editor_id :: "pystr option"
  last_editor_type :: "pystr option"
  last_executor_id :: "pystr option"
  last_executor_type :: "pystr option"

text \<open>
  \<open>jobs_by_id\<close> and \<open>cell_attrs\<close> are iterated by the code, so they keep their
  order; the notebook index is only looked up.
\<close>

record ledger =
  max_completed :: int
  jobs_by_id :: "(pystr, job) pydict"
  job_ids_by_notebook :: "pystr \<Rightarrow> pystr list option"
  cell_attrs :: "(pystr \<times> pystr, cell_attribution) pydict"

definition new_ledger :: "int \<Rightarrow> ledger" where
  "new_ledger mx = \<lparr>max_completed = mx, jobs_by_id = [], job_ids_by_notebook = (\<lambda>_. None), cell_attrs = []\<rparr>"

definition default_max_completed :: int where
  "default_max_completed = 20"

definition copy_job :: "job \<Rightarrow> job" where
  "copy_job j = \<lparr>job_id = job_id j, job_notebook_id = job_notebook_id j,
     job_actor_id = job_actor_id j, job_actor_type = job_actor_type j, job_action = job_action j,
     job_status = job_status j, job_created_at = job_created_at j,
     job_runtime_id = job_runtime_id j, job_target_cells = job_target_cells j,
     job_request_uids = job_request_uids j, job_started_at = job_started_at j,
     job_completed_at = job_completed_at j\<rparr>"

definition copy_attribution :: "cell_attribution \<Rightarrow> cell_attribution" where
  "copy_attribution a = \<lparr>attr_notebook_id = attr_notebook_id a, attr_cell_id = attr_cell_id a,
     attr_updated_at = attr_updated_at a, last_editor_id = last_editor_id a,
     last_editor_type = last_editor_type a, last_executor_id = last_executor_id a,
     last_executor_type = last_executor_type a\<rparr>"

section \<open>Operations\<close>

definition completed_status :: "job_status \<Rightarrow> bool" where
  "completed_status st \<longleftrightarrow> st \<in> {SUCCEEDED, FAILED, INTERRUPTED}"

definition active_status :: "job_status \<Rightarrow> bool" where
  "active_status st \<longleftrightarrow> st \<in> {QUEUED, RUNNING, AWAITING_INPUT}"

text \<open>\<open>self._job_ids_by_notebook.get(notebook_id, [])\<close>.\<close>

definition ids_of :: "ledger \<Rightarrow> pystr \<Rightarrow> pystr list" where
  "ids_of l nb = (case job_ids_by_notebook l nb of None \<Rightarrow> [] | Some ids \<Rightarrow> ids)"

definition completed_ids :: "ledger \<Rightarrow> pystr \<Rightarrow> pystr list" where
  "completed_ids l nb =
     filter (\<lambda>i. case dict_get (jobs_by_id l) i of
                 None \<Rightarrow> False
               | Some j \<Rightarrow> completed_status (job_status j)) (ids_of l nb)"

definition prune_completed_jobs :: "pystr \<Rightarrow> ledger \<Rightarrow> ledger" where
  "prune_completed_jobs nb l =
     (if max_completed l < 0 then l
      else
        let completed = completed_ids l nb;
            overflow = int (length completed) - max_completed l
        in if overflow \<le> 0 then l
           else
             let stale = take (nat overflow) completed
             in l\<lparr>job_ids_by_notebook :=
                    (job_ids_by_notebook l)(nb := Some (filter (\<lambda>i. i \<notin> set stale) (ids_of l nb))),
                  jobs_by_id := dict_pop_all stale (jobs_by_id l)\<rparr>)"

definition new_job ::
  "pystr \<Rightarrow> time \<Rightarrow> pystr \<Rightarrow> pystr \<Rightarrow> actor_type \<Rightarrow> job_action \<Rightarrow> pystr option \<Rightarrow> pystr option \<Rightarrow> job" where
  "new_job new_id now nb actor atype action target runtime =
     \<lparr>job_id = new_id, job_notebook_id = nb, job_actor_id = actor, job_actor_type = atype,
      job_action = action, job_status = QUEUED, job_created_at = now, job_runtime_id = runtime,
      job_target_cells = target, job_request_uids = [], job_started_at = None,
      job_completed_at = None\<rparr>"

definition create_job ::
  "pystr \<Rightarrow> time \<Rightarrow> pystr \<Rightarrow> pystr \<Rightarrow> actor_type \<Rightarrow> job_action \<Rightarrow> pystr option \<Rightarrow> pystr option
   \<Rightarrow> ledger \<Rightarrow> job \<times> ledger" where
  "create_job new_id now nb actor atype action target runtime l =
     (let j = new_job new_id now nb actor atype action target runtime;
          l1 = l\<lparr>jobs_by_id := dict_set new_id j (jobs_by_id l),
                 job_ids_by_notebook := (job_ids_by_notebook l)(nb := Some (ids_of l nb @ [new_id]))\<rparr>
      in (copy_job j, prune_completed_jobs nb l1))"

definition with_status :: "job_status \<Rightarrow> pystr option \<Rightarrow> time \<Rightarrow> job \<Rightarrow> job" where
  "with_status st runtime now j =
     (let j1 = j\<lparr>job_status := st\<rparr>;
          j2 = (if st = RUNNING \<and> job_started_at j1 = None then j1\<lparr>job_started_at := Some now\<rparr> else j1);
          j3 = (if st \<in> {SUCCEEDED, FAILED, INTERRUPTED} then j2\<lparr>job_completed_at := Some now\<rparr> else j2)
      in (case runtime of None \<Rightarrow> j3 | Some r \<Rightarrow> j3\<lparr>job_runtime_id := Some r\<rparr>))"

definition update_job_status ::
  "pystr \<Rightarrow> job_status \<Rightarrow> pystr option \<Rightarrow> time \<Rightarrow> ledger \<Rightarrow> ledger" where
  "update_job_status i st runtime now l =
     (case dict_get (jobs_by_id l) i of
        None \<Rightarrow> l
      | Some j \<Rightarrow>
          prune_completed_jobs (job_notebook_id j)
            (l\<lparr>jobs_by_id := dict_set i (with_status st runtime now j) (jobs_by_id l)\<rparr>))"

definition append_request_uid :: "pystr \<Rightarrow> pystr \<Rightarrow> ledger \<Rightarrow> (unit, ledger) outcome" where
  "append_request_uid i uid l =
     (case dict_get (jobs_by_id l) i of
        None \<Rightarrow> (Inl (ValueError (lit ''Job '' @ i @ lit '' not found'')), l)
      | Some j \<Rightarrow>
          (Inr (), l\<lparr>jobs_by_id :=
             dict_set i (j\<lparr>job_request_uids := job_request_uids j @ [uid]\<rparr>) (jobs_by_id l)\<rparr>))"

definition get_job :: "pystr \<Rightarrow> ledger \<Rightarrow> job option" where
  "get_job i l = map_option copy_job (dict_get (jobs_by_id l) i)"

text \<open>
  \<open>list.sort(key=..., reverse=True)\<close> is stable and keeps equal elements in their
  original order, which is a stable sort by the negated key.
\<close>

definition iter_jobs :: "pystr option \<Rightarrow> job_status option \<Rightarrow> ledger \<Rightarrow> job list" where
  "iter_jobs nb st l =
     (let js = (case nb of
                  None \<Rightarrow> dict_values (jobs_by_id l)
                | Some n \<Rightarrow> List.map_filter (dict_get (jobs_by_id l)) (ids_of l n));
          js1 = (case st of None \<Rightarrow> js | Some s \<Rightarrow> filter (\<lambda>j. job_status j = s) js)
      in sort_key (\<lambda>j. - job_created_at j) js1)"

definition list_jobs :: "pystr option \<Rightarrow> job_status option \<Rightarrow> nat \<Rightarrow> ledger \<Rightarrow> job list" where
  "list_jobs nb st limit l = map copy_job (take limit (iter_jobs nb st l))"

definition list_active_jobs :: "pystr \<Rightarrow> ledger \<Rightarrow> job list" where
  "list_active_jobs nb l =
     map copy_job (filter (\<lambda>j. active_status (job_status j)) (iter_jobs (Some nb) None l))"

definition update_cell_attribution ::
  "pystr \<Rightarrow> pystr \<Rightarrow> pystr option \<Rightarrow> actor_type option \<Rightarrow> pystr option \<Rightarrow> actor_type option
   \<Rightarrow> time \<Rightarrow> ledger \<Rightarrow> ledger" where
  "update_cell_attribution nb cell editor editor_type executor executor_type now l =
     (let a0 = (case dict_get (cell_attrs l) (nb, cell) of
                  Some a \<Rightarrow> a
                | None \<Rightarrow> \<lparr>attr_notebook_id = nb, attr_cell_id = cell, attr_updated_at = now,
                            last_editor_id = None, last_editor_type = None,
                            last_executor_id = None, last_executor_type = None\<rparr>);
          a1 = (case editor of
                  None \<Rightarrow> a0
                | Some e \<Rightarrow> a0\<lparr>last_editor_id := Some e,
                               last_editor_type := map_option actor_type_value editor_type\<rparr>);
          a2 = (case executor of
                  None \<Rightarrow> a1
                | Some e \<Rightarrow> a1\<lparr>last_executor_id := Some e,
                               last_executor_type := map_option actor_type_value executor_type\<rparr>)
      in l\<lparr>cell_attrs := dict_set (nb, cell) (a2\<lparr>attr_updated_at := now\<rparr>) (cell_attrs l)\<rparr>)"

definition get_cell_attribution :: "pystr \<Rightarrow> pystr \<Rightarrow> ledger \<Rightarrow> cell_attribution option" where
  "get_cell_attribution nb cell l = map_option copy_attribution (dict_get (cell_attrs l) (nb, cell))"

definition list_cell_attributions :: "pystr \<Rightarrow> ledger \<Rightarrow> cell_attribution list" where
  "list_cell_attributions nb l =
     map copy_attribution
       (sort_key (\<lambda>a. - attr_updated_at a)
          (filter (\<lambda>a. attr_notebook_id a = nb) (dict_values (cell_attrs l))))"

definition evict_notebook :: "pystr \<Rightarrow> ledger \<Rightarrow> ledger" where
  "evict_notebook nb l =
     l\<lparr>jobs_by_id := dict_pop_all (ids_of l nb) (jobs_by_id l),
       job_ids_by_notebook := (job_ids_by_notebook l)(nb := None),
       cell_attrs := dict_pop_all (filter (\<lambda>k. fst k = nb) (dict_keys (cell_attrs l))) (cell_attrs l)\<rparr>"

definition close_ledger :: "ledger \<Rightarrow> ledger" where
  "close_ledger l = l\<lparr>jobs_by_id := [], job_ids_by_notebook := (\<lambda>_. None), cell_attrs := []\<rparr>"

section \<open>Well-formedness\<close>

lemma copy_job_id [simp]: "copy_job = (\<lambda>j. j)"
  by (simp add: copy_job_def fun_eq_iff)

lemma copy_attribution_id [simp]: "copy_attribution = (\<lambda>a. a)"
  by (simp add: copy_attribution_def fun_eq_iff)

lemma active_completed: "active_status st \<longleftrightarrow> \<not> completed_status st"
  by (cases st) (simp_all add: active_status_def completed_status_def)

text \<open>
  The job table and the per-notebook index describe the same jobs, every job sits under its own
  notebook, and attributions are stored under their own key.
\<close>

definition index_ok :: "ledger \<Rightarrow> bool" where
  "index_ok l \<longleftrightarrow>
     dict_ok (jobs_by_id l)
     \<and> (\<forall>i j. dict_get (jobs_by_id l) i = Some j \<longrightarrow> job_id j = i)
     \<and> (\<forall>nb. distinct (ids_of l nb))
     \<and> (\<forall>nb i. i \<in> set (ids_of l nb) \<longleftrightarrow>
            (\<exists>j. dict_get (jobs_by_id l) i = Some j \<and> job_notebook_id j = nb))"

definition attrs_ok :: "ledger \<Rightarrow> bool" where
  "attrs_ok l \<longleftrightarrow>
     dict_ok (cell_attrs l)
     \<and> (\<forall>k a. dict_get (cell_attrs l) k = Some a \<longrightarrow> k = (attr_notebook_id a, attr_cell_id a))"

definition history_bounded :: "ledger \<Rightarrow> bool" where
  "history_bounded l \<longleftrightarrow>
     (0 \<le> max_completed l \<longrightarrow> (\<forall>nb. int (length (completed_ids l nb)) \<le> max_completed l))"

definition ledger_ok :: "ledger \<Rightarrow> bool" where
  "ledger_ok l \<longleftrightarrow> index_ok l \<and> attrs_ok l \<and> history_bounded l"

section \<open>Pruning\<close>

definition stale_ids :: "pystr \<Rightarrow> ledger \<Rightarrow> pystr list" where
  "stale_ids nb l =
     (if max_completed l < 0 then []
      else take (nat (int (length (completed_ids l nb)) - max_completed l)) (completed_ids l nb))"

lemma prune_ids:
  "ids_of (prune_completed_jobs nb l) nb' =
     (if nb' = nb then filter (\<lambda>i. i \<notin> set (stale_ids nb l)) (ids_of l nb) else ids_of l nb')"
  by (auto simp: prune_completed_jobs_def stale_ids_def ids_of_def Let_def)

lemma prune_get:
  "dict_get (jobs_by_id (prune_completed_jobs nb l)) i =
     (if i \<in> set (stale_ids nb l) then None else dict_get (jobs_by_id l) i)"
  by (auto simp: prune_completed_jobs_def stale_ids_def Let_def)

lemma prune_frame [simp]:
  "max_completed (prune_completed_jobs nb l) = max_completed l"
  "cell_attrs (prune_completed_jobs nb l) = cell_attrs l"
  by (simp_all add: prune_completed_jobs_def Let_def)

lemma prune_dict_ok: "dict_ok (jobs_by_id l) \<Longrightarrow> dict_ok (jobs_by_id (prune_completed_jobs nb l))"
  by (simp add: prune_completed_jobs_def Let_def)

lemma stale_completed:
  "i \<in> set (stale_ids nb l) \<Longrightarrow>
   i \<in> set (ids_of l nb) \<and> (\<exists>j. dict_get (jobs_by_id l) i = Some j \<and> completed_status (job_status j))"
  by (auto simp: stale_ids_def completed_ids_def dest!: in_set_takeD split: if_splits option.splits)

lemma completed_ids_cong:
  assumes "ids_of l nb = ids_of l' nb"
    and "\<And>i. i \<in> set (ids_of l' nb) \<Longrightarrow> dict_get (jobs_by_id l) i = dict_get (jobs_by_id l') i"
  shows "completed_ids l nb = completed_ids l' nb"
  using assms by (auto simp: completed_ids_def intro!: filter_cong)

lemma index_okD:
  assumes "index_ok l"
  shows "dict_ok (jobs_by_id l)"
    and "distinct (ids_of l nb)"
    and "dict_get (jobs_by_id l) i = Some j \<Longrightarrow> job_id j = i"
    and "i \<in> set (ids_of l nb) \<longleftrightarrow>
      (\<exists>j. dict_get (jobs_by_id l) i = Some j \<and> job_notebook_id j = nb)"
  using assms by (simp_all add: index_ok_def)

lemma stale_notebook:
  assumes "index_ok l" and "i \<in> set (stale_ids nb l)"
    and "dict_get (jobs_by_id l) i = Some j"
  shows "job_notebook_id j = nb"
  using stale_completed [OF assms(2)] assms(3) by (auto simp: index_okD(4) [OF assms(1)])

lemma prune_index_ok:
  assumes "index_ok l"
  shows "index_ok (prune_completed_jobs nb l)"
  unfolding index_ok_def
proof (intro conjI allI impI)
  show "dict_ok (jobs_by_id (prune_completed_jobs nb l))"
    using index_okD(1) [OF assms] by (rule prune_dict_ok)
  show "distinct (ids_of (prune_completed_jobs nb l) nb')" for nb'
    using index_okD(2) [OF assms] by (simp add: prune_ids)
  show "job_id j = i" if "dict_get (jobs_by_id (prune_completed_jobs nb l)) i = Some j" for i j
    using that index_okD(3) [OF assms] by (simp add: prune_get split: if_splits)
  show "i \<in> set (ids_of (prune_completed_jobs nb l) nb') \<longleftrightarrow>
      (\<exists>j. dict_get (jobs_by_id (prune_completed_jobs nb l)) i = Some j \<and> job_notebook_id j = nb')"
    for nb' i
    using index_okD(4) [OF assms] stale_notebook [OF assms] by (auto simp: prune_ids prune_get)
qed

lemma completed_ids_mem_filter:
  "filter (\<lambda>i. i \<in> set (completed_ids l nb)) (ids_of l nb) = completed_ids l nb"
  by (auto simp: completed_ids_def intro!: filter_cong)

lemma prune_ids_drop_first:
  assumes "index_ok l" and "0 \<le> max_completed l"
  shows "ids_of (prune_completed_jobs nb l) nb =
    drop_first (\<lambda>i. i \<in> set (completed_ids l nb))
      (nat (int (length (completed_ids l nb)) - max_completed l)) (ids_of l nb)"
  using filter_notin_take [OF index_okD(2) [OF assms(1), of nb],
      of _ "\<lambda>i. i \<in> set (completed_ids l nb)"] assms(2)
  by (simp add: prune_ids stale_ids_def completed_ids_mem_filter)

lemma prune_completed_ids:
  assumes "index_ok l"
  shows "completed_ids (prune_completed_jobs nb l) nb' =
    (if nb' = nb then drop (length (stale_ids nb l)) (completed_ids l nb) else completed_ids l nb')"
proof (cases "nb' = nb")
  case False
  have "i \<notin> set (stale_ids nb l)" if "i \<in> set (ids_of l nb')" for i
    using that False stale_notebook [OF assms] by (auto simp: index_okD(4) [OF assms])
  with False show ?thesis
    by (auto simp: prune_ids prune_get intro!: completed_ids_cong)
next
  case True
  have "completed_ids (prune_completed_jobs nb l) nb
      = filter (\<lambda>i. i \<notin> set (stale_ids nb l)) (completed_ids l nb)"
    by (auto simp: completed_ids_def [of l] completed_ids_def [of "prune_completed_jobs nb l"]
        prune_ids prune_get conj_commute intro!: filter_cong)
  also have "\<dots> = drop (length (stale_ids nb l)) (completed_ids l nb)"
  proof (cases "max_completed l < 0")
    case True
    then show ?thesis by (simp add: stale_ids_def)
  next
    case False
    have "distinct (completed_ids l nb)"
      using assms by (simp add: completed_ids_def index_okD(2))
    with False show ?thesis
      using filter_notin_take [of "completed_ids l nb" _ "\<lambda>_. True"]
        filter_drop_first [of "\<lambda>_. True"]
      by (simp add: stale_ids_def) 
  qed
  finally show ?thesis using True by simp
qed

text \<open>After pruning a notebook its completed jobs fit the bound.\<close>

lemma length_stale_ids:
  "0 \<le> max_completed l \<Longrightarrow>
   int (length (completed_ids l nb) - length (stale_ids nb l)) \<le> max_completed l"
  by (simp add: stale_ids_def)

lemma prune_bounded:
  assumes "index_ok l"
    and "\<And>nb'. nb' \<noteq> nb \<Longrightarrow> 0 \<le> max_completed l \<Longrightarrow> int (length (completed_ids l nb')) \<le> max_completed l"
  shows "history_bounded (prune_completed_jobs nb l)"
  using assms length_stale_ids [of l nb]
  by (auto simp: history_bounded_def prune_completed_ids)

section \<open>Every operation keeps the ledger well formed\<close>

lemma set_job_ids [simp]: "ids_of (l\<lparr>jobs_by_id := d\<rparr>) nb = ids_of l nb"
  by (simp add: ids_of_def)

lemma set_job_index_ok:
  assumes "index_ok l" and "dict_get (jobs_by_id l) i = Some j"
    and "job_id j' = i" and "job_notebook_id j' = job_notebook_id j"
  shows "index_ok (l\<lparr>jobs_by_id := dict_set i j' (jobs_by_id l)\<rparr>)"
  using assms by (auto simp: index_ok_def)

lemma set_job_other_completed:
  assumes "index_ok l" and "dict_get (jobs_by_id l) i = Some j" and "nb \<noteq> job_notebook_id j"
  shows "completed_ids (l\<lparr>jobs_by_id := dict_set i j' (jobs_by_id l)\<rparr>) nb = completed_ids l nb"
  using assms by (intro completed_ids_cong) (auto simp: index_okD(4) [OF assms(1)])

lemma attrs_ok_cong: "cell_attrs l' = cell_attrs l \<Longrightarrow> attrs_ok l \<Longrightarrow> attrs_ok l'"
  by (simp add: attrs_ok_def)

lemma with_status_frame [simp]:
  "job_id (with_status st r now j) = job_id j"
  "job_notebook_id (with_status st r now j) = job_notebook_id j"
  "job_status (with_status st r now j) = st"
  "job_actor_id (with_status st r now j) = job_actor_id j"
  "job_action (with_status st r now j) = job_action j"
  "job_target_cells (with_status st r now j) = job_target_cells j"
  "job_request_uids (with_status st r now j) = job_request_uids j"
  "job_created_at (with_status st r now j) = job_created_at j"
  by (auto simp: with_status_def Let_def split: option.splits)

lemma new_job_simps [simp]:
  "job_id (new_job i now nb a t act tg r) = i"
  "job_notebook_id (new_job i now nb a t act tg r) = nb"
  "job_status (new_job i now nb a t act tg r) = QUEUED"
  "job_action (new_job i now nb a t act tg r) = act"
  by (simp_all add: new_job_def)

definition register_job :: "pystr \<Rightarrow> pystr \<Rightarrow> job \<Rightarrow> ledger \<Rightarrow> ledger" where
  "register_job new_id nb j l =
     l\<lparr>jobs_by_id := dict_set new_id j (jobs_by_id l),
       job_ids_by_notebook := (job_ids_by_notebook l)(nb := Some (ids_of l nb @ [new_id]))\<rparr>"

lemma create_job_register:
  "create_job new_id now nb actor atype action target runtime l =
     (let j = new_job new_id now nb actor atype action target runtime
      in (j, prune_completed_jobs nb (register_job new_id nb j l)))"
  by (simp add: create_job_def register_job_def Let_def)

lemma register_job_simps [simp]:
  "max_completed (register_job i nb j l) = max_completed l"
  "cell_attrs (register_job i nb j l) = cell_attrs l"
  "jobs_by_id (register_job i nb j l) = dict_set i j (jobs_by_id l)"
  "ids_of (register_job i nb j l) nb' = (if nb' = nb then ids_of l nb @ [i] else ids_of l nb')"
  by (auto simp: register_job_def ids_of_def)

lemma register_job_index_ok:
  assumes "index_ok l" and "dict_get (jobs_by_id l) i = None"
    and "job_id j = i" and "job_notebook_id j = nb"
  shows "index_ok (register_job i nb j l)"
  using assms by (auto simp: index_ok_def)

lemma register_job_completed:
  assumes "index_ok l" and "dict_get (jobs_by_id l) i = None" and "\<not> completed_status (job_status j)"
  shows "completed_ids (register_job i nb j l) nb' = completed_ids l nb'"
proof -
  have "i \<notin> set (ids_of l nb')"
    using assms(2) by (simp add: index_okD(4) [OF assms(1)])
  then show ?thesis
    using assms(3) by (auto simp: completed_ids_def intro!: filter_cong)
qed

lemma create_job_ok:
  assumes "ledger_ok l" and "dict_get (jobs_by_id l) i = None"
  shows "ledger_ok (snd (create_job i now nb actor atype action target runtime l))"
proof -
  let ?j = "new_job i now nb actor atype action target runtime"
  have idx: "index_ok (register_job i nb ?j l)"
    using assms by (intro register_job_index_ok) (simp_all add: ledger_ok_def)
  have "completed_ids (register_job i nb ?j l) nb' = completed_ids l nb'" for nb'
    using assms by (intro register_job_completed) (simp_all add: ledger_ok_def completed_status_def)
  then have "history_bounded (prune_completed_jobs nb (register_job i nb ?j l))"
    using assms by (intro prune_bounded [OF idx]) (simp add: ledger_ok_def history_bounded_def)
  with assms prune_index_ok [OF idx] show ?thesis
    by (auto simp: create_job_register Let_def ledger_ok_def intro: attrs_ok_cong [rotated])
qed

lemma update_job_status_ok:
  assumes "ledger_ok l"
  shows "ledger_ok (update_job_status i st runtime now l)"
proof (cases "dict_get (jobs_by_id l) i")
  case None
  with assms show ?thesis by (simp add: update_job_status_def)
next
  case (Some j)
  let ?l = "l\<lparr>jobs_by_id := dict_set i (with_status st runtime now j) (jobs_by_id l)\<rparr>"
  have ok: "index_ok l" using assms by (simp add: ledger_ok_def)
  have idx: "index_ok ?l"
    using set_job_index_ok [OF ok Some] index_okD(3) [OF ok Some] by simp
  have "history_bounded (prune_completed_jobs (job_notebook_id j) ?l)"
    using assms set_job_other_completed [OF ok Some]
    by (intro prune_bounded [OF idx]) (simp add: ledger_ok_def history_bounded_def)
  with assms prune_index_ok [OF idx] Some show ?thesis
    by (auto simp: update_job_status_def ledger_ok_def intro: attrs_ok_cong [rotated])
qed

lemma append_request_uid_ok:
  assumes "ledger_ok l"
  shows "ledger_ok (snd (append_request_uid i uid l))"
proof (cases "dict_get (jobs_by_id l) i")
  case None
  with assms show ?thesis by (simp add: append_request_uid_def)
next
  case (Some j)
  let ?j = "j\<lparr>job_request_uids := job_request_uids j @ [uid]\<rparr>"
  have ok: "index_ok l" using assms by (simp add: ledger_ok_def)
  have "completed_ids (l\<lparr>jobs_by_id := dict_set i ?j (jobs_by_id l)\<rparr>) nb = completed_ids l nb" for nb
    using Some by (auto simp: completed_ids_def intro!: filter_cong)
  then have "history_bounded (l\<lparr>jobs_by_id := dict_set i ?j (jobs_by_id l)\<rparr>)"
    using assms by (simp add: ledger_ok_def history_bounded_def)
  with assms set_job_index_ok [OF ok Some, of ?j] index_okD(3) [OF ok Some] Some show ?thesis
    by (auto simp: append_request_uid_def ledger_ok_def intro: attrs_ok_cong [rotated])
qed

lemma update_cell_attribution_frame [simp]:
  "jobs_by_id (update_cell_attribution nb c e et x xt now l) = jobs_by_id l"
  "job_ids_by_notebook (update_cell_attribution nb c e et x xt now l) = job_ids_by_notebook l"
  "max_completed (update_cell_attribution nb c e et x xt now l) = max_completed l"
  by (simp_all add: update_cell_attribution_def Let_def)

lemma update_cell_attribution_attrs_ok:
  "attrs_ok l \<Longrightarrow> attrs_ok (update_cell_attribution nb c e et x xt now l)"
  by (auto simp: attrs_ok_def update_cell_attribution_def Let_def split: option.splits if_splits)

lemma ids_of_cong: "job_ids_by_notebook l' = job_ids_by_notebook l \<Longrightarrow> ids_of l' nb = ids_of l nb"
  by (simp add: ids_of_def)

lemma update_cell_attribution_ok:
  assumes "ledger_ok l"
  shows "ledger_ok (update_cell_attribution nb c e et x xt now l)"
  using assms update_cell_attribution_attrs_ok [of l]
  by (simp add: ledger_ok_def index_ok_def history_bounded_def completed_ids_def
      ids_of_cong [of "update_cell_attribution nb c e et x xt now l" l])

lemma evict_notebook_simps [simp]:
  "max_completed (evict_notebook nb l) = max_completed l"
  "ids_of (evict_notebook nb l) nb' = (if nb' = nb then [] else ids_of l nb')"
  "dict_get (jobs_by_id (evict_notebook nb l)) i =
     (if i \<in> set (ids_of l nb) then None else dict_get (jobs_by_id l) i)"
  by (simp_all add: evict_notebook_def ids_of_def)

lemma evict_notebook_ok:
  assumes "ledger_ok l"
  shows "ledger_ok (evict_notebook nb l)"
proof -
  have ok: "index_ok l" using assms by (simp add: ledger_ok_def)
  have "index_ok (evict_notebook nb l)"
    using ok by (auto simp: index_ok_def) (auto simp: evict_notebook_def)
  moreover have "completed_ids (evict_notebook nb l) nb' = (if nb' = nb then [] else completed_ids l nb')" for nb'
    using index_okD(4) [OF ok] by (auto simp: completed_ids_def intro!: filter_cong)
  then have "history_bounded (evict_notebook nb l)"
    using assms by (auto simp: ledger_ok_def history_bounded_def)
  moreover have "attrs_ok (evict_notebook nb l)"
    using assms by (auto simp: ledger_ok_def attrs_ok_def evict_notebook_def)
  ultimately show ?thesis by (simp add: ledger_ok_def)
qed

lemma new_ledger_ok [simp]: "ledger_ok (new_ledger mx)"
  by (simp add: ledger_ok_def index_ok_def attrs_ok_def history_bounded_def completed_ids_def
      ids_of_def new_ledger_def)

lemma close_ledger_ok [simp]: "ledger_ok (close_ledger l)"
  by (simp add: ledger_ok_def index_ok_def attrs_ok_def history_bounded_def completed_ids_def
      ids_of_def close_ledger_def)

section \<open>The ledger's events and its runs\<close>

datatype ledger_event =
    CreateJob pystr time pystr pystr actor_type job_action "pystr option" "pystr option"
  | UpdateJobStatus pystr job_status "pystr option" time
  | AppendRequestUid pystr pystr
  | UpdateCellAttribution pystr pystr "pystr option" "actor_type option" "pystr option"
      "actor_type option" time
  | EvictNotebook pystr
  | CloseLedger

fun ledger_step :: "ledger_event \<Rightarrow> ledger \<Rightarrow> ledger" where
  "ledger_step (CreateJob i now nb a t act tg r) l = snd (create_job i now nb a t act tg r l)"
| "ledger_step (UpdateJobStatus i st r now) l = update_job_status i st r now l"
| "ledger_step (AppendRequestUid i uid) l = snd (append_request_uid i uid l)"
| "ledger_step (UpdateCellAttribution nb c e et x xt now) l =
     update_cell_attribution nb c e et x xt now l"
| "ledger_step (EvictNotebook nb) l = evict_notebook nb l"
| "ledger_step CloseLedger l = close_ledger l"

text \<open>The only admissibility condition: a created job's identifier is not in use.\<close>

fun ledger_event_ok :: "ledger_event \<Rightarrow> ledger \<Rightarrow> bool" where
  "ledger_event_ok (CreateJob i now nb a t act tg r) l = (dict_get (jobs_by_id l) i = None)"
| "ledger_event_ok _ l = True"

interpretation ledger_ops: invariant_ops ledger_event_ok ledger_step ledger_ok
proof
  fix l e
  assume "ledger_ok l" and "ledger_event_ok e l"
  then show "ledger_ok (ledger_step e l)"
    by (cases e)
      (simp_all add: create_job_ok update_job_status_ok append_request_uid_ok
        update_cell_attribution_ok evict_notebook_ok)
qed

section \<open>The ledger as its clients see it\<close>

text \<open>
  The \<open>Ledger\<close> protocol: what the execution orchestrator relies on.  A job is found under
  its identifier after its creation, a status update is visible, and a job that is still active is
  not lost by operations on other jobs.
\<close>

locale job_ledger =
  fixes ok :: "'l \<Rightarrow> bool"
    and lookup :: "pystr \<Rightarrow> 'l \<Rightarrow> job option"
    and create :: "pystr \<Rightarrow> time \<Rightarrow> pystr \<Rightarrow> pystr \<Rightarrow> actor_type \<Rightarrow> job_action \<Rightarrow> pystr option
      \<Rightarrow> pystr option \<Rightarrow> 'l \<Rightarrow> job \<times> 'l"
    and set_status :: "pystr \<Rightarrow> job_status \<Rightarrow> pystr option \<Rightarrow> time \<Rightarrow> 'l \<Rightarrow> 'l"
    and add_uid :: "pystr \<Rightarrow> pystr \<Rightarrow> 'l \<Rightarrow> (unit, 'l) outcome"
  assumes create_ok: "ok l \<Longrightarrow> lookup i l = None \<Longrightarrow> ok (snd (create i now nb a t act tg r l))"
    and create_result: "fst (create i now nb a t act tg r l) = new_job i now nb a t act tg r"
    and create_lookup: "ok l \<Longrightarrow> lookup i l = None \<Longrightarrow>
      lookup i (snd (create i now nb a t act tg r l)) = Some (new_job i now nb a t act tg r)"
    and create_other: "ok l \<Longrightarrow> lookup i l = None \<Longrightarrow> lookup i' l = Some j \<Longrightarrow>
      active_status (job_status j) \<Longrightarrow> lookup i' (snd (create i now nb a t act tg r l)) = Some j"
    and status_ok: "ok l \<Longrightarrow> ok (set_status i st r now l)"
    and status_missing: "lookup i l = None \<Longrightarrow> set_status i st r now l = l"
    and status_lookup: "ok l \<Longrightarrow> lookup i l = Some j \<Longrightarrow> active_status st \<Longrightarrow>
      lookup i (set_status i st r now l) = Some (with_status st r now j)"
    and status_kept: "ok l \<Longrightarrow> lookup i (set_status i st r now l) = Some j' \<Longrightarrow>
      \<exists>j. lookup i l = Some j \<and> j' = with_status st r now j"
    and status_other: "ok l \<Longrightarrow> i' \<noteq> i \<Longrightarrow> lookup i' l = Some j \<Longrightarrow>
      active_status (job_status j) \<Longrightarrow> lookup i' (set_status i st r now l) = Some j"
    and create_shrinks: "i' \<noteq> i \<Longrightarrow> lookup i' (snd (create i now nb a t act tg r l)) = Some j \<Longrightarrow>
      lookup i' l = Some j"
    and status_shrinks: "i' \<noteq> i \<Longrightarrow> lookup i' (set_status i st r now l) = Some j \<Longrightarrow> lookup i' l = Some j"
    and uid_ok: "ok l \<Longrightarrow> ok (snd (add_uid i u l))"
    and uid_lookup: "lookup i' (snd (add_uid i u l)) =
      (if i' = i then map_option (\<lambda>j. j\<lparr>job_request_uids := job_request_uids j @ [u]\<rparr>) (lookup i l)
       else lookup i' l)"
begin

lemma completed_after_status:
  "ok l \<Longrightarrow> lookup i l = Some j \<Longrightarrow> completed_status st \<Longrightarrow>
   lookup i (set_status i st r now l) \<in> {None, Some (with_status st r now j)}"
  by (cases "lookup i (set_status i st r now l)") (auto dest: status_kept)

lemma status_after_status:
  "ok l \<Longrightarrow> lookup i (set_status i st r now l) = Some j \<Longrightarrow> job_status j = st"
  by (auto dest: status_kept)

lemma uid_keeps_status:
  "map_option job_status (lookup i' (snd (add_uid i u l))) = map_option job_status (lookup i' l)"
  by (cases "lookup i l") (auto simp: uid_lookup)

end

lemma prune_active:
  assumes "dict_get (jobs_by_id l) i = Some j" and "active_status (job_status j)"
  shows "dict_get (jobs_by_id (prune_completed_jobs nb l)) i = Some j"
  using assms stale_completed [of i nb l] by (auto simp: prune_get active_completed)

lemma get_job_simp: "get_job i l = dict_get (jobs_by_id l) i"
  by (cases "dict_get (jobs_by_id l) i") (simp_all add: get_job_def)

lemma update_job_status_other:
  assumes "i' \<noteq> i" and "dict_get (jobs_by_id l) i' = Some j" and "active_status (job_status j)"
  shows "dict_get (jobs_by_id (update_job_status i st r now l)) i' = Some j"
  using assms by (auto simp: update_job_status_def intro: prune_active split: option.split)

lemma create_job_other:
  assumes "dict_get (jobs_by_id l) i = None" and "dict_get (jobs_by_id l) i' = Some j"
    and "active_status (job_status j)"
  shows "dict_get (jobs_by_id (snd (create_job i now nb a t act tg r l))) i' = Some j"
proof -
  have "i' \<noteq> i" using assms by auto
  with assms show ?thesis by (simp add: create_job_register Let_def prune_active)
qed

lemma create_job_get:
  "dict_get (jobs_by_id (snd (create_job i now nb a t act tg r l))) i = Some (new_job i now nb a t act tg r)"
  by (simp add: create_job_register Let_def prune_active active_status_def)

lemma update_job_status_get:
  "dict_get (jobs_by_id l) i = Some j \<Longrightarrow>
   dict_get (jobs_by_id (update_job_status i st r now l)) i \<in> {None, Some (with_status st r now j)}"
  by (auto simp: update_job_status_def prune_get)

lemma update_job_status_active:
  "dict_get (jobs_by_id l) i = Some j \<Longrightarrow> active_status st \<Longrightarrow>
   dict_get (jobs_by_id (update_job_status i st r now l)) i = Some (with_status st r now j)"
  by (simp add: update_job_status_def prune_active)

lemma update_job_status_missing:
  "dict_get (jobs_by_id l) i = None \<Longrightarrow> update_job_status i st r now l = l"
  by (simp add: update_job_status_def)

lemma append_request_uid_get:
  "dict_get (jobs_by_id (snd (append_request_uid i u l))) i' =
     (if i' = i
      then map_option (\<lambda>j. j\<lparr>job_request_uids := job_request_uids j @ [u]\<rparr>) (dict_get (jobs_by_id l) i)
      else dict_get (jobs_by_id l) i')"
  by (auto simp: append_request_uid_def split: option.split)

lemma create_job_shrinks:
  "i' \<noteq> i \<Longrightarrow> dict_get (jobs_by_id (snd (create_job i now nb a t act tg r l))) i' = Some j \<Longrightarrow>
   dict_get (jobs_by_id l) i' = Some j"
  by (simp add: create_job_register Let_def prune_get split: if_splits)

text \<open>Creating a job prunes nothing: the history was within the bound and the new job is queued.\<close>

lemma create_job_keeps:
  assumes "ledger_ok l" and "dict_get (jobs_by_id l) i = None" and "i' \<noteq> i"
  shows "dict_get (jobs_by_id (snd (create_job i now nb a t act tg r l))) i' = dict_get (jobs_by_id l) i'"
proof -
  let ?j = "new_job i now nb a t act tg r"
  have "completed_ids (register_job i nb ?j l) nb = completed_ids l nb"
    using assms by (intro register_job_completed) (simp_all add: ledger_ok_def completed_status_def)
  then have "stale_ids nb (register_job i nb ?j l) = []"
    using assms(1) by (auto simp: stale_ids_def ledger_ok_def history_bounded_def)
  then show ?thesis using assms(3) by (simp add: create_job_register Let_def prune_get)
qed

lemma update_job_status_shrinks:
  "i' \<noteq> i \<Longrightarrow> dict_get (jobs_by_id (update_job_status i st r now l)) i' = Some j \<Longrightarrow>
   dict_get (jobs_by_id l) i' = Some j"
  by (simp add: update_job_status_def prune_get split: if_splits option.splits)

interpretation memory_ledger: job_ledger ledger_ok get_job create_job update_job_status append_request_uid
proof (unfold_locales, goal_cases)
  case (2 i now nb a t act tg r l)
  show ?case by (simp add: create_job_register Let_def)
next
  case (8 l i st r now j')
  then show ?case
    using update_job_status_get [of l i _ st r now]
    by (cases "dict_get (jobs_by_id l) i") (auto simp: get_job_simp update_job_status_missing)
next
  case (10 i' i now nb a t act tg r l j)
  then show ?case unfolding get_job_simp by (rule create_job_shrinks)
next
  case (11 i' i st r now l j)
  then show ?case unfolding get_job_simp by (rule update_job_status_shrinks)
qed (simp_all add: get_job_simp create_job_ok update_job_status_ok append_request_uid_ok
    create_job_get create_job_other update_job_status_missing update_job_status_active
    update_job_status_other append_request_uid_get)

section \<open>Refinement: the ledger as a bounded history per notebook\<close>

text \<open>
  The abstract ledger gives each notebook the list of its jobs, oldest first.  Creating a job
  appends it, a status update rewrites it in place, eviction empties the list, and after a
  creation or an update the oldest completed jobs beyond the bound are dropped; jobs that are
  still active are never dropped and keep their order.
\<close>

definition keep_recent :: "int \<Rightarrow> job list \<Rightarrow> job list" where
  "keep_recent mx js =
     (if mx < 0 then js
      else drop_first (\<lambda>j. completed_status (job_status j))
             (nat (int (length (filter (\<lambda>j. completed_status (job_status j)) js)) - mx)) js)"

definition history :: "ledger \<Rightarrow> pystr \<Rightarrow> job list" where
  "history l nb = List.map_filter (dict_get (jobs_by_id l)) (ids_of l nb)"

lemma history_map:
  "index_ok l \<Longrightarrow> history l nb = map (\<lambda>i. the (dict_get (jobs_by_id l) i)) (ids_of l nb)"
  by (auto simp: history_def index_okD(4) intro!: map_filter_all)

lemma history_cong:
  assumes "ids_of l nb = ids_of l' nb"
    and "\<And>i. i \<in> set (ids_of l' nb) \<Longrightarrow> dict_get (jobs_by_id l) i = dict_get (jobs_by_id l') i"
  shows "history l nb = history l' nb"
  using assms by (simp add: history_def List.map_filter_def cong: filter_cong map_cong)

lemma completed_ids_history:
  assumes "index_ok l"
  shows "length (completed_ids l nb) = length (filter (\<lambda>j. completed_status (job_status j)) (history l nb))"
proof -
  have "completed_ids l nb
      = filter (\<lambda>i. completed_status (job_status (the (dict_get (jobs_by_id l) i)))) (ids_of l nb)"
    using index_okD(4) [OF assms] by (auto simp: completed_ids_def intro!: filter_cong)
  then show ?thesis by (simp add: history_map [OF assms] filter_map o_def)
qed

lemma prune_history:
  assumes "index_ok l"
  shows "history (prune_completed_jobs nb l) nb' =
    (if nb' = nb then keep_recent (max_completed l) (history l nb) else history l nb')"
proof (cases "nb' = nb")
  case False
  have "i \<notin> set (stale_ids nb l)" if "i \<in> set (ids_of l nb')" for i
    using that False stale_notebook [OF assms] by (auto simp: index_okD(4) [OF assms])
  with False show ?thesis by (auto simp: prune_ids prune_get intro!: history_cong)
next
  case True
  have eq: "history (prune_completed_jobs nb l) nb
      = map (\<lambda>i. the (dict_get (jobs_by_id l) i)) (ids_of (prune_completed_jobs nb l) nb)"
    by (auto simp: history_map [OF prune_index_ok [OF assms]] prune_ids prune_get)
  show ?thesis
  proof (cases "max_completed l < 0")
    case neg: True
    then show ?thesis using True
      by (simp add: keep_recent_def prune_completed_jobs_def)
  next
    case False
    have "i \<in> set (completed_ids l nb) \<longleftrightarrow> completed_status (job_status (the (dict_get (jobs_by_id l) i)))"
      if "i \<in> set (ids_of l nb)" for i
      using that by (auto simp: completed_ids_def index_okD(4) [OF assms])
    then have "ids_of (prune_completed_jobs nb l) nb
      = drop_first (\<lambda>i. completed_status (job_status (the (dict_get (jobs_by_id l) i))))
          (nat (int (length (completed_ids l nb)) - max_completed l)) (ids_of l nb)"
      using False prune_ids_drop_first [OF assms]
      by (auto cong: drop_first_cong)
    with True False show ?thesis
      by (simp add: eq keep_recent_def completed_ids_history [OF assms] history_map [OF assms]
          map_drop_first [where P = "\<lambda>j. completed_status (job_status j)"])
  qed
qed

definition rewrite_job :: "pystr \<Rightarrow> (job \<Rightarrow> job) \<Rightarrow> job list \<Rightarrow> job list" where
  "rewrite_job i f js = map (\<lambda>j. if job_id j = i then f j else j) js"

fun spec_step :: "int \<Rightarrow> ledger_event \<Rightarrow> (pystr \<Rightarrow> job list) \<Rightarrow> pystr \<Rightarrow> job list" where
  "spec_step mx (CreateJob i now nb a t act tg r) h =
     h(nb := keep_recent mx (h nb @ [new_job i now nb a t act tg r]))"
| "spec_step mx (UpdateJobStatus i st r now) h =
     (\<lambda>nb. if i \<in> job_id ` set (h nb)
           then keep_recent mx (rewrite_job i (with_status st r now) (h nb)) else h nb)"
| "spec_step mx (AppendRequestUid i uid) h =
     (\<lambda>nb. rewrite_job i (\<lambda>j. j\<lparr>job_request_uids := job_request_uids j @ [uid]\<rparr>) (h nb))"
| "spec_step mx (UpdateCellAttribution nb c e et x xt now) h = h"
| "spec_step mx (EvictNotebook nb) h = h(nb := [])"
| "spec_step mx CloseLedger h = (\<lambda>_. [])"

lemma history_ids: "index_ok l \<Longrightarrow> map job_id (history l nb) = ids_of l nb"
  by (auto simp: history_map index_okD(3,4) intro!: map_idI)

lemma history_set_job:
  assumes "index_ok l" and "dict_get (jobs_by_id l) i = Some j"
  shows "history (l\<lparr>jobs_by_id := dict_set i j' (jobs_by_id l)\<rparr>) nb = rewrite_job i (\<lambda>_. j') (history l nb)"
proof -
  have "history (l\<lparr>jobs_by_id := dict_set i j' (jobs_by_id l)\<rparr>) nb
      = map (\<lambda>k. the (dict_get (dict_set i j' (jobs_by_id l)) k)) (ids_of l nb)"
    by (auto simp: history_def index_okD(4) [OF assms(1)] intro!: map_filter_all)
  also have "\<dots> = rewrite_job i (\<lambda>_. j') (history l nb)"
    by (auto simp: rewrite_job_def history_map [OF assms(1)] index_okD(3,4) [OF assms(1)])
  finally show ?thesis .
qed

lemma rewrite_job_cong:
  "(\<And>j. j \<in> set js \<Longrightarrow> job_id j = i \<Longrightarrow> f j = g j) \<Longrightarrow> rewrite_job i f js = rewrite_job i g js"
  by (simp add: rewrite_job_def)

lemma rewrite_job_absent: "i \<notin> job_id ` set js \<Longrightarrow> rewrite_job i f js = js"
  by (auto simp: rewrite_job_def intro!: map_idI)

lemma history_member:
  assumes "index_ok l"
  shows "j \<in> set (history l nb) \<longleftrightarrow>
     dict_get (jobs_by_id l) (job_id j) = Some j \<and> job_notebook_id j = nb"
proof
  assume "j \<in> set (history l nb)"
  then obtain i where "i \<in> set (ids_of l nb)" and "j = the (dict_get (jobs_by_id l) i)"
    by (auto simp: history_map [OF assms])
  then show "dict_get (jobs_by_id l) (job_id j) = Some j \<and> job_notebook_id j = nb"
    using index_okD(3) [OF assms, of i j] by (auto simp: index_okD(4) [OF assms])
next
  assume j: "dict_get (jobs_by_id l) (job_id j) = Some j \<and> job_notebook_id j = nb"
  then have "job_id j \<in> set (ids_of l nb)"
    by (auto simp: index_okD(4) [OF assms])
  then have "the (dict_get (jobs_by_id l) (job_id j)) \<in> set (history l nb)"
    unfolding history_map [OF assms] by simp
  with j show "j \<in> set (history l nb)" by simp
qed

lemma history_register:
  assumes "index_ok l" and "dict_get (jobs_by_id l) i = None" and "job_id j = i" and "job_notebook_id j = nb"
  shows "history (register_job i nb j l) = (history l)(nb := history l nb @ [j])"
proof
  fix nb'
  have "i \<notin> set (ids_of l nb')"
    using assms(2) by (simp add: index_okD(4) [OF assms(1)])
  then show "history (register_job i nb j l) nb' = ((history l)(nb := history l nb @ [j])) nb'"
    using register_job_index_ok [OF assms]
    by (auto simp: history_map assms(1))
qed

lemma history_update_job_status:
  assumes "index_ok l"
  shows "history (update_job_status i st r now l) nb =
    (if i \<in> job_id ` set (history l nb)
     then keep_recent (max_completed l) (rewrite_job i (with_status st r now) (history l nb))
     else history l nb)"
proof (cases "dict_get (jobs_by_id l) i")
  case None
  then have "i \<notin> job_id ` set (history l nb)"
    by (auto simp: history_member [OF assms])
  with None show ?thesis by (simp add: update_job_status_def)
next
  case (Some j)
  let ?l = "l\<lparr>jobs_by_id := dict_set i (with_status st r now j) (jobs_by_id l)\<rparr>"
  have id: "job_id j = i" using index_okD(3) [OF assms Some] .
  have "index_ok ?l" using set_job_index_ok [OF assms Some] id by simp
  moreover have "i \<in> job_id ` set (history l nb) \<longleftrightarrow> nb = job_notebook_id j"
    using Some id by (auto simp: history_member [OF assms] image_iff)
  moreover have "rewrite_job i (\<lambda>_. with_status st r now j) (history l nb)
      = rewrite_job i (with_status st r now) (history l nb)"
    using Some by (auto simp: history_member [OF assms] intro!: rewrite_job_cong)
  ultimately show ?thesis
    using Some history_set_job [OF assms Some]
    by (auto simp: update_job_status_def prune_history rewrite_job_absent)
qed

lemma history_append_request_uid:
  assumes "index_ok l"
  shows "history (snd (append_request_uid i u l)) nb =
    rewrite_job i (\<lambda>j. j\<lparr>job_request_uids := job_request_uids j @ [u]\<rparr>) (history l nb)"
proof (cases "dict_get (jobs_by_id l) i")
  case None
  then have "i \<notin> job_id ` set (history l nb)"
    by (auto simp: history_member [OF assms])
  with None show ?thesis by (simp add: append_request_uid_def rewrite_job_absent)
next
  case (Some j)
  then show ?thesis
    using history_set_job [OF assms Some]
    by (auto simp: append_request_uid_def history_member [OF assms] intro!: rewrite_job_cong)
qed

lemma history_empty_ids: "ids_of l nb = [] \<Longrightarrow> history l nb = []"
  by (simp add: history_def List.map_filter_simps)

lemma history_evict: "index_ok l \<Longrightarrow> history (evict_notebook nb l) = (history l)(nb := [])"
proof (rule ext, goal_cases)
  case (1 nb')
  then show ?case
    by (cases "nb' = nb") (auto simp: history_empty_ids index_okD(4) intro!: history_cong)
qed

section \<open>Properties\<close>

text \<open>
  C2: refinement.  Every ledger operation acts on the per-notebook histories as the abstract
  bounded history does: creation appends, a status update rewrites the job in place, both then
  drop exactly the oldest completed jobs beyond the bound, eviction empties one notebook.
\<close>

theorem ledger_refines_history:
  assumes "ledger_ok l" and "ledger_event_ok e l"
  shows "history (ledger_step e l) = spec_step (max_completed l) e (history l)"
proof -
  have ok: "index_ok l" using assms by (simp add: ledger_ok_def)
  show ?thesis
  proof (cases e)
    case (CreateJob i now nb a t act tg r)
    with assms(2) ok have "history (register_job i nb (new_job i now nb a t act tg r) l)
        = (history l)(nb := history l nb @ [new_job i now nb a t act tg r])"
      by (intro history_register) simp_all
    moreover have "index_ok (register_job i nb (new_job i now nb a t act tg r) l)"
      using assms(2) ok CreateJob by (intro register_job_index_ok) simp_all
    ultimately show ?thesis
      using CreateJob by (auto simp: create_job_register Let_def prune_history)
  next
    case (UpdateCellAttribution nb c e et x xt now)
    then show ?thesis
      by (simp add: fun_eq_iff history_def ids_of_cong [of "update_cell_attribution nb c e et x xt now l" l])
  next
    case CloseLedger
    then show ?thesis
      by (simp add: fun_eq_iff close_ledger_def history_def ids_of_def List.map_filter_simps)
  qed (simp_all add: fun_eq_iff history_update_job_status history_append_request_uid history_evict ok)
qed

lemma ledger_refines_history_witness:
  "history (ledger_step (UpdateJobStatus (lit ''j1'') FAILED None 7)
       (snd (create_job (lit ''j1'') 5 (lit ''nb'') (lit ''a'') AGENT EXECUTE None None (new_ledger 0))))
     (lit ''nb'') = []"
proof -
  let ?l = "snd (create_job (lit ''j1'') 5 (lit ''nb'') (lit ''a'') AGENT EXECUTE None None (new_ledger 0))"
  have ok: "ledger_ok ?l"
    by (rule create_job_ok) (simp_all add: new_ledger_def ledger_ok_def index_ok_def attrs_ok_def
        history_bounded_def completed_ids_def ids_of_def)
  have "history ?l (lit ''nb'')
      = [new_job (lit ''j1'') 5 (lit ''nb'') (lit ''a'') AGENT EXECUTE None None]"
    by (simp add: create_job_def prune_completed_jobs_def new_ledger_def completed_ids_def ids_of_def
        history_def new_job_def completed_status_def List.map_filter_simps Let_def)
  moreover have "max_completed ?l = 0"
    by (simp add: create_job_register Let_def new_ledger_def)
  ultimately show ?thesis
    using ledger_refines_history [OF ok, of "UpdateJobStatus (lit ''j1'') FAILED None 7"]
    by (simp add: rewrite_job_def keep_recent_def completed_status_def)
qed

lemma ledger_step_max_completed [simp]: "max_completed (ledger_step e l) = max_completed l"
  by (cases e)
    (simp_all add: create_job_register Let_def update_job_status_def append_request_uid_def
      close_ledger_def split: option.split)

lemma ledger_run_max_completed [simp]: "max_completed (fold ledger_step es l) = max_completed l"
  by (induction es arbitrary: l) simp_all

lemma ledger_ok_history:
  assumes "ledger_ok l" and "0 \<le> max_completed l"
  shows "int (length (filter (\<lambda>j. completed_status (job_status j)) (history l nb))) \<le> max_completed l"
proof -
  have "index_ok l" using assms(1) by (simp add: ledger_ok_def)
  then have "length (filter (\<lambda>j. completed_status (job_status j)) (history l nb))
      = length (completed_ids l nb)"
    by (rule completed_ids_history [symmetric])
  with assms show ?thesis by (simp add: ledger_ok_def history_bounded_def)
qed

lemma ledger_ok_history_lookup:
  "ledger_ok l \<Longrightarrow>
   list_all (\<lambda>j. get_job (job_id j) l = Some j \<and> job_notebook_id j = nb) (history l nb)"
  by (simp add: ledger_ok_def list_all_iff history_member get_job_simp)

text \<open>
  After any run of ledger operations on a fresh ledger, every notebook retains at most the
  policy's number of completed jobs, and every retained job is found under its identifier.
\<close>

theorem ledger_history_bounded:
  assumes "admissible ledger_event_ok ledger_step es (new_ledger mx)" and "0 \<le> mx"
  shows "int (length (filter (\<lambda>j. completed_status (job_status j))
             (history (fold ledger_step es (new_ledger mx)) nb))) \<le> mx
    \<and> list_all (\<lambda>j. get_job (job_id j) (fold ledger_step es (new_ledger mx)) = Some j
                    \<and> job_notebook_id j = nb)
        (history (fold ledger_step es (new_ledger mx)) nb)"
proof -
  let ?l = "fold ledger_step es (new_ledger mx)"
  have ok: "ledger_ok ?l"
    using ledger_ops.run_inv [OF new_ledger_ok assms(1)] .
  have mx: "max_completed ?l = mx" by (simp add: new_ledger_def)
  show ?thesis
    using ledger_ok_history [OF ok, of nb] ledger_ok_history_lookup [OF ok, of nb] assms(2)
    unfolding mx by blast
qed

lemma ledger_history_bounded_witness:
  "int (length (filter (\<lambda>j. completed_status (job_status j))
     (history (fold ledger_step
        [CreateJob (lit ''a'') 1 (lit ''nb'') (lit ''x'') HUMAN EXECUTE None None,
         CreateJob (lit ''b'') 2 (lit ''nb'') (lit ''x'') HUMAN EXECUTE None None,
         UpdateJobStatus (lit ''b'') SUCCEEDED None 3,
         UpdateJobStatus (lit ''a'') FAILED None 4] (new_ledger 1)) (lit ''nb'')))) \<le> 1"
proof -
  let ?es = "[CreateJob (lit ''a'') 1 (lit ''nb'') (lit ''x'') HUMAN EXECUTE None None,
         CreateJob (lit ''b'') 2 (lit ''nb'') (lit ''x'') HUMAN EXECUTE None None,
         UpdateJobStatus (lit ''b'') SUCCEEDED None 3,
         UpdateJobStatus (lit ''a'') FAILED None 4]"
  have "admissible ledger_event_ok ledger_step ?es (new_ledger 1)"
    by (simp add: create_job_register Let_def prune_get stale_ids_def completed_ids_def
        new_ledger_def ids_of_def register_job_def completed_status_def)
  from ledger_history_bounded [OF this, of "lit ''nb''"] show ?thesis by simp
qed

text \<open>Which events may change or drop job \<open>i\<close> of notebook \<open>nb\<close>.\<close>

fun concerns_job :: "pystr \<Rightarrow> pystr \<Rightarrow> ledger_event \<Rightarrow> bool" where
  "concerns_job i nb (UpdateJobStatus i' st r now) \<longleftrightarrow> i' = i"
| "concerns_job i nb (AppendRequestUid i' u) \<longleftrightarrow> i' = i"
| "concerns_job i nb (EvictNotebook nb') \<longleftrightarrow> nb' = nb"
| "concerns_job i nb CloseLedger \<longleftrightarrow> True"
| "concerns_job i nb e \<longleftrightarrow> False"

text \<open>
  C13: a job that is queued, running or awaiting input is never dropped or altered by operations
  on other jobs, whatever history pruning they cause, until its notebook is evicted.
\<close>

theorem active_job_survives:
  assumes "ledger_ok l" and "admissible ledger_event_ok ledger_step es l"
    and "get_job i l = Some j" and "active_status (job_status j)"
    and "list_all (\<lambda>e. \<not> concerns_job i (job_notebook_id j) e) es"
  shows "get_job i (fold ledger_step es l) = Some j"
proof (rule ledger_ops.run_stable [OF _ assms(1,2,5), where P = "\<lambda>l. get_job i l = Some j", OF _ assms(3)])
  fix s e
  assume "ledger_ok s" and ok: "ledger_event_ok e s"
    and foreign: "\<not> concerns_job i (job_notebook_id j) e" and got: "get_job i s = Some j"
  then have idx: "index_ok s" by (simp add: ledger_ok_def)
  show "get_job i (ledger_step e s) = Some j"
    using ok foreign got assms(4) index_okD(4) [OF idx]
    by (cases e)
      (auto simp: get_job_simp append_request_uid_get
        intro: create_job_other update_job_status_other)
qed

lemma active_job_survives_witness:
  "get_job (lit ''a'') (fold ledger_step
     [CreateJob (lit ''b'') 2 (lit ''nb'') (lit ''x'') HUMAN EXECUTE None None,
      UpdateJobStatus (lit ''b'') SUCCEEDED None 3]
     (snd (create_job (lit ''a'') 1 (lit ''nb'') (lit ''x'') HUMAN EXECUTE None None (new_ledger 0))))
   = Some (new_job (lit ''a'') 1 (lit ''nb'') (lit ''x'') HUMAN EXECUTE None None)"
proof (rule active_job_survives)
  show "ledger_ok (snd (create_job (lit ''a'') 1 (lit ''nb'') (lit ''x'') HUMAN EXECUTE None None (new_ledger 0)))"
    by (rule create_job_ok) (simp_all, simp add: new_ledger_def)
qed (simp_all add: get_job_simp create_job_get active_status_def new_ledger_def create_job_register
    Let_def prune_get stale_ids_def completed_ids_def ids_of_def register_job_def completed_status_def)

lemma iter_jobs_history:
  "iter_jobs (Some nb) st l =
     sort_key (\<lambda>j. - job_created_at j)
       (case st of None \<Rightarrow> history l nb | Some s \<Rightarrow> filter (\<lambda>j. job_status j = s) (history l nb))"
  by (simp add: iter_jobs_def history_def split: option.split)

text \<open>
  Listing a notebook's jobs gives its history, newest first (ties in creation order), with
  nothing lost or repeated when the limit is not reached; the active listing is exactly the jobs
  that are queued, running or awaiting input.
\<close>

theorem list_jobs_newest_first:
  shows "sorted (map (\<lambda>j. - job_created_at j) (list_jobs (Some nb) st n l))
    \<and> (length (history l nb) \<le> n \<longrightarrow> mset (list_jobs (Some nb) None n l) = mset (history l nb))
    \<and> mset (list_active_jobs nb l) = filter_mset (\<lambda>j. active_status (job_status j)) (mset (history l nb))"
proof -
  let ?k = "\<lambda>j. - job_created_at j"
  have "sorted (map ?k (iter_jobs (Some nb) st l))" by (simp add: iter_jobs_history)
  then have "sorted (take n (map ?k (iter_jobs (Some nb) st l)))" by (rule sorted_wrt_take)
  then have "sorted (map ?k (list_jobs (Some nb) st n l))"
    by (simp add: list_jobs_def take_map o_def)
  then show ?thesis
    by (simp add: list_jobs_def list_active_jobs_def iter_jobs_history o_def)
qed

lemma list_jobs_newest_first_witness:
  "mset (list_jobs (Some (lit ''nb'')) None 100 (new_ledger 20)) = {#}"
  using list_jobs_newest_first [of "lit ''nb''" None 100 "new_ledger 20"]
  by (simp add: history_def ids_of_def new_ledger_def List.map_filter_simps)

text \<open>
  Stopping a notebook's runtime evicts exactly that notebook: none of its jobs can be looked
  up or listed and none of its attributions remain, while every other notebook's history and
  attributions are as before.
\<close>

theorem evict_notebook_exact:
  assumes "ledger_ok l"
  shows "list_jobs (Some nb) st n (evict_notebook nb l) = []
    \<and> (get_job i (evict_notebook nb l) =
         (case get_job i l of Some j \<Rightarrow> if job_notebook_id j = nb then None else Some j | None \<Rightarrow> None))
    \<and> get_cell_attribution nb c (evict_notebook nb l) = None
    \<and> list_cell_attributions nb (evict_notebook nb l) = []
    \<and> (nb' \<noteq> nb \<longrightarrow> history (evict_notebook nb l) nb' = history l nb'
         \<and> get_cell_attribution nb' c (evict_notebook nb l) = get_cell_attribution nb' c l)"
proof -
  have idx: "index_ok l" and at: "attrs_ok l" using assms by (simp_all add: ledger_ok_def)
  have attr: "dict_get (cell_attrs (evict_notebook nb l)) k
      = (if fst k = nb then None else dict_get (cell_attrs l) k)" for k
    using dict_get_None_iff [of "cell_attrs l" k] by (auto simp: evict_notebook_def)
  have "dict_ok (cell_attrs (evict_notebook nb l))"
    using at by (simp add: attrs_ok_def evict_notebook_def)
  then have "attr_notebook_id a \<noteq> nb" if "a \<in> set (dict_values (cell_attrs (evict_notebook nb l)))" for a
    using dict_value_get [OF _ that] at by (auto simp: attr attrs_ok_def split: if_splits)
  then have "list_cell_attributions nb (evict_notebook nb l) = []"
    by (auto simp: list_cell_attributions_def filter_empty_conv)
  moreover have "list_jobs (Some nb) st n (evict_notebook nb l) = []"
    by (simp add: list_jobs_def iter_jobs_history history_evict [OF idx] split: option.split)
  moreover have "get_job i (evict_notebook nb l) =
      (case get_job i l of Some j \<Rightarrow> if job_notebook_id j = nb then None else Some j | None \<Rightarrow> None)"
    by (auto simp: get_job_simp index_okD(4) [OF idx] split: option.split)
  ultimately show ?thesis
    by (simp add: get_cell_attribution_def attr history_evict [OF idx])
qed

lemma evict_notebook_exact_witness:
  "get_job (lit ''a'') (evict_notebook (lit ''nb'')
     (snd (create_job (lit ''a'') 1 (lit ''nb'') (lit ''x'') HUMAN EXECUTE None None (new_ledger 20)))) = None"
proof -
  have "ledger_ok (snd (create_job (lit ''a'') 1 (lit ''nb'') (lit ''x'') HUMAN EXECUTE None None (new_ledger 20)))"
    by (rule create_job_ok) (simp_all, simp add: new_ledger_def)
  from evict_notebook_exact [OF this, of "lit ''nb''" None 1 "lit ''a''"] show ?thesis
    by (simp add: get_job_simp create_job_get)
qed

text \<open>
  Recording an editor replaces the cell's last editor and its type and leaves the last
  executor alone, recording an executor is symmetric, a first record has neither, and no other
  cell's attribution changes.
\<close>

theorem update_cell_attribution_exact:
  "get_cell_attribution nb' c' (update_cell_attribution nb c e et x xt now l) =
     (if (nb', c') = (nb, c)
      then
        let old = get_cell_attribution nb c l
        in Some \<lparr>attr_notebook_id = (case old of Some a \<Rightarrow> attr_notebook_id a | None \<Rightarrow> nb),
                 attr_cell_id = (case old of Some a \<Rightarrow> attr_cell_id a | None \<Rightarrow> c),
                 attr_updated_at = now,
                 last_editor_id = (if e = None then Option.bind old last_editor_id else e),
                 last_editor_type =
                   (if e = None then Option.bind old last_editor_type else map_option actor_type_value et),
                 last_executor_id = (if x = None then Option.bind old last_executor_id else x),
                 last_executor_type =
                   (if x = None then Option.bind old last_executor_type else map_option actor_type_value xt)\<rparr>
      else get_cell_attribution nb' c' l)"
  by (auto simp: update_cell_attribution_def get_cell_attribution_def Let_def split: option.split)

end
