(* ===== verification/Hn_Runtime.thy ===== *)
theory Hn_Runtime
  imports Hn_Prelude
begin

text \<open>
  The runtime manager of \<^verbatim>\<open>src/hypernote/runtime_manager.py\<close>: notebook rooms over Jupyter's
  sessions and kernels.  Rooms are shared mutable objects, so the state has a store of room
  objects by identifier (\<open>heap\<close>) beside the manager's two dictionaries: a task that holds a
  room after it was unregistered still sees its fields.  Jupyter's session and kernel managers,
  the clock and the identifier source are the record \<open>services\<close>, whose functions read and
  change an external world; the model fixes none of them.  Each operation that awaits is split at
  its awaits into phases and composed of them.
\<close>

section \<open>Data\<close>

datatype runtime_state =
    STARTING | LIVE_ATTACHED | LIVE_DETACHED | AWAITING_INPUT | STOPPING | STOPPED | FAILED

fun runtime_state_value :: "runtime_state \<Rightarrow> pystr" where
  "runtime_state_value STARTING = lit ''starting''"
| "runtime_state_value LIVE_ATTACHED = lit ''live-attached''"
| "runtime_state_value LIVE_DETACHED = lit ''live-detached''"
| "runtime_state_value AWAITING_INPUT = lit ''awaiting-input''"
| "runtime_state_value STOPPING = lit ''stopping''"
| "runtime_state_value STOPPED = lit ''stopped''"
| "runtime_state_value FAILED = lit ''failed''"

text \<open>The state in an f-string: since Python 3.11 a mixed-in enum formats as its member name.\<close>

fun runtime_state_format :: "runtime_state \<Rightarrow> pystr" where
  "runtime_state_format STARTING = lit ''RuntimeState.STARTING''"
| "runtime_state_format LIVE_ATTACHED = lit ''RuntimeState.LIVE_ATTACHED''"
| "runtime_state_format LIVE_DETACHED = lit ''RuntimeState.LIVE_DETACHED''"
| "runtime_state_format AWAITING_INPUT = lit ''RuntimeState.AWAITING_INPUT''"
| "runtime_state_format STOPPING = lit ''RuntimeState.STOPPING''"
| "runtime_state_format STOPPED = lit ''RuntimeState.STOPPED''"
| "runtime_state_format FAILED = lit ''RuntimeState.FAILED''"

record room =
  room_id :: pystr
  room_notebook_id :: pystr
  session_id :: "pystr option"
  kernel_id :: "pystr option"
  kernel_name :: "pystr option"
  room_state :: runtime_state
  room_created_at :: time
  last_activity :: time
  attached_clients :: "pystr set"
  active_jobs :: "pystr set"

definition is_live :: "room \<Rightarrow> bool" where
  "is_live r \<longleftrightarrow> room_state r \<in> {LIVE_ATTACHED, LIVE_DETACHED, AWAITING_INPUT}"

text \<open>What the code reads of a Jupyter session model.\<close>

record session =
  sess_id :: pystr
  sess_kernel_id :: pystr
  sess_kernel_name :: "pystr option"

record 'w services =
  create_session :: "pystr \<Rightarrow> pystr \<Rightarrow> pystr \<Rightarrow> 'w \<Rightarrow> (session, 'w) outcome"
  get_session :: "pystr \<Rightarrow> 'w \<Rightarrow> (session, 'w) outcome"
  delete_session :: "pystr \<Rightarrow> 'w \<Rightarrow> (unit, 'w) outcome"
  has_kernel :: "pystr \<Rightarrow> 'w \<Rightarrow> bool"
  shutdown_kernel :: "pystr \<Rightarrow> 'w \<Rightarrow> (unit, 'w) outcome"
  interrupt_kernel :: "pystr \<Rightarrow> 'w \<Rightarrow> (unit, 'w) outcome"
  on_notebook_stopped :: "(pystr \<Rightarrow> 'w \<Rightarrow> (unit, 'w) outcome) option"
  time_now :: "'w \<Rightarrow> time \<times> 'w"
  uuid_hex :: "'w \<Rightarrow> pystr \<times> 'w"

record 'w rtm =
  idle_ttl :: time
  heap :: "pystr \<Rightarrow> room"
  rooms :: "pystr list"
  notebook_to_room :: "pystr \<Rightarrow> pystr option"
  world :: 'w

definition new_room :: "pystr \<Rightarrow> pystr \<Rightarrow> time \<Rightarrow> time \<Rightarrow> room" where
  "new_room r nb created activity =
     \<lparr>room_id = r, room_notebook_id = nb, session_id = None, kernel_id = None, kernel_name = None,
      room_state = STARTING, room_created_at = created, last_activity = activity,
      attached_clients = {}, active_jobs = {}\<rparr>"

definition new_rtm :: "time \<Rightarrow> 'w \<Rightarrow> 'w rtm" where
  "new_rtm ttl w = \<lparr>idle_ttl = ttl, heap = (\<lambda>r. new_room r [] 0 0), rooms = [],
     notebook_to_room = (\<lambda>_. None), world = w\<rparr>"

section \<open>State access\<close>

definition read_clock :: "'w services \<Rightarrow> 'w rtm \<Rightarrow> time \<times> 'w rtm" where
  "read_clock env s = (case time_now env (world s) of (t, w) \<Rightarrow> (t, s\<lparr>world := w\<rparr>))"

definition read_uuid :: "'w services \<Rightarrow> 'w rtm \<Rightarrow> pystr \<times> 'w rtm" where
  "read_uuid env s = (case uuid_hex env (world s) of (u, w) \<Rightarrow> (u, s\<lparr>world := w\<rparr>))"

definition modify_room :: "pystr \<Rightarrow> (room \<Rightarrow> room) \<Rightarrow> 'w rtm \<Rightarrow> 'w rtm" where
  "modify_room r f s = s\<lparr>heap := (heap s)(r := f (heap s r))\<rparr>"

text \<open>\<open>room.last_activity = time.time()\<close>.\<close>

definition mark_activity :: "'w services \<Rightarrow> pystr \<Rightarrow> 'w rtm \<Rightarrow> 'w rtm" where
  "mark_activity env r s =
     (case read_clock env s of (t, s1) \<Rightarrow> modify_room r (\<lambda>m. m\<lparr>last_activity := t\<rparr>) s1)"

text \<open>A room object is made and entered in both dictionaries.\<close>

definition register_room :: "'w services \<Rightarrow> pystr \<Rightarrow> (room \<Rightarrow> room) \<Rightarrow> 'w rtm \<Rightarrow> pystr \<times> 'w rtm" where
  "register_room env nb f s =
     (case read_uuid env s of (r, s1) \<Rightarrow>
      case read_clock env s1 of (created, s2) \<Rightarrow>
      case read_clock env s2 of (activity, s3) \<Rightarrow>
        (r, s3\<lparr>heap := (heap s3)(r := f (new_room r nb created activity)),
               rooms := (if r \<in> set (rooms s3) then rooms s3 else rooms s3 @ [r]),
               notebook_to_room := (notebook_to_room s3)(nb := Some r)\<rparr>))"

definition room_not_found :: "pystr \<Rightarrow> pyexc" where
  "room_not_found r = ValueError (lit ''Room '' @ r @ lit '' not found'')"

section \<open>Operations\<close>

definition get_room_for_notebook :: "pystr \<Rightarrow> 'w rtm \<Rightarrow> pystr option" where
  "get_room_for_notebook nb s =
     (case notebook_to_room s nb of
        None \<Rightarrow> None
      | Some r \<Rightarrow> if r \<in> set (rooms s) then Some r else None)"

definition list_runtimes :: "pystr option \<Rightarrow> 'w rtm \<Rightarrow> pystr list" where
  "list_runtimes nb s =
     (case nb of
        None \<Rightarrow> rooms s
      | Some n \<Rightarrow> filter (\<lambda>r. room_notebook_id (heap s r) = n) (rooms s))"

definition touch_activity :: "'w services \<Rightarrow> pystr \<Rightarrow> 'w rtm \<Rightarrow> 'w rtm" where
  "touch_activity env r s = (if r \<in> set (rooms s) then mark_activity env r s else s)"

text \<open>The first phase of \<open>_load_or_refresh_room\<close>: a registered room is refreshed on the spot.\<close>

definition refresh_room :: "'w services \<Rightarrow> pystr \<Rightarrow> 'w rtm \<Rightarrow> 'w rtm" where
  "refresh_room env r s =
     (let alive = (case kernel_id (heap s r) of
                     None \<Rightarrow> False
                   | Some k \<Rightarrow> k \<noteq> [] \<and> has_kernel env k (world s))
      in if alive then s
         else if room_state (heap s r) \<notin> {STOPPED, FAILED}
         then modify_room r (\<lambda>m. m\<lparr>room_state := STOPPED\<rparr>) s
         else s)"

text \<open>The phase after \<open>get_session\<close> answered: an existing session is adopted.\<close>

definition adopt_session :: "'w services \<Rightarrow> pystr \<Rightarrow> session \<Rightarrow> 'w rtm \<Rightarrow> pystr \<times> 'w rtm" where
  "adopt_session env nb sess s =
     register_room env nb
       (\<lambda>m. m\<lparr>session_id := Some (sess_id sess), kernel_id := Some (sess_kernel_id sess),
              kernel_name := sess_kernel_name sess, room_state := LIVE_DETACHED\<rparr>) s"

definition load_or_refresh_room :: "'w services \<Rightarrow> pystr \<Rightarrow> 'w rtm \<Rightarrow> (pystr option, 'w rtm) outcome" where
  "load_or_refresh_room env nb s =
     (case get_room_for_notebook nb s of
        Some r \<Rightarrow> (Inr (Some r), refresh_room env r s)
      | None \<Rightarrow>
          (case get_session env nb (world s) of
             (Inl (HTTPError code reason), w) \<Rightarrow> (Inr None, s\<lparr>world := w\<rparr>)
           | (Inl e, w) \<Rightarrow> (Inl e, s\<lparr>world := w\<rparr>)
           | (Inr sess, w) \<Rightarrow>
               (case adopt_session env nb sess (s\<lparr>world := w\<rparr>) of (r, s1) \<Rightarrow> (Inr (Some r), s1))))"

text \<open>\<open>os.path.basename\<close>: what follows the last slash.\<close>

definition py_basename :: "pystr \<Rightarrow> pystr" where
  "py_basename p = rev (takeWhile (\<lambda>c. c \<noteq> 47) (rev p))"

text \<open>The two phases of opening a new room, before and after \<open>create_session\<close>.\<close>

definition open_begin :: "'w services \<Rightarrow> pystr \<Rightarrow> 'w rtm \<Rightarrow> pystr \<times> 'w rtm" where
  "open_begin env nb s = register_room env nb (\<lambda>m. m) s"

definition open_finish ::
  "'w services \<Rightarrow> pystr \<Rightarrow> pyexc + session \<Rightarrow> 'w rtm \<Rightarrow> (pystr, 'w rtm) outcome" where
  "open_finish env r answer s =
     (case answer of
        Inr sess \<Rightarrow>
          (Inr r, mark_activity env r
             (modify_room r
                (\<lambda>m. m\<lparr>session_id := Some (sess_id sess), kernel_id := Some (sess_kernel_id sess),
                       kernel_name := sess_kernel_name sess, room_state := LIVE_DETACHED\<rparr>) s))
      | Inl e \<Rightarrow> (Inl e, modify_room r (\<lambda>m. m\<lparr>room_state := FAILED\<rparr>) s))"

definition open_new_room :: "'w services \<Rightarrow> pystr \<Rightarrow> pystr \<Rightarrow> 'w rtm \<Rightarrow> (pystr, 'w rtm) outcome" where
  "open_new_room env nb desired s =
     (case open_begin env nb s of (r, s1) \<Rightarrow>
      case create_session env nb (py_basename nb) desired (world s1) of (answer, w) \<Rightarrow>
        open_finish env r answer (s1\<lparr>world := w\<rparr>))"

definition ensure_room :: "'w services \<Rightarrow> pystr \<Rightarrow> pystr option \<Rightarrow> 'w rtm \<Rightarrow> (pystr, 'w rtm) outcome" where
  "ensure_room env nb kname s =
     (let desired = (case kname of None \<Rightarrow> lit ''python3'' | Some k \<Rightarrow> if k = [] then lit ''python3'' else k)
      in case load_or_refresh_room env nb s of
           (Inl e, s1) \<Rightarrow> (Inl e, s1)
         | (Inr None, s1) \<Rightarrow> open_new_room env nb desired s1
         | (Inr (Some r), s1) \<Rightarrow>
             if is_live (heap s1 r)
             then (case (kname, kernel_name (heap s1 r)) of
                     (Some requested, Some active) \<Rightarrow>
                       if active \<noteq> requested
                       then (Inl (KernelMismatch nb (Some active) requested), s1)
                       else (Inr r, touch_activity env r s1)
                   | _ \<Rightarrow> (Inr r, touch_activity env r s1))
             else open_new_room env nb desired s1)"

text \<open>The common tail of \<open>open_runtime\<close> and \<open>attach_client\<close>.\<close>

definition attach :: "'w services \<Rightarrow> pystr \<Rightarrow> pystr \<Rightarrow> 'w rtm \<Rightarrow> 'w rtm" where
  "attach env r client s =
     mark_activity env r
       (modify_room r
          (\<lambda>m. m\<lparr>attached_clients := insert client (attached_clients m), room_state := LIVE_ATTACHED\<rparr>) s)"

definition open_runtime ::
  "'w services \<Rightarrow> pystr \<Rightarrow> pystr \<Rightarrow> pystr option \<Rightarrow> 'w rtm \<Rightarrow> (pystr, 'w rtm) outcome" where
  "open_runtime env nb client kname s =
     (case ensure_room env nb kname s of
        (Inl e, s1) \<Rightarrow> (Inl e, s1)
      | (Inr r, s1) \<Rightarrow> (Inr r, attach env r client s1))"

definition attach_client :: "'w services \<Rightarrow> pystr \<Rightarrow> pystr \<Rightarrow> 'w rtm \<Rightarrow> (pystr, 'w rtm) outcome" where
  "attach_client env r client s =
     (if r \<notin> set (rooms s) then (Inl (room_not_found r), s)
      else if \<not> is_live (heap s r)
      then (Inl (ValueError (lit ''Room '' @ r @ lit '' is '' @
                   runtime_state_format (room_state (heap s r)) @ lit '', cannot attach'')), s)
      else (Inr r, attach env r client s))"

definition detach_client :: "'w services \<Rightarrow> pystr \<Rightarrow> pystr \<Rightarrow> 'w rtm \<Rightarrow> (pystr, 'w rtm) outcome" where
  "detach_client env r client s =
     (if r \<notin> set (rooms s) then (Inl (room_not_found r), s)
      else
        let s1 = modify_room r (\<lambda>m. m\<lparr>attached_clients := attached_clients m - {client}\<rparr>) s;
            s2 = (if attached_clients (heap s1 r) = {} \<and> room_state (heap s1 r) = LIVE_ATTACHED
                  then modify_room r (\<lambda>m. m\<lparr>room_state := LIVE_DETACHED\<rparr>) s1
                  else s1)
        in (Inr r, mark_activity env r s2))"

text \<open>
  Stopping: the phase before the await marks the room, the awaited release swallows every
  exception, the \<open>finally\<close> block unregisters, and the callback's exceptions are swallowed too.
\<close>

definition stop_begin :: "'w services \<Rightarrow> pystr \<Rightarrow> 'w rtm \<Rightarrow> 'w rtm" where
  "stop_begin env r s = mark_activity env r (modify_room r (\<lambda>m. m\<lparr>room_state := STOPPING\<rparr>) s)"

definition stop_release :: "'w services \<Rightarrow> pystr \<Rightarrow> 'w rtm \<Rightarrow> 'w rtm" where
  "stop_release env r s =
     s\<lparr>world := (case session_id (heap s r) of
                  Some sid \<Rightarrow> snd (delete_session env sid (world s))
                | None \<Rightarrow>
                    (case kernel_id (heap s r) of
                       Some k \<Rightarrow> if has_kernel env k (world s)
                                 then snd (shutdown_kernel env k (world s)) else world s
                     | None \<Rightarrow> world s))\<rparr>"

definition stop_finish :: "'w services \<Rightarrow> pystr \<Rightarrow> 'w rtm \<Rightarrow> 'w rtm" where
  "stop_finish env r s =
     (let s1 = mark_activity env r
                 (modify_room r (\<lambda>m. m\<lparr>room_state := STOPPED, attached_clients := {}, active_jobs := {}\<rparr>) s)
      in s1\<lparr>notebook_to_room := (notebook_to_room s1)(room_notebook_id (heap s1 r) := None),
            rooms := filter (\<lambda>r'. r' \<noteq> r) (rooms s1)\<rparr>)"

definition notify_notebook_stopped :: "'w services \<Rightarrow> pystr \<Rightarrow> 'w rtm \<Rightarrow> 'w rtm" where
  "notify_notebook_stopped env nb s =
     (case on_notebook_stopped env of
        None \<Rightarrow> s
      | Some callback \<Rightarrow> s\<lparr>world := snd (callback nb (world s))\<rparr>)"

definition stop_runtime :: "'w services \<Rightarrow> pystr \<Rightarrow> 'w rtm \<Rightarrow> (pystr, 'w rtm) outcome" where
  "stop_runtime env r s =
     (if r \<notin> set (rooms s) then (Inl (room_not_found r), s)
      else if room_state (heap s r) \<in> {STOPPED, STOPPING} then (Inr r, s)
      else
        let s1 = stop_finish env r (stop_release env r (stop_begin env r s))
        in (Inr r, notify_notebook_stopped env (room_notebook_id (heap s1 r)) s1))"

definition interrupt_runtime :: "'w services \<Rightarrow> pystr \<Rightarrow> 'w rtm \<Rightarrow> (unit, 'w rtm) outcome" where
  "interrupt_runtime env r s =
     (if r \<notin> set (rooms s) then (Inl (room_not_found r), s)
      else
        case kernel_id (heap s r) of
          Some k \<Rightarrow>
            if k = [] \<or> \<not> is_live (heap s r)
            then (Inl (ValueError (lit ''Room '' @ r @ lit '' has no live kernel'')), s)
            else
              (case interrupt_kernel env k (world s) of
                 (Inl e, w) \<Rightarrow> (Inl e, s\<lparr>world := w\<rparr>)
               | (Inr _, w) \<Rightarrow> (Inr (), mark_activity env r (s\<lparr>world := w\<rparr>)))
        | None \<Rightarrow> (Inl (ValueError (lit ''Room '' @ r @ lit '' has no live kernel'')), s))"

record runtime_status =
  st_state :: pystr
  st_room_id :: "pystr option"
  st_session_id :: "pystr option"
  st_kernel_id :: "pystr option"
  st_kernel_name :: "pystr option"
  st_attached_clients :: "pystr list"
  st_active_jobs :: "pystr list"
  st_last_activity :: "time option"
  st_recoverable :: bool

definition get_runtime_status :: "'w services \<Rightarrow> pystr \<Rightarrow> 'w rtm \<Rightarrow> (runtime_status, 'w rtm) outcome" where
  "get_runtime_status env nb s =
     (case load_or_refresh_room env nb s of
        (Inl e, s1) \<Rightarrow> (Inl e, s1)
      | (Inr None, s1) \<Rightarrow>
          (Inr \<lparr>st_state = runtime_state_value STOPPED, st_room_id = None, st_session_id = None,
                st_kernel_id = None, st_kernel_name = None, st_attached_clients = [],
                st_active_jobs = [], st_last_activity = None, st_recoverable = False\<rparr>, s1)
      | (Inr (Some r), s1) \<Rightarrow>
          let m = heap s1 r
          in (Inr \<lparr>st_state = runtime_state_value (room_state m), st_room_id = Some (room_id m),
                   st_session_id = session_id m, st_kernel_id = kernel_id m,
                   st_kernel_name = kernel_name m,
                   st_attached_clients = sorted_list_of_set (attached_clients m),
                   st_active_jobs = sorted_list_of_set (active_jobs m),
                   st_last_activity = Some (last_activity m),
                   st_recoverable = (is_live m \<and> room_state m = LIVE_DETACHED)\<rparr>, s1))"

definition set_runtime_state :: "'w services \<Rightarrow> pystr \<Rightarrow> runtime_state \<Rightarrow> 'w rtm \<Rightarrow> (unit, 'w rtm) outcome" where
  "set_runtime_state env r st s =
     (if r \<notin> set (rooms s) then (Inl (room_not_found r), s)
      else (Inr (), mark_activity env r (modify_room r (\<lambda>m. m\<lparr>room_state := st\<rparr>) s)))"

definition mark_job_started :: "'w services \<Rightarrow> pystr \<Rightarrow> pystr \<Rightarrow> 'w rtm \<Rightarrow> 'w rtm" where
  "mark_job_started env nb j s =
     (case get_room_for_notebook nb s of
        None \<Rightarrow> s
      | Some r \<Rightarrow> mark_activity env r (modify_room r (\<lambda>m. m\<lparr>active_jobs := insert j (active_jobs m)\<rparr>) s))"

definition mark_job_finished :: "'w services \<Rightarrow> pystr \<Rightarrow> pystr \<Rightarrow> 'w rtm \<Rightarrow> 'w rtm" where
  "mark_job_finished env nb j s =
     (case get_room_for_notebook nb s of
        None \<Rightarrow> s
      | Some r \<Rightarrow> mark_activity env r (modify_room r (\<lambda>m. m\<lparr>active_jobs := active_jobs m - {j}\<rparr>) s))"

text \<open>
  The sweep first collects the rooms to stop, then stops them one by one; a room whose stop raises
  is not reported.
\<close>

definition gc_idle :: "time \<Rightarrow> time \<Rightarrow> room \<Rightarrow> bool" where
  "gc_idle ttl now m \<longleftrightarrow>
     room_state m \<notin> {STOPPING, STOPPED, FAILED}
     \<and> room_state m = LIVE_DETACHED \<and> now - last_activity m > ttl"

fun gc_stop :: "'w services \<Rightarrow> pystr list \<Rightarrow> 'w rtm \<Rightarrow> pystr list \<times> 'w rtm" where
  "gc_stop env [] s = ([], s)"
| "gc_stop env (r # rs) s =
     (case stop_runtime env r s of
        (Inl e, s1) \<Rightarrow> gc_stop env rs s1
      | (Inr _, s1) \<Rightarrow> (case gc_stop env rs s1 of (stopped, s2) \<Rightarrow> (r # stopped, s2)))"

definition gc_sweep :: "'w services \<Rightarrow> 'w rtm \<Rightarrow> pystr list \<times> 'w rtm" where
  "gc_sweep env s =
     (case read_clock env s of (now, s1) \<Rightarrow>
        gc_stop env (filter (\<lambda>r. gc_idle (idle_ttl s1) now (heap s1 r)) (rooms s1)) s1)"

definition shutdown :: "'w services \<Rightarrow> 'w rtm \<Rightarrow> 'w rtm" where
  "shutdown env s = fold (\<lambda>r s. snd (stop_runtime env r s)) (rooms s) s"

section \<open>Effects of the state accessors\<close>

lemma modify_room_simps [simp]:
  "rooms (modify_room r f s) = rooms s"
  "notebook_to_room (modify_room r f s) = notebook_to_room s"
  "world (modify_room r f s) = world s"
  "idle_ttl (modify_room r f s) = idle_ttl s"
  "heap (modify_room r f s) = (heap s)(r := f (heap s r))"
  by (simp_all add: modify_room_def)

lemma read_clock_simps [simp]:
  "fst (read_clock env s) = fst (time_now env (world s))"
  "rooms (snd (read_clock env s)) = rooms s"
  "notebook_to_room (snd (read_clock env s)) = notebook_to_room s"
  "heap (snd (read_clock env s)) = heap s"
  "idle_ttl (snd (read_clock env s)) = idle_ttl s"
  by (simp_all add: read_clock_def split: prod.split)

lemma mark_activity_simps [simp]:
  "rooms (mark_activity env r s) = rooms s"
  "notebook_to_room (mark_activity env r s) = notebook_to_room s"
  "idle_ttl (mark_activity env r s) = idle_ttl s"
  "heap (mark_activity env r s) =
     (heap s)(r := (heap s r)\<lparr>last_activity := fst (time_now env (world s))\<rparr>)"
  by (simp_all add: mark_activity_def read_clock_def split: prod.split)

lemma touch_activity_simps [simp]:
  "rooms (touch_activity env r s) = rooms s"
  "notebook_to_room (touch_activity env r s) = notebook_to_room s"
  "idle_ttl (touch_activity env r s) = idle_ttl s"
  by (simp_all add: touch_activity_def)

lemma is_live_simps [simp]:
  "is_live (m\<lparr>last_activity := t\<rparr>) = is_live m"
  "is_live (m\<lparr>attached_clients := c\<rparr>) = is_live m"
  "is_live (m\<lparr>active_jobs := a\<rparr>) = is_live m"
  "is_live (m\<lparr>room_state := st\<rparr>) = (st \<in> {LIVE_ATTACHED, LIVE_DETACHED, AWAITING_INPUT})"
  by (simp_all add: is_live_def)

lemma new_room_simps [simp]:
  "room_id (new_room r nb c a) = r"
  "room_notebook_id (new_room r nb c a) = nb"
  "room_state (new_room r nb c a) = STARTING"
  "session_id (new_room r nb c a) = None"
  "kernel_id (new_room r nb c a) = None"
  "attached_clients (new_room r nb c a) = {}"
  by (simp_all add: new_room_def)

definition drawn_uuid :: "'w services \<Rightarrow> 'w rtm \<Rightarrow> pystr" where
  "drawn_uuid env s = fst (uuid_hex env (world s))"

lemma register_room_effect:
  assumes "register_room env nb f s = (r, s')"
  obtains c a where "r = drawn_uuid env s"
    and "heap s' = (heap s)(r := f (new_room r nb c a))"
    and "rooms s' = (if r \<in> set (rooms s) then rooms s else rooms s @ [r])"
    and "notebook_to_room s' = (notebook_to_room s)(nb := Some r)"
    and "idle_ttl s' = idle_ttl s"
proof -
  obtain w1 c w2 a w3 where
    "uuid_hex env (world s) = (r, w1)" and "time_now env w1 = (c, w2)" and "time_now env w2 = (a, w3)"
    using assms by (auto simp: register_room_def read_uuid_def read_clock_def split: prod.splits)
  with assms show ?thesis
    by (intro that [of c a])
      (auto simp: register_room_def read_uuid_def read_clock_def drawn_uuid_def)
qed

section \<open>The manager's invariant\<close>

text \<open>
  Rooms are registered once, under their own identifier; a notebook's entry names a registered
  room of that notebook; and a live room is the one its notebook's entry names and has a session
  and a kernel.  So a notebook has at most one live runtime.
\<close>

definition room_ok :: "(pystr \<Rightarrow> pystr option) \<Rightarrow> pystr \<Rightarrow> room \<Rightarrow> bool" where
  "room_ok entry r m \<longleftrightarrow>
     room_id m = r
     \<and> (is_live m \<longrightarrow> entry (room_notebook_id m) = Some r \<and> session_id m \<noteq> None \<and> kernel_id m \<noteq> None)"

definition rtm_ok :: "'w rtm \<Rightarrow> bool" where
  "rtm_ok s \<longleftrightarrow>
     distinct (rooms s)
     \<and> (\<forall>r \<in> set (rooms s). room_ok (notebook_to_room s) r (heap s r))
     \<and> (\<forall>nb r. notebook_to_room s nb = Some r \<longrightarrow>
           r \<in> set (rooms s) \<and> room_notebook_id (heap s r) = nb)"

lemma rtm_okD:
  assumes "rtm_ok s"
  shows "distinct (rooms s)"
    and "r \<in> set (rooms s) \<Longrightarrow> room_id (heap s r) = r"
    and "r \<in> set (rooms s) \<Longrightarrow> is_live (heap s r) \<Longrightarrow>
      notebook_to_room s (room_notebook_id (heap s r)) = Some r
      \<and> session_id (heap s r) \<noteq> None \<and> kernel_id (heap s r) \<noteq> None"
    and "notebook_to_room s nb = Some r \<Longrightarrow> r \<in> set (rooms s) \<and> room_notebook_id (heap s r) = nb"
  using assms by (simp_all add: rtm_ok_def room_ok_def)

lemma get_room_Some:
  assumes "rtm_ok s"
  shows "get_room_for_notebook nb s = Some r \<longleftrightarrow> notebook_to_room s nb = Some r"
    and "get_room_for_notebook nb s = None \<longleftrightarrow> notebook_to_room s nb = None"
  using rtm_okD(4) [OF assms]
  by (auto simp: get_room_for_notebook_def split: option.splits)

lemma new_rtm_ok [simp]: "rtm_ok (new_rtm ttl w)"
  by (simp add: rtm_ok_def new_rtm_def)

text \<open>
  An update of one room keeps the invariant when it keeps the room's identity and does not make
  it live from a state that was not.
\<close>

definition tame :: "(room \<Rightarrow> room) \<Rightarrow> room \<Rightarrow> bool" where
  "tame f m \<longleftrightarrow>
     room_id (f m) = room_id m \<and> room_notebook_id (f m) = room_notebook_id m
     \<and> (is_live (f m) \<longrightarrow> is_live m)
     \<and> session_id (f m) = session_id m \<and> kernel_id (f m) = kernel_id m"

lemma rtm_ok_same_heap:
  "rooms s' = rooms s \<Longrightarrow> notebook_to_room s' = notebook_to_room s \<Longrightarrow> heap s' = heap s \<Longrightarrow>
   rtm_ok s' = rtm_ok s"
  by (simp add: rtm_ok_def)

lemma rtm_ok_update:
  assumes "rtm_ok s" and "rooms s' = rooms s" and "notebook_to_room s' = notebook_to_room s"
    and "heap s' = (heap s)(r := f (heap s r))" and "tame f (heap s r)"
  shows "rtm_ok s'"
  using assms unfolding rtm_ok_def room_ok_def tame_def by (auto 0 3)

lemma modify_room_ok: "rtm_ok s \<Longrightarrow> tame f (heap s r) \<Longrightarrow> rtm_ok (modify_room r f s)"
  by (rule rtm_ok_update) simp_all

lemma mark_activity_ok: "rtm_ok s \<Longrightarrow> rtm_ok (mark_activity env r s)"
  by (rule rtm_ok_update [where f = "\<lambda>m. m\<lparr>last_activity := fst (time_now env (world s))\<rparr>"])
    (simp_all add: tame_def)

lemma touch_activity_ok: "rtm_ok s \<Longrightarrow> rtm_ok (touch_activity env r s)"
  by (simp add: touch_activity_def mark_activity_ok)

lemma world_ok [simp]: "rtm_ok (s\<lparr>world := w\<rparr>) = rtm_ok s"
  by (rule rtm_ok_same_heap) simp_all

text \<open>A fresh room of a notebook without a live room may be registered, live or not.\<close>

lemma register_room_ok:
  assumes "register_room env nb f s = (r, s')" and "rtm_ok s"
    and fresh: "drawn_uuid env s \<notin> set (rooms s)"
    and none: "\<And>r'. notebook_to_room s nb = Some r' \<Longrightarrow> \<not> is_live (heap s r')"
    and f: "\<And>c a. let m = f (new_room r nb c a) in
      room_id m = r \<and> room_notebook_id m = nb \<and> (is_live m \<longrightarrow> session_id m \<noteq> None \<and> kernel_id m \<noteq> None)"
  shows "rtm_ok s'"
proof -
  obtain c a where eff: "r = drawn_uuid env s"
    "heap s' = (heap s)(r := f (new_room r nb c a))"
    "rooms s' = (if r \<in> set (rooms s) then rooms s else rooms s @ [r])"
    "notebook_to_room s' = (notebook_to_room s)(nb := Some r)"
    by (rule register_room_effect [OF assms(1)]) blast
  have new: "r \<notin> set (rooms s)" using fresh eff(1) by simp
  have m: "room_id (f (new_room r nb c a)) = r" "room_notebook_id (f (new_room r nb c a)) = nb"
    "is_live (f (new_room r nb c a)) \<Longrightarrow>
       session_id (f (new_room r nb c a)) \<noteq> None \<and> kernel_id (f (new_room r nb c a)) \<noteq> None"
    using f [of c a] by (simp_all add: Let_def)
  have old: "room_ok (notebook_to_room s') r' (heap s' r')" if "r' \<in> set (rooms s)" for r'
  proof -
    have "r' \<noteq> r" using that new by blast
    moreover have "room_notebook_id (heap s r') \<noteq> nb" if "is_live (heap s r')"
      using rtm_okD(3) [OF assms(2) \<open>r' \<in> set (rooms s)\<close> that] none that by auto
    ultimately show ?thesis
      using rtm_okD(2,3) [OF assms(2) that] eff by (auto simp: room_ok_def)
  qed
  have "room_ok (notebook_to_room s') r (heap s' r)"
    using m eff by (simp add: room_ok_def)
  moreover have "r' \<in> set (rooms s') \<and> room_notebook_id (heap s' r') = nb'"
    if "notebook_to_room s' nb' = Some r'" for nb' r'
    using that rtm_okD(4) [OF assms(2)] m eff new by (auto split: if_splits)
  ultimately show ?thesis
    using old rtm_okD(1) [OF assms(2)] eff new by (auto simp: rtm_ok_def)
qed

section \<open>Every operation keeps the invariant\<close>

lemma go_live_ok:
  assumes "rtm_ok s" and "notebook_to_room s (room_notebook_id (heap s r)) = Some r"
    and "room_id (f (heap s r)) = room_id (heap s r)"
    and "room_notebook_id (f (heap s r)) = room_notebook_id (heap s r)"
    and "session_id (f (heap s r)) \<noteq> None" and "kernel_id (f (heap s r)) \<noteq> None"
  shows "rtm_ok (modify_room r f s)"
proof -
  have r: "r \<in> set (rooms s)" using rtm_okD(4) [OF assms(1,2)] by simp
  have "room_ok (notebook_to_room s) r' (heap (modify_room r f s) r')" if "r' \<in> set (rooms s)" for r'
    using rtm_okD(2,3) [OF assms(1) that] assms(2-6) rtm_okD(2) [OF assms(1) r]
    by (cases "r' = r") (simp_all add: room_ok_def)
  moreover have "room_notebook_id (heap (modify_room r f s) r') = nb"
    if "notebook_to_room s nb = Some r'" for nb r'
    using rtm_okD(4) [OF assms(1) that] assms(4) by (cases "r' = r") simp_all
  ultimately show ?thesis
    using rtm_okD(1) [OF assms(1)] rtm_okD(4) [OF assms(1)] by (simp add: rtm_ok_def)
qed

lemma refresh_room_ok: "rtm_ok s \<Longrightarrow> rtm_ok (refresh_room env r s)"
  by (auto simp: refresh_room_def Let_def tame_def intro!: modify_room_ok)

lemma refresh_room_simps [simp]:
  "rooms (refresh_room env r s) = rooms s"
  "notebook_to_room (refresh_room env r s) = notebook_to_room s"
  "world (refresh_room env r s) = world s"
  "idle_ttl (refresh_room env r s) = idle_ttl s"
  "r' \<noteq> r \<Longrightarrow> heap (refresh_room env r s) r' = heap s r'"
  by (simp_all add: refresh_room_def Let_def)

text \<open>The identifier a call of \<open>ensure_room\<close> or \<open>get_runtime_status\<close> would give a new room.\<close>

definition ensure_uuid :: "'w services \<Rightarrow> pystr \<Rightarrow> 'w rtm \<Rightarrow> pystr" where
  "ensure_uuid env nb s =
     (case get_room_for_notebook nb s of
        Some r \<Rightarrow> drawn_uuid env s
      | None \<Rightarrow> drawn_uuid env (s\<lparr>world := snd (get_session env nb (world s))\<rparr>))"

text \<open>What \<open>_load_or_refresh_room\<close> leaves, by its three kinds of answer.\<close>

lemma load_cases:
  assumes "load_or_refresh_room env nb s = (res, s')"
  obtains (known) r where "get_room_for_notebook nb s = Some r" "res = Inr (Some r)" "s' = refresh_room env r s"
  | (absent) code reason w where "get_room_for_notebook nb s = None" "res = Inr None"
      "get_session env nb (world s) = (Inl (HTTPError code reason), w)" "s' = s\<lparr>world := w\<rparr>"
  | (broken) e w where "get_room_for_notebook nb s = None" "res = Inl e"
      "get_session env nb (world s) = (Inl e, w)" "s' = s\<lparr>world := w\<rparr>"
  | (adopted) r sess w where "get_room_for_notebook nb s = None" "res = Inr (Some r)"
      "get_session env nb (world s) = (Inr sess, w)"
      "adopt_session env nb sess (s\<lparr>world := w\<rparr>) = (r, s')"
proof (cases "get_room_for_notebook nb s")
  case (Some r)
  with assms show ?thesis by (intro known [OF Some]) (simp_all add: load_or_refresh_room_def)
next
  case None
  obtain ans w where g: "get_session env nb (world s) = (ans, w)" by fastforce
  show ?thesis
  proof (cases ans)
    case (Inr sess)
    obtain r s1 where a: "adopt_session env nb sess (s\<lparr>world := w\<rparr>) = (r, s1)" by fastforce
    then have "res = Inr (Some r)" "s' = s1"
      using None g Inr assms by (simp_all add: load_or_refresh_room_def)
    with a g Inr show ?thesis by (intro adopted [OF None]) simp_all
  next
    case (Inl e)
    show ?thesis
    proof (cases "\<exists>code reason. e = HTTPError code reason")
      case True
      then obtain code reason where e: "e = HTTPError code reason" by blast
      with g Inl None assms have "res = Inr None" "s' = s\<lparr>world := w\<rparr>"
        by (simp_all add: load_or_refresh_room_def)
      with e g Inl show ?thesis by (intro absent [OF None]) simp_all
    next
      case False
      with g Inl None assms have "res = Inl e" "s' = s\<lparr>world := w\<rparr>"
        by (cases e; simp add: load_or_refresh_room_def)+
      with g Inl show ?thesis by (intro broken [OF None]) simp_all
    qed
  qed
qed

lemma adopt_session_ok:
  assumes "adopt_session env nb sess s = (r, s')" and "rtm_ok s"
    and "drawn_uuid env s \<notin> set (rooms s)" and "notebook_to_room s nb = None"
  shows "rtm_ok s'"
proof (rule register_room_ok [OF assms(1) [unfolded adopt_session_def] assms(2,3)])
  show "\<not> is_live (heap s r')" if "notebook_to_room s nb = Some r'" for r'
    using that assms(4) by simp
qed (simp add: Let_def)

lemma load_or_refresh_room_ok:
  assumes "load_or_refresh_room env nb s = (res, s')" and "rtm_ok s"
    and fresh: "ensure_uuid env nb s \<notin> set (rooms s)"
  shows "rtm_ok s'"
  using assms(1)
proof (cases rule: load_cases)
  case (adopted r sess w)
  have "notebook_to_room s nb = None"
    using adopted(1) by (simp only: get_room_Some(2) [OF assms(2)])
  with adopted fresh assms(2) show ?thesis
    by (intro adopt_session_ok [OF adopted(4)]) (simp_all add: ensure_uuid_def)
qed (simp_all add: assms(2) refresh_room_ok)

lemma open_new_room_effect:
  assumes "open_new_room env nb desired s = (res, s')"
  obtains r m where "r = drawn_uuid env s" and "heap s' = (heap s)(r := m)"
    and "rooms s' = (if r \<in> set (rooms s) then rooms s else rooms s @ [r])"
    and "notebook_to_room s' = (notebook_to_room s)(nb := Some r)"
    and "room_id m = r" and "room_notebook_id m = nb" and "attached_clients m = {}"
    and "case res of
           Inr r' \<Rightarrow> r' = r \<and> room_state m = LIVE_DETACHED \<and> session_id m \<noteq> None \<and> kernel_id m \<noteq> None
         | Inl e \<Rightarrow> room_state m = FAILED"
proof -
  obtain r s1 answer w where o: "open_begin env nb s = (r, s1)"
    and c: "create_session env nb (py_basename nb) desired (world s1) = (answer, w)"
    and f: "open_finish env r answer (s1\<lparr>world := w\<rparr>) = (res, s')"
    using assms by (auto simp: open_new_room_def split: prod.splits)
  show ?thesis
  proof (rule register_room_effect [OF o [unfolded open_begin_def]])
    fix created activity
    assume "r = drawn_uuid env s" "heap s1 = (heap s)(r := new_room r nb created activity)"
      "rooms s1 = (if r \<in> set (rooms s) then rooms s else rooms s @ [r])"
      "notebook_to_room s1 = (notebook_to_room s)(nb \<mapsto> r)" "idle_ttl s1 = idle_ttl s"
    then show thesis
      using f by (intro that [of r "heap s' r"]) (auto simp: open_finish_def split: sum.splits)
  qed
qed

lemma open_new_room_ok:
  assumes "open_new_room env nb desired s = (res, s')" and "rtm_ok s"
    and "drawn_uuid env s \<notin> set (rooms s)"
    and none: "\<And>r'. notebook_to_room s nb = Some r' \<Longrightarrow> \<not> is_live (heap s r')"
  shows "rtm_ok s'"
proof -
  obtain r s1 answer w where o: "open_begin env nb s = (r, s1)"
    and f: "open_finish env r answer (s1\<lparr>world := w\<rparr>) = (res, s')"
    using assms by (auto simp: open_new_room_def split: prod.splits)
  have ok: "rtm_ok s1"
    by (rule register_room_ok [OF o [unfolded open_begin_def] assms(2,3) none]) (simp_all add: Let_def is_live_def)
  have entry: "notebook_to_room s1 (room_notebook_id (heap s1 r)) = Some r"
    by (rule register_room_effect [OF o [unfolded open_begin_def]]) simp
  have "rtm_ok (snd (open_finish env r answer (s1\<lparr>world := w\<rparr>)))"
  proof (cases answer)
    case (Inr sess)
    with ok entry show ?thesis
      by (simp add: open_finish_def) (intro mark_activity_ok go_live_ok, simp_all)
  next
    case (Inl e)
    with ok show ?thesis by (simp add: open_finish_def) (intro modify_room_ok, simp_all add: tame_def)
  qed
  with f show ?thesis by simp
qed

lemma ensure_room_ok:
  assumes "rtm_ok s" and fresh: "ensure_uuid env nb s \<notin> set (rooms s)"
  shows "rtm_ok (snd (ensure_room env nb kname s))"
proof -
  obtain res s1 where l: "load_or_refresh_room env nb s = (res, s1)" by fastforce
  have ok: "rtm_ok s1" using load_or_refresh_room_ok [OF l assms] .
  have new: "rtm_ok (snd (open_new_room env nb d s1))"
    if "\<And>r. res = Inr (Some r) \<Longrightarrow> \<not> is_live (heap s1 r)" "\<And>e. res \<noteq> Inl e" for d
  proof -
    obtain res' s2 where o: "open_new_room env nb d s1 = (res', s2)" by fastforce
    have "rtm_ok s2"
      using l
    proof (cases rule: load_cases)
      case (known r)
      have "notebook_to_room s nb = Some r"
        using known(1) by (simp only: get_room_Some(1) [OF assms(1)])
      with known fresh that(1) show ?thesis
        by (intro open_new_room_ok [OF o ok]) (auto simp: ensure_uuid_def drawn_uuid_def)
    next
      case (absent code reason w)
      have "notebook_to_room s nb = None"
        using absent(1) by (simp only: get_room_Some(2) [OF assms(1)])
      with absent fresh show ?thesis
        by (intro open_new_room_ok [OF o ok]) (auto simp: ensure_uuid_def drawn_uuid_def)
    next
      case (broken e w)
      then show ?thesis using that(2) by simp
    next
      case (adopted r sess w)
      then have "is_live (heap s1 r)"
        by (auto simp: adopt_session_def is_live_def elim!: register_room_effect)
      with adopted that(1) show ?thesis by simp
    qed
    with o show ?thesis by simp
  qed
  show ?thesis
    using ok new by (auto simp: ensure_room_def Let_def l touch_activity_ok split: sum.split option.split)
qed


text \<open>What a successful \<open>ensure_room\<close> returns: the notebook's registered live room.\<close>

lemma room_unchanged_live:
  "is_live (heap (touch_activity env r s) r') = is_live (heap s r')"
  "room_notebook_id (heap (touch_activity env r s) r') = room_notebook_id (heap s r')"
  by (simp_all add: touch_activity_def)

lemma load_or_refresh_room_entry:
  assumes "load_or_refresh_room env nb s = (Inr (Some r), s')" and "rtm_ok s"
  shows "notebook_to_room s' nb = Some r"
  using assms(1)
proof (cases rule: load_cases)
  case (known r')
  then have "notebook_to_room s nb = Some r'"
    by (simp only: get_room_Some(1) [OF assms(2)])
  with known show ?thesis by simp
next
  case (adopted r' sess w)
  then show ?thesis by (auto simp: adopt_session_def elim!: register_room_effect)
qed simp_all

lemma ensure_room_result:
  assumes "ensure_room env nb kname s = (Inr r, s')" and "rtm_ok s"
    and "ensure_uuid env nb s \<notin> set (rooms s)"
  shows "is_live (heap s' r)" and "notebook_to_room s' nb = Some r"
proof -
  have new: "is_live (heap s2 r) \<and> notebook_to_room s2 nb = Some r"
    if "open_new_room env nb d s1 = (Inr r, s2)" for d s1 s2
    by (rule open_new_room_effect [OF that]) (auto simp: is_live_def)
  show "is_live (heap s' r)" and "notebook_to_room s' nb = Some r"
    using assms(1) new load_or_refresh_room_entry [OF _ assms(2)]
    by (auto simp: ensure_room_def Let_def room_unchanged_live
        split: prod.splits sum.splits option.splits if_splits)
qed

lemma attach_ok:
  assumes "rtm_ok s" and "r \<in> set (rooms s)" and "is_live (heap s r)"
  shows "rtm_ok (attach env r client s)"
  unfolding attach_def
  using rtm_okD(3) [OF assms] by (intro mark_activity_ok go_live_ok) (simp_all add: assms)

lemma open_runtime_ok:
  assumes "rtm_ok s" and "ensure_uuid env nb s \<notin> set (rooms s)"
  shows "rtm_ok (snd (open_runtime env nb client kname s))"
proof -
  obtain res s1 where e: "ensure_room env nb kname s = (res, s1)" by fastforce
  have ok: "rtm_ok s1" using ensure_room_ok [OF assms, of kname] e by simp
  show ?thesis
  proof (cases res)
    case (Inr r)
    note live = ensure_room_result [OF e [unfolded Inr] assms]
    have "r \<in> set (rooms s1)" using rtm_okD(4) [OF ok live(2)] by simp
    with Inr e ok live show ?thesis by (simp add: open_runtime_def attach_ok)
  qed (simp add: open_runtime_def e ok)
qed

lemma attach_client_ok: "rtm_ok s \<Longrightarrow> rtm_ok (snd (attach_client env r client s))"
  by (simp add: attach_client_def attach_ok)

lemma detach_client_ok: "rtm_ok s \<Longrightarrow> rtm_ok (snd (detach_client env r client s))"
  by (auto simp: detach_client_def Let_def tame_def is_live_def intro!: mark_activity_ok modify_room_ok)

lemma interrupt_runtime_ok: "rtm_ok s \<Longrightarrow> rtm_ok (snd (interrupt_runtime env r s))"
  by (auto simp: interrupt_runtime_def mark_activity_ok split: option.split sum.split prod.split)

lemma get_runtime_status_state: "snd (get_runtime_status env nb s) = snd (load_or_refresh_room env nb s)"
  by (simp add: get_runtime_status_def Let_def split: prod.split sum.split option.split)

lemma get_runtime_status_ok:
  "rtm_ok s \<Longrightarrow> ensure_uuid env nb s \<notin> set (rooms s) \<Longrightarrow> rtm_ok (snd (get_runtime_status env nb s))"
  unfolding get_runtime_status_state
  by (rule load_or_refresh_room_ok) (rule prod.collapse [symmetric])

lemma set_runtime_state_ok:
  "rtm_ok s \<Longrightarrow> (st \<in> {LIVE_ATTACHED, LIVE_DETACHED, AWAITING_INPUT} \<Longrightarrow> is_live (heap s r)) \<Longrightarrow>
   rtm_ok (snd (set_runtime_state env r st s))"
  by (auto simp: set_runtime_state_def tame_def intro!: mark_activity_ok modify_room_ok)

lemma mark_job_ok:
  "rtm_ok s \<Longrightarrow> rtm_ok (mark_job_started env nb j s)"
  "rtm_ok s \<Longrightarrow> rtm_ok (mark_job_finished env nb j s)"
  by (auto simp: mark_job_started_def mark_job_finished_def tame_def
      intro!: mark_activity_ok modify_room_ok split: option.split)

text \<open>Stopping a room: the state afterwards, whatever the services answer.\<close>

definition release_world :: "'w services \<Rightarrow> room \<Rightarrow> 'w \<Rightarrow> 'w" where
  "release_world env m w =
     (case (session_id m, kernel_id m) of
        (Some sid, _) \<Rightarrow> snd (delete_session env sid w)
      | (None, Some k) \<Rightarrow> if has_kernel env k w then snd (shutdown_kernel env k w) else w
      | (None, None) \<Rightarrow> w)"

definition notify_world :: "'w services \<Rightarrow> pystr \<Rightarrow> 'w \<Rightarrow> 'w" where
  "notify_world env nb w =
     (case on_notebook_stopped env of None \<Rightarrow> w | Some callback \<Rightarrow> snd (callback nb w))"

lemma mark_activity_world: "world (mark_activity env r s) = snd (time_now env (world s))"
  by (simp add: mark_activity_def read_clock_def split: prod.split)

lemma stop_runtime_effect:
  assumes "r \<in> set (rooms s)" and "room_state (heap s r) \<notin> {STOPPED, STOPPING}"
  shows "\<exists>s' t. stop_runtime env r s = (Inr r, s')
    \<and> rooms s' = filter (\<lambda>r'. r' \<noteq> r) (rooms s)
    \<and> notebook_to_room s' = (notebook_to_room s)(room_notebook_id (heap s r) := None)
    \<and> heap s' = (heap s)(r := (heap s r)\<lparr>room_state := STOPPED, attached_clients := {},
                               active_jobs := {}, last_activity := t\<rparr>)
    \<and> idle_ttl s' = idle_ttl s
    \<and> world s' = notify_world env (room_notebook_id (heap s r))
        (snd (time_now env (release_world env (heap s r) (snd (time_now env (world s))))))"
  using assms
  by (cases "on_notebook_stopped env")
    (auto simp: stop_runtime_def stop_finish_def stop_release_def stop_begin_def Let_def
      notify_notebook_stopped_def notify_world_def release_world_def mark_activity_world
      split: option.split)

lemma stop_runtime_noop:
  "r \<notin> set (rooms s) \<Longrightarrow> stop_runtime env r s = (Inl (room_not_found r), s)"
  "r \<in> set (rooms s) \<Longrightarrow> room_state (heap s r) \<in> {STOPPED, STOPPING} \<Longrightarrow> stop_runtime env r s = (Inr r, s)"
  by (simp_all add: stop_runtime_def)

lemma stop_runtime_ok:
  assumes "rtm_ok s" and "notebook_to_room s (room_notebook_id (heap s r)) = Some r"
  shows "rtm_ok (snd (stop_runtime env r s))"
proof (cases "r \<in> set (rooms s) \<and> room_state (heap s r) \<notin> {STOPPED, STOPPING}")
  case True
  then obtain s' t where st: "stop_runtime env r s = (Inr r, s')"
    and r: "rooms s' = filter (\<lambda>r'. r' \<noteq> r) (rooms s)"
    and n: "notebook_to_room s' = (notebook_to_room s)(room_notebook_id (heap s r) := None)"
    and h: "heap s' = (heap s)(r := (heap s r)\<lparr>room_state := STOPPED, attached_clients := {},
                               active_jobs := {}, last_activity := t\<rparr>)"
    using stop_runtime_effect [of r s env] by blast
  have "room_ok (notebook_to_room s') r' (heap s' r')" if "r' \<in> set (rooms s')" for r'
  proof -
    have r': "r' \<in> set (rooms s)" "r' \<noteq> r" using that r by auto
    then show ?thesis
      using rtm_okD(2,3) [OF assms(1) r'(1)] assms(2) by (auto simp: room_ok_def n h)
  qed
  moreover have "r' \<in> set (rooms s') \<and> room_notebook_id (heap s' r') = nb"
    if "notebook_to_room s' nb = Some r'" for nb r'
    using that rtm_okD(4) [OF assms(1), of nb r'] by (auto simp: n r h split: if_splits)
  ultimately show ?thesis
    using st rtm_okD(1) [OF assms(1)] by (simp add: rtm_ok_def r)
next
  case False
  then show ?thesis using assms(1) by (cases "r \<in> set (rooms s)") (simp_all add: stop_runtime_noop)
qed


section \<open>The sweep\<close>

text \<open>The sweep stops every room of its list: each is live until its turn.\<close>

definition idle_rooms :: "'w services \<Rightarrow> 'w rtm \<Rightarrow> pystr list" where
  "idle_rooms env s =
     filter (\<lambda>r. gc_idle (idle_ttl s) (fst (time_now env (world s))) (heap s r)) (rooms s)"

lemma gc_sweep_unfold: "gc_sweep env s = gc_stop env (idle_rooms env s) (snd (read_clock env s))"
  by (auto simp: gc_sweep_def idle_rooms_def read_clock_def split: prod.split)

lemma gc_stop_effect:
  assumes "rtm_ok s" and "distinct rs" and "set rs \<subseteq> set (rooms s)"
    and "\<forall>r \<in> set rs. room_state (heap s r) = LIVE_DETACHED"
  shows "\<exists>s'. gc_stop env rs s = (rs, s') \<and> rtm_ok s' \<and> idle_ttl s' = idle_ttl s
    \<and> rooms s' = filter (\<lambda>r. r \<notin> set rs) (rooms s)
    \<and> (\<forall>r. r \<notin> set rs \<longrightarrow> heap s' r = heap s r)
    \<and> (\<forall>r \<in> set rs. room_state (heap s' r) = STOPPED)"
  using assms
proof (induction rs arbitrary: s)
  case Nil
  then show ?case by simp
next
  case (Cons r rs)
  have r: "r \<in> set (rooms s)" "room_state (heap s r) = LIVE_DETACHED" "r \<notin> set rs"
    using Cons.prems by simp_all
  have live: "is_live (heap s r)" using r by (simp add: is_live_def)
  have "\<exists>s1 t. stop_runtime env r s = (Inr r, s1)
    \<and> rooms s1 = filter (\<lambda>r'. r' \<noteq> r) (rooms s)
    \<and> heap s1 = (heap s)(r := (heap s r)\<lparr>room_state := STOPPED, attached_clients := {},
                               active_jobs := {}, last_activity := t\<rparr>)
    \<and> idle_ttl s1 = idle_ttl s"
    using stop_runtime_effect [of r s env] r by fastforce
  then obtain s1 t where st: "stop_runtime env r s = (Inr r, s1)"
    and s1: "rooms s1 = filter (\<lambda>r'. r' \<noteq> r) (rooms s)" "idle_ttl s1 = idle_ttl s"
      "heap s1 = (heap s)(r := (heap s r)\<lparr>room_state := STOPPED, attached_clients := {},
                               active_jobs := {}, last_activity := t\<rparr>)"
    by blast
  have ok: "rtm_ok s1"
    using stop_runtime_ok [of s r env] rtm_okD(3) [OF Cons.prems(1) r(1) live] Cons.prems(1) st by simp
  have "set rs \<subseteq> set (rooms s1)" "\<forall>r \<in> set rs. room_state (heap s1 r) = LIVE_DETACHED"
    using Cons.prems r s1 by auto
  then obtain s' where "gc_stop env rs s1 = (rs, s')" "rtm_ok s'" "idle_ttl s' = idle_ttl s1"
    "rooms s' = filter (\<lambda>r. r \<notin> set rs) (rooms s1)"
    "\<forall>r. r \<notin> set rs \<longrightarrow> heap s' r = heap s1 r"
    "\<forall>r \<in> set rs. room_state (heap s' r) = STOPPED"
    using Cons.IH [OF ok] Cons.prems(2) by auto
  with st s1 r(3) show ?case by (auto intro!: filter_cong)
qed

lemma idle_rooms_props:
  "rtm_ok s \<Longrightarrow> distinct (idle_rooms env s)"
  "set (idle_rooms env s) \<subseteq> set (rooms s)"
  "r \<in> set (idle_rooms env s) \<Longrightarrow> room_state (heap s r) = LIVE_DETACHED"
  by (auto simp: idle_rooms_def gc_idle_def dest: rtm_okD(1))

lemma gc_sweep_effect:
  assumes "rtm_ok s"
  shows "\<exists>s'. gc_sweep env s = (idle_rooms env s, s') \<and> rtm_ok s'
    \<and> idle_ttl s' = idle_ttl s
    \<and> rooms s' = filter (\<lambda>r. r \<notin> set (idle_rooms env s)) (rooms s)
    \<and> (\<forall>r. r \<notin> set (idle_rooms env s) \<longrightarrow> heap s' r = heap s r)
    \<and> (\<forall>r \<in> set (idle_rooms env s). room_state (heap s' r) = STOPPED)"
proof -
  have "rtm_ok (snd (read_clock env s))"
    using assms by (subst rtm_ok_same_heap [of _ s]) simp_all
  from gc_stop_effect [OF this, of "idle_rooms env s" env] show ?thesis
    using idle_rooms_props(1) [OF assms, of env] idle_rooms_props(2,3) [where env = env and s = s]
    unfolding gc_sweep_unfold by auto
qed

lemma gc_sweep_ok: "rtm_ok s \<Longrightarrow> rtm_ok (snd (gc_sweep env s))"
  using gc_sweep_effect [of s env] by auto

section \<open>The world changes only through the services\<close>

text \<open>
  A property of the world that every service keeps is kept by the operations that do not stop a
  runtime; only stopping runs the callback.
\<close>

definition services_keep :: "'w services \<Rightarrow> ('w \<Rightarrow> bool) \<Rightarrow> bool" where
  "services_keep env P \<longleftrightarrow>
     (\<forall>w. P w \<longrightarrow>
        (\<forall>p n k. P (snd (create_session env p n k w))) \<and> (\<forall>p. P (snd (get_session env p w)))
        \<and> (\<forall>i. P (snd (delete_session env i w))) \<and> (\<forall>k. P (snd (shutdown_kernel env k w)))
        \<and> (\<forall>k. P (snd (interrupt_kernel env k w))) \<and> P (snd (time_now env w)) \<and> P (snd (uuid_hex env w)))"

lemma services_keepD:
  assumes "services_keep env P" and "P w"
  shows "create_session env p n k w = (sess, w') \<Longrightarrow> P w'" "get_session env p w = (sess, w') \<Longrightarrow> P w'"
    "delete_session env i w = (u, w') \<Longrightarrow> P w'" "shutdown_kernel env k w = (u, w') \<Longrightarrow> P w'"
    "interrupt_kernel env k w = (u, w') \<Longrightarrow> P w'" "time_now env w = (t, w') \<Longrightarrow> P w'"
    "uuid_hex env w = (x, w') \<Longrightarrow> P w'"
  using assms unfolding services_keep_def by (metis snd_conv)+

lemma mark_activity_keeps: "services_keep env P \<Longrightarrow> P (world s) \<Longrightarrow> P (world (mark_activity env r s))"
  by (auto simp: mark_activity_def read_clock_def split: prod.split dest: services_keepD)

lemma touch_activity_keeps: "services_keep env P \<Longrightarrow> P (world s) \<Longrightarrow> P (world (touch_activity env r s))"
  by (simp add: touch_activity_def mark_activity_keeps)

lemma register_room_keeps:
  "services_keep env P \<Longrightarrow> P (world s) \<Longrightarrow> register_room env nb f s = (r, s') \<Longrightarrow> P (world s')"
  by (auto simp: register_room_def read_uuid_def read_clock_def split: prod.splits)
    (blast dest: services_keepD)

lemma load_or_refresh_room_keeps:
  assumes k: "services_keep env P" and "P (world s)" and "load_or_refresh_room env nb s = (res, s')"
  shows "P (world s')"
  using assms(3)
proof (cases rule: load_cases)
  case (adopted r sess w)
  then have "P (world (s\<lparr>world := w\<rparr>))" using services_keepD(2) [OF k assms(2)] by auto
  with register_room_keeps [OF k] adopted(4) show ?thesis unfolding adopt_session_def by blast
qed (use services_keepD(2) [OF k assms(2)] assms(2) in auto)

lemma open_new_room_keeps:
  assumes k: "services_keep env P" and "P (world s)"
  shows "P (world (snd (open_new_room env nb d s)))"
proof -
  obtain r s1 where o: "open_begin env nb s = (r, s1)" by fastforce
  obtain answer w where c: "create_session env nb (py_basename nb) d (world s1) = (answer, w)" by fastforce
  have "P (world s1)" using register_room_keeps [OF k assms(2)] o unfolding open_begin_def by blast
  then have "P w" using services_keepD(1) [OF k _ c] by blast
  then show ?thesis
    by (auto simp: open_new_room_def o c open_finish_def split: sum.split intro!: mark_activity_keeps [OF k])
qed

lemma ensure_room_keeps:
  assumes k: "services_keep env P" and "P (world s)"
  shows "P (world (snd (ensure_room env nb kname s)))"
proof -
  obtain res s1 where l: "load_or_refresh_room env nb s = (res, s1)" by fastforce
  have "P (world s1)" using load_or_refresh_room_keeps [OF k assms(2) l] .
  then show ?thesis
    by (auto simp: ensure_room_def Let_def l open_new_room_keeps [OF k] touch_activity_keeps [OF k]
        split: sum.split option.split)
qed

lemma set_runtime_state_keeps:
  "services_keep env P \<Longrightarrow> P (world s) \<Longrightarrow> P (world (snd (set_runtime_state env r st s)))"
  by (simp add: set_runtime_state_def mark_activity_keeps)

lemma interrupt_runtime_keeps:
  assumes "services_keep env P" and "P (world s)"
  shows "P (world (snd (interrupt_runtime env r s)))"
  using assms services_keepD(5) [OF assms]
  by (auto simp: interrupt_runtime_def mark_activity_keeps split: option.split sum.split prod.split)

lemma mark_job_keeps:
  "services_keep env P \<Longrightarrow> P (world s) \<Longrightarrow> P (world (mark_job_started env nb j s))"
  "services_keep env P \<Longrightarrow> P (world s) \<Longrightarrow> P (world (mark_job_finished env nb j s))"
  by (auto simp: mark_job_started_def mark_job_finished_def mark_activity_keeps split: option.split)

lemma attach_keeps: "services_keep env P \<Longrightarrow> P (world s) \<Longrightarrow> P (world (attach env r c s))"
  by (simp add: attach_def mark_activity_keeps)

lemma client_ops_keep:
  assumes "services_keep env P" and "P (world s)"
  shows "P (world (snd (open_runtime env nb c k s)))" and "P (world (snd (attach_client env r c s)))"
    and "P (world (snd (detach_client env r c s)))" and "P (world (snd (get_runtime_status env nb s)))"
proof -
  have "P (world (snd (ensure_room env nb k s)))" by (rule ensure_room_keeps [OF assms])
  then show "P (world (snd (open_runtime env nb c k s)))"
    by (auto simp: open_runtime_def attach_keeps [OF assms(1)] split: prod.splits sum.split)
  show "P (world (snd (attach_client env r c s)))" "P (world (snd (detach_client env r c s)))"
    by (auto simp: attach_client_def detach_client_def Let_def assms attach_keeps mark_activity_keeps)
  show "P (world (snd (get_runtime_status env nb s)))"
    unfolding get_runtime_status_state by (rule load_or_refresh_room_keeps [OF assms prod.collapse [symmetric]])
qed

section \<open>A concrete environment\<close>

text \<open>
  An environment the witnesses evaluate: the world is a counter (the source of identifiers and
  the clock) and the paths with a session; a session for \<^verbatim>\<open>bad\<close> is refused, and
  kernel \<^verbatim>\<open>k\<close> lives while some session does.
\<close>

type_synonym demo_world = "nat \<times> pystr set"

definition demo_services :: "demo_world services" where
  "demo_services =
     \<lparr>create_session = (\<lambda>path name kname (n, live).
        if path = lit ''bad'' then (Inl (OtherError (lit ''RuntimeError'') (lit ''no kernel'')), (n, live))
        else (Inr \<lparr>sess_id = lit ''s'' @ path, sess_kernel_id = lit ''k'', sess_kernel_name = Some kname\<rparr>,
              (n, insert path live))),
      get_session = (\<lambda>path w. (Inl (HTTPError 404 (lit ''Not Found'')), w)),
      delete_session = (\<lambda>sid (n, live). (Inr (), (n, live - {tl sid}))),
      has_kernel = (\<lambda>k w. snd w \<noteq> {}),
      shutdown_kernel = (\<lambda>k w. (Inr (), w)),
      interrupt_kernel = (\<lambda>k w. (Inr (), w)),
      on_notebook_stopped = None,
      time_now = (\<lambda>(n, live). (int n, (Suc n, live))),
      uuid_hex = (\<lambda>(n, live). ([n], (Suc n, live)))\<rparr>"

definition demo_rtm :: "demo_world rtm" where
  "demo_rtm = new_rtm 5 (0, {})"

definition nb_a :: pystr where "nb_a = lit ''a.ipynb''"

section \<open>Properties\<close>

lemmas demo_simps = demo_services_def demo_rtm_def nb_a_def new_rtm_def
  ensure_uuid_def drawn_uuid_def ensure_room_def load_or_refresh_room_def get_room_for_notebook_def
  open_new_room_def open_begin_def open_finish_def register_room_def read_uuid_def read_clock_def
  mark_activity_def touch_activity_def refresh_room_def open_runtime_def attach_def detach_client_def
  is_live_def new_room_def modify_room_def Let_def

text \<open>
  A failed open can be retried.  When Jupyter refuses the session, the error is passed on,
  the notebook's room is registered as failed, and the next \<open>ensure_room\<close> of the notebook opens
  a new room at once, for the kernel it is asked for, without asking for an existing session.
\<close>

theorem failed_open_can_be_retried:
  assumes "rtm_ok s" and "drawn_uuid env s \<notin> set (rooms s)"
    and "open_new_room env nb desired s = (Inl e, s')"
  shows "(\<exists>r. get_room_for_notebook nb s' = Some r \<and> room_state (heap s' r) = FAILED)
    \<and> ensure_room env nb kname s' =
        open_new_room env nb
          (case kname of None \<Rightarrow> lit ''python3'' | Some k \<Rightarrow> if k = [] then lit ''python3'' else k) s'"
proof -
  obtain r s1 answer w where o: "open_begin env nb s = (r, s1)"
    and f: "open_finish env r answer (s1\<lparr>world := w\<rparr>) = (Inl e, s')"
    using assms(3) by (auto simp: open_new_room_def split: prod.splits)
  have s1: "notebook_to_room s1 nb = Some r" "r \<in> set (rooms s1)" "kernel_id (heap s1 r) = None"
    by (rule register_room_effect [OF o [unfolded open_begin_def]], simp)+
  have s': "s' = modify_room r (\<lambda>m. m\<lparr>room_state := FAILED\<rparr>) (s1\<lparr>world := w\<rparr>)"
    using f by (simp add: open_finish_def split: sum.splits)
  have "get_room_for_notebook nb s' = Some r" and "room_state (heap s' r) = FAILED"
    and "kernel_id (heap s' r) = None"
    using s1 by (simp_all add: s' get_room_for_notebook_def)
  then show ?thesis
    by (simp add: ensure_room_def load_or_refresh_room_def refresh_room_def Let_def is_live_def)
qed

lemma failed_open_can_be_retried_witness:
  "room_state (heap (snd (open_new_room demo_services (lit ''bad'') (lit ''python3'') demo_rtm)) [0])
     = FAILED
   \<and> fst (ensure_room demo_services (lit ''bad'') None
       (snd (open_new_room demo_services (lit ''bad'') (lit ''python3'') demo_rtm)))
     = Inl (OtherError (lit ''RuntimeError'') (lit ''no kernel''))"
proof -
  have e: "open_new_room demo_services (lit ''bad'') (lit ''python3'') demo_rtm
    = (Inl (OtherError (lit ''RuntimeError'') (lit ''no kernel'')),
       snd (open_new_room demo_services (lit ''bad'') (lit ''python3'') demo_rtm))"
    and r: "get_room_for_notebook (lit ''bad'')
      (snd (open_new_room demo_services (lit ''bad'') (lit ''python3'') demo_rtm)) = Some [0]"
    by (simp_all add: demo_simps)
  have ok: "rtm_ok demo_rtm" "drawn_uuid demo_services demo_rtm \<notin> set (rooms demo_rtm)"
    by (simp add: demo_rtm_def) (simp add: demo_simps)
  from failed_open_can_be_retried [OF ok e, of None] r show ?thesis
    by (simp add: open_new_room_def open_begin_def open_finish_def demo_services_def
        split: prod.splits sum.splits)
qed


lemma load_or_refresh_room_frame:
  assumes "load_or_refresh_room env nb s = (res, s')"
  shows "nb' \<noteq> nb \<Longrightarrow> notebook_to_room s' nb' = notebook_to_room s nb'"
    and "get_room_for_notebook nb s \<noteq> Some r' \<Longrightarrow> res \<noteq> Inr (Some r') \<Longrightarrow> heap s' r' = heap s r'"
  using assms
  by (cases rule: load_cases, auto simp: adopt_session_def elim!: register_room_effect)+

lemma open_new_room_frame:
  assumes "open_new_room env nb d s = (Inr r, s')"
  shows "nb' \<noteq> nb \<Longrightarrow> notebook_to_room s' nb' = notebook_to_room s nb'"
    and "r' \<noteq> r \<Longrightarrow> heap s' r' = heap s r'"
  by (rule open_new_room_effect [OF assms], simp)+

text \<open>
  C15: what a successful \<open>ensure_room\<close> gives and leaves.  The room returned is registered, is
  the notebook's entry, is live and has a session and a kernel; rooms other than it and the
  notebook's previous room are untouched, and so are the other notebooks' entries.
\<close>

theorem ensure_room_gives_live_room:
  assumes "rtm_ok s" and "ensure_uuid env nb s \<notin> set (rooms s)"
    and "ensure_room env nb kname s = (Inr r, s')"
  shows "r \<in> set (rooms s') \<and> get_room_for_notebook nb s' = Some r \<and> is_live (heap s' r)
    \<and> room_notebook_id (heap s' r) = nb
    \<and> session_id (heap s' r) \<noteq> None \<and> kernel_id (heap s' r) \<noteq> None
    \<and> (\<forall>r'. r' \<noteq> r \<and> get_room_for_notebook nb s \<noteq> Some r' \<longrightarrow> heap s' r' = heap s r')
    \<and> (\<forall>nb'. nb' \<noteq> nb \<longrightarrow> notebook_to_room s' nb' = notebook_to_room s nb')"
proof -
  obtain res s1 where l: "load_or_refresh_room env nb s = (res, s1)" by fastforce
  have ok: "rtm_ok s'" using ensure_room_ok [OF assms(1,2), of kname] assms(3) by simp
  note live = ensure_room_result [OF assms(3,1,2)]
  have r: "r \<in> set (rooms s')" "room_notebook_id (heap s' r) = nb"
    using rtm_okD(4) [OF ok live(2)] by simp_all
  have last: "s' = touch_activity env r s1 \<and> res = Inr (Some r)
    \<or> (\<exists>d. open_new_room env nb d s1 = (Inr r, s') \<and> (\<forall>r'. res = Inr (Some r') \<longrightarrow> \<not> is_live (heap s1 r')))"
    using assms(3) by (auto simp: ensure_room_def Let_def l split: sum.splits option.splits if_splits)
  have frame: "heap s' r' = heap s r' \<and> (nb' \<noteq> nb \<longrightarrow> notebook_to_room s' nb' = notebook_to_room s nb')"
    if r': "r' \<noteq> r" "get_room_for_notebook nb s \<noteq> Some r'" for r' nb'
    using last
  proof (elim disjE conjE exE)
    assume "s' = touch_activity env r s1" "res = Inr (Some r)"
    with load_or_refresh_room_frame [OF l] r' show ?thesis by (simp add: touch_activity_def)
  next
    fix d assume o: "open_new_room env nb d s1 = (Inr r, s')"
      and dead: "\<forall>r'. res = Inr (Some r') \<longrightarrow> \<not> is_live (heap s1 r')"
    have "res \<noteq> Inr (Some r')"
      using l
    proof (cases rule: load_cases)
      case (adopted r1 sess w)
      then have "is_live (heap s1 r1)"
        by (auto simp: adopt_session_def is_live_def elim!: register_room_effect)
      with dead adopted show ?thesis by auto
    qed (use r' in auto)
    with load_or_refresh_room_frame [OF l] open_new_room_frame [OF o] r' show ?thesis by simp
  qed
  have entries: "notebook_to_room s' nb' = notebook_to_room s nb'" if "nb' \<noteq> nb" for nb'
    using last load_or_refresh_room_frame(1) [OF l that] by (auto dest: open_new_room_frame(1) [OF _ that])
  show ?thesis
    using live r rtm_okD(3) [OF ok r(1) live(1)] frame entries by (simp add: get_room_for_notebook_def)
qed

lemma ensure_room_gives_live_room_witness:
  "is_live (heap (snd (ensure_room demo_services nb_a None demo_rtm)) [0])"
proof -
  have e: "ensure_room demo_services nb_a None demo_rtm
    = (Inr [0], snd (ensure_room demo_services nb_a None demo_rtm))"
    by (simp add: demo_simps)
  have ok: "rtm_ok demo_rtm" "ensure_uuid demo_services nb_a demo_rtm \<notin> set (rooms demo_rtm)"
    by (simp add: demo_rtm_def) (simp add: demo_simps)
  from ensure_room_gives_live_room [OF ok e] show ?thesis by simp
qed

text \<open>
  C14: stopping never fails and always cleans up.  Whatever the session manager, the kernel
  manager and the callback answer, exceptions included, stopping a registered room that is not
  yet stopped returns it, unregisters it, frees its notebook's entry, clears its clients and jobs
  and leaves every other room; the world has seen exactly one release of its session (or kernel)
  and then exactly one notification for its notebook.
\<close>

theorem stop_runtime_always_cleans_up:
  assumes "r \<in> set (rooms s)" and "room_state (heap s r) \<notin> {STOPPED, STOPPING}"
  shows "\<exists>s'. stop_runtime env r s = (Inr r, s')
    \<and> rooms s' = filter (\<lambda>r'. r' \<noteq> r) (rooms s)
    \<and> get_room_for_notebook (room_notebook_id (heap s r)) s' = None
    \<and> room_state (heap s' r) = STOPPED \<and> attached_clients (heap s' r) = {}
    \<and> active_jobs (heap s' r) = {}
    \<and> (\<forall>r'. r' \<noteq> r \<longrightarrow> heap s' r' = heap s r')
    \<and> world s' = notify_world env (room_notebook_id (heap s r))
        (snd (time_now env (release_world env (heap s r) (snd (time_now env (world s))))))"
  using stop_runtime_effect [OF assms, of env] by (fastforce simp: get_room_for_notebook_def)

lemma stop_runtime_always_cleans_up_witness:
  "get_room_for_notebook nb_a
     (snd (stop_runtime demo_services [0] (snd (ensure_room demo_services nb_a None demo_rtm))))
   = None"
proof -
  let ?s = "snd (ensure_room demo_services nb_a None demo_rtm)"
  have "[0] \<in> set (rooms ?s)" "room_state (heap ?s [0]) \<notin> {STOPPED, STOPPING}"
    "room_notebook_id (heap ?s [0]) = nb_a"
    by (simp_all add: demo_simps)
  with stop_runtime_always_cleans_up [of "[0]" ?s demo_services] show ?thesis by auto
qed


text \<open>
  C16: the sweep stops exactly the idle detached rooms.  It reports, in registration order, the
  registered rooms that are live, detached and idle for longer than the policy's time to live; all
  of these are stopped and unregistered, and every other room, in particular an attached one or one
  that awaits input, stays registered and unchanged.
\<close>

theorem gc_sweep_stops_exactly_idle:
  assumes "rtm_ok s"
  shows "\<exists>s'. gc_sweep env s =
      (filter (\<lambda>r. room_state (heap s r) = LIVE_DETACHED
          \<and> fst (time_now env (world s)) - last_activity (heap s r) > idle_ttl s) (rooms s), s')
    \<and> (\<forall>r. r \<in> set (rooms s') \<longleftrightarrow> r \<in> set (rooms s)
        \<and> \<not> (room_state (heap s r) = LIVE_DETACHED
              \<and> fst (time_now env (world s)) - last_activity (heap s r) > idle_ttl s))
    \<and> (\<forall>r \<in> set (rooms s'). heap s' r = heap s r)
    \<and> (\<forall>r \<in> set (rooms s) - set (rooms s'). room_state (heap s' r) = STOPPED)"
proof -
  have idle: "idle_rooms env s = filter (\<lambda>r. room_state (heap s r) = LIVE_DETACHED
      \<and> fst (time_now env (world s)) - last_activity (heap s r) > idle_ttl s) (rooms s)"
    by (auto simp: idle_rooms_def gc_idle_def intro!: filter_cong)
  from gc_sweep_effect [OF assms, of env] show ?thesis
    unfolding idle by fastforce
qed

lemma gc_sweep_stops_exactly_idle_witness:
  "fst (gc_sweep demo_services (snd (ensure_room demo_services nb_a None demo_rtm)\<lparr>world := (10, {nb_a})\<rparr>))
   = [[0]]"
proof -
  let ?s = "snd (ensure_room demo_services nb_a None demo_rtm)\<lparr>world := (10, {nb_a})\<rparr>"
  have ok: "rtm_ok ?s"
    using ensure_room_ok [of demo_rtm demo_services nb_a None]
    by (simp add: demo_rtm_def) (simp add: demo_simps)
  from gc_sweep_stops_exactly_idle [OF ok, of demo_services] show ?thesis
    by (elim exE conjE) (simp add: demo_simps)
qed

text \<open>
  What detaching does.  The client is no longer attached; an attached room that lost its last
  client becomes detached (and so open to the sweep), while a room in any other state, in
  particular one that awaits input, keeps it; nothing else changes but the activity time.
\<close>

theorem detach_client_exact:
  "detach_client env r c s =
     (if r \<in> set (rooms s)
      then (Inr r,
        s\<lparr>heap := (heap s)(r := (heap s r)
            \<lparr>attached_clients := attached_clients (heap s r) - {c},
             room_state := (if room_state (heap s r) = LIVE_ATTACHED \<and> attached_clients (heap s r) \<subseteq> {c}
                            then LIVE_DETACHED else room_state (heap s r)),
             last_activity := fst (time_now env (world s))\<rparr>),
          world := snd (time_now env (world s))\<rparr>)
      else (Inl (ValueError (lit ''Room '' @ r @ lit '' not found'')), s))"
proof -
  have "attached_clients (heap s r) - {c} = {} \<longleftrightarrow> attached_clients (heap s r) \<subseteq> {c}" by auto
  then show ?thesis
    by (auto simp: detach_client_def Let_def room_not_found_def mark_activity_def modify_room_def
        read_clock_def split: prod.split)
qed

lemma stop_runtime_other:
  assumes "r' \<noteq> r"
  shows "heap (snd (stop_runtime env r s)) r' = heap s r'"
    and "r' \<in> set (rooms (snd (stop_runtime env r s))) \<longleftrightarrow> r' \<in> set (rooms s)"
proof -
  consider "r \<in> set (rooms s)" "room_state (heap s r) \<notin> {STOPPED, STOPPING}"
    | "snd (stop_runtime env r s) = s"
    using stop_runtime_noop [of r s env] by fastforce
  then show "heap (snd (stop_runtime env r s)) r' = heap s r'"
    and "r' \<in> set (rooms (snd (stop_runtime env r s))) \<longleftrightarrow> r' \<in> set (rooms s)"
    using assms by (cases, use stop_runtime_effect [of r s env] in fastforce, simp)+
qed

lemma stop_runtime_rooms:
  "rooms (snd (stop_runtime env r s)) =
     filter (\<lambda>r'. r' \<noteq> r \<or> room_state (heap s r') \<in> {STOPPED, STOPPING}) (rooms s)"
proof (cases "r \<in> set (rooms s) \<and> room_state (heap s r) \<notin> {STOPPED, STOPPING}")
  case True
  then obtain s' where "stop_runtime env r s = (Inr r, s')" "rooms s' = filter (\<lambda>r'. r' \<noteq> r) (rooms s)"
    using stop_runtime_effect [of r s env] by blast
  with True show ?thesis by (auto intro: filter_cong)
next
  case False
  then have "snd (stop_runtime env r s) = s"
    by (cases "r \<in> set (rooms s)") (auto simp: stop_runtime_noop)
  with False show ?thesis by (auto intro!: filter_True [symmetric])
qed

lemma stop_all_rooms:
  "distinct rs \<Longrightarrow>
   rooms (fold (\<lambda>r s. snd (stop_runtime env r s)) rs s) =
     filter (\<lambda>r. r \<notin> set rs \<or> room_state (heap s r) \<in> {STOPPED, STOPPING}) (rooms s)"
proof (induction rs arbitrary: s)
  case (Cons r rs)
  have "room_state (heap (snd (stop_runtime env r s)) r') = room_state (heap s r')" if "r' \<in> set rs" for r'
  proof -
    have "r' \<noteq> r" using that Cons.prems by auto
    then show ?thesis by (simp add: stop_runtime_other)
  qed
  with Cons show ?case by (auto simp: stop_runtime_rooms intro!: filter_cong)
qed simp

lemma stop_all_other:
  "r \<notin> set rs \<Longrightarrow> heap (fold (\<lambda>r s. snd (stop_runtime env r s)) rs s) r = heap s r"
  by (induction rs arbitrary: s) (simp_all add: stop_runtime_other)

text \<open>
  Shutdown.  Whatever the services answer, shutting the manager down unregisters every room
  but those that were already stopped or being stopped; so no live room is left.
\<close>

theorem shutdown_unregisters_every_room:
  assumes "distinct (rooms s)"
  shows "rooms (shutdown env s) = filter (\<lambda>r. room_state (heap s r) \<in> {STOPPED, STOPPING}) (rooms s)"
  unfolding shutdown_def stop_all_rooms [OF assms] by (rule filter_cong) simp_all

lemma shutdown_unregisters_every_room_witness:
  "rooms (shutdown demo_services (snd (ensure_room demo_services nb_a None demo_rtm))) = []"
  by (subst shutdown_unregisters_every_room) (simp_all add: demo_simps)


text \<open>
  C17: two opens of one notebook can both succeed on different rooms.  While one call awaits
  \<open>create_session\<close>, its room is registered without a kernel; a second call takes that room for a
  dead one and opens another; when the first call's session arrives its room goes live too.  The
  notebook then has two live rooms with two sessions, and its entry names only the second: the
  manager's operations serialise nothing across this await.
\<close>

theorem concurrent_open_two_live_rooms:
  assumes first_begins: "open_begin env nb s = (r1, s1)"
    and fresh: "drawn_uuid env (s1\<lparr>world := w1\<rparr>) \<notin> set (rooms s1)"
    and second: "ensure_room env nb kname (s1\<lparr>world := w1\<rparr>) = (Inr r2, s2)"
    and first_ends: "open_finish env r1 (Inr sess) (s2\<lparr>world := w2\<rparr>) = (res, s3)"
  shows "res = Inr r1 \<and> r1 \<noteq> r2 \<and> {r1, r2} \<subseteq> set (rooms s3)
    \<and> is_live (heap s3 r1) \<and> is_live (heap s3 r2)
    \<and> room_notebook_id (heap s3 r1) = nb \<and> room_notebook_id (heap s3 r2) = nb
    \<and> get_room_for_notebook nb s3 = Some r2"
proof -
  let ?s = "s1\<lparr>world := w1\<rparr>" and ?s' = "refresh_room env r1 (s1\<lparr>world := w1\<rparr>)"
  have s1: "notebook_to_room s1 nb = Some r1" "r1 \<in> set (rooms s1)" "kernel_id (heap s1 r1) = None"
    "room_state (heap s1 r1) = STARTING" "room_notebook_id (heap s1 r1) = nb"
    by (rule register_room_effect [OF first_begins [unfolded open_begin_def]], simp)+
  have known: "load_or_refresh_room env nb ?s = (Inr (Some r1), ?s')"
    using s1 by (simp add: load_or_refresh_room_def get_room_for_notebook_def)
  have dead: "\<not> is_live (heap ?s' r1)" "room_notebook_id (heap ?s' r1) = nb"
    using s1 by (simp_all add: refresh_room_def is_live_def)
  obtain d where new: "open_new_room env nb d ?s' = (Inr r2, s2)"
    using second dead by (auto simp: ensure_room_def known Let_def)
  have eff: "r2 = drawn_uuid env ?s'" "r2 \<in> set (rooms s2)" "r1 \<in> set (rooms s2)"
    "notebook_to_room s2 nb = Some r2" "room_notebook_id (heap s2 r2) = nb" "is_live (heap s2 r2)"
    "r1 \<noteq> r2 \<Longrightarrow> heap s2 r1 = heap ?s' r1"
    by (rule open_new_room_effect [OF new], simp add: s1 is_live_def)+
  have "r1 \<noteq> r2" using eff(1) fresh s1(2) by (auto simp: drawn_uuid_def)
  with eff dead(2) first_ends show ?thesis
    by (auto simp: open_finish_def get_room_for_notebook_def is_live_def)
qed

definition demo_session :: session where
  "demo_session = \<lparr>sess_id = lit ''s'', sess_kernel_id = lit ''k'', sess_kernel_name = None\<rparr>"

definition demo_first :: "demo_world rtm" where
  "demo_first = snd (open_begin demo_services nb_a demo_rtm)"

definition demo_second :: "demo_world rtm" where
  "demo_second = snd (ensure_room demo_services nb_a None (demo_first\<lparr>world := (3, {})\<rparr>))"

lemma concurrent_open_two_live_rooms_witness:
  "is_live (heap (snd (open_finish demo_services [0] (Inr demo_session) demo_second)) [0])
   \<and> is_live (heap (snd (open_finish demo_services [0] (Inr demo_session) demo_second)) [3])"
proof -
  have 1: "open_begin demo_services nb_a demo_rtm = ([0], demo_first)"
    and 2: "drawn_uuid demo_services (demo_first\<lparr>world := (3, {})\<rparr>) \<notin> set (rooms demo_first)"
    and 3: "ensure_room demo_services nb_a None (demo_first\<lparr>world := (3, {})\<rparr>)
      = (Inr [3], demo_second)"
    by (simp_all add: demo_first_def demo_second_def demo_simps)
  have 4: "open_finish demo_services [0] (Inr demo_session) (demo_second\<lparr>world := world demo_second\<rparr>)
    = (Inr [0], snd (open_finish demo_services [0] (Inr demo_session) demo_second))"
    by (simp add: open_finish_def)
  from concurrent_open_two_live_rooms [OF 1 2 3 4] show ?thesis by blast
qed

end
