(* ===== verification/Hn_Json.thy ===== *)
theory Hn_Json
  imports Hn_Prelude
begin

text \<open>
  JSON values as the code handles them after \<open>json.loads\<close> or before \<open>json.dumps\<close>: request
  and response bodies, notebook cells, kernel outputs.  With them, the parts of Python's data
  model the code applies to such values: truthiness, \<open>str\<close> and \<open>repr\<close>, \<open>dict.get\<close>, and the
  serialiser with its options.
\<close>

text \<open>A float is carried as its \<open>repr\<close>: the code never computes with one that comes from JSON.\<close>

datatype json =
    JNull
  | JBool bool
  | JInt int
  | JFloat pystr
  | JStr pystr
  | JList "json list"
  | JDict "(pystr \<times> json) list"

type_synonym jobj = "(pystr, json) pydict"

abbreviation field :: "string \<Rightarrow> jobj \<Rightarrow> json option" where
  "field k d \<equiv> dict_get d (lit k)"

definition get_or :: "string \<Rightarrow> json \<Rightarrow> jobj \<Rightarrow> json" where
  "get_or k dflt d = (case field k d of None \<Rightarrow> dflt | Some v \<Rightarrow> v)"

abbreviation set_field :: "string \<Rightarrow> json \<Rightarrow> jobj \<Rightarrow> jobj" where
  "set_field k v d \<equiv> dict_set (lit k) v d"

fun is_dict :: "json \<Rightarrow> bool" where
  "is_dict (JDict d) = True"
| "is_dict _ = False"

fun dict_of :: "json \<Rightarrow> jobj" where
  "dict_of (JDict d) = d"
| "dict_of _ = []"

fun list_of :: "json \<Rightarrow> json list" where
  "list_of (JList xs) = xs"
| "list_of _ = []"

text \<open>\<open>None\<close> for a missing value, as \<open>dict.get\<close> answers it.\<close>

definition opt_json :: "json option \<Rightarrow> json" where
  "opt_json v = (case v of None \<Rightarrow> JNull | Some j \<Rightarrow> j)"

definition opt_str :: "pystr option \<Rightarrow> json" where
  "opt_str v = (case v of None \<Rightarrow> JNull | Some s \<Rightarrow> JStr s)"

fun truthy :: "json \<Rightarrow> bool" where
  "truthy JNull = False"
| "truthy (JBool b) = b"
| "truthy (JInt i) = (i \<noteq> 0)"
| "truthy (JFloat s) = (s \<noteq> lit ''0.0'' \<and> s \<noteq> lit ''-0.0'')"
| "truthy (JStr s) = (s \<noteq> [])"
| "truthy (JList xs) = (xs \<noteq> [])"
| "truthy (JDict d) = (d \<noteq> [])"

text \<open>An attribute access or a call that a value of this type does not have.\<close>

definition attribute_error :: pyexc where
  "attribute_error = OtherError (lit ''AttributeError'') []"

definition type_error :: pyexc where
  "type_error = OtherError (lit ''TypeError'') []"

definition key_error :: "pystr \<Rightarrow> pyexc" where
  "key_error k = OtherError (lit ''KeyError'') ([39] @ k @ [39])"

text \<open>\<open>x.get(k, dflt)\<close> on a value that may not be a dictionary.\<close>

definition py_get :: "string \<Rightarrow> json \<Rightarrow> json \<Rightarrow> pyexc + json" where
  "py_get k dflt j = (case j of JDict d \<Rightarrow> Inr (get_or k dflt d) | _ \<Rightarrow> Inl attribute_error)"

text \<open>\<open>x[k]\<close> on a dictionary.\<close>

definition item_of :: "string \<Rightarrow> jobj \<Rightarrow> pyexc + json" where
  "item_of k d = (case field k d of None \<Rightarrow> Inl (key_error (lit k)) | Some v \<Rightarrow> Inr v)"

text \<open>\<open>list(x)\<close> on a list, a dictionary (its keys) or a string (its characters).\<close>

definition py_list :: "json \<Rightarrow> pyexc + json list" where
  "py_list j =
     (case j of
        JList xs \<Rightarrow> Inr xs
      | JDict d \<Rightarrow> Inr (map JStr (dict_keys d))
      | JStr s \<Rightarrow> Inr (map (\<lambda>c. JStr [c]) s)
      | _ \<Rightarrow> Inl type_error)"

section \<open>Hexadecimal digits\<close>

definition hex_digit :: "nat \<Rightarrow> nat" where
  "hex_digit d = (if d < 10 then 48 + d else 87 + d)"

primrec hex_fixed :: "nat \<Rightarrow> nat \<Rightarrow> pystr" where
  "hex_fixed 0 n = []"
| "hex_fixed (Suc w) n = hex_fixed w (n div 16) @ [hex_digit (n mod 16)]"

lemma length_hex_fixed [simp]: "length (hex_fixed w n) = w"
  by (induction w arbitrary: n) simp_all

text \<open>Reading \<open>w\<close> hexadecimal digits, in either case.\<close>

definition hex_val :: "nat \<Rightarrow> nat option" where
  "hex_val d =
     (if 48 \<le> d \<and> d \<le> 57 then Some (d - 48)
      else if 97 \<le> d \<and> d \<le> 102 then Some (d - 87)
      else if 65 \<le> d \<and> d \<le> 70 then Some (d - 55) else None)"

fun read_hex :: "nat \<Rightarrow> nat \<Rightarrow> pystr \<Rightarrow> (nat \<times> pystr) option" where
  "read_hex 0 acc s = Some (acc, s)"
| "read_hex (Suc w) acc [] = None"
| "read_hex (Suc w) acc (d # ds) =
     (case hex_val d of None \<Rightarrow> None | Some v \<Rightarrow> read_hex w (16 * acc + v) ds)"

lemma read_hex_length: "read_hex w acc s = Some (v, t) \<Longrightarrow> length t \<le> length s"
  by (induction w acc s rule: read_hex.induct) (force split: option.splits)+

lemma hex_val_digit: "d < 16 \<Longrightarrow> hex_val (hex_digit d) = Some d"
  by (auto simp: hex_val_def hex_digit_def)

lemma read_hex_add:
  "read_hex (v + w) acc s = Option.bind (read_hex v acc s) (\<lambda>(a, t). read_hex w a t)"
  by (induction v acc s rule: read_hex.induct) (auto split: option.split)

lemma read_hex_fixed: "read_hex w acc (hex_fixed w n @ s) = Some (acc * 16 ^ w + n mod 16 ^ w, s)"
proof (induction w arbitrary: acc n s)
  case 0
  then show ?case by simp
next
  case (Suc w)
  have "read_hex (w + 1) acc (hex_fixed w (n div 16) @ hex_digit (n mod 16) # s)
    = Some (16 * (acc * 16 ^ w + n div 16 mod 16 ^ w) + n mod 16, s)"
    unfolding read_hex_add by (simp add: Suc.IH hex_val_digit)
  moreover have "n mod (16 * 16 ^ w) = 16 * (n div 16 mod 16 ^ w) + n mod 16"
    by (rule mod_mult2_eq)
  ultimately show ?case by (simp add: algebra_simps)
qed

lemma lit_escape [simp]:
  "lit [CHR 0x5C, CHR 0x74] = [92, 116]" "lit [CHR 0x5C, CHR 0x6E] = [92, 110]"
  "lit [CHR 0x5C, CHR 0x72] = [92, 114]" "lit [CHR 0x5C, CHR 0x78] = [92, 120]"
  "lit [CHR 0x5C, CHR 0x75] = [92, 117]" "lit [CHR 0x5C, CHR 0x55] = [92, 85]"
  by (simp_all add: lit_def)

section \<open>\<open>str\<close> and \<open>repr\<close>\<close>

text \<open>
  \<open>str.isprintable\<close> depends on the interpreter's Unicode tables, so it is a parameter for the
  code points beyond ASCII.
\<close>

definition repr_char :: "(nat \<Rightarrow> bool) \<Rightarrow> nat \<Rightarrow> nat \<Rightarrow> pystr" where
  "repr_char printable quote c =
     (if c = quote \<or> c = 92 then [92, c]
      else if c = 9 then lit [CHR 0x5C, CHR 0x74]
      else if c = 10 then lit [CHR 0x5C, CHR 0x6E]
      else if c = 13 then lit [CHR 0x5C, CHR 0x72]
      else if c < 32 \<or> c = 127 then lit [CHR 0x5C, CHR 0x78] @ hex_fixed 2 c
      else if c < 127 \<or> printable c then [c]
      else if c < 256 then lit [CHR 0x5C, CHR 0x78] @ hex_fixed 2 c
      else if c < 65536 then lit [CHR 0x5C, CHR 0x75] @ hex_fixed 4 c
      else lit [CHR 0x5C, CHR 0x55] @ hex_fixed 8 c)"

definition repr_str :: "(nat \<Rightarrow> bool) \<Rightarrow> pystr \<Rightarrow> pystr" where
  "repr_str printable s =
     (let quote = (if 39 \<in> set s \<and> 34 \<notin> set s then 34 else 39)
      in [quote] @ concat (map (repr_char printable quote) s) @ [quote])"

fun py_repr :: "(nat \<Rightarrow> bool) \<Rightarrow> json \<Rightarrow> pystr" where
  "py_repr pr JNull = lit ''None''"
| "py_repr pr (JBool b) = (if b then lit ''True'' else lit ''False'')"
| "py_repr pr (JInt i) = int_str i"
| "py_repr pr (JFloat s) = s"
| "py_repr pr (JStr s) = repr_str pr s"
| "py_repr pr (JList xs) = lit ''['' @ py_join (lit '', '') (map (py_repr pr) xs) @ lit '']''"
| "py_repr pr (JDict d) =
     [123] @ py_join (lit '', '') (map (\<lambda>(k, v). repr_str pr k @ lit '': '' @ py_repr pr v) d) @ [125]"

definition py_str :: "(nat \<Rightarrow> bool) \<Rightarrow> json \<Rightarrow> pystr" where
  "py_str pr j = (case j of JStr s \<Rightarrow> s | _ \<Rightarrow> py_repr pr j)"

section \<open>The source of a cell\<close>

text \<open>\<open>_cell_source\<close>: a list of lines is joined; its elements must be strings.\<close>

fun join_strs :: "json list \<Rightarrow> pyexc + pystr" where
  "join_strs [] = Inr []"
| "join_strs (JStr s # xs) = (case join_strs xs of Inl e \<Rightarrow> Inl e | Inr t \<Rightarrow> Inr (s @ t))"
| "join_strs (_ # xs) = Inl type_error"

definition cell_source :: "(nat \<Rightarrow> bool) \<Rightarrow> jobj \<Rightarrow> pyexc + pystr" where
  "cell_source pr c =
     (case get_or ''source'' (JStr []) c of
        JList xs \<Rightarrow> join_strs xs
      | j \<Rightarrow> Inr (py_str pr j))"

section \<open>\<open>json.dumps\<close>\<close>

definition unicode_escape :: "nat \<Rightarrow> pystr" where
  "unicode_escape c =
     (if c < 65536 then lit [CHR 0x5C, CHR 0x75] @ hex_fixed 4 c
      else lit [CHR 0x5C, CHR 0x75] @ hex_fixed 4 (55296 + (c - 65536) div 1024)
           @ lit [CHR 0x5C, CHR 0x75] @ hex_fixed 4 (56320 + (c - 65536) mod 1024))"

definition json_char :: "bool \<Rightarrow> nat \<Rightarrow> pystr" where
  "json_char ensure_ascii c =
     (if c = 34 \<or> c = 92 then [92, c]
      else if c = 8 then lit [CHR 0x5C, CHR 0x62]
      else if c = 9 then lit [CHR 0x5C, CHR 0x74]
      else if c = 10 then lit [CHR 0x5C, CHR 0x6E]
      else if c = 12 then lit [CHR 0x5C, CHR 0x66]
      else if c = 13 then lit [CHR 0x5C, CHR 0x72]
      else if c < 32 \<or> (ensure_ascii \<and> c > 126) then unicode_escape c
      else [c])"

definition json_string :: "bool \<Rightarrow> pystr \<Rightarrow> pystr" where
  "json_string ascii s = [34] @ concat (map (json_char ascii) s) @ [34]"

definition json_float :: "pystr \<Rightarrow> pystr" where
  "json_float s =
     (if s = lit ''nan'' then lit ''NaN''
      else if s = lit ''inf'' then lit ''Infinity''
      else if s = lit ''-inf'' then lit ''-Infinity'' else s)"

text \<open>The options the code passes: separators, key order, ASCII only.\<close>

record dump_options =
  item_sep :: pystr
  key_sep :: pystr
  sort_keys :: bool
  ensure_ascii :: bool

definition default_dump :: dump_options where
  "default_dump = \<lparr>item_sep = lit '', '', key_sep = lit '': '', sort_keys = False, ensure_ascii = True\<rparr>"

fun dumps :: "dump_options \<Rightarrow> json \<Rightarrow> pystr" where
  "dumps opt JNull = lit ''null''"
| "dumps opt (JBool b) = (if b then lit ''true'' else lit ''false'')"
| "dumps opt (JInt i) = int_str i"
| "dumps opt (JFloat s) = json_float s"
| "dumps opt (JStr s) = json_string (ensure_ascii opt) s"
| "dumps opt (JList xs) = lit ''['' @ py_join (item_sep opt) (map (dumps opt) xs) @ lit '']''"
| "dumps opt (JDict d) =
     [123] @ py_join (item_sep opt)
       (map (\<lambda>(k, v). json_string (ensure_ascii opt) k @ key_sep opt @ v)
         (let items = map (\<lambda>(k, v). (k, dumps opt v)) d
          in if sort_keys opt then sort_key fst items else items)) @ [125]"

declare dumps.simps [simp del]

end
