(* ===== verification/Hn_Notebook.thy ===== *)
theory Hn_Notebook
  imports Hn_Json
begin

text \<open>
  The shared notebook accessor of \<^verbatim>\<open>execution_orchestrator.py\<close>: reading and editing a notebook
  through its live document room.  A document is the list of its Y cells, a cell being the
  dictionary its shared map holds, and the rest of the notebook.  The document store and
  everything behind it (contents manager, file identifiers, room server, the conversions of
  \<^verbatim>\<open>jupyter_ydoc\<close>) are the record \<open>notebook_env\<close>.
\<close>

section \<open>State\<close>

text \<open>\<open>doc_ready\<close> is the room's own flag: \<open>initialize\<close> loads the file once.\<close>

record doc =
  ycells :: "jobj list"
  ymeta :: jobj
  doc_ready :: bool

definition empty_doc :: doc where
  "empty_doc = \<lparr>ycells = [], ymeta = [], doc_ready = False\<rparr>"

datatype doc_room = DocumentRoom doc | OtherRoom

record 'w notebook_env =
  contents_get :: "pystr \<Rightarrow> 'w \<Rightarrow> (json, 'w) outcome"
  contents_new_untitled :: "pystr \<Rightarrow> 'w \<Rightarrow> (pystr, 'w) outcome"
  contents_rename :: "pystr \<Rightarrow> pystr \<Rightarrow> 'w \<Rightarrow> (pystr, 'w) outcome"
  contents_save :: "json \<Rightarrow> pystr \<Rightarrow> 'w \<Rightarrow> (unit, 'w) outcome"
  file_index :: "pystr \<Rightarrow> 'w \<Rightarrow> pystr \<times> 'w"
  room_of_file :: "pystr \<Rightarrow> pystr"
  room_start :: "pystr \<Rightarrow> 'w \<Rightarrow> (unit, 'w) outcome"
  room_initialize :: "pystr \<Rightarrow> doc \<Rightarrow> 'w \<Rightarrow> (doc, 'w) outcome"
  room_save :: "pystr \<Rightarrow> doc \<Rightarrow> 'w \<Rightarrow> (unit, 'w) outcome"
  create_ycell :: "jobj \<Rightarrow> 'w \<Rightarrow> (jobj, 'w) outcome"
  read_ycell :: "jobj \<Rightarrow> jobj"
  doc_get :: "doc \<Rightarrow> jobj"
  doc_aset :: "jobj \<Rightarrow> doc \<Rightarrow> 'w \<Rightarrow> (doc, 'w) outcome"
  printable_char :: "nat \<Rightarrow> bool"

record 'w notebooks =
  nb_world :: 'w
  doc_rooms :: "pystr \<Rightarrow> doc_room option"
  server_started :: bool

definition on_world :: "('w \<Rightarrow> ('a, 'w) outcome) \<Rightarrow> 'w notebooks \<Rightarrow> ('a, 'w notebooks) outcome" where
  "on_world f s = (case f (nb_world s) of (r, w) \<Rightarrow> (r, s\<lparr>nb_world := w\<rparr>))"

definition doc_of :: "'w notebooks \<Rightarrow> pystr \<Rightarrow> doc" where
  "doc_of s rid = (case doc_rooms s rid of Some (DocumentRoom d) \<Rightarrow> d | _ \<Rightarrow> empty_doc)"

definition put_doc :: "pystr \<Rightarrow> doc \<Rightarrow> 'w notebooks \<Rightarrow> (unit, 'w notebooks) outcome" where
  "put_doc rid d s = (Inr (), s\<lparr>doc_rooms := (doc_rooms s)(rid := Some (DocumentRoom d))\<rparr>)"

definition read_doc :: "pystr \<Rightarrow> 'w notebooks \<Rightarrow> (doc, 'w notebooks) outcome" where
  "read_doc rid s = (Inr (doc_of s rid), s)"

section \<open>Positions and cell lookup\<close>

definition cell_not_found :: "pystr \<Rightarrow> pyexc" where
  "cell_not_found c = ValueError (lit ''Cell '' @ c @ lit '' not found'')"

definition cell_not_found_in :: "pystr \<Rightarrow> pystr \<Rightarrow> pyexc" where
  "cell_not_found_in c nb = ValueError (lit ''Cell '' @ c @ lit '' not found in notebook '' @ nb)"

definition validate_position :: "pystr option \<Rightarrow> pystr option \<Rightarrow> pyexc + unit" where
  "validate_position before after =
     (if before \<noteq> None \<and> after \<noteq> None
      then Inl (ValueError (lit ''Specify only one of before= or after='')) else Inr ())"

fun find_cell_index :: "jobj list \<Rightarrow> pystr \<Rightarrow> pyexc + nat" where
  "find_cell_index [] cid = Inl (cell_not_found cid)"
| "find_cell_index (c # cs) cid =
     (if opt_json (field ''id'' c) = JStr cid then Inr 0
      else case find_cell_index cs cid of Inl e \<Rightarrow> Inl e | Inr i \<Rightarrow> Inr (Suc i))"

text \<open>On Y cells a missing identifier raises.\<close>

fun find_ycell_index :: "jobj list \<Rightarrow> pystr \<Rightarrow> pyexc + nat" where
  "find_ycell_index [] cid = Inl (cell_not_found cid)"
| "find_ycell_index (c # cs) cid =
     (case field ''id'' c of
        None \<Rightarrow> Inl (key_error (lit ''id''))
      | Some i \<Rightarrow>
          if i = JStr cid then Inr 0
          else case find_ycell_index cs cid of Inl e \<Rightarrow> Inl e | Inr n \<Rightarrow> Inr (Suc n))"

definition resolve_insert_index :: "jobj list \<Rightarrow> pystr option \<Rightarrow> pystr option \<Rightarrow> pyexc + nat" where
  "resolve_insert_index cells before after =
     (case before of
        Some b \<Rightarrow> find_cell_index cells b
      | None \<Rightarrow>
          (case after of
             None \<Rightarrow> Inr (length cells)
           | Some a \<Rightarrow> (case find_cell_index cells a of Inl e \<Rightarrow> Inl e | Inr i \<Rightarrow> Inr (i + 1))))"

text \<open>
  \<open>x or {}\<close> made a dictionary or a shared map.  The metadata of a cell is a dictionary or empty
  in every document; for other values Python's conversion raises, and the kind is not told apart.
\<close>

definition as_dict :: "json \<Rightarrow> pyexc + jobj" where
  "as_dict j = (if \<not> truthy j then Inr [] else case j of JDict d \<Rightarrow> Inr d | _ \<Rightarrow> Inl type_error)"

definition position_key :: "nat \<Rightarrow> json" where
  "position_key i = JStr (pad_left 9 (dec_digits i))"

definition with_position_key :: "nat \<Rightarrow> jobj \<Rightarrow> jobj \<Rightarrow> jobj \<Rightarrow> jobj" where
  "with_position_key i hn md c =
     set_field ''metadata''
       (JDict (set_field ''hypernote'' (JDict (set_field ''position_key'' (position_key i) hn)) md)) c"

text \<open>On the plain cells of \<open>move_cell\<close>, which are copies: an exception leaves no trace.\<close>

definition key_cell :: "nat \<Rightarrow> jobj \<Rightarrow> pyexc + jobj" where
  "key_cell i c =
     (case as_dict (opt_json (field ''metadata'' c)) of
        Inl e \<Rightarrow> Inl e
      | Inr md \<Rightarrow>
          (case as_dict (opt_json (field ''hypernote'' md)) of
             Inl e \<Rightarrow> Inl e
           | Inr hn \<Rightarrow> Inr (with_position_key i hn md c)))"

fun assign_position_keys_from :: "nat \<Rightarrow> jobj list \<Rightarrow> pyexc + jobj list" where
  "assign_position_keys_from i [] = Inr []"
| "assign_position_keys_from i (c # cs) =
     (case key_cell i c of
        Inl e \<Rightarrow> Inl e
      | Inr c' \<Rightarrow>
          (case assign_position_keys_from (Suc i) cs of Inl e \<Rightarrow> Inl e | Inr cs' \<Rightarrow> Inr (c' # cs')))"

definition assign_position_keys :: "jobj list \<Rightarrow> pyexc + jobj list" where
  "assign_position_keys cells = assign_position_keys_from 0 cells"

text \<open>On the shared cells, in place: the cells before the one that raises keep their new keys.\<close>

definition key_ycell :: "nat \<Rightarrow> jobj \<Rightarrow> (unit, jobj) outcome" where
  "key_ycell i c =
     (case as_dict (opt_json (field ''metadata'' c)) of
        Inl e \<Rightarrow> (Inl e, c)
      | Inr md \<Rightarrow>
          let c1 = (if is_dict (opt_json (field ''metadata'' c)) then c
                    else set_field ''metadata'' (JDict md) c)
          in case as_dict (opt_json (field ''hypernote'' md)) of
               Inl e \<Rightarrow> (Inl e, c1)
             | Inr hn \<Rightarrow> (Inr (), with_position_key i hn md c1))"

fun assign_position_keys_ycells_from :: "nat \<Rightarrow> jobj list \<Rightarrow> (unit, jobj list) outcome" where
  "assign_position_keys_ycells_from i [] = (Inr (), [])"
| "assign_position_keys_ycells_from i (c # cs) =
     (case key_ycell i c of
        (Inl e, c') \<Rightarrow> (Inl e, c' # cs)
      | (Inr _, c') \<Rightarrow>
          (case assign_position_keys_ycells_from (Suc i) cs of (r, cs') \<Rightarrow> (r, c' # cs')))"

definition assign_position_keys_ycells :: "pystr \<Rightarrow> 'w notebooks \<Rightarrow> (unit, 'w notebooks) outcome" where
  "assign_position_keys_ycells rid s =
     (case assign_position_keys_ycells_from 0 (ycells (doc_of s rid)) of
        (r, cs) \<Rightarrow> (r, snd (put_doc rid ((doc_of s rid)\<lparr>ycells := cs\<rparr>) s)))"

section \<open>Document rooms\<close>

definition initialize_room :: "'w notebook_env \<Rightarrow> pystr \<Rightarrow> 'w notebooks \<Rightarrow> (pystr, 'w notebooks) outcome" where
  "initialize_room env rid =
     mbind (read_doc rid) (\<lambda>d.
     mbind (on_world (room_initialize env rid d)) (\<lambda>d'.
     mbind (put_doc rid d') (\<lambda>_.
     mret rid)))"

definition start_server :: "'w notebooks \<Rightarrow> (unit, 'w notebooks) outcome" where
  "start_server s = (Inr (), s\<lparr>server_started := True\<rparr>)"

definition get_document_room :: "'w notebook_env \<Rightarrow> pystr \<Rightarrow> 'w notebooks \<Rightarrow> (pystr, 'w notebooks) outcome" where
  "get_document_room env nb =
     mbind (on_world (\<lambda>w. case file_index env nb w of (fid, w1) \<Rightarrow> (Inr (room_of_file env fid), w1))) (\<lambda>rid.
     mbind start_server (\<lambda>_ s.
       case doc_rooms s rid of
         Some (DocumentRoom d) \<Rightarrow> initialize_room env rid s
       | Some OtherRoom \<Rightarrow> mraise (RuntimeError (lit ''Room '' @ rid @ lit '' is not a DocumentRoom'')) s
       | None \<Rightarrow>
           mbind (on_world (room_start env rid)) (\<lambda>_.
           mbind (put_doc rid empty_doc) (\<lambda>_.
           initialize_room env rid)) s))"

definition ensure_document_room :: "'w notebook_env \<Rightarrow> pystr \<Rightarrow> 'w notebooks \<Rightarrow> (pystr, 'w notebooks) outcome" where
  "ensure_document_room env nb = get_document_room env nb"

definition save_room :: "'w notebook_env \<Rightarrow> pystr \<Rightarrow> 'w notebooks \<Rightarrow> (unit, 'w notebooks) outcome" where
  "save_room env rid = mbind (read_doc rid) (\<lambda>d. on_world (room_save env rid d))"

definition flush_document :: "'w notebook_env \<Rightarrow> pystr \<Rightarrow> 'w notebooks \<Rightarrow> (unit, 'w notebooks) outcome" where
  "flush_document env nb = mbind (get_document_room env nb) (save_room env)"

section \<open>Reading\<close>

definition get_notebook_model ::
  "'w notebook_env \<Rightarrow> pystr \<Rightarrow> bool \<Rightarrow> 'w notebooks \<Rightarrow> (json, 'w notebooks) outcome" where
  "get_notebook_model env nb content =
     (if \<not> content then on_world (contents_get env nb)
      else
        mbind (on_world (contents_get env nb)) (\<lambda>_.
        mbind (get_document_room env nb) (\<lambda>rid.
        mbind (read_doc rid) (\<lambda>d.
        mret (JDict [(lit ''path'', JStr nb), (lit ''type'', JStr (lit ''notebook'')),
                     (lit ''content'', JDict (doc_get env d))])))))"

text \<open>The cells a notebook's model lists: \<open>model["content"].get("cells", [])\<close>.\<close>

definition model_cells :: "'w notebook_env \<Rightarrow> pystr \<Rightarrow> 'w notebooks \<Rightarrow> (json list, 'w notebooks) outcome" where
  "model_cells env nb =
     mbind (get_notebook_model env nb True) (\<lambda>m.
       of_result (case item_of ''content'' (dict_of m) of
                    Inl e \<Rightarrow> Inl e
                  | Inr content \<Rightarrow>
                      (case py_get ''cells'' (JList []) content of
                         Inl e \<Rightarrow> Inl e
                       | Inr cells \<Rightarrow> py_list cells)))"

definition listed_cell :: "(nat \<Rightarrow> bool) \<Rightarrow> nat \<Rightarrow> json \<Rightarrow> pyexc + json" where
  "listed_cell pr idx cell =
     (case cell of
        JDict c \<Rightarrow>
          (case cell_source pr c of
             Inl e \<Rightarrow> Inl e
           | Inr src \<Rightarrow>
               (case py_list (get_or ''outputs'' (JList []) c) of
                  Inl e \<Rightarrow> Inl e
                | Inr outs \<Rightarrow>
                    Inr (JDict
                      [(lit ''id'', get_or ''id'' (JStr (lit ''cell-'' @ dec_digits idx)) c),
                       (lit ''type'', get_or ''cell_type'' (JStr (lit ''code'')) c),
                       (lit ''source'', JStr src),
                       (lit ''index'', JInt (int idx)),
                       (lit ''execution_count'', get_or ''execution_count'' JNull c),
                       (lit ''outputs'', JList outs),
                       (lit ''metadata'', get_or ''metadata'' (JDict []) c)])))
      | _ \<Rightarrow> Inl attribute_error)"

fun list_cells_from :: "(nat \<Rightarrow> bool) \<Rightarrow> nat \<Rightarrow> json list \<Rightarrow> pyexc + json list" where
  "list_cells_from pr idx [] = Inr []"
| "list_cells_from pr idx (c # cs) =
     (case listed_cell pr idx c of
        Inl e \<Rightarrow> Inl e
      | Inr x \<Rightarrow> (case list_cells_from pr (Suc idx) cs of Inl e \<Rightarrow> Inl e | Inr xs \<Rightarrow> Inr (x # xs)))"

definition list_cells :: "'w notebook_env \<Rightarrow> pystr \<Rightarrow> 'w notebooks \<Rightarrow> (json list, 'w notebooks) outcome" where
  "list_cells env nb =
     mbind (model_cells env nb) (\<lambda>cells. of_result (list_cells_from (printable_char env) 0 cells))"

text \<open>
  \<open>get_cell\<close> compares with an identifier that need not be a string: an inserted cell may carry
  \<open>None\<close>, which a cell without an identifier equals.
\<close>

fun find_cell :: "json list \<Rightarrow> json \<Rightarrow> pyexc + jobj option" where
  "find_cell [] cid = Inr None"
| "find_cell (JDict c # cs) cid =
     (if opt_json (field ''id'' c) = cid then Inr (Some c) else find_cell cs cid)"
| "find_cell (_ # cs) cid = Inl attribute_error"

definition get_cell :: "'w notebook_env \<Rightarrow> pystr \<Rightarrow> json \<Rightarrow> 'w notebooks \<Rightarrow> (jobj, 'w notebooks) outcome" where
  "get_cell env nb cid =
     mbind (model_cells env nb) (\<lambda>cells.
       of_result (case find_cell cells cid of
                    Inl e \<Rightarrow> Inl e
                  | Inr (Some c) \<Rightarrow> Inr c
                  | Inr None \<Rightarrow> Inl (cell_not_found_in (py_str (printable_char env) cid) nb)))"

text \<open>The Y cells with an identifier; every comparison of the comprehension reads \<open>ycell["id"]\<close>.\<close>

definition get_ycell :: "'w notebook_env \<Rightarrow> pystr \<Rightarrow> pystr \<Rightarrow> 'w notebooks \<Rightarrow> (jobj option, 'w notebooks) outcome" where
  "get_ycell env nb cid =
     mbind (get_document_room env nb) (\<lambda>rid.
     mbind (read_doc rid) (\<lambda>d.
       of_result (if \<exists>c \<in> set (ycells d). field ''id'' c = None then Inl (key_error (lit ''id''))
                  else Inr (case filter (\<lambda>c. field ''id'' c = Some (JStr cid)) (ycells d) of
                              [] \<Rightarrow> None | c # _ \<Rightarrow> Some c))))"

definition get_cell_source :: "'w notebook_env \<Rightarrow> pystr \<Rightarrow> pystr \<Rightarrow> 'w notebooks \<Rightarrow> (pystr, 'w notebooks) outcome" where
  "get_cell_source env nb cid =
     mbind (ensure_document_room env nb) (\<lambda>_.
     mbind (get_ycell env nb cid) (\<lambda>yc.
       of_result (case yc of
                    None \<Rightarrow> Inl (cell_not_found_in cid nb)
                  | Some c \<Rightarrow>
                      (case item_of ''source'' c of
                         Inl e \<Rightarrow> Inl e
                       | Inr src \<Rightarrow> Inr (py_str (printable_char env) src)))))"

text \<open>\<open>str(kernelspec.get("name") or "python3")\<close>.\<close>

definition kernelspec_name :: "(nat \<Rightarrow> bool) \<Rightarrow> json \<Rightarrow> pyexc + pystr" where
  "kernelspec_name pr model =
     (case py_get ''content'' (JDict []) model of Inl e \<Rightarrow> Inl e | Inr content \<Rightarrow>
      case py_get ''metadata'' (JDict []) content of Inl e \<Rightarrow> Inl e | Inr metadata \<Rightarrow>
      case py_get ''kernelspec'' (JDict []) metadata of Inl e \<Rightarrow> Inl e | Inr kernelspec \<Rightarrow>
      case py_get ''name'' JNull kernelspec of Inl e \<Rightarrow> Inl e | Inr name \<Rightarrow>
        Inr (if truthy name then py_str pr name else lit ''python3''))"

definition get_kernelspec_name :: "'w notebook_env \<Rightarrow> pystr \<Rightarrow> 'w notebooks \<Rightarrow> (pystr, 'w notebooks) outcome" where
  "get_kernelspec_name env nb =
     mbind (get_notebook_model env nb True) (\<lambda>m. of_result (kernelspec_name (printable_char env) m))"

section \<open>Editing\<close>

text \<open>\<open>str(PurePosixPath(p).parent)\<close> for the paths the code passes: what precedes the last slash.\<close>

definition posix_parent :: "pystr \<Rightarrow> pystr" where
  "posix_parent p =
     (if 47 \<notin> set p then lit ''.''
      else let dir = rev (tl (dropWhile (\<lambda>c. c \<noteq> 47) (rev p))) in if dir = [] then lit ''/'' else dir)"

definition create_notebook :: "'w notebook_env \<Rightarrow> pystr \<Rightarrow> json \<Rightarrow> 'w notebooks \<Rightarrow> (json, 'w notebooks) outcome" where
  "create_notebook env nb model =
     (let dir = posix_parent nb
      in mbind (on_world (contents_new_untitled env (if dir = lit ''.'' then [] else dir))) (\<lambda>created.
         mbind (if created \<noteq> nb then on_world (contents_rename env created nb) else mret created) (\<lambda>_.
         mbind (on_world (contents_save env model nb)) (\<lambda>_.
         mbind (get_document_room env nb) (\<lambda>rid.
         mbind (initialize_room env rid) (\<lambda>_.
         mbind (save_room env rid) (\<lambda>_.
         get_notebook_model env nb True)))))))"

definition update_ycells :: "pystr \<Rightarrow> (jobj list \<Rightarrow> jobj list) \<Rightarrow> 'w notebooks \<Rightarrow> (unit, 'w notebooks) outcome" where
  "update_ycells rid f = mbind (read_doc rid) (\<lambda>d. put_doc rid (d\<lparr>ycells := f (ycells d)\<rparr>))"

text \<open>\<open>ycells.append\<close> at or past the end, \<open>ycells.insert\<close> before.\<close>

definition insert_at :: "nat \<Rightarrow> 'a \<Rightarrow> 'a list \<Rightarrow> 'a list" where
  "insert_at i x xs = take i xs @ x # drop i xs"

definition remove_at :: "nat \<Rightarrow> 'a list \<Rightarrow> 'a list" where
  "remove_at i xs = take i xs @ drop (Suc i) xs"

definition insert_cell ::
  "'w notebook_env \<Rightarrow> pystr \<Rightarrow> jobj \<Rightarrow> pystr option \<Rightarrow> pystr option \<Rightarrow> 'w notebooks
   \<Rightarrow> (jobj, 'w notebooks) outcome" where
  "insert_cell env nb cell before after =
     mbind (of_result (validate_position before after)) (\<lambda>_.
     mbind (get_document_room env nb) (\<lambda>rid.
     mbind (read_doc rid) (\<lambda>d.
     mbind (of_result (resolve_insert_index (map (read_ycell env) (ycells d)) before after)) (\<lambda>index.
     mbind (on_world (create_ycell env cell)) (\<lambda>yc.
     mbind (update_ycells rid (\<lambda>cs. if index \<ge> length cs then cs @ [yc] else insert_at index yc cs)) (\<lambda>_.
     mbind (assign_position_keys_ycells rid) (\<lambda>_.
     mbind (save_room env rid) (\<lambda>_.
     mbind (of_result (item_of ''id'' cell)) (\<lambda>cid.
     get_cell env nb cid)))))))))"

text \<open>\<open>notebook.set_cell(index, cell)\<close> stores the Y cell made of the cell.\<close>

definition set_cell :: "'w notebook_env \<Rightarrow> pystr \<Rightarrow> nat \<Rightarrow> jobj \<Rightarrow> 'w notebooks \<Rightarrow> (unit, 'w notebooks) outcome" where
  "set_cell env rid index cell =
     mbind (on_world (create_ycell env cell)) (\<lambda>yc. update_ycells rid (\<lambda>cs. cs[index := yc]))"

text \<open>The common shape of \<open>replace_cell_source\<close> and \<open>clear_outputs\<close>: read, change, store, rekey, save.\<close>

definition rewrite_cell ::
  "'w notebook_env \<Rightarrow> pystr \<Rightarrow> pystr \<Rightarrow> (jobj \<Rightarrow> jobj) \<Rightarrow> 'w notebooks \<Rightarrow> (jobj, 'w notebooks) outcome" where
  "rewrite_cell env nb cid f =
     mbind (get_document_room env nb) (\<lambda>rid.
     mbind (read_doc rid) (\<lambda>d.
     mbind (of_result (find_ycell_index (ycells d) cid)) (\<lambda>index.
     mbind (set_cell env rid index (f (read_ycell env (ycells d ! index)))) (\<lambda>_.
     mbind (assign_position_keys_ycells rid) (\<lambda>_.
     mbind (save_room env rid) (\<lambda>_.
     get_cell env nb (JStr cid)))))))"

definition replace_cell_source ::
  "'w notebook_env \<Rightarrow> pystr \<Rightarrow> pystr \<Rightarrow> json \<Rightarrow> 'w notebooks \<Rightarrow> (jobj, 'w notebooks) outcome" where
  "replace_cell_source env nb cid source = rewrite_cell env nb cid (set_field ''source'' source)"

definition clear_outputs ::
  "'w notebook_env \<Rightarrow> pystr \<Rightarrow> pystr \<Rightarrow> 'w notebooks \<Rightarrow> (jobj, 'w notebooks) outcome" where
  "clear_outputs env nb cid =
     rewrite_cell env nb cid (\<lambda>c. set_field ''execution_count'' JNull (set_field ''outputs'' (JList []) c))"

definition delete_cell :: "'w notebook_env \<Rightarrow> pystr \<Rightarrow> pystr \<Rightarrow> 'w notebooks \<Rightarrow> (unit, 'w notebooks) outcome" where
  "delete_cell env nb cid =
     mbind (get_document_room env nb) (\<lambda>rid.
     mbind (read_doc rid) (\<lambda>d.
     mbind (of_result (find_ycell_index (ycells d) cid)) (\<lambda>index.
     mbind (update_ycells rid (remove_at index)) (\<lambda>_.
     mbind (assign_position_keys_ycells rid) (\<lambda>_.
     save_room env rid)))))"

text \<open>The list of cells \<open>move_cell\<close> stores.\<close>

definition moved_cells :: "jobj list \<Rightarrow> pystr \<Rightarrow> pystr option \<Rightarrow> pystr option \<Rightarrow> pyexc + jobj list" where
  "moved_cells cells cid before after =
     (case find_cell_index cells cid of Inl e \<Rightarrow> Inl e | Inr index \<Rightarrow>
      let rest = remove_at index cells
      in case resolve_insert_index rest before after of Inl e \<Rightarrow> Inl e | Inr target \<Rightarrow>
           assign_position_keys (insert_at target (cells ! index) rest))"

definition notebook_value :: "jobj \<Rightarrow> jobj list \<Rightarrow> pyexc + jobj" where
  "notebook_value current cells =
     (case item_of ''metadata'' current of Inl e \<Rightarrow> Inl e | Inr md \<Rightarrow>
      case item_of ''nbformat'' current of Inl e \<Rightarrow> Inl e | Inr fmt \<Rightarrow>
      case item_of ''nbformat_minor'' current of Inl e \<Rightarrow> Inl e | Inr minor \<Rightarrow>
        Inr [(lit ''cells'', JList (map JDict cells)), (lit ''metadata'', md),
             (lit ''nbformat'', fmt), (lit ''nbformat_minor'', minor)])"

definition move_cell ::
  "'w notebook_env \<Rightarrow> pystr \<Rightarrow> pystr \<Rightarrow> pystr option \<Rightarrow> pystr option \<Rightarrow> 'w notebooks
   \<Rightarrow> (jobj, 'w notebooks) outcome" where
  "move_cell env nb cid before after =
     mbind (of_result (validate_position before after)) (\<lambda>_.
     mbind (get_document_room env nb) (\<lambda>rid.
     mbind (read_doc rid) (\<lambda>d.
     mbind (of_result (moved_cells (map (read_ycell env) (ycells d)) cid before after)) (\<lambda>cells.
     mbind (of_result (notebook_value (doc_get env d) cells)) (\<lambda>value.
     mbind (on_world (doc_aset env value d)) (\<lambda>d'.
     mbind (put_doc rid d') (\<lambda>_.
     mbind (save_room env rid) (\<lambda>_.
     get_cell env nb (JStr cid)))))))))"


section \<open>What the code relies on\<close>

text \<open>
  Documented behaviour of \<^verbatim>\<open>jupyter_ydoc\<close> and \<^verbatim>\<open>jupyter_server_ydoc\<close>: a path keeps its file
  identifier, initialising a ready room does nothing, conversions between cells and Y cells keep
  the identifier, the notebook's value lists its cells in order, and after \<open>aset\<close> the cells read
  back are the ones given.
\<close>

definition ydoc_laws :: "'w notebook_env \<Rightarrow> (pystr \<Rightarrow> pystr) \<Rightarrow> bool" where
  "ydoc_laws env room \<longleftrightarrow>
     (\<forall>nb w. room_of_file env (fst (file_index env nb w)) = room nb)
     \<and> (\<forall>rid d w. doc_ready d \<longrightarrow> room_initialize env rid d w = (Inr d, w))
     \<and> (\<forall>rid d w d' w'. room_initialize env rid d w = (Inr d', w') \<longrightarrow> doc_ready d')
     \<and> (\<forall>c w yc w' i. create_ycell env c w = (Inr yc, w') \<and> field ''id'' c = Some i \<longrightarrow> field ''id'' yc = Some i)
     \<and> (\<forall>yc. field ''id'' (read_ycell env yc) = field ''id'' yc)
     \<and> (\<forall>d. field ''cells'' (doc_get env d) = Some (JList (map (\<lambda>c. JDict (read_ycell env c)) (ycells d))))
     \<and> (\<forall>v d w d' w' cs. doc_aset env v d w = (Inr d', w') \<and> field ''cells'' v = Some (JList (map JDict cs))
          \<longrightarrow> map (read_ycell env) (ycells d') = cs \<and> doc_ready d' = doc_ready d)"

lemma ydoc_lawsD:
  assumes "ydoc_laws env room"
  shows "room_of_file env (fst (file_index env nb w)) = room nb"
    and "doc_ready d \<Longrightarrow> room_initialize env rid d w = (Inr d, w)"
    and "room_initialize env rid d w = (Inr d', w') \<Longrightarrow> doc_ready d'"
    and "create_ycell env c w = (Inr yc, w') \<Longrightarrow> field ''id'' c = Some i \<Longrightarrow> field ''id'' yc = Some i"
    and "field ''id'' (read_ycell env yc) = field ''id'' yc"
    and "field ''cells'' (doc_get env d) = Some (JList (map (\<lambda>c. JDict (read_ycell env c)) (ycells d)))"
    and "doc_aset env v d w = (Inr d', w') \<Longrightarrow> field ''cells'' v = Some (JList (map JDict cs)) \<Longrightarrow>
      map (read_ycell env) (ycells d') = cs"
    and "doc_aset env v d w = (Inr d', w') \<Longrightarrow> field ''cells'' v = Some (JList (map JDict cs)) \<Longrightarrow>
      doc_ready d' = doc_ready d"
proof -
  note laws = assms [unfolded ydoc_laws_def]
  show "room_of_file env (fst (file_index env nb w)) = room nb"
    using conjunct1 [OF laws] by blast
  show "doc_ready d \<Longrightarrow> room_initialize env rid d w = (Inr d, w)"
    using conjunct1 [OF laws [THEN conjunct2]] by blast
  show "room_initialize env rid d w = (Inr d', w') \<Longrightarrow> doc_ready d'"
    using conjunct1 [OF laws [THEN conjunct2, THEN conjunct2]] by blast
  show "create_ycell env c w = (Inr yc, w') \<Longrightarrow> field ''id'' c = Some i \<Longrightarrow> field ''id'' yc = Some i"
    using conjunct1 [OF laws [THEN conjunct2, THEN conjunct2, THEN conjunct2]] by blast
  show "field ''id'' (read_ycell env yc) = field ''id'' yc"
    using conjunct1 [OF laws [THEN conjunct2, THEN conjunct2, THEN conjunct2, THEN conjunct2]] by blast
  show "field ''cells'' (doc_get env d) = Some (JList (map (\<lambda>c. JDict (read_ycell env c)) (ycells d)))"
    using conjunct1 [OF laws [THEN conjunct2, THEN conjunct2, THEN conjunct2, THEN conjunct2, THEN conjunct2]] by blast
  show "doc_aset env v d w = (Inr d', w') \<Longrightarrow> field ''cells'' v = Some (JList (map JDict cs)) \<Longrightarrow>
      map (read_ycell env) (ycells d') = cs"
    using laws [THEN conjunct2, THEN conjunct2, THEN conjunct2, THEN conjunct2, THEN conjunct2, THEN conjunct2] by blast
  show "doc_aset env v d w = (Inr d', w') \<Longrightarrow> field ''cells'' v = Some (JList (map JDict cs)) \<Longrightarrow>
      doc_ready d' = doc_ready d"
    using laws [THEN conjunct2, THEN conjunct2, THEN conjunct2, THEN conjunct2, THEN conjunct2, THEN conjunct2] by blast
qed

section \<open>Effects on the open document\<close>

definition opened :: "(pystr \<Rightarrow> pystr) \<Rightarrow> pystr \<Rightarrow> doc \<Rightarrow> 'w notebooks \<Rightarrow> bool" where
  "opened room nb d s \<longleftrightarrow> doc_rooms s (room nb) = Some (DocumentRoom d) \<and> doc_ready d"

lemma opened_doc_of: "opened room nb d s \<Longrightarrow> doc_of s (room nb) = d"
  by (simp add: opened_def doc_of_def)

lemma on_world_eq:
  "on_world f s = (r, s') \<longleftrightarrow> (\<exists>w. f (nb_world s) = (r, w) \<and> s' = s\<lparr>nb_world := w\<rparr>)"
  by (auto simp: on_world_def split: prod.split)

lemma read_doc_eq [simp]: "read_doc rid s = (r, s') \<longleftrightarrow> r = Inr (doc_of s rid) \<and> s' = s"
  by (auto simp: read_doc_def)

lemma put_doc_eq [simp]:
  "put_doc rid d s = (r, s') \<longleftrightarrow>
     r = Inr () \<and> s' = s\<lparr>doc_rooms := (doc_rooms s)(rid := Some (DocumentRoom d))\<rparr>"
  by (auto simp: put_doc_def)

lemma mbind_read_doc [simp]: "mbind (read_doc rid) f s = f (doc_of s rid) s"
  by (simp add: mbind_def read_doc_def)

lemma mbind_put_doc [simp]:
  "mbind (put_doc rid d) f s = f () (s\<lparr>doc_rooms := (doc_rooms s)(rid := Some (DocumentRoom d))\<rparr>)"
  by (simp add: mbind_def put_doc_def)

lemma mbind_start_server [simp]: "mbind start_server f s = f () (s\<lparr>server_started := True\<rparr>)"
  by (simp add: mbind_def start_server_def)

lemma doc_of_simps [simp]:
  "doc_of (s\<lparr>doc_rooms := (doc_rooms s)(rid := Some (DocumentRoom d))\<rparr>) rid = d"
  "doc_of (s\<lparr>nb_world := w\<rparr>) rid = doc_of s rid"
  "doc_of (s\<lparr>server_started := b\<rparr>) rid = doc_of s rid"
  by (simp_all add: doc_of_def)

lemma initialize_room_ready:
  assumes "ydoc_laws env room" and "initialize_room env rid s = (Inr r, s')"
  shows "r = rid \<and> (\<exists>d. doc_rooms s' rid = Some (DocumentRoom d) \<and> doc_ready d)"
proof -
  obtain d w where "room_initialize env rid (doc_of s rid) (nb_world s) = (Inr d, w)"
    and "r = rid" and "s' = s\<lparr>nb_world := w, doc_rooms := (doc_rooms s)(rid := Some (DocumentRoom d))\<rparr>"
    using assms(2) by (auto simp: initialize_room_def mbind_eq_Inr on_world_eq)
  with ydoc_lawsD(3) [OF assms(1)] show ?thesis by auto
qed

lemma get_document_room_opened:
  assumes laws: "ydoc_laws env room" and "get_document_room env nb s = (Inr rid, s')"
  shows "rid = room nb \<and> (\<exists>d. opened room nb d s')"
proof -
  obtain fid w1 where idx: "file_index env nb (nb_world s) = (fid, w1)" by fastforce
  have rid: "room_of_file env fid = room nb"
    using ydoc_lawsD(1) [OF laws, of nb "nb_world s"] idx by simp
  let ?s = "s\<lparr>nb_world := w1, server_started := True\<rparr>"
  have g: "(case doc_rooms ?s (room nb) of
      Some (DocumentRoom d) \<Rightarrow> initialize_room env (room nb) ?s
    | Some OtherRoom \<Rightarrow> mraise (RuntimeError (lit ''Room '' @ room nb @ lit '' is not a DocumentRoom'')) ?s
    | None \<Rightarrow> mbind (on_world (room_start env (room nb))) (\<lambda>_.
        mbind (put_doc (room nb) empty_doc) (\<lambda>_. initialize_room env (room nb))) ?s) = (Inr rid, s')"
    using assms(2) by (auto simp: get_document_room_def mbind_def [of "on_world _"] on_world_def idx rid)
  then obtain s0 where "initialize_room env (room nb) s0 = (Inr rid, s')"
    by (auto simp: mbind_eq_Inr split: option.splits doc_room.splits)
  from initialize_room_ready [OF laws this] show ?thesis by (auto simp: opened_def)
qed

text \<open>On an open document: only the server's flag and the world may change.\<close>

lemma get_document_room_again:
  assumes laws: "ydoc_laws env room" and o: "opened room nb d s"
  shows "\<exists>s'. get_document_room env nb s = (Inr (room nb), s') \<and> doc_rooms s' = doc_rooms s"
proof -
  obtain fid w1 where idx: "file_index env nb (nb_world s) = (fid, w1)" by fastforce
  have rid: "room_of_file env fid = room nb"
    using ydoc_lawsD(1) [OF laws, of nb "nb_world s"] idx by simp
  have d: "doc_rooms s (room nb) = Some (DocumentRoom d)" "doc_ready d"
    using o by (simp_all add: opened_def)
  have "doc_of (s\<lparr>nb_world := w1, server_started := True\<rparr>) (room nb) = d"
    using opened_doc_of [OF o] by (simp add: doc_of_def)
  then show ?thesis
    using d ydoc_lawsD(2) [OF laws d(2)]
    by (auto simp: get_document_room_def mbind_def on_world_def idx rid start_server_def initialize_room_def
        read_doc_def put_doc_def mret_def fun_upd_idem)
qed


lemma opened_cong: "doc_rooms s' = doc_rooms s \<Longrightarrow> opened room nb d s' = opened room nb d s"
  by (simp add: opened_def)

lemma save_room_rooms: "save_room env rid s = (r, s') \<Longrightarrow> doc_rooms s' = doc_rooms s"
  by (auto simp: save_room_def on_world_def split: prod.splits)

text \<open>Reading the model of an open notebook leaves its documents alone and lists its cells.\<close>

lemma get_notebook_model_opened:
  assumes "ydoc_laws env room" and "opened room nb d s"
    and "get_notebook_model env nb True s = (r, s')"
  shows "doc_rooms s' = doc_rooms s"
    and "r = Inr m \<Longrightarrow> m = JDict [(lit ''path'', JStr nb), (lit ''type'', JStr (lit ''notebook'')),
                     (lit ''content'', JDict (doc_get env d))]"
proof -
  obtain g w where g: "contents_get env nb (nb_world s) = (g, w)" by fastforce
  have o: "opened room nb d (s\<lparr>nb_world := w\<rparr>)" using assms(2) by (simp add: opened_def)
  obtain s1 where s1: "get_document_room env nb (s\<lparr>nb_world := w\<rparr>) = (Inr (room nb), s1)"
    "doc_rooms s1 = doc_rooms s"
    using get_document_room_again [OF assms(1) o] by auto
  have "doc_of s1 (room nb) = d"
    using s1(2) assms(2) by (intro opened_doc_of) (simp add: opened_def)
  then show "doc_rooms s' = doc_rooms s"
    and "r = Inr m \<Longrightarrow> m = JDict [(lit ''path'', JStr nb), (lit ''type'', JStr (lit ''notebook'')),
                     (lit ''content'', JDict (doc_get env d))]"
    using assms(3) s1 g
    by (auto simp: get_notebook_model_def mbind_def on_world_def read_doc_def split: sum.splits)
qed

lemma field_JDict_Cons [simp]:
  "dict_get ((lit k, v) # d) (lit k') = (if k' = k then Some v else field k' d)"
  by auto

lemma model_cells_opened:
  assumes laws: "ydoc_laws env room" and o: "opened room nb d s" and "model_cells env nb s = (r, s')"
  shows "doc_rooms s' = doc_rooms s"
    and "r = Inr cells \<Longrightarrow> cells = map (\<lambda>c. JDict (read_ycell env c)) (ycells d)"
proof -
  obtain m s1 where m: "get_notebook_model env nb True s = (m, s1)" by fastforce
  note model = get_notebook_model_opened [OF laws o m]
  show "doc_rooms s' = doc_rooms s"
    using model(1) m assms(3) by (auto simp: model_cells_def mbind_def split: sum.splits)
  show "cells = map (\<lambda>c. JDict (read_ycell env c)) (ycells d)" if "r = Inr cells"
    using that assms(3) m model(2)
    by (auto simp: model_cells_def mbind_def item_of_def py_get_def get_or_def py_list_def
        ydoc_lawsD(6) [OF laws] split: sum.splits)
qed

lemma find_cell_Some:
  "find_cell (map JDict cs) cid = Inr (Some c) \<Longrightarrow> c \<in> set cs \<and> opt_json (field ''id'' c) = cid"
  by (induction cs) (auto split: if_splits)

lemma get_cell_opened:
  assumes "ydoc_laws env room" and "opened room nb d s" and "get_cell env nb cid s = (r, s')"
  shows "doc_rooms s' = doc_rooms s"
    and "r = Inr c \<Longrightarrow> c \<in> read_ycell env ` set (ycells d) \<and> opt_json (field ''id'' c) = cid"
proof -
  obtain cells s1 where m: "model_cells env nb s = (cells, s1)" by fastforce
  note cells = model_cells_opened [OF assms(1,2) m]
  show "doc_rooms s' = doc_rooms s"
    using cells(1) m assms(3) by (auto simp: get_cell_def mbind_def split: sum.splits)
  show "c \<in> read_ycell env ` set (ycells d) \<and> opt_json (field ''id'' c) = cid" if "r = Inr c"
  proof -
    have "cells = Inr (map JDict (map (read_ycell env) (ycells d)))"
      using that cells(2) m assms(3) by (auto simp: get_cell_def mbind_def comp_def split: sum.splits)
    with that m assms(3) have "find_cell (map JDict (map (read_ycell env) (ycells d))) cid = Inr (Some c)"
      by (auto simp: get_cell_def mbind_def split: sum.splits option.splits)
    from find_cell_Some [OF this] show ?thesis by simp
  qed
qed

section \<open>Position keys\<close>

definition position_of :: "jobj \<Rightarrow> json option" where
  "position_of c =
     field ''position_key'' (dict_of (opt_json (field ''hypernote'' (dict_of (opt_json (field ''metadata'' c))))))"

definition keys_in_order :: "jobj list \<Rightarrow> bool" where
  "keys_in_order cs \<longleftrightarrow> map position_of cs = map (\<lambda>i. Some (position_key i)) [0..<length cs]"

lemma with_position_key_props [simp]:
  "position_of (with_position_key i hn md c) = Some (position_key i)"
  "k \<noteq> ''metadata'' \<Longrightarrow> field k (with_position_key i hn md c) = field k c"
  by (simp_all add: position_of_def with_position_key_def opt_json_def)

lemma key_ycell_props:
  assumes "key_ycell i c = (r, c')"
  shows "k \<noteq> ''metadata'' \<Longrightarrow> field k c' = field k c"
    and "r = Inr () \<Longrightarrow> position_of c' = Some (position_key i)"
  using assms by (auto simp: key_ycell_def Let_def split: sum.splits if_splits)

lemma key_cell_props:
  assumes "key_cell i c = Inr c'"
  shows "k \<noteq> ''metadata'' \<Longrightarrow> field k c' = field k c" and "position_of c' = Some (position_key i)"
  using assms by (auto simp: key_cell_def split: sum.splits)

lemma assign_ycells_props:
  assumes "assign_position_keys_ycells_from i cs = (r, cs')"
  shows "k \<noteq> ''metadata'' \<Longrightarrow> map (field k) cs' = map (field k) cs"
    and "length cs' = length cs"
    and "r = Inr () \<Longrightarrow> map position_of cs' = map (\<lambda>i. Some (position_key i)) [i..<i + length cs]"
  using assms
proof (induction i cs arbitrary: r cs' rule: assign_position_keys_ycells_from.induct)
  case (2 i c cs)
  obtain x c' where k: "key_ycell i c = (x, c')" by fastforce
  obtain r1 cs1 where rest: "assign_position_keys_ycells_from (Suc i) cs = (r1, cs1)" by fastforce
  {
    case 1
    with k rest "2.IH"(1) [OF k [symmetric] _ _ rest] key_ycell_props(1) [OF k] show ?case
      by (auto split: sum.splits)
  next
    case 2
    with k rest "2.IH"(2) [OF k [symmetric] _ rest] show ?case by (auto split: sum.splits)
  next
    case 3
    with k rest "2.IH"(3) [OF k [symmetric] _ _ rest] key_ycell_props(2) [OF k] show ?case
      by (auto simp: upt_conv_Cons simp del: upt_Suc split: sum.splits)
  }
qed simp_all

lemma assign_cells_props:
  assumes "assign_position_keys_from i cs = Inr cs'"
  shows "k \<noteq> ''metadata'' \<Longrightarrow> map (field k) cs' = map (field k) cs"
    and "map position_of cs' = map (\<lambda>i. Some (position_key i)) [i..<i + length cs]"
  using assms
proof (induction i cs arbitrary: cs' rule: assign_position_keys_from.induct)
  case (2 i c cs)
  {
    case 1
    then obtain c' cs1 where "key_cell i c = Inr c'" "assign_position_keys_from (Suc i) cs = Inr cs1"
      "cs' = c' # cs1" by (auto split: sum.splits)
    with 1 "2.IH"(1) key_cell_props(1) show ?case by simp
  next
    case 2
    then obtain c' cs1 where k: "key_cell i c = Inr c'" and r: "assign_position_keys_from (Suc i) cs = Inr cs1"
      and "cs' = c' # cs1" by (auto split: sum.splits)
    with "2.IH"(2) [OF k r] key_cell_props(2) [OF k] show ?case
      by (simp add: upt_conv_Cons del: upt_Suc)
  }
qed simp_all


section \<open>Lookup and list positions\<close>

lemma opt_json_eq_JStr [simp]: "opt_json v = JStr s \<longleftrightarrow> v = Some (JStr s)"
  by (simp add: opt_json_def split: option.split)

lemma find_cell_index_Inr:
  "find_cell_index cs cid = Inr i \<Longrightarrow>
   i < length cs \<and> field ''id'' (cs ! i) = Some (JStr cid)
   \<and> (\<forall>j < i. field ''id'' (cs ! j) \<noteq> Some (JStr cid))"
  by (induction cs arbitrary: i) (auto simp: less_Suc_eq_0_disj nth_Cons' split: if_splits sum.splits)

lemma find_cell_index_Inl:
  "find_cell_index cs cid = Inl e \<longleftrightarrow>
   e = cell_not_found cid \<and> (\<forall>c \<in> set cs. field ''id'' c \<noteq> Some (JStr cid))"
  by (induction cs arbitrary: e) (auto split: sum.split)

lemma find_ycell_index_Inr:
  "find_ycell_index cs cid = Inr i \<Longrightarrow>
   i < length cs \<and> field ''id'' (cs ! i) = Some (JStr cid)
   \<and> (\<forall>j < i. field ''id'' (cs ! j) \<noteq> Some (JStr cid))"
  by (induction cs arbitrary: i)
    (auto simp: less_Suc_eq_0_disj nth_Cons' split: if_splits sum.splits option.splits)

text \<open>What an anchor means: the first cell with an identifier, and the place before it, after it or at the end.\<close>

definition first_with_id :: "jobj list \<Rightarrow> pystr \<Rightarrow> nat \<Rightarrow> bool" where
  "first_with_id cs c i \<longleftrightarrow> i < length cs \<and> opt_json (field ''id'' (cs ! i)) = JStr c
     \<and> (\<forall>j < i. opt_json (field ''id'' (cs ! j)) \<noteq> JStr c)"

definition anchored :: "jobj list \<Rightarrow> pystr option \<Rightarrow> pystr option \<Rightarrow> nat \<Rightarrow> bool" where
  "anchored cs before after i \<longleftrightarrow>
     (case before of
        Some b \<Rightarrow> first_with_id cs b i
      | None \<Rightarrow>
          (case after of
             Some a \<Rightarrow> (\<exists>j. first_with_id cs a j \<and> i = Suc j)
           | None \<Rightarrow> i = length cs))"

lemma find_cell_index_first: "find_cell_index cs c = Inr i \<Longrightarrow> first_with_id cs c i"
  using find_cell_index_Inr [of cs c i] by (simp add: first_with_id_def)

lemma resolve_insert_index_anchored: "resolve_insert_index cs before after = Inr i \<Longrightarrow> anchored cs before after i"
  by (auto simp: resolve_insert_index_def anchored_def split: option.splits sum.splits
      dest: find_cell_index_first)

lemma resolve_insert_index_bound: "resolve_insert_index cs before after = Inr i \<Longrightarrow> i \<le> length cs"
  by (auto simp: resolve_insert_index_def dest: find_cell_index_Inr split: option.splits sum.splits)

lemma insert_at_simps [simp]:
  "length (insert_at i x xs) = Suc (length xs)"
  "i \<le> length xs \<Longrightarrow> insert_at i x xs ! i = x"
  "i \<le> length xs \<Longrightarrow> remove_at i (insert_at i x xs) = xs"
  "map f (insert_at i x xs) = insert_at i (f x) (map f xs)"
  "mset (insert_at i x xs) = add_mset x (mset xs)"
proof -
  have "mset (take i xs) + mset (drop i xs) = mset xs"
    by (metis append_take_drop_id mset_append)
  then show "mset (insert_at i x xs) = add_mset x (mset xs)" by (simp add: insert_at_def)
qed (simp_all add: insert_at_def remove_at_def nth_append take_map drop_map)

lemma insert_at_end: "i \<ge> length xs \<Longrightarrow> insert_at i x xs = xs @ [x]"
  by (simp add: insert_at_def)

lemma remove_at_simps [simp]:
  "map f (remove_at i xs) = remove_at i (map f xs)"
  "i < length xs \<Longrightarrow> mset (remove_at i xs) = mset xs - {#xs ! i#}"
  "i < length xs \<Longrightarrow> length (remove_at i xs) = length xs - 1"
proof -
  show "mset (remove_at i xs) = mset xs - {#xs ! i#}" if "i < length xs"
  proof -
    have "mset xs = mset (take i xs @ xs ! i # drop (Suc i) xs)"
      using that by (simp only: id_take_nth_drop [symmetric])
    then show ?thesis by (simp add: remove_at_def)
  qed
qed (simp_all add: remove_at_def take_map drop_map)

text \<open>
  Nine decimal digits order cells as their positions do: comparing position keys as strings, as a
  reader of the saved file may, gives the document order.
\<close>

definition digit_string :: "pystr \<Rightarrow> bool" where
  "digit_string s \<longleftrightarrow> (\<forall>c \<in> set s. 48 \<le> c \<and> c \<le> 57)"

lemma dec_value_Cons: "dec_value (d # s) = (d - 48) * 10 ^ length s + dec_value s"
proof (induction s rule: rev_induct)
  case Nil
  then show ?case by (simp add: dec_value.simps)
next
  case (snoc x xs)
  then show ?case using dec_value_snoc [of "d # xs" x] dec_value_snoc [of xs x] by simp
qed

lemma dec_value_bound: "digit_string s \<Longrightarrow> dec_value s < 10 ^ length s"
proof (induction s)
  case Nil
  then show ?case by (simp add: dec_value.simps)
next
  case (Cons d s)
  then have "d - 48 \<le> 9" and "dec_value s < 10 ^ length s" by (auto simp: digit_string_def)
  then have "(d - 48) * 10 ^ length s + dec_value s < 9 * 10 ^ length s + 10 ^ length s"
    by (intro add_le_less_mono mult_right_mono) simp_all
  then show ?case by (simp add: dec_value_Cons)
qed

lemma digit_string_order:
  "length s = length t \<Longrightarrow> digit_string s \<Longrightarrow> digit_string t \<Longrightarrow> dec_value s < dec_value t \<Longrightarrow> s < t"
proof (induction s t rule: list_induct2)
  case Nil
  then show ?case by simp
next
  case (Cons x xs y ys)
  then have ds: "48 \<le> x" "48 \<le> y" "digit_string xs" "digit_string ys" by (auto simp: digit_string_def)
  have "x \<le> y"
  proof (rule ccontr)
    assume "\<not> x \<le> y"
    then have "Suc (y - 48) * 10 ^ length ys \<le> (x - 48) * 10 ^ length ys"
      using ds by (intro mult_right_mono) auto
    then show False
      using Cons.prems(3) Cons.hyps dec_value_bound [OF ds(4)] by (simp add: dec_value_Cons)
  qed
  then show ?case
    using Cons ds by (cases "x = y") (auto simp: dec_value_Cons)
qed

lemma digit_string_dec: "digit_string (dec_digits n)"
  by (induction n rule: dec_digits.induct) (subst dec_digits.simps, auto simp: digit_string_def)

lemma length_dec_digits: "n < 10 ^ w \<Longrightarrow> 0 < w \<Longrightarrow> length (dec_digits n) \<le> w"
proof (induction n arbitrary: w rule: dec_digits.induct)
  case (1 n)
  show ?case
  proof (cases "n < 10")
    case False
    then have "w \<noteq> 1" using "1.prems"(1) by auto
    then have "1 < w" using "1.prems"(2) by simp
    moreover have "n div 10 < 10 ^ (w - 1)"
      using "1.prems" by (cases w) (simp_all add: less_mult_imp_div_less mult.commute)
    ultimately have "length (dec_digits (n div 10)) \<le> w - 1" using "1.IH" [OF False] by simp
    with False \<open>1 < w\<close> show ?thesis by (subst dec_digits.simps) simp
  qed (use "1.prems" in \<open>subst dec_digits.simps, simp\<close>)
qed

lemma pad_left_order:
  assumes "m < n" and "n < 10 ^ w" and "0 < w"
  shows "pad_left w (dec_digits m) < pad_left w (dec_digits n)"
proof (rule digit_string_order)
  have "length (dec_digits m) \<le> w" "length (dec_digits n) \<le> w"
    using assms by (intro length_dec_digits; simp)+
  then show "length (pad_left w (dec_digits m)) = length (pad_left w (dec_digits n))"
    by (simp add: pad_left_def)
  show "digit_string (pad_left w (dec_digits m))" "digit_string (pad_left w (dec_digits n))"
    using digit_string_dec [of m] digit_string_dec [of n] by (auto simp: digit_string_def pad_left_def)
qed (simp add: assms)


section \<open>Steps of an edit on an open document\<close>

lemma rekeyed:
  assumes "opened room nb d s" and "assign_position_keys_ycells (room nb) s = (Inr u, s')"
  obtains d' where "opened room nb d' s'" and "keys_in_order (ycells d')"
    and "length (ycells d') = length (ycells d)"
    and "\<And>k. k \<noteq> ''metadata'' \<Longrightarrow> map (field k) (ycells d') = map (field k) (ycells d)"
proof -
  obtain cs where cs: "assign_position_keys_ycells_from 0 (ycells d) = (Inr (), cs)"
    and s': "s' = snd (put_doc (room nb) (d\<lparr>ycells := cs\<rparr>) s)"
    using assms opened_doc_of [OF assms(1)]
    by (auto simp: assign_position_keys_ycells_def split: prod.splits)
  note props = assign_ycells_props [OF cs]
  show ?thesis
  proof
    show "opened room nb (d\<lparr>ycells := cs\<rparr>) s'"
      using assms(1) by (simp add: s' put_doc_def opened_def)
    show "keys_in_order (ycells (d\<lparr>ycells := cs\<rparr>))"
      using props(2,3) by (simp add: keys_in_order_def)
  qed (use props in simp_all)
qed

lemma update_ycells_opened:
  "opened room nb d s \<Longrightarrow> update_ycells (room nb) f s = (r, s') \<Longrightarrow>
   opened room nb (d\<lparr>ycells := f (ycells d)\<rparr>) s'"
  by (auto simp: update_ycells_def opened_doc_of) (simp add: opened_def)

lemma opened_world [simp]: "opened room nb d (s\<lparr>nb_world := w\<rparr>) = opened room nb d s"
  by (simp add: opened_def)

section \<open>A concrete environment\<close>

definition demo_nb_env :: "'w notebook_env" where
  "demo_nb_env =
     \<lparr>contents_get = (\<lambda>nb w. (Inr JNull, w)),
      contents_new_untitled = (\<lambda>dir w. (Inr (lit ''Untitled.ipynb''), w)),
      contents_rename = (\<lambda>p q w. (Inr q, w)),
      contents_save = (\<lambda>m p w. (Inr (), w)),
      file_index = (\<lambda>nb w. (nb, w)),
      room_of_file = (\<lambda>f. f),
      room_start = (\<lambda>r w. (Inr (), w)),
      room_initialize = (\<lambda>r d w. (Inr (if doc_ready d then d else d\<lparr>doc_ready := True\<rparr>), w)),
      room_save = (\<lambda>r d w. (Inr (), w)),
      create_ycell = (\<lambda>c w. (Inr c, w)),
      read_ycell = (\<lambda>c. c),
      doc_get = (\<lambda>d. [(lit ''cells'', JList (map JDict (ycells d))), (lit ''metadata'', JDict (ymeta d)),
                      (lit ''nbformat'', JInt 4), (lit ''nbformat_minor'', JInt 5)]),
      doc_aset = (\<lambda>v d w. (Inr (d\<lparr>ycells := map dict_of (list_of (opt_json (field ''cells'' v)))\<rparr>), w)),
      printable_char = (\<lambda>c. True)\<rparr>"

lemma demo_nb_laws: "ydoc_laws (demo_nb_env :: 'w notebook_env) (\<lambda>nb. nb)"
  by (auto simp: ydoc_laws_def demo_nb_env_def opt_json_def comp_def split: if_splits)

lemma demo_read [simp]: "read_ycell demo_nb_env = (\<lambda>c. c)"
  by (simp add: demo_nb_env_def)

definition demo_cell :: "string \<Rightarrow> jobj" where
  "demo_cell i = [(lit ''id'', JStr (lit i)), (lit ''source'', JStr [])]"

definition demo_nbs :: "unit notebooks" where
  "demo_nbs = \<lparr>nb_world = (),
     doc_rooms = (\<lambda>_. Some (DocumentRoom \<lparr>ycells = [demo_cell ''a'', demo_cell ''b''], ymeta = [],
                                           doc_ready = True\<rparr>)), server_started = True\<rparr>"

lemma demo_opened:
  "opened (\<lambda>nb. nb) nb \<lparr>ycells = [demo_cell ''a'', demo_cell ''b''], ymeta = [], doc_ready = True\<rparr> demo_nbs"
  by (simp add: opened_def demo_nbs_def)

lemmas demo_nb_simps = demo_nbs_def demo_nb_env_def demo_cell_def get_document_room_def ensure_document_room_def
  initialize_room_def mbind_def mret_def mraise_def of_result_def on_world_def read_doc_def put_doc_def
  start_server_def doc_of_def validate_position_def resolve_insert_index_def update_ycells_def
  assign_position_keys_ycells_def key_ycell_def as_dict_def opt_json_def with_position_key_def position_key_def
  save_room_def item_of_def get_cell_def model_cells_def get_notebook_model_def py_get_def get_or_def py_list_def
  insert_at_def remove_at_def set_cell_def rewrite_cell_def Let_def moved_cells_def assign_position_keys_def
  key_cell_def notebook_value_def

section \<open>Properties\<close>

text \<open>
  C21: inserting a cell.  A successful insert puts the new cell at the position its anchor names
  (before the anchor, after it, or at the end), returns a cell with its identifier, leaves every
  other cell's contents and order apart from the position keys in the metadata, and renumbers the
  position keys of the whole notebook in document order.
\<close>

theorem insert_cell_exact:
  assumes laws: "ydoc_laws env room" and o: "opened room nb d s" and cid: "field ''id'' cell = Some cid"
    and ins: "insert_cell env nb cell before after s = (Inr c, s')"
  shows "\<exists>index d'. anchored (map (read_ycell env) (ycells d)) before after index
    \<and> index \<le> length (ycells d) \<and> opened room nb d' s'
    \<and> length (ycells d') = Suc (length (ycells d))
    \<and> field ''id'' (ycells d' ! index) = Some cid \<and> opt_json (field ''id'' c) = cid
    \<and> (\<forall>k. k \<noteq> ''metadata'' \<longrightarrow>
          remove_at index (map (field k) (ycells d')) = map (field k) (ycells d))
    \<and> keys_in_order (ycells d')"
proof -
  obtain s1 where g: "get_document_room env nb s = (Inr (room nb), s1)" "doc_rooms s1 = doc_rooms s"
    using get_document_room_again [OF laws o] by blast
  have o1: "opened room nb d s1" using o opened_cong [OF g(2)] by blast
  obtain index yc w s2 u s3 s4 where r: "resolve_insert_index (map (read_ycell env) (ycells d)) before after = Inr index"
    and yc: "create_ycell env cell (nb_world s1) = (Inr yc, w)"
    and up: "update_ycells (room nb) (\<lambda>cs. if index \<ge> length cs then cs @ [yc] else insert_at index yc cs)
      (s1\<lparr>nb_world := w\<rparr>) = (Inr (), s2)"
    and rk: "assign_position_keys_ycells (room nb) s2 = (Inr u, s3)"
    and sv: "save_room env (room nb) s3 = (Inr (), s4)"
    and gc: "get_cell env nb cid s4 = (Inr c, s')"
    using ins
    by (auto simp: insert_cell_def mbind_eq_Inr g(1) on_world_eq item_of_def cid opened_doc_of [OF o1])
  have le: "index \<le> length (ycells d)" using resolve_insert_index_bound [OF r] by simp
  have "opened room nb (d\<lparr>ycells := insert_at index yc (ycells d)\<rparr>) s2"
    using update_ycells_opened [of room nb d, OF _ up] o1 le by (auto simp: insert_at_end split: if_splits)
  then obtain d' where o3: "opened room nb d' s3" and keys: "keys_in_order (ycells d')"
    and len: "length (ycells d') = Suc (length (ycells d))"
    and fields: "\<And>k. k \<noteq> ''metadata'' \<Longrightarrow>
      map (field k) (ycells d') = insert_at index (field k yc) (map (field k) (ycells d))"
    using rk by (rule rekeyed) auto
  have o': "opened room nb d' s'"
    using o3 save_room_rooms [OF sv] get_cell_opened(1) [OF laws _ gc, of d'] opened_cong by blast
  have "field ''id'' (ycells d' ! index) = map (field ''id'') (ycells d') ! index"
    using len le by simp
  also have "\<dots> = Some cid"
    using fields [of "''id''"] ydoc_lawsD(4) [OF laws yc cid] le by simp
  finally have new: "field ''id'' (ycells d' ! index) = Some cid" .
  have "opened room nb d' s4" using o3 save_room_rooms [OF sv] opened_cong by blast
  then have "opt_json (field ''id'' c) = cid" using get_cell_opened(2) [OF laws _ gc] by blast
  with resolve_insert_index_anchored [OF r] le o' len new fields keys show ?thesis
    by (intro exI [of _ index] exI [of _ d']) auto
qed

lemma insert_cell_exact_witness:
  "field ''id'' (ycells (doc_of (snd (insert_cell demo_nb_env (lit ''n'') (demo_cell ''c'') None
      (Some (lit ''a'')) demo_nbs)) (lit ''n'')) ! 1) = Some (JStr (lit ''c''))"
proof -
  let ?s = "snd (insert_cell demo_nb_env (lit ''n'') (demo_cell ''c'') None (Some (lit ''a'')) demo_nbs)"
  have cid: "field ''id'' (demo_cell ''c'') = Some (JStr (lit ''c''))" by (simp add: demo_cell_def)
  obtain c where ins: "insert_cell demo_nb_env (lit ''n'') (demo_cell ''c'') None (Some (lit ''a'')) demo_nbs
      = (Inr c, ?s)"
    by (simp add: insert_cell_def demo_nb_simps)
  have r: "anchored [demo_cell ''a'', demo_cell ''b''] None (Some (lit ''a'')) i \<longleftrightarrow> i = 1" for i
    by (auto simp: anchored_def first_with_id_def demo_cell_def opt_json_def less_Suc_eq)
  show ?thesis
    using insert_cell_exact [OF demo_nb_laws demo_opened cid ins] by (auto simp: r dest!: opened_doc_of)
qed


text \<open>
  C22: moving a cell.  A successful move takes the first cell with the identifier out and puts it
  where its anchor stands among the remaining cells (or at the end); no cell is lost, duplicated or
  changed outside its metadata, the others keep their order, and the position keys are renumbered.
\<close>

theorem move_cell_exact:
  assumes laws: "ydoc_laws env room" and o: "opened room nb d s"
    and mv: "move_cell env nb cid before after s = (Inr c, s')"
  shows "\<exists>index target d'. let cells = map (read_ycell env) (ycells d);
                          cells' = map (read_ycell env) (ycells d')
    in first_with_id cells cid index
      \<and> anchored (remove_at index cells) before after target
      \<and> opened room nb d' s'
      \<and> (\<forall>k. k \<noteq> ''metadata'' \<longrightarrow>
            map (field k) cells' =
              insert_at target (field k (cells ! index)) (remove_at index (map (field k) cells))
            \<and> mset (map (field k) cells') = mset (map (field k) cells))
      \<and> keys_in_order cells' \<and> field ''id'' c = Some (JStr cid)"
proof -
  let ?cells = "map (read_ycell env) (ycells d)"
  obtain s1 where g: "get_document_room env nb s = (Inr (room nb), s1)" "doc_rooms s1 = doc_rooms s"
    using get_document_room_again [OF laws o] by blast
  have o1: "opened room nb d s1" using o opened_cong [OF g(2)] by blast
  obtain cells nbv d' w s3 where m: "moved_cells ?cells cid before after = Inr cells"
    and v: "notebook_value (doc_get env d) cells = Inr nbv"
    and a: "doc_aset env nbv d (nb_world s1) = (Inr d', w)"
    and sv: "save_room env (room nb) (s1\<lparr>nb_world := w, doc_rooms := (doc_rooms s1)(room nb := Some (DocumentRoom d'))\<rparr>)
        = (Inr (), s3)"
    and gc: "get_cell env nb (JStr cid) s3 = (Inr c, s')"
    using mv by (auto simp: move_cell_def mbind_eq_Inr g(1) on_world_eq opened_doc_of [OF o1])
  obtain index target where i: "find_cell_index ?cells cid = Inr index"
    and t: "resolve_insert_index (remove_at index ?cells) before after = Inr target"
    and k: "assign_position_keys_from 0 (insert_at target (?cells ! index) (remove_at index ?cells)) = Inr cells"
    using m by (auto simp: moved_cells_def assign_position_keys_def Let_def split: sum.splits)
  have idx: "index < length ?cells" using find_cell_index_Inr [OF i] by simp
  have vc: "field ''cells'' nbv = Some (JList (map JDict cells))"
    using v by (auto simp: notebook_value_def split: sum.splits)
  have readback: "map (read_ycell env) (ycells d') = cells" "doc_ready d'"
    using ydoc_lawsD(7,8) [OF laws a vc] o by (simp_all add: opened_def)
  have o3: "opened room nb d' s3" using save_room_rooms [OF sv] readback(2) by (simp add: opened_def)
  have o': "opened room nb d' s'" and c: "field ''id'' c = Some (JStr cid)"
    using get_cell_opened [OF laws o3 gc] o3 by (simp_all add: opened_def)
  have fields: "map (field k) cells = insert_at target (field k (?cells ! index)) (remove_at index (map (field k) ?cells))"
    if "k \<noteq> ''metadata''" for k
    using assign_cells_props(1) [OF k that] by simp
  moreover have "mset (map (field k) cells) = mset (map (field k) ?cells)" if "k \<noteq> ''metadata''" for k
    unfolding fields [OF that] using idx by (simp add: nth_mem_mset)
  moreover have "length cells = Suc (length (remove_at index ?cells))"
    using arg_cong [OF assign_cells_props(2) [OF k], of length] by simp
  then have "keys_in_order cells" using assign_cells_props(2) [OF k] by (simp add: keys_in_order_def)
  ultimately show ?thesis
    unfolding Let_def
    by - (rule exI [of _ index], rule exI [of _ target], rule exI [of _ d'],
      unfold readback, use find_cell_index_first [OF i] resolve_insert_index_anchored [OF t] o' c in blast)
qed

lemma move_cell_exact_witness:
  "map (field ''id'') (ycells (doc_of (snd (move_cell demo_nb_env (lit ''n'') (lit ''a'') None None demo_nbs)) (lit ''n'')))
   = [Some (JStr (lit ''b'')), Some (JStr (lit ''a''))]"
proof -
  let ?s = "snd (move_cell demo_nb_env (lit ''n'') (lit ''a'') None None demo_nbs)"
  obtain c where mv: "move_cell demo_nb_env (lit ''n'') (lit ''a'') None None demo_nbs = (Inr c, ?s)"
    by (simp add: move_cell_def demo_nb_simps)
  have i: "first_with_id [demo_cell ''a'', demo_cell ''b''] (lit ''a'') i \<longleftrightarrow> i = 0" for i
    by (auto simp: first_with_id_def demo_cell_def opt_json_def less_Suc_eq)
  have r: "anchored (remove_at 0 [demo_cell ''a'', demo_cell ''b'']) None None i \<longleftrightarrow> i = 1" for i
    by (simp add: anchored_def remove_at_def)
  have l: "''id'' \<noteq> ''metadata''" by simp
  show ?thesis
    using move_cell_exact [OF demo_nb_laws demo_opened mv]
    by (auto simp: Let_def i r l dest!: opened_doc_of spec [of _ "''id''"])
      (auto simp: insert_at_def remove_at_def demo_cell_def resolve_insert_index_def)
qed


text \<open>
  Deleting a cell.  A successful delete removes the first cell with the identifier and nothing
  else, and renumbers the position keys.  When no cell has the identifier the call raises
  \<open>ValueError\<close> (which the REST handler answers with 404) and no document changes.
\<close>

theorem delete_cell_exact:
  assumes laws: "ydoc_laws env room" and o: "opened room nb d s"
    and ids: "\<forall>c \<in> set (ycells d). field ''id'' c \<noteq> None"
    and del: "delete_cell env nb cid s = (r, s')"
  shows "(r = Inr () \<longrightarrow>
      (\<exists>index d'. find_ycell_index (ycells d) cid = Inr index \<and> index < length (ycells d)
        \<and> field ''id'' (ycells d ! index) = Some (JStr cid)
        \<and> opened room nb d' s' \<and> keys_in_order (ycells d')
        \<and> (\<forall>k. k \<noteq> ''metadata'' \<longrightarrow>
              map (field k) (ycells d') = remove_at index (map (field k) (ycells d)))))
    \<and> (Some (JStr cid) \<notin> field ''id'' ` set (ycells d) \<longrightarrow>
        r = Inl (cell_not_found cid) \<and> doc_rooms s' = doc_rooms s)"
proof -
  obtain s1 where g: "get_document_room env nb s = (Inr (room nb), s1)" "doc_rooms s1 = doc_rooms s"
    using get_document_room_again [OF laws o] by blast
  have o1: "opened room nb d s1" using o opened_cong [OF g(2)] by blast
  have "\<exists>index d'. find_ycell_index (ycells d) cid = Inr index \<and> index < length (ycells d)
        \<and> field ''id'' (ycells d ! index) = Some (JStr cid)
        \<and> opened room nb d' s' \<and> keys_in_order (ycells d')
        \<and> (\<forall>k. k \<noteq> ''metadata'' \<longrightarrow> map (field k) (ycells d') = remove_at index (map (field k) (ycells d)))"
    if "r = Inr ()"
  proof -
    have del': "delete_cell env nb cid s = (Inr (), s')" using del that by simp
    obtain index s2 s3 u where i: "find_ycell_index (ycells d) cid = Inr index"
      and up: "update_ycells (room nb) (remove_at index) s1 = (Inr (), s2)"
      and rk: "assign_position_keys_ycells (room nb) s2 = (Inr u, s3)"
      and sv: "save_room env (room nb) s3 = (Inr (), s')"
      using del' by (auto simp: delete_cell_def mbind_eq_Inr g(1) opened_doc_of [OF o1])
    have "opened room nb (d\<lparr>ycells := remove_at index (ycells d)\<rparr>) s2"
      using update_ycells_opened [of room nb d, OF o1 up] .
    then obtain d' where o3: "opened room nb d' s3" and keys: "keys_in_order (ycells d')"
      and fields: "\<And>k. k \<noteq> ''metadata'' \<Longrightarrow>
        map (field k) (ycells d') = remove_at index (map (field k) (ycells d))"
      using rk by (rule rekeyed) auto
    have "opened room nb d' s'" using o3 save_room_rooms [OF sv] opened_cong by blast
    with i keys fields find_ycell_index_Inr [OF i] show ?thesis by blast
  qed
  moreover have "r = Inl (cell_not_found cid) \<and> doc_rooms s' = doc_rooms s"
    if absent: "Some (JStr cid) \<notin> field ''id'' ` set (ycells d)"
  proof -
    have "find_ycell_index cs cid = Inl (cell_not_found cid)" if "set cs \<subseteq> set (ycells d)" for cs
      using that ids absent by (induction cs) force+
    then have "find_ycell_index (ycells d) cid = Inl (cell_not_found cid)" by simp
    then have "delete_cell env nb cid s = (Inl (cell_not_found cid), s1)"
      using g(1) by (simp add: delete_cell_def mbind_def [of "get_document_room _ _"] opened_doc_of [OF o1])
    with del g(2) show ?thesis by simp
  qed
  ultimately show ?thesis by blast
qed

lemma delete_cell_exact_witness:
  "fst (delete_cell demo_nb_env (lit ''n'') (lit ''z'') demo_nbs) = Inl (cell_not_found (lit ''z''))"
proof -
  have ids: "\<forall>c \<in> set (ycells \<lparr>ycells = [demo_cell ''a'', demo_cell ''b''], ymeta = [], doc_ready = True\<rparr>).
      field ''id'' c \<noteq> None"
    by (simp add: demo_cell_def)
  from delete_cell_exact [OF demo_nb_laws demo_opened ids prod.collapse [symmetric], of "lit ''n''" "lit ''z''"]
  show ?thesis by (simp add: demo_cell_def)
qed

text \<open>
  C23: the position keys order the notebook.  Once every cell carries the key of its position, as
  after each edit, the keys as strings increase strictly along the document, for up to a thousand
  million cells: sorting cells by key gives the document order.
\<close>

theorem position_keys_sort_the_notebook:
  assumes "keys_in_order cs" and "length cs \<le> 10 ^ 9" and "i < j" and "j < length cs"
  shows "\<exists>k l. position_of (cs ! i) = Some (JStr k) \<and> position_of (cs ! j) = Some (JStr l)
    \<and> k < l \<and> length k = 9 \<and> length l = 9"
proof -
  have "position_of (cs ! n) = Some (position_key n)" if "n < length cs" for n
    using arg_cong [OF assms(1) [unfolded keys_in_order_def], of "\<lambda>xs. xs ! n"] that by simp
  moreover have "pad_left 9 (dec_digits i) < pad_left 9 (dec_digits j)"
    using assms by (intro pad_left_order) auto
  moreover have "length (dec_digits i) \<le> 9" "length (dec_digits j) \<le> 9"
    using assms by (intro length_dec_digits; simp)+
  ultimately show ?thesis using assms(3,4) by (simp add: position_key_def pad_left_def)
qed

lemma position_keys_sort_the_notebook_witness:
  "\<exists>k l. position_of (with_position_key 0 [] [] []) = Some (JStr k)
    \<and> position_of (with_position_key 1 [] [] []) = Some (JStr l) \<and> k < l"
  using position_keys_sort_the_notebook
    [of "[with_position_key 0 [] [] [], with_position_key 1 [] [] []]" 0 1]
  by (auto simp: keys_in_order_def)

end
