(* ===== verification/Hn_Subshell.thy ===== *)
theory Hn_Subshell
  imports Hn_Json
begin

text \<open>
  Subshell routing (\<^verbatim>\<open>server/subshell.py\<close>).  The attributes Hypernote patches onto a kernel
  client are a record; clients are objects shared by the execution stack and the restart hooks, so
  they live in a store by reference.  The kernel behind the channels, the session that makes
  message headers and the clock are the record \<open>kernel_io\<close>.
\<close>

section \<open>Clients and channels\<close>

text \<open>An attribute that is not set is \<open>None\<close>; the cached identifier is whatever the kernel sent.\<close>

record client =
  subshell_attr :: "json option"
  routing_installed :: bool
  hook_installed :: bool
  original_execute :: bool
  execute_patched :: bool
  client_allow_stdin :: bool

definition fresh_client :: client where
  "fresh_client = \<lparr>subshell_attr = None, routing_installed = False, hook_installed = False,
     original_execute = False, execute_patched = False, client_allow_stdin = True\<rparr>"

datatype control_event = ControlTimeout | ControlFailure | ControlReply jobj

record message =
  msg_header :: jobj
  msg_content :: jobj

record 'w kernel_io =
  io_monotonic :: "'w \<Rightarrow> time \<times> 'w"
  io_header :: "pystr \<Rightarrow> 'w \<Rightarrow> jobj \<times> 'w"
  io_control_send :: "message \<Rightarrow> 'w \<Rightarrow> 'w"
  io_control_get :: "time \<Rightarrow> 'w \<Rightarrow> control_event \<times> 'w"
  io_shell_send :: "message \<Rightarrow> 'w \<Rightarrow> 'w"

text \<open>\<open>_SUBSHELL_TIMEOUT_SECONDS\<close>, 5 seconds in ticks of the clock.\<close>

definition subshell_timeout :: time where
  "subshell_timeout = 5 * 2 ^ 22"

section \<open>Reading the cached identifier\<close>

definition cached_subshell :: "client \<Rightarrow> json option" where
  "cached_subshell c = (case subshell_attr c of Some JNull \<Rightarrow> None | v \<Rightarrow> v)"

definition has_subshell :: "client \<Rightarrow> bool" where
  "has_subshell c \<longleftrightarrow> cached_subshell c \<noteq> None"

definition reset_subshell_state :: "client \<Rightarrow> client" where
  "reset_subshell_state c = (if subshell_attr c \<noteq> None then c\<lparr>subshell_attr := None\<rparr> else c)"

section \<open>Creating a subshell\<close>

text \<open>
  What one control message says: not an answer to the request, a refusal, or the identifier.
  A reply whose parts are not dictionaries makes the code raise.
\<close>

datatype reply_verdict = Unrelated | Rejected | Created json | Malformed pyexc

definition judge_reply :: "json \<Rightarrow> jobj \<Rightarrow> reply_verdict" where
  "judge_reply request_id reply =
     (case py_get ''msg_id'' JNull (get_or ''parent_header'' (JDict []) reply) of
        Inl e \<Rightarrow> Malformed e
      | Inr parent \<Rightarrow>
          if parent \<noteq> request_id then Unrelated
          else
            (case get_or ''content'' (JDict []) reply of
               JDict content \<Rightarrow>
                 if opt_json (field ''status'' content) \<noteq> JStr (lit ''ok'')
                    \<or> field ''subshell_id'' content = None
                 then Rejected
                 else Created (opt_json (field ''subshell_id'' content))
             | _ \<Rightarrow> Malformed attribute_error))"

text \<open>
  The reply loop.  It reads the clock twice a turn; the second reading bounds the wait.  The fuel
  counts turns.
\<close>

fun await_subshell ::
  "'w kernel_io \<Rightarrow> json \<Rightarrow> time \<Rightarrow> nat \<Rightarrow> client \<Rightarrow> 'w \<Rightarrow> ((pyexc + json option) \<times> client \<times> 'w) option" where
  "await_subshell io rid deadline 0 c w = None"
| "await_subshell io rid deadline (Suc n) c w =
     (case io_monotonic io w of (now, w1) \<Rightarrow>
      if \<not> now < deadline then Some (Inr None, c, w1)
      else
        case io_monotonic io w1 of (now', w2) \<Rightarrow>
        case io_control_get io (max 0 (deadline - now')) w2 of
          (ControlTimeout, w3) \<Rightarrow> Some (Inr None, c, w3)
        | (ControlFailure, w3) \<Rightarrow> Some (Inr None, c, w3)
        | (ControlReply reply, w3) \<Rightarrow>
            (case judge_reply rid reply of
               Unrelated \<Rightarrow> await_subshell io rid deadline n c w3
             | Rejected \<Rightarrow> Some (Inr None, c, w3)
             | Malformed e \<Rightarrow> Some (Inl e, c, w3)
             | Created i \<Rightarrow>
                 Some (Inr (if i = JNull then None else Some i), c\<lparr>subshell_attr := Some i\<rparr>, w3)))"

definition ensure_subshell ::
  "'w kernel_io \<Rightarrow> nat \<Rightarrow> client \<Rightarrow> 'w \<Rightarrow> ((pyexc + json option) \<times> client \<times> 'w) option" where
  "ensure_subshell io fuel c w =
     (case cached_subshell c of
        Some i \<Rightarrow> Some (Inr (Some i), c, w)
      | None \<Rightarrow>
          case io_header io (lit ''create_subshell_request'') w of (header, w1) \<Rightarrow>
          case item_of ''msg_id'' header of
            Inl e \<Rightarrow> Some (Inl e, c, w1)
          | Inr rid \<Rightarrow>
              (case io_monotonic io (io_control_send io \<lparr>msg_header = header, msg_content = []\<rparr> w1) of
                 (start, w2) \<Rightarrow> await_subshell io rid (start + subshell_timeout) fuel c w2))"

section \<open>Routing executions\<close>

definition install_subshell_routing :: "client \<Rightarrow> client" where
  "install_subshell_routing c =
     (if routing_installed c then c
      else c\<lparr>original_execute := True, execute_patched := True, routing_installed := True\<rparr>)"

record execute_args =
  ex_code :: json
  ex_silent :: json
  ex_store_history :: json
  ex_user_expressions :: "json option"
  ex_allow_stdin :: "bool option"
  ex_stop_on_error :: json

definition execute_via_subshell ::
  "(nat \<Rightarrow> bool) \<Rightarrow> 'w kernel_io \<Rightarrow> client \<Rightarrow> execute_args \<Rightarrow> 'w \<Rightarrow> (json, 'w) outcome" where
  "execute_via_subshell pr io c args w =
     (let user_expressions = (case ex_user_expressions args of None \<Rightarrow> JDict [] | Some u \<Rightarrow> u);
          allow_stdin = (case ex_allow_stdin args of None \<Rightarrow> client_allow_stdin c | Some b \<Rightarrow> b)
      in case ex_code args of
           JStr code \<Rightarrow>
             (let content = [(lit ''code'', JStr code), (lit ''silent'', ex_silent args),
                (lit ''store_history'', ex_store_history args), (lit ''user_expressions'', user_expressions),
                (lit ''allow_stdin'', JBool allow_stdin), (lit ''stop_on_error'', ex_stop_on_error args)]
              in case io_header io (lit ''execute_request'') w of (header, w1) \<Rightarrow>
                 let header' = (case cached_subshell c of
                                  None \<Rightarrow> header | Some i \<Rightarrow> set_field ''subshell_id'' i header)
                 in (item_of ''msg_id'' header',
                     io_shell_send io \<lparr>msg_header = header', msg_content = content\<rparr> w1))
         | code \<Rightarrow>
             (Inl (ValueError (lit ''code '' @ py_repr pr code @ lit '' must be a string'')), w))"

section \<open>Interrupting\<close>

text \<open>The snippet run on the main shell, line by line; \<open>target\<close> is the quoted thread name.\<close>

definition lines :: "pystr list \<Rightarrow> pystr" where
  "lines ls = concat (map (\<lambda>l. l @ [10]) ls)"

definition interrupt_snippet :: "pystr \<Rightarrow> pystr" where
  "interrupt_snippet target =
     lines ([lit ''import ctypes as _ctypes'', lit ''import os as _os'', lit ''import signal as _signal'',
             lit ''import threading as _threading'']
       @ [lit ''_target_name = '' @ target]
       @ [lit ''_target = next('',
          lit ''    (_t for _t in _threading.enumerate() if _t.name == _target_name),'',
          lit ''    None,'',
          lit '')'',
          lit ''_handled = False'',
          lit ''if _target is not None:'',
          lit ''    _rv = _ctypes.pythonapi.PyThreadState_SetAsyncExc('',
          lit ''        _ctypes.c_ulong(_target.ident),'',
          lit ''        _ctypes.py_object(KeyboardInterrupt),'',
          lit ''    )'',
          lit ''    _handled = _rv == 1'',
          lit ''if not _handled:'',
          lit ''    _os.kill(_os.getpid(), _signal.SIGINT)''])"

definition interrupt_subshell ::
  "(nat \<Rightarrow> bool) \<Rightarrow> 'w kernel_io \<Rightarrow> json \<Rightarrow> 'w \<Rightarrow> (json, 'w) outcome" where
  "interrupt_subshell pr io subshell w =
     (let target = repr_str pr (lit ''subshell-'' @ py_str pr subshell);
          content = [(lit ''code'', JStr (interrupt_snippet target)), (lit ''silent'', JBool True),
            (lit ''store_history'', JBool False), (lit ''user_expressions'', JDict []),
            (lit ''allow_stdin'', JBool False), (lit ''stop_on_error'', JBool True)]
      in case io_header io (lit ''execute_request'') w of (header, w1) \<Rightarrow>
           (item_of ''msg_id'' header, io_shell_send io \<lparr>msg_header = header, msg_content = content\<rparr> w1))"

section \<open>Restarts\<close>

text \<open>
  The execution stack's private dictionaries, by kernel; one that a version of the stack does not
  have is \<open>None\<close>.  A worker task is known by whether it is done.  \<open>restart_hooks\<close> are the
  callbacks the kernel manager holds, and \<open>cancelled\<close>, \<open>channels_stopped\<close> what cleaning up did.
\<close>

record stack =
  stack_clients :: "(pystr \<Rightarrow> nat option) option"
  stack_workers :: "(pystr \<Rightarrow> bool option) option"
  stack_tasks :: "(pystr \<Rightarrow> unit option) option"
  stack_results :: "(pystr \<Rightarrow> unit option) option"
  stack_pending :: "(pystr \<Rightarrow> unit option) option"
  client_heap :: "nat \<Rightarrow> client"
  restart_hooks :: "(pystr \<times> nat) list option"
  cancelled :: "pystr list"
  channels_stopped :: "nat list"

definition modify_client :: "nat \<Rightarrow> (client \<Rightarrow> client) \<Rightarrow> stack \<Rightarrow> stack" where
  "modify_client r f st = st\<lparr>client_heap := (client_heap st)(r := f (client_heap st r))\<rparr>"

definition register_restart_hook :: "pystr \<Rightarrow> nat \<Rightarrow> stack \<Rightarrow> stack" where
  "register_restart_hook kid r st =
     (if hook_installed (client_heap st r) then st
      else case restart_hooks st of
             None \<Rightarrow> st
           | Some hooks \<Rightarrow>
               modify_client r (\<lambda>c. c\<lparr>hook_installed := True\<rparr>)
                 (st\<lparr>restart_hooks := Some (hooks @ [(kid, r)])\<rparr>))"

text \<open>The kernel manager runs the hooks of a kernel it restarted after an unexpected death.\<close>

definition run_restart_hooks :: "pystr \<Rightarrow> stack \<Rightarrow> stack" where
  "run_restart_hooks kid st =
     fold (\<lambda>(k, r) st. if k = kid then modify_client r reset_subshell_state st else st)
       (case restart_hooks st of None \<Rightarrow> [] | Some hooks \<Rightarrow> hooks) st"

definition missing_stack_attrs :: "stack \<Rightarrow> pystr list" where
  "missing_stack_attrs st =
     map fst (filter (\<lambda>(name, present). \<not> present)
       [(lit ''_ExecutionStack__kernel_clients'', stack_clients st \<noteq> None),
        (lit ''_ExecutionStack__workers'', stack_workers st \<noteq> None),
        (lit ''_ExecutionStack__tasks'', stack_tasks st \<noteq> None),
        (lit ''_ExecutionStack__execution_results'', stack_results st \<noteq> None),
        (lit ''_ExecutionStack__pending_inputs'', stack_pending st \<noteq> None)])"

definition pop_key :: "pystr \<Rightarrow> (pystr \<Rightarrow> 'a option) option \<Rightarrow> (pystr \<Rightarrow> 'a option) option" where
  "pop_key k d = map_option (\<lambda>m. m(k := None)) d"

definition cleanup_worker :: "pystr \<Rightarrow> stack \<Rightarrow> stack" where
  "cleanup_worker kid st =
     (case stack_workers st of
        None \<Rightarrow> st
      | Some workers \<Rightarrow>
          st\<lparr>stack_workers := Some (workers(kid := None)),
             cancelled := (if workers kid = Some False then cancelled st @ [kid] else cancelled st)\<rparr>)"

definition forget_patches :: "client \<Rightarrow> client" where
  "forget_patches c = (reset_subshell_state c)\<lparr>routing_installed := False, hook_installed := False\<rparr>"

definition cleanup_client :: "pystr \<Rightarrow> stack \<Rightarrow> stack" where
  "cleanup_client kid st =
     (case stack_clients st of
        None \<Rightarrow> st
      | Some clients \<Rightarrow>
          let st1 = st\<lparr>stack_clients := Some (clients(kid := None))\<rparr>
          in case clients kid of
               None \<Rightarrow> st1
             | Some r \<Rightarrow>
                 modify_client r forget_patches (st1\<lparr>channels_stopped := channels_stopped st1 @ [r]\<rparr>))"

definition cleanup_after_restart :: "pystr \<Rightarrow> stack \<Rightarrow> stack" where
  "cleanup_after_restart kid st =
     (let st1 = cleanup_client kid (cleanup_worker kid st)
      in st1\<lparr>stack_tasks := pop_key kid (stack_tasks st1),
             stack_results := pop_key kid (stack_results st1),
             stack_pending := pop_key kid (stack_pending st1)\<rparr>)"


section \<open>Quoting is safe\<close>

text \<open>
  Python's reading of a string literal, for the escapes \<open>repr\<close> writes: \<open>read_literal\<close> consumes
  an opening quote and gives the string and what follows the closing quote.
\<close>

definition read_escape :: "pystr \<Rightarrow> (nat \<times> pystr) option" where
  "read_escape s =
     (case s of
        [] \<Rightarrow> None
      | e # t \<Rightarrow>
          if e \<in> {34, 39, 92} then Some (e, t)
          else if e = 116 then Some (9, t)
          else if e = 110 then Some (10, t)
          else if e = 114 then Some (13, t)
          else if e = 120 then read_hex 2 0 t
          else if e = 117 then read_hex 4 0 t
          else if e = 85 then read_hex 8 0 t
          else None)"

lemma read_escape_length: "read_escape s = Some (v, t) \<Longrightarrow> length t < length s"
  by (auto simp: read_escape_def less_Suc_eq_le split: list.splits if_splits dest: read_hex_length)

function read_body :: "nat \<Rightarrow> pystr \<Rightarrow> (pystr \<times> pystr) option" where
  "read_body q [] = None"
| "read_body q (c # s) =
     (if c = q then Some ([], s)
      else if c = 10 then None
      else if c = 92 then
        (case read_escape s of
           None \<Rightarrow> None
         | Some (v, t) \<Rightarrow> map_option (\<lambda>(x, r). (v # x, r)) (read_body q t))
      else map_option (\<lambda>(x, r). (c # x, r)) (read_body q s))"
  by pat_completeness auto
termination
  by (relation "measure (\<lambda>(q, s). length s)") (auto dest!: read_escape_length)

declare read_body.simps [simp del]

definition read_literal :: "pystr \<Rightarrow> (pystr \<times> pystr) option" where
  "read_literal s =
     (case s of [] \<Rightarrow> None | q # t \<Rightarrow> if q = 34 \<or> q = 39 then read_body q t else None)"

lemma read_body_char:
  assumes "c < 16 ^ 8" and "q = 34 \<or> q = 39"
  shows "read_body q (repr_char pr q c @ s) = map_option (\<lambda>(x, r). (c # x, r)) (read_body q s)"
  using assms
  by (auto simp: repr_char_def read_body.simps(2) read_escape_def read_hex_fixed [of _ 0, simplified])

lemma read_body_repr:
  assumes "\<forall>c \<in> set s. c < 16 ^ 8" and "q = 34 \<or> q = 39"
  shows "read_body q (concat (map (repr_char pr q) s) @ q # rest) = Some (s, rest)"
  using assms(1)
proof (induction s)
  case Nil
  then show ?case by (simp add: read_body.simps(2))
next
  case (Cons c s)
  then show ?case using read_body_char [OF _ assms(2), of c pr] by simp
qed

lemma read_literal_repr:
  assumes "\<forall>c \<in> set s. c < 16 ^ 8"
  shows "read_literal (repr_str pr s @ rest) = Some (s, rest)"
  using read_body_repr [OF assms, of 34] read_body_repr [OF assms, of 39]
  by (simp add: repr_str_def read_literal_def Let_def)


section \<open>Properties\<close>

text \<open>A kernel for the witnesses: the world is its clock; it answers one subshell request.\<close>

definition demo_io :: "nat kernel_io" where
  "demo_io =
     \<lparr>io_monotonic = (\<lambda>n. (int n, n)),
      io_header = (\<lambda>t n. ([(lit ''msg_id'', JInt (int n))], n)),
      io_control_send = (\<lambda>m n. n),
      io_control_get = (\<lambda>t n. (ControlReply
         [(lit ''parent_header'', JDict [(lit ''msg_id'', JInt 0)]),
          (lit ''content'', JDict [(lit ''status'', JStr (lit ''ok'')),
                                   (lit ''subshell_id'', JStr (lit ''x''))])], Suc n)),
      io_shell_send = (\<lambda>m n. n)\<rparr>"

definition interrupt_prefix :: pystr where
  "interrupt_prefix = lines [lit ''import ctypes as _ctypes'', lit ''import os as _os'',
     lit ''import signal as _signal'', lit ''import threading as _threading''] @ lit ''_target_name = ''"

definition interrupt_suffix :: pystr where
  "interrupt_suffix = drop (length interrupt_prefix) (interrupt_snippet [])"

lemma interrupt_snippet_parts: "interrupt_snippet t = interrupt_prefix @ t @ interrupt_suffix"
  by (simp add: interrupt_snippet_def interrupt_prefix_def interrupt_suffix_def lines_def)

text \<open>
  C24: a subshell identifier cannot inject code.  Whatever identifier the kernel chose, the snippet
  sent on the main shell is the fixed program with one string literal in it, and Python reads that
  literal back as the thread name \<^verbatim>\<open>subshell-\<close> followed by exactly the identifier: no
  identifier can end the literal early.  The message carries no subshell of its own.
\<close>

theorem interrupt_snippet_cannot_be_escaped:
  assumes "\<forall>c \<in> set i. c < 16 ^ 8"
    and "io_header io (lit ''execute_request'') w = (header, w1)"
  shows "\<exists>message target.
      interrupt_subshell pr io (JStr i) w = (item_of ''msg_id'' header, io_shell_send io message w1)
    \<and> msg_header message = header
    \<and> field ''code'' (msg_content message) = Some (JStr (interrupt_prefix @ target @ interrupt_suffix))
    \<and> read_literal (target @ interrupt_suffix) = Some (lit ''subshell-'' @ i, interrupt_suffix)"
proof -
  have "\<forall>c \<in> set (lit ''subshell-'' @ i). c < 16 ^ 8" using assms(1) by (auto simp: lit_def)
  from read_literal_repr [OF this, of pr interrupt_suffix] show ?thesis
    using assms(2)
    by (intro exI [of _ "\<lparr>msg_header = header, msg_content =
          [(lit ''code'', JStr (interrupt_snippet (repr_str pr (lit ''subshell-'' @ i)))),
           (lit ''silent'', JBool True), (lit ''store_history'', JBool False),
           (lit ''user_expressions'', JDict []), (lit ''allow_stdin'', JBool False),
           (lit ''stop_on_error'', JBool True)]\<rparr>"]
        exI [of _ "repr_str pr (lit ''subshell-'' @ i)"])
      (simp add: interrupt_subshell_def Let_def py_str_def interrupt_snippet_parts)
qed

lemma interrupt_snippet_cannot_be_escaped_witness:
  "\<exists>target. read_literal (target @ interrupt_suffix) = Some (lit ''subshell-'' @ [39, 10, 92], interrupt_suffix)"
  using interrupt_snippet_cannot_be_escaped [of "[39, 10, 92]" demo_io 0 "[(lit ''msg_id'', JInt 0)]" 0 "\<lambda>c. True"]
  by (auto simp: demo_io_def)

lemma await_subshell_effect:
  assumes "await_subshell io rid deadline n c w = Some (Inr r, c', w')" and "cached_subshell c = None"
  shows "cached_subshell c' = r \<and> (\<exists>v. c' = c\<lparr>subshell_attr := v\<rparr>)"
  using assms
proof (induction io rid deadline n c w rule: await_subshell.induct)
  case (2 io rid deadline n c w)
  have same: "\<exists>v. c = c\<lparr>subshell_attr := v\<rparr>" by (rule exI [of _ "subshell_attr c"]) simp
  show ?case
    using "2.prems" "2.IH" same
    by (auto simp: cached_subshell_def split: prod.splits if_splits control_event.splits reply_verdict.splits
        json.splits)
qed simp

lemma ensure_subshell_effect:
  assumes "ensure_subshell io n c w = Some (Inr r, c', w')"
  shows "cached_subshell c' = r \<and> (\<exists>v. c' = c\<lparr>subshell_attr := v\<rparr>)"
proof (cases "cached_subshell c")
  case None
  with assms show ?thesis
    by (auto simp: ensure_subshell_def split: prod.splits sum.splits dest!: await_subshell_effect)
next
  case (Some i)
  have "\<exists>v. c = c\<lparr>subshell_attr := v\<rparr>" by (rule exI [of _ "subshell_attr c"]) simp
  with Some assms show ?thesis by (simp add: ensure_subshell_def)
qed

text \<open>
  Where executions go.  After \<open>ensure_subshell\<close> returned and the routing is installed, each
  \<open>execute\<close> of the client sends exactly one message on the shell channel, whose header names the
  subshell that was returned, or is the plain header when the kernel gave none.
\<close>

theorem routed_execute_targets_the_subshell:
  assumes "ensure_subshell io n c w = Some (Inr r, c1, w1)"
    and "ex_code args = JStr code"
    and "io_header io (lit ''execute_request'') w2 = (header, w3)"
  shows "\<exists>message. execute_via_subshell pr io (install_subshell_routing c1) args w2
      = (item_of ''msg_id'' (msg_header message), io_shell_send io message w3)
    \<and> msg_header message = (case r of None \<Rightarrow> header | Some i \<Rightarrow> set_field ''subshell_id'' i header)
    \<and> field ''code'' (msg_content message) = Some (JStr code)"
proof -
  have "cached_subshell (install_subshell_routing c1) = r"
    using ensure_subshell_effect [OF assms(1)] by (simp add: install_subshell_routing_def cached_subshell_def)
  then show ?thesis
    using assms(2,3)
    by (auto simp: execute_via_subshell_def Let_def install_subshell_routing_def
        intro!: exI [of _ "message.make _ _"] simp: message.defs)
qed

definition demo_args :: execute_args where
  "demo_args = \<lparr>ex_code = JStr [49], ex_silent = JBool False, ex_store_history = JBool True,
     ex_user_expressions = None, ex_allow_stdin = None, ex_stop_on_error = JBool True\<rparr>"

lemma demo_ensure:
  "ensure_subshell demo_io (Suc 0) fresh_client 0
    = Some (Inr (Some (JStr (lit ''x''))), fresh_client\<lparr>subshell_attr := Some (JStr (lit ''x''))\<rparr>, 1)"
  by (simp add: ensure_subshell_def demo_io_def fresh_client_def cached_subshell_def item_of_def
      subshell_timeout_def judge_reply_def py_get_def get_or_def opt_json_def)

lemma routed_execute_targets_the_subshell_witness:
  "\<exists>message. field ''subshell_id'' (msg_header message) = Some (JStr (lit ''x''))
    \<and> snd (execute_via_subshell (\<lambda>c. True) demo_io
        (install_subshell_routing (fresh_client\<lparr>subshell_attr := Some (JStr (lit ''x''))\<rparr>)) demo_args 5)
      = io_shell_send demo_io message 5"
proof -
  have "ex_code demo_args = JStr [49]" "io_header demo_io (lit ''execute_request'') 5 = ([(lit ''msg_id'', JInt 5)], 5)"
    by (simp_all add: demo_args_def demo_io_def)
  from routed_execute_targets_the_subshell [OF demo_ensure this, of "\<lambda>c. True"]
  obtain message where "execute_via_subshell (\<lambda>c. True) demo_io
        (install_subshell_routing (fresh_client\<lparr>subshell_attr := Some (JStr (lit ''x''))\<rparr>)) demo_args 5
      = (item_of ''msg_id'' (msg_header message), io_shell_send demo_io message 5)"
    and "msg_header message = set_field ''subshell_id'' (JStr (lit ''x'')) [(lit ''msg_id'', JInt 5)]"
    by auto
  then show ?thesis by (intro exI [of _ message]) simp
qed

text \<open>
  C25: the reply loop ends.  When the clock does not run backwards and every message read takes at
  least one tick of it, \<open>ensure_subshell\<close> answers within as many turns as its timeout has ticks:
  unrelated control traffic cannot keep it waiting.
\<close>

theorem ensure_subshell_terminates:
  assumes now: "\<And>w. fst (io_monotonic io w) = clock w \<and> clock (snd (io_monotonic io w)) \<ge> clock w"
    and read: "\<And>t w reply w'. io_control_get io t w = (ControlReply reply, w') \<Longrightarrow> clock w' \<ge> clock w + 1"
    and fuel: "nat subshell_timeout < n"
  shows "ensure_subshell io n c w \<noteq> None"
proof -
  have loop: "await_subshell io rid deadline n c w \<noteq> None" if "deadline - clock w < int n" "0 < n"
    for rid deadline n c w
    using that
  proof (induction n arbitrary: w)
    case (Suc n)
    obtain t1 w1 where m1: "io_monotonic io w = (t1, w1)" by fastforce
    obtain t2 w2 where m2: "io_monotonic io w1 = (t2, w2)" by fastforce
    obtain ev w3 where g: "io_control_get io (max 0 (deadline - t2)) w2 = (ev, w3)" by fastforce
    have t: "t1 = clock w" "clock w1 \<ge> clock w" "clock w2 \<ge> clock w1"
      using now [of w] now [of w1] m1 m2 by simp_all
    have later: "await_subshell io rid deadline n c w3 \<noteq> None" if "t1 < deadline" "ev = ControlReply reply" for reply
    proof -
      have "clock w3 \<ge> clock w + 1" using read [OF g [unfolded that(2)]] t by simp
      then have "deadline - clock w3 < int n" using Suc.prems(1) by simp
      moreover have "0 < n" using Suc.prems(1) t(1) that(1) by simp
      ultimately show ?thesis by (rule Suc.IH)
    qed
    show ?case
      using m1 m2 g later by (auto split: control_event.split reply_verdict.split)
  qed simp
  show ?thesis
  proof (cases "cached_subshell c")
    case None
    obtain header w1 where h: "io_header io (lit ''create_subshell_request'') w = (header, w1)" by fastforce
    obtain t w2 where m: "io_monotonic io (io_control_send io \<lparr>msg_header = header, msg_content = []\<rparr> w1) = (t, w2)"
      by fastforce
    have "clock w2 \<ge> t"
      using now [of "io_control_send io \<lparr>msg_header = header, msg_content = []\<rparr> w1"] m by simp
    then have "t + subshell_timeout - clock w2 < int n" "0 < n" using fuel by linarith+
    with None h m loop show ?thesis by (auto simp: ensure_subshell_def split: sum.split)
  qed (simp add: ensure_subshell_def)
qed

lemma ensure_subshell_terminates_witness:
  "ensure_subshell demo_io (Suc (nat subshell_timeout)) fresh_client 0 \<noteq> None"
  by (rule ensure_subshell_terminates [where clock = int]) (auto simp: demo_io_def)

text \<open>The entries of a kernel in the stack's dictionaries.\<close>

definition kernel_entries :: "stack \<Rightarrow> pystr \<Rightarrow> nat option \<times> bool option \<times> unit option \<times> unit option \<times> unit option" where
  "kernel_entries st k =
     (Option.bind (stack_clients st) (\<lambda>m. m k), Option.bind (stack_workers st) (\<lambda>m. m k),
      Option.bind (stack_tasks st) (\<lambda>m. m k), Option.bind (stack_results st) (\<lambda>m. m k),
      Option.bind (stack_pending st) (\<lambda>m. m k))"

text \<open>
  Cleaning up after a restart.  The kernel's worker, client, task, result and pending input are
  gone from every dictionary the stack has; its cached client, if any, has its channels stopped and
  is without subshell, routing and restart hook, so that the next client is set up afresh; a worker
  that was still running is cancelled.  Other kernels and other clients keep everything.
\<close>

theorem cleanup_after_restart_exact:
  "kernel_entries (cleanup_after_restart kid st) kid = (None, None, None, None, None)
   \<and> (\<forall>k. k \<noteq> kid \<longrightarrow> kernel_entries (cleanup_after_restart kid st) k = kernel_entries st k)
   \<and> (\<forall>r. client_heap (cleanup_after_restart kid st) r =
         (if fst (kernel_entries st kid) = Some r
          then (client_heap st r)\<lparr>subshell_attr := None, routing_installed := False, hook_installed := False\<rparr>
          else client_heap st r))
   \<and> cancelled (cleanup_after_restart kid st) =
       cancelled st @ (if fst (snd (kernel_entries st kid)) = Some False then [kid] else [])
   \<and> channels_stopped (cleanup_after_restart kid st) =
       channels_stopped st @ (case fst (kernel_entries st kid) of None \<Rightarrow> [] | Some r \<Rightarrow> [r])"
proof -
  have forget: "forget_patches c = c\<lparr>subshell_attr := None, routing_installed := False, hook_installed := False\<rparr>" for c
    by (cases "subshell_attr c") (simp_all add: forget_patches_def reset_subshell_state_def)
  have entries: "kernel_entries (cleanup_after_restart kid st) k = (if k = kid then (None, None, None, None, None)
      else kernel_entries st k)" for k
    by (cases "stack_clients st"; cases "stack_workers st"; cases "stack_tasks st"; cases "stack_results st";
        cases "stack_pending st")
      (auto simp: kernel_entries_def cleanup_after_restart_def cleanup_client_def cleanup_worker_def
        pop_key_def modify_client_def Let_def split: option.split)
  have rest: "client_heap (cleanup_after_restart kid st) r =
         (if fst (kernel_entries st kid) = Some r
          then (client_heap st r)\<lparr>subshell_attr := None, routing_installed := False, hook_installed := False\<rparr>
          else client_heap st r)"
    "cancelled (cleanup_after_restart kid st) =
       cancelled st @ (if fst (snd (kernel_entries st kid)) = Some False then [kid] else [])"
    "channels_stopped (cleanup_after_restart kid st) =
       channels_stopped st @ (case fst (kernel_entries st kid) of None \<Rightarrow> [] | Some r \<Rightarrow> [r])" for r
    by (cases "stack_clients st"; cases "stack_workers st";
        auto simp: kernel_entries_def cleanup_after_restart_def cleanup_client_def cleanup_worker_def
          modify_client_def forget Let_def split: option.split)+
  show ?thesis using entries rest by simp
qed

definition demo_stack :: stack where
  "demo_stack = \<lparr>stack_clients = Some [lit ''k'' \<mapsto> 0], stack_workers = Some [lit ''k'' \<mapsto> False],
     stack_tasks = None, stack_results = Some Map.empty, stack_pending = Some Map.empty,
     client_heap = (\<lambda>_. install_subshell_routing fresh_client), restart_hooks = Some [],
     cancelled = [], channels_stopped = []\<rparr>"

lemma cleanup_after_restart_exact_witness:
  "cancelled (cleanup_after_restart (lit ''k'') demo_stack) = [lit ''k'']
   \<and> \<not> routing_installed (client_heap (cleanup_after_restart (lit ''k'') demo_stack) 0)"
  using cleanup_after_restart_exact [of "lit ''k''" demo_stack]
  by (auto simp: demo_stack_def kernel_entries_def)

end
