(* ===== verification/Hn_Orchestrator.thy ===== *)
theory Hn_Orchestrator
  imports Hn_Ledger Hn_Runtime Hn_Notebook Hn_Subshell
begin

text \<open>
  The job service of \<^verbatim>\<open>execution_orchestrator.py\<close>: it ties the ledger, the runtime manager, the
  notebook accessor and the execution stack together.  The server's state is one record; the
  external world \<open>ext\<close> (Jupyter, kernels, clock) and the ledger form the world the runtime manager
  threads, because stopping a runtime calls back into the ledger.  A queued execution runs as a
  task: its program counter names the points where \<open>_run_job\<close> and \<open>_poll_request\<close> suspend, and each
  step between two of them is one transition, so that tasks and requests interleave there.
\<close>

section \<open>State\<close>

record 'x server_world =
  ext :: 'x
  ledger_of :: ledger

text \<open>Where a task of \<open>_run_job\<close> stands; the lists are the cells still to run.\<close>

datatype task_pc =
    EnterRoom
  | AwaitLock pystr
  | AtCell pystr "pystr list"
  | ReadSource pystr pystr "pystr list"
  | Submit pystr pystr pystr "pystr list"
  | Polling pystr pystr pystr pystr "pystr list"
  | Flush pystr pystr jobj "pystr list"
  | Finished

record task =
  task_notebook :: pystr
  task_actor :: pystr
  task_actor_type :: actor_type
  task_cells :: "pystr list"
  task_pc :: task_pc

record 'x server =
  manager :: "'x server_world rtm"
  docs :: "pystr \<Rightarrow> doc_room option"
  docs_started :: bool
  exec_stack :: stack
  awaiting_sig :: "pystr \<Rightarrow> pystr option"
  resumed_sig :: "pystr \<Rightarrow> pystr option"
  job_locks :: "pystr \<Rightarrow> pystr list"
  tasks :: "pystr \<Rightarrow> task option"

text \<open>
  What is outside the repository: Jupyter's services, the notebook services, the channels of each
  client, and the execution stack's operations, which see the stack's own dictionaries.
\<close>

record 'x server_env =
  jupyter :: "'x services"
  notebook_services :: "'x notebook_env"
  client_io :: "nat \<Rightarrow> 'x kernel_io"
  stack_get_client :: "(pystr \<Rightarrow> stack \<times> 'x \<Rightarrow> (nat, stack \<times> 'x) outcome) option"
  start_channels :: "nat \<Rightarrow> 'x \<Rightarrow> (unit, 'x) outcome"
  wait_for_ready :: "(nat \<Rightarrow> 'x \<Rightarrow> (unit, 'x) outcome) option"
  stack_put :: "pystr \<Rightarrow> pystr \<Rightarrow> pystr \<Rightarrow> pystr \<Rightarrow> stack \<times> 'x \<Rightarrow> (pystr, stack \<times> 'x) outcome"
  stack_get :: "pystr \<Rightarrow> pystr \<Rightarrow> stack \<times> 'x \<Rightarrow> (jobj option, stack \<times> 'x) outcome"
  stack_send_input :: "pystr \<Rightarrow> json \<Rightarrow> stack \<times> 'x \<Rightarrow> (unit, stack \<times> 'x) outcome"
  reply_fuel :: nat

section \<open>Running the components' operations on the server\<close>

definition lift_ext :: "('x \<Rightarrow> 'a \<times> 'x) \<Rightarrow> 'x server_world \<Rightarrow> 'a \<times> 'x server_world" where
  "lift_ext f w = (case f (ext w) of (r, x) \<Rightarrow> (r, w\<lparr>ext := x\<rparr>))"

text \<open>
  The services the runtime manager is built with in \<^verbatim>\<open>server/extension.py\<close>: Jupyter's, and
  \<open>ledger.evict_notebook\<close> as the callback.
\<close>

definition manager_services :: "'x server_env \<Rightarrow> 'x server_world services" where
  "manager_services env =
     \<lparr>create_session = (\<lambda>p n k. lift_ext (create_session (jupyter env) p n k)),
      get_session = (\<lambda>p. lift_ext (get_session (jupyter env) p)),
      delete_session = (\<lambda>s. lift_ext (delete_session (jupyter env) s)),
      has_kernel = (\<lambda>k w. has_kernel (jupyter env) k (ext w)),
      shutdown_kernel = (\<lambda>k. lift_ext (shutdown_kernel (jupyter env) k)),
      interrupt_kernel = (\<lambda>k. lift_ext (interrupt_kernel (jupyter env) k)),
      on_notebook_stopped = Some (\<lambda>nb w. (Inr (), w\<lparr>ledger_of := evict_notebook nb (ledger_of w)\<rparr>)),
      time_now = lift_ext (time_now (jupyter env)),
      uuid_hex = lift_ext (uuid_hex (jupyter env))\<rparr>"

definition on_manager :: "('x server_world rtm \<Rightarrow> 'a \<times> 'x server_world rtm) \<Rightarrow> 'x server \<Rightarrow> 'a \<times> 'x server" where
  "on_manager f s = (case f (manager s) of (r, m) \<Rightarrow> (r, s\<lparr>manager := m\<rparr>))"

definition update_manager :: "('x server_world rtm \<Rightarrow> 'x server_world rtm) \<Rightarrow> 'x server \<Rightarrow> (unit, 'x server) outcome" where
  "update_manager f s = (Inr (), s\<lparr>manager := f (manager s)\<rparr>)"

definition server_ledger :: "'x server \<Rightarrow> ledger" where
  "server_ledger s = ledger_of (world (manager s))"

definition set_ledger :: "ledger \<Rightarrow> 'x server \<Rightarrow> 'x server" where
  "set_ledger l s = s\<lparr>manager := (manager s)\<lparr>world := (world (manager s))\<lparr>ledger_of := l\<rparr>\<rparr>\<rparr>"

definition on_ext :: "('x \<Rightarrow> 'a \<times> 'x) \<Rightarrow> 'x server \<Rightarrow> 'a \<times> 'x server" where
  "on_ext f s = on_manager (\<lambda>m. case lift_ext f (world m) of (r, w) \<Rightarrow> (r, m\<lparr>world := w\<rparr>)) s"

definition on_stack :: "(stack \<times> 'x \<Rightarrow> 'a \<times> stack \<times> 'x) \<Rightarrow> 'x server \<Rightarrow> 'a \<times> 'x server" where
  "on_stack f s =
     (case f (exec_stack s, ext (world (manager s))) of
        (r, st, x) \<Rightarrow> (r, snd (on_ext (\<lambda>_. ((), x)) (s\<lparr>exec_stack := st\<rparr>))))"

definition on_notebook :: "('x notebooks \<Rightarrow> 'a \<times> 'x notebooks) \<Rightarrow> 'x server \<Rightarrow> 'a \<times> 'x server" where
  "on_notebook f s =
     (case f \<lparr>nb_world = ext (world (manager s)), doc_rooms = docs s, server_started = docs_started s\<rparr> of
        (r, n) \<Rightarrow>
          (r, snd (on_ext (\<lambda>_. ((), nb_world n))
                 (s\<lparr>docs := doc_rooms n, docs_started := server_started n\<rparr>))))"

text \<open>
  Ledger calls read the clock where the ledger does; the identifier of a new job, which the ledger
  draws with \<open>uuid4\<close>, is an argument, as in the ledger's model.
\<close>

definition ledger_create ::
  "'x server_env \<Rightarrow> pystr \<Rightarrow> pystr \<Rightarrow> pystr \<Rightarrow> actor_type \<Rightarrow> job_action \<Rightarrow> pystr option \<Rightarrow> pystr option
   \<Rightarrow> 'x server \<Rightarrow> (job, 'x server) outcome" where
  "ledger_create env i nb actor atype action target runtime s =
     (case on_ext (time_now (jupyter env)) s of (now, s1) \<Rightarrow>
      case create_job i now nb actor atype action target runtime (server_ledger s1) of (j, l) \<Rightarrow>
        (Inr j, set_ledger l s1))"

definition ledger_status ::
  "'x server_env \<Rightarrow> pystr \<Rightarrow> job_status \<Rightarrow> pystr option \<Rightarrow> 'x server \<Rightarrow> (unit, 'x server) outcome" where
  "ledger_status env i st runtime s =
     (case get_job i (server_ledger s) of
        None \<Rightarrow> (Inr (), s)
      | Some _ \<Rightarrow>
          (case on_ext (time_now (jupyter env)) s of (now, s1) \<Rightarrow>
             (Inr (), set_ledger (update_job_status i st runtime now (server_ledger s1)) s1)))"

definition ledger_uid :: "pystr \<Rightarrow> pystr \<Rightarrow> 'x server \<Rightarrow> (unit, 'x server) outcome" where
  "ledger_uid i uid s =
     (case append_request_uid i uid (server_ledger s) of (r, l) \<Rightarrow> (r, set_ledger l s))"

definition ledger_attribute ::
  "'x server_env \<Rightarrow> pystr \<Rightarrow> pystr \<Rightarrow> pystr option \<Rightarrow> actor_type option \<Rightarrow> pystr option \<Rightarrow> actor_type option
   \<Rightarrow> 'x server \<Rightarrow> (unit, 'x server) outcome" where
  "ledger_attribute env nb cell editor etype executor xtype s =
     (case on_ext (time_now (jupyter env)) s of (now, s1) \<Rightarrow>
        (Inr (), set_ledger (update_cell_attribution nb cell editor etype executor xtype now (server_ledger s1)) s1))"

definition ensure :: "'x server_env \<Rightarrow> pystr \<Rightarrow> pystr option \<Rightarrow> 'x server \<Rightarrow> (pystr, 'x server) outcome" where
  "ensure env nb k = on_manager (ensure_room (manager_services env) nb k)"

definition room_of :: "'x server \<Rightarrow> pystr \<Rightarrow> room" where
  "room_of s r = heap (manager s) r"

text \<open>\<open>room.kernel_id\<close>, which the code passes on as it is; it is a string on every ensured room.\<close>

definition kernel_of :: "'x server \<Rightarrow> pystr \<Rightarrow> pystr" where
  "kernel_of s r = (case kernel_id (room_of s r) of None \<Rightarrow> [] | Some k \<Rightarrow> k)"

section \<open>The kernel client\<close>

text \<open>
  \<open>_ensure_kernel_client_ready\<close>.  \<open>start_channels\<close> may raise \<open>RuntimeError\<close>, which is ignored.
  The reply loop of \<open>ensure_subshell\<close> is given the environment's fuel.
\<close>

definition with_client :: "nat \<Rightarrow> (client \<Rightarrow> 'x \<Rightarrow> 'a \<times> client \<times> 'x) \<Rightarrow> 'x server \<Rightarrow> 'a \<times> 'x server" where
  "with_client r f =
     on_stack (\<lambda>(st, x). case f (client_heap st r) x of (a, c, x') \<Rightarrow> (a, modify_client r (\<lambda>_. c) st, x'))"

definition subshell_of_client :: "'x server_env \<Rightarrow> nat \<Rightarrow> 'x server \<Rightarrow> (json option, 'x server) outcome" where
  "subshell_of_client env r =
     with_client r (\<lambda>c x. case ensure_subshell (client_io env r) (reply_fuel env) c x of
                            None \<Rightarrow> (Inl (OtherError (lit ''pending'') []), c, x)
                          | Some (v, c', x') \<Rightarrow> (v, c', x'))"

definition ignore_runtime_error :: "('s \<Rightarrow> (unit, 's) outcome) \<Rightarrow> 's \<Rightarrow> (unit, 's) outcome" where
  "ignore_runtime_error m s =
     (case m s of
        (Inl (RuntimeError _), s1) \<Rightarrow> (Inr (), s1)
      | (Inl (KernelMismatch _ _ _), s1) \<Rightarrow> (Inr (), s1)
      | r \<Rightarrow> r)"

definition ensure_kernel_client_ready :: "'x server_env \<Rightarrow> pystr \<Rightarrow> 'x server \<Rightarrow> (unit, 'x server) outcome" where
  "ensure_kernel_client_ready env kid =
     (case stack_get_client env of
        None \<Rightarrow> mret ()
      | Some get \<Rightarrow>
          mbind (on_stack (get kid)) (\<lambda>r.
          mbind (ignore_runtime_error (on_ext (start_channels env r))) (\<lambda>_.
          mbind (case wait_for_ready env of None \<Rightarrow> mret () | Some wait \<Rightarrow> on_ext (wait r)) (\<lambda>_.
          mbind (subshell_of_client env r) (\<lambda>_ s.
            (Inr (), s\<lparr>exec_stack := register_restart_hook kid r
                         (modify_client r install_subshell_routing (exec_stack s))\<rparr>))))))"

text \<open>\<open>_interrupt_via_subshell\<close>: every exception on the way means no.\<close>

definition interrupt_via_subshell :: "'x server_env \<Rightarrow> pystr option \<Rightarrow> 'x server \<Rightarrow> bool \<times> 'x server" where
  "interrupt_via_subshell env kid s =
     (case (kid, stack_get_client env) of
        (Some k, Some get) \<Rightarrow>
          (case on_stack (get k) s of
             (Inl e, s1) \<Rightarrow> (False, s1)
           | (Inr r, s1) \<Rightarrow>
               (case cached_subshell (client_heap (exec_stack s1) r) of
                  None \<Rightarrow> (False, s1)
                | Some i \<Rightarrow>
                    (case on_ext (interrupt_subshell (printable_char (notebook_services env)) (client_io env r) i) s1 of
                       (Inl e, s2) \<Rightarrow> (False, s2)
                     | (Inr _, s2) \<Rightarrow> (True, s2))))
      | _ \<Rightarrow> (False, s))"

section \<open>Requests\<close>

definition resolve_kernel_name ::
  "'x server_env \<Rightarrow> pystr \<Rightarrow> pystr option \<Rightarrow> 'x server \<Rightarrow> (pystr, 'x server) outcome" where
  "resolve_kernel_name env nb explicit =
     (case explicit of
        Some k \<Rightarrow> if k \<noteq> [] then mret k else on_notebook (get_kernelspec_name (notebook_services env) nb)
      | None \<Rightarrow> on_notebook (get_kernelspec_name (notebook_services env) nb))"

definition spawn :: "pystr \<Rightarrow> task \<Rightarrow> 'x server \<Rightarrow> (unit, 'x server) outcome" where
  "spawn i t s = (Inr (), s\<lparr>tasks := (tasks s)(i := Some t)\<rparr>)"

text \<open>
  The three requests that await, each cut at its awaits: the parts are composed here to the whole
  request, and run one by one, with other work in between, in the transition system of the server.
\<close>

definition queue_create ::
  "'x server_env \<Rightarrow> pystr \<Rightarrow> pystr \<Rightarrow> pystr list \<Rightarrow> pystr \<Rightarrow> actor_type \<Rightarrow> pystr \<Rightarrow> 'x server
   \<Rightarrow> (job, 'x server) outcome" where
  "queue_create env i nb cells actor atype r =
     mbind (ledger_create env i nb actor atype EXECUTE
              (Some (dumps default_dump (JList (map JStr cells)))) (Some r)) (\<lambda>j.
     mbind (update_manager (mark_job_started (manager_services env) nb (job_id j))) (\<lambda>_.
     mbind (spawn (job_id j) \<lparr>task_notebook = nb, task_actor = actor, task_actor_type = atype,
                              task_cells = cells, task_pc = EnterRoom\<rparr>) (\<lambda>_.
     mret j)))"

definition queue_execution ::
  "'x server_env \<Rightarrow> pystr \<Rightarrow> pystr \<Rightarrow> pystr list \<Rightarrow> pystr \<Rightarrow> actor_type \<Rightarrow> pystr option \<Rightarrow> 'x server
   \<Rightarrow> (job, 'x server) outcome" where
  "queue_execution env i nb cells actor atype kname =
     mbind (resolve_kernel_name env nb kname) (\<lambda>desired.
     mbind (ensure env nb (Some desired)) (queue_create env i nb cells actor atype))"

text \<open>\<open>send_stdin\<close>: the check, the runtime, the delivery, the record, the resumption; an await ends each but the last.\<close>

fun job_status_format :: "job_status \<Rightarrow> pystr" where
  "job_status_format QUEUED = lit ''JobStatus.QUEUED''"
| "job_status_format RUNNING = lit ''JobStatus.RUNNING''"
| "job_status_format job_status.AWAITING_INPUT = lit ''JobStatus.AWAITING_INPUT''"
| "job_status_format SUCCEEDED = lit ''JobStatus.SUCCEEDED''"
| "job_status_format job_status.FAILED = lit ''JobStatus.FAILED''"
| "job_status_format INTERRUPTED = lit ''JobStatus.INTERRUPTED''"

definition stdin_check :: "pystr \<Rightarrow> 'x server \<Rightarrow> (job, 'x server) outcome" where
  "stdin_check i s =
     (case get_job i (server_ledger s) of
        None \<Rightarrow> (Inl (ValueError (lit ''Job '' @ i @ lit '' not found'')), s)
      | Some j \<Rightarrow>
          if job_status j \<noteq> job_status.AWAITING_INPUT
          then (Inl (ValueError (lit ''Job '' @ i @ lit '' is '' @ job_status_format (job_status j)
                      @ lit '', not awaiting input'')), s)
          else (Inr j, s))"

definition stdin_ensure :: "'x server_env \<Rightarrow> job \<Rightarrow> 'x server \<Rightarrow> (pystr \<times> pystr, 'x server) outcome" where
  "stdin_ensure env j =
     mbind (ensure env (job_notebook_id j) None) (\<lambda>r s.
       case kernel_id (room_of s r) of
         None \<Rightarrow> (Inl (ValueError (lit ''Notebook '' @ job_notebook_id j @ lit '' has no live runtime'')), s)
       | Some k \<Rightarrow> (Inr (r, k), s))"

definition stdin_input :: "'x server_env \<Rightarrow> json \<Rightarrow> pystr \<times> pystr \<Rightarrow> 'x server \<Rightarrow> (pystr, 'x server) outcome" where
  "stdin_input env v rk = mbind (on_stack (stack_send_input env (snd rk) v)) (\<lambda>_. mret (fst rk))"

definition stdin_record ::
  "'x server_env \<Rightarrow> pystr \<Rightarrow> job \<Rightarrow> pystr \<Rightarrow> actor_type \<Rightarrow> pystr \<Rightarrow> 'x server \<Rightarrow> (pystr, 'x server) outcome" where
  "stdin_record env new j actor atype r s =
     (let s1 = (case awaiting_sig s (job_id j) of
                  None \<Rightarrow> s
                | Some sig \<Rightarrow> s\<lparr>resumed_sig := (resumed_sig s)(job_id j := Some sig)\<rparr>)
      in mbind (ledger_create env new (job_notebook_id j) actor atype STDIN_REPLY None (Some r)) (\<lambda>_. mret r) s1)"

definition stdin_resume :: "'x server_env \<Rightarrow> job \<Rightarrow> pystr \<Rightarrow> 'x server \<Rightarrow> (unit, 'x server) outcome" where
  "stdin_resume env j r =
     mbind (ledger_status env (job_id j) RUNNING (Some r)) (\<lambda>_ s.
       on_manager (set_runtime_state (manager_services env) r
         (if attached_clients (room_of s r) \<noteq> {} then LIVE_ATTACHED else LIVE_DETACHED)) s)"

definition stdin_deliver :: "'x server_env \<Rightarrow> job \<Rightarrow> json \<Rightarrow> 'x server \<Rightarrow> (pystr, 'x server) outcome" where
  "stdin_deliver env j v = mbind (stdin_ensure env j) (stdin_input env v)"

definition stdin_finish ::
  "'x server_env \<Rightarrow> pystr \<Rightarrow> job \<Rightarrow> pystr \<Rightarrow> actor_type \<Rightarrow> pystr \<Rightarrow> 'x server
   \<Rightarrow> (unit, 'x server) outcome" where
  "stdin_finish env new j actor atype r = mbind (stdin_record env new j actor atype r) (stdin_resume env j)"

definition send_stdin ::
  "'x server_env \<Rightarrow> pystr \<Rightarrow> pystr \<Rightarrow> json \<Rightarrow> pystr \<Rightarrow> actor_type \<Rightarrow> 'x server \<Rightarrow> (unit, 'x server) outcome" where
  "send_stdin env new i v actor atype =
     mbind (stdin_check i) (\<lambda>j. mbind (stdin_deliver env j v) (stdin_finish env new j actor atype))"

definition interrupt_kernel_of :: "'x server_env \<Rightarrow> pystr \<Rightarrow> 'x server \<Rightarrow> (pystr, 'x server) outcome" where
  "interrupt_kernel_of env r =
     mbind (\<lambda>s. case interrupt_via_subshell env (kernel_id (room_of s r)) s of
                  (True, s1) \<Rightarrow> update_manager (touch_activity (manager_services env) r) s1
                | (False, s1) \<Rightarrow> on_manager (interrupt_runtime (manager_services env) r) s1) (\<lambda>_. mret r)"

definition interrupt_record ::
  "'x server_env \<Rightarrow> pystr \<Rightarrow> pystr \<Rightarrow> pystr \<Rightarrow> actor_type \<Rightarrow> pystr \<Rightarrow> 'x server \<Rightarrow> (unit, 'x server) outcome" where
  "interrupt_record env new nb actor atype r =
     mbind (ledger_create env new nb actor atype INTERRUPT None (Some r)) (\<lambda>_. mret ())"

definition interrupt_notebook ::
  "'x server_env \<Rightarrow> pystr \<Rightarrow> pystr \<Rightarrow> pystr \<Rightarrow> actor_type \<Rightarrow> 'x server \<Rightarrow> (unit, 'x server) outcome" where
  "interrupt_notebook env new nb actor atype =
     mbind (ensure env nb None) (\<lambda>r.
     mbind (interrupt_kernel_of env r) (interrupt_record env new nb actor atype))"

definition runtime_status_of :: "'x server_env \<Rightarrow> pystr \<Rightarrow> 'x server \<Rightarrow> (runtime_status, 'x server) outcome" where
  "runtime_status_of env nb = on_manager (get_runtime_status (manager_services env) nb)"


section \<open>Tasks\<close>

definition input_request_signature :: "json \<Rightarrow> pystr" where
  "input_request_signature request = dumps (default_dump\<lparr>sort_keys := True\<rparr>) request"

definition set_pc :: "pystr \<Rightarrow> task \<Rightarrow> task_pc \<Rightarrow> 'x server \<Rightarrow> 'x server" where
  "set_pc i t pc s = s\<lparr>tasks := (tasks s)(i := Some (t\<lparr>task_pc := pc\<rparr>))\<rparr>"

text \<open>
  The \<open>finally\<close> block of \<open>_run_job\<close> and the release of the room's lock.  When the block itself
  raises, because the room is no longer registered, the task ends all the same.
\<close>

definition leave_room :: "'x server_env \<Rightarrow> pystr \<Rightarrow> task \<Rightarrow> pystr \<Rightarrow> 'x server \<Rightarrow> 'x server" where
  "leave_room env i t r s =
     (let svc = manager_services env;
          s1 = snd (update_manager (mark_job_finished svc (task_notebook t) i) s);
          s2 = (if room_state (room_of s1 r) = runtime_state.AWAITING_INPUT
                then snd (on_manager (set_runtime_state svc r LIVE_DETACHED) s1)
                else snd (update_manager (touch_activity svc r) s1))
      in set_pc i t Finished (s2\<lparr>job_locks := (job_locks s2)(r := remove1 i (job_locks s2 r))\<rparr>))"

definition end_job :: "'x server_env \<Rightarrow> pystr \<Rightarrow> task \<Rightarrow> pystr \<Rightarrow> job_status \<Rightarrow> 'x server \<Rightarrow> 'x server" where
  "end_job env i t r st s = leave_room env i t r (snd (ledger_status env i st None s))"

text \<open>The result of the segments inside the \<open>try\<close>: an exception fails the job.\<close>

definition or_fail ::
  "'x server_env \<Rightarrow> pystr \<Rightarrow> task \<Rightarrow> pystr \<Rightarrow> ('a, 'x server) outcome \<Rightarrow> ('a \<Rightarrow> 'x server \<Rightarrow> 'x server)
   \<Rightarrow> 'x server" where
  "or_fail env i t r outcome k =
     (case outcome of
        (Inl e, s) \<Rightarrow> end_job env i t r job_status.FAILED s
      | (Inr x, s) \<Rightarrow> k x s)"

definition submit_cell ::
  "'x server_env \<Rightarrow> pystr \<Rightarrow> task \<Rightarrow> pystr \<Rightarrow> pystr \<Rightarrow> pystr \<Rightarrow> 'x server \<Rightarrow> (pystr, 'x server) outcome" where
  "submit_cell env i t kid cell source =
     mbind (on_notebook (ensure_document_room (notebook_services env) (task_notebook t))) (\<lambda>document.
     mbind (on_stack (stack_put env kid source document cell)) (\<lambda>uid.
     mbind (ledger_uid i uid) (\<lambda>_.
     mret uid)))"

text \<open>One turn of \<open>_poll_request\<close>: \<open>None\<close> keeps polling.\<close>

definition poll_turn ::
  "'x server_env \<Rightarrow> pystr \<Rightarrow> pystr \<Rightarrow> pystr \<Rightarrow> pystr \<Rightarrow> 'x server \<Rightarrow> (jobj option, 'x server) outcome" where
  "poll_turn env i r kid uid =
     mbind (on_stack (stack_get env kid uid)) (\<lambda>answer s.
       case answer of
         None \<Rightarrow> (Inr None, s)
       | Some result \<Rightarrow>
           (case opt_json (field ''input_request'' result) of
              JNull \<Rightarrow>
                (Inr (Some result),
                 snd (update_manager (touch_activity (manager_services env) r)
                   (s\<lparr>awaiting_sig := (awaiting_sig s)(i := None),
                      resumed_sig := (resumed_sig s)(i := None)\<rparr>)))
            | request \<Rightarrow>
                let sig = input_request_signature request;
                    s1 = s\<lparr>awaiting_sig := (awaiting_sig s)(i := Some sig)\<rparr>
                in if resumed_sig s i \<noteq> Some sig
                   then mbind (ledger_status env i job_status.AWAITING_INPUT None) (\<lambda>_.
                        mbind (on_manager (set_runtime_state (manager_services env) r
                                 runtime_state.AWAITING_INPUT)) (\<lambda>_.
                        mret None)) s1
                   else (Inr None, s1)))"

definition result_failed :: "jobj \<Rightarrow> bool" where
  "result_failed result \<longleftrightarrow>
     field ''error'' result \<noteq> None \<or> opt_json (field ''status'' result) = JStr (lit ''error'')"

definition record_result :: "'x server_env \<Rightarrow> task \<Rightarrow> pystr \<Rightarrow> 'x server \<Rightarrow> (unit, 'x server) outcome" where
  "record_result env t cell =
     mbind (on_notebook (flush_document (notebook_services env) (task_notebook t))) (\<lambda>_.
     ledger_attribute env (task_notebook t) cell None None (Some (task_actor t)) (Some (task_actor_type t)))"

text \<open>
  One transition of a task.  The lock is FIFO: its queue's head holds it, a queued task that is not
  the head stays where it is.  A task whose first \<open>ensure_room\<close> raises ends there: that call is
  before the \<open>try\<close>.
\<close>

definition task_step :: "'x server_env \<Rightarrow> pystr \<Rightarrow> task \<Rightarrow> 'x server \<Rightarrow> 'x server" where
  "task_step env i t s =
     (case task_pc t of
        EnterRoom \<Rightarrow>
          (case ensure env (task_notebook t) None s of
             (Inl e, s1) \<Rightarrow> set_pc i t Finished s1
           | (Inr r, s1) \<Rightarrow> set_pc i t (AwaitLock r) (s1\<lparr>job_locks := (job_locks s1)(r := job_locks s1 r @ [i])\<rparr>))
      | AwaitLock r \<Rightarrow>
          if job_locks s r \<noteq> [] \<and> hd (job_locks s r) = i
          then set_pc i t (AtCell r (task_cells t))
                 (snd (update_manager (touch_activity (manager_services env) r)
                   (snd (ledger_status env i RUNNING (Some r) s))))
          else s
      | AtCell r [] \<Rightarrow> end_job env i t r SUCCEEDED s
      | AtCell r (c # cs) \<Rightarrow>
          or_fail env i t r (ensure_kernel_client_ready env (kernel_of s r) s)
            (\<lambda>_. set_pc i t (ReadSource r c cs))
      | ReadSource r c cs \<Rightarrow>
          or_fail env i t r (on_notebook (get_cell_source (notebook_services env) (task_notebook t) c) s)
            (\<lambda>source. set_pc i t (Submit r c source cs))
      | Submit r c source cs \<Rightarrow>
          or_fail env i t r (submit_cell env i t (kernel_of s r) c source s)
            (\<lambda>uid s1. set_pc i t (Polling r (kernel_of s1 r) uid c cs) s1)
      | Polling r kid uid c cs \<Rightarrow>
          or_fail env i t r (poll_turn env i r kid uid s)
            (\<lambda>answer s1. case answer of None \<Rightarrow> s1 | Some result \<Rightarrow> set_pc i t (Flush r c result cs) s1)
      | Flush r c result cs \<Rightarrow>
          or_fail env i t r (record_result env t c s)
            (\<lambda>_ s1. if result_failed result then end_job env i t r job_status.FAILED s1
                     else set_pc i t (AtCell r cs) s1)
      | Finished \<Rightarrow> s)"


section \<open>What each part of the state sees\<close>

text \<open>
  The operations on the outside world, the execution stack and the notebooks leave the tasks, the
  locks and the ledger alone; so do the manager's operations that do not stop a runtime.
\<close>

definition core :: "'x server \<Rightarrow> (pystr \<Rightarrow> task option) \<times> (pystr \<Rightarrow> pystr list) \<times> ledger" where
  "core s = (tasks s, job_locks s, server_ledger s)"

lemma core_eqD:
  "core s' = core s \<Longrightarrow> tasks s' = tasks s \<and> job_locks s' = job_locks s \<and> server_ledger s' = server_ledger s"
  by (simp add: core_def)

lemma ledger_lift_ext [simp]: "ledger_of (snd (lift_ext f w)) = ledger_of w"
  by (simp add: lift_ext_def split: prod.split)

lemma manager_services_keep: "services_keep (manager_services env) (\<lambda>w. ledger_of w = l)"
  by (simp add: services_keep_def manager_services_def)

lemma on_ext_core [simp]: "core (snd (on_ext f s)) = core s"
  by (simp add: on_ext_def on_manager_def core_def server_ledger_def lift_ext_def split: prod.split)

lemma on_stack_core [simp]: "core (snd (on_stack f s)) = core s"
proof -
  have "core (s\<lparr>exec_stack := st\<rparr>) = core s" for st by (simp add: core_def server_ledger_def)
  then show ?thesis by (simp add: on_stack_def split: prod.split)
qed

lemma on_notebook_core [simp]: "core (snd (on_notebook f s)) = core s"
proof -
  have "core (s\<lparr>docs := d, docs_started := b\<rparr>) = core s" for d b by (simp add: core_def server_ledger_def)
  then show ?thesis by (simp add: on_notebook_def split: prod.split)
qed

lemma on_manager_core:
  assumes "\<And>m. ledger_of (world (snd (f m))) = ledger_of (world m)"
  shows "core (snd (on_manager f s)) = core s"
  using assms [of "manager s"] by (simp add: on_manager_def core_def server_ledger_def case_prod_beta)

lemma update_manager_core:
  assumes "\<And>m. ledger_of (world (f m)) = ledger_of (world m)"
  shows "core (snd (update_manager f s)) = core s"
  using assms by (simp add: update_manager_def core_def server_ledger_def)

lemma manager_ops_core [simp]:
  "core (snd (ensure env nb k s)) = core s"
  "core (snd (on_manager (set_runtime_state (manager_services env) r st) s)) = core s"
  "core (snd (on_manager (interrupt_runtime (manager_services env) r) s)) = core s"
  "core (snd (on_manager (get_runtime_status (manager_services env) nb) s)) = core s"
  "core (snd (on_manager (open_runtime (manager_services env) nb c k) s)) = core s"
  "core (snd (on_manager (attach_client (manager_services env) r c) s)) = core s"
  "core (snd (on_manager (detach_client (manager_services env) r c) s)) = core s"
  "core (snd (update_manager (touch_activity (manager_services env) r) s)) = core s"
  "core (snd (update_manager (mark_job_started (manager_services env) nb i) s)) = core s"
  "core (snd (update_manager (mark_job_finished (manager_services env) nb i) s)) = core s"
  unfolding ensure_def
  by (intro on_manager_core update_manager_core
      ensure_room_keeps [OF manager_services_keep] set_runtime_state_keeps [OF manager_services_keep]
      interrupt_runtime_keeps [OF manager_services_keep] client_ops_keep [OF manager_services_keep]
      touch_activity_keeps [OF manager_services_keep] mark_job_keeps [OF manager_services_keep] refl)+

lemma mbind_core:
  assumes "\<And>s. core (snd (m s)) = core s" and "\<And>x s. core (snd (f x s)) = core s"
  shows "core (snd (mbind m f s)) = core s"
proof -
  obtain r s1 where "m s = (r, s1)" by fastforce
  with assms(1) [of s] assms(2) [of _ s1] show ?thesis by (simp add: mbind_def split: sum.split)
qed

lemma mret_core [simp]: "core (snd (mret x s)) = core s"
  by (simp add: mret_def)

lemma ignore_runtime_error_core:
  assumes "\<And>s. core (snd (m s)) = core s"
  shows "core (snd (ignore_runtime_error m s)) = core s"
  using assms [of s] by (auto simp: ignore_runtime_error_def split: prod.splits sum.splits pyexc.splits)

lemma subshell_of_client_core [simp]: "core (snd (subshell_of_client env r s)) = core s"
  by (simp add: subshell_of_client_def with_client_def)

lemma stack_record_core [simp]: "core (s\<lparr>exec_stack := st\<rparr>) = core s"
  by (simp add: core_def server_ledger_def)

lemma ensure_kernel_client_ready_core [simp]: "core (snd (ensure_kernel_client_ready env kid s)) = core s"
  unfolding ensure_kernel_client_ready_def
  by (auto intro!: mbind_core ignore_runtime_error_core split: option.split)

lemma interrupt_via_subshell_core [simp]: "core (snd (interrupt_via_subshell env kid s)) = core s"
proof -
  have "core s2 = core s" if "on_stack f s = (x, s1)" "on_ext g s1 = (y, s2)" for f g x y s1 s2
    using on_stack_core [of f s] on_ext_core [of g s1] that by simp
  moreover have "core s1 = core s" if "on_stack f s = (x, s1)" for f x s1
    using on_stack_core [of f s] that by simp
  ultimately show ?thesis
    by (auto simp: interrupt_via_subshell_def split: option.split prod.split sum.split)
qed

lemma resolve_kernel_name_core [simp]: "core (snd (resolve_kernel_name env nb k s)) = core s"
  by (simp add: resolve_kernel_name_def split: option.split)


section \<open>Ledger calls on the server\<close>

lemma set_ledger_core [simp]:
  "tasks (set_ledger l s) = tasks s" "job_locks (set_ledger l s) = job_locks s"
  "server_ledger (set_ledger l s) = l"
  by (simp_all add: set_ledger_def server_ledger_def)

lemma ledger_status_effect:
  "\<exists>now s1. core s1 = core s
    \<and> ledger_status env i st rt s = (Inr (), set_ledger (update_job_status i st rt now (server_ledger s)) s1)"
proof (cases "get_job i (server_ledger s)")
  case None
  have "set_ledger (server_ledger s) s = s" by (simp add: set_ledger_def server_ledger_def)
  with None show ?thesis
    by (intro exI [of _ s] exI) (simp add: ledger_status_def memory_ledger.status_missing)
next
  case (Some j)
  obtain now s1 where t: "on_ext (time_now (jupyter env)) s = (now, s1)" by fastforce
  then have "core s1 = core s" using on_ext_core [of "time_now (jupyter env)" s] by simp
  with Some t show ?thesis
    by (intro exI [of _ now] exI [of _ s1]) (simp add: ledger_status_def core_def)
qed

lemma ledger_create_effect:
  "\<exists>now s1. core s1 = core s
    \<and> ledger_create env i nb a t act tg r s =
        (Inr (new_job i now nb a t act tg r), set_ledger (snd (create_job i now nb a t act tg r (server_ledger s))) s1)"
proof -
  obtain now s1 where t: "on_ext (time_now (jupyter env)) s = (now, s1)" by fastforce
  then have "core s1 = core s" using on_ext_core [of "time_now (jupyter env)" s] by simp
  with t show ?thesis
    using memory_ledger.create_result [of i now nb a t act tg r "server_ledger s"]
    by (intro exI [of _ now] exI [of _ s1]) (simp add: ledger_create_def case_prod_beta core_def)
qed

lemma ledger_attribute_effect:
  "\<exists>now s1. core s1 = core s
    \<and> ledger_attribute env nb c e et x xt s =
        (Inr (), set_ledger (update_cell_attribution nb c e et x xt now (server_ledger s)) s1)"
proof -
  obtain now s1 where t: "on_ext (time_now (jupyter env)) s = (now, s1)" by fastforce
  then have "core s1 = core s" using on_ext_core [of "time_now (jupyter env)" s] by simp
  with t show ?thesis
    by (intro exI [of _ now] exI [of _ s1]) (simp add: ledger_attribute_def core_def)
qed

section \<open>The job lifecycle\<close>

text \<open>The room a task runs in (it holds that room's lock) or waits for.\<close>

fun running_in :: "task_pc \<Rightarrow> pystr option" where
  "running_in (AtCell r _) = Some r"
| "running_in (ReadSource r _ _) = Some r"
| "running_in (Submit r _ _ _) = Some r"
| "running_in (Polling r _ _ _ _) = Some r"
| "running_in (Flush r _ _ _) = Some r"
| "running_in _ = None"

fun waiting_for :: "task_pc \<Rightarrow> pystr option" where
  "waiting_for (AwaitLock r) = Some r"
| "waiting_for _ = None"

text \<open>
  The status a job may have at each point of its task.  A task that ended without entering a room
  left its job queued; one that ended may find its job running again, when a reply to an input
  request was still on its way (\<open>stdin_resume\<close>).
\<close>

definition status_allowed :: "task_pc \<Rightarrow> job_status \<Rightarrow> bool" where
  "status_allowed pc st \<longleftrightarrow>
     (case pc of
        EnterRoom \<Rightarrow> st = QUEUED
      | AwaitLock _ \<Rightarrow> st = QUEUED
      | Finished \<Rightarrow> st \<in> {QUEUED, RUNNING, SUCCEEDED, job_status.FAILED}
      | _ \<Rightarrow> st \<in> {RUNNING, job_status.AWAITING_INPUT})"

text \<open>
  Jobs and tasks agree: a job with a task is an execution in a status its task's point allows; a
  job without one is an interrupt or a stdin reply, and queued.
\<close>

definition job_ok :: "task option \<Rightarrow> job \<Rightarrow> bool" where
  "job_ok t j \<longleftrightarrow>
     (case t of
        None \<Rightarrow> job_action j \<noteq> EXECUTE \<and> job_status j = QUEUED
      | Some t \<Rightarrow> job_action j = EXECUTE \<and> status_allowed (task_pc t) (job_status j))"

definition jobs_ok :: "(pystr \<Rightarrow> task option) \<Rightarrow> ledger \<Rightarrow> bool" where
  "jobs_ok ts l \<longleftrightarrow> ledger_ok l \<and> (\<forall>i j. get_job i l = Some j \<longrightarrow> job_ok (ts i) j)"

definition queued_at :: "(pystr \<Rightarrow> task option) \<Rightarrow> pystr \<Rightarrow> pystr \<Rightarrow> bool" where
  "queued_at ts r i \<longleftrightarrow>
     (\<exists>t. ts i = Some t \<and> (waiting_for (task_pc t) = Some r \<or> running_in (task_pc t) = Some r))"

text \<open>
  A room's lock queue holds, once each, exactly the tasks that wait for the room or run in it, and
  a task that runs in it is the head.
\<close>

definition locks_ok :: "(pystr \<Rightarrow> task option) \<Rightarrow> (pystr \<Rightarrow> pystr list) \<Rightarrow> bool" where
  "locks_ok ts locks \<longleftrightarrow>
     (\<forall>r. distinct (locks r) \<and> (\<forall>i. i \<in> set (locks r) \<longleftrightarrow> queued_at ts r i)
        \<and> (\<forall>i t. ts i = Some t \<and> running_in (task_pc t) = Some r \<longrightarrow> locks r \<noteq> [] \<and> hd (locks r) = i))"

definition server_ok :: "'x server \<Rightarrow> bool" where
  "server_ok s \<longleftrightarrow> jobs_ok (tasks s) (server_ledger s) \<and> locks_ok (tasks s) (job_locks s)"

lemma server_ok_core: "core s' = core s \<Longrightarrow> server_ok s' = server_ok s"
  by (auto simp: server_ok_def dest!: core_eqD)

text \<open>A ledger step that touches the jobs in \<open>I\<close> only, others being kept or pruned.\<close>

definition touches :: "pystr set \<Rightarrow> ledger \<Rightarrow> ledger \<Rightarrow> bool" where
  "touches I l l' \<longleftrightarrow> (ledger_ok l \<longrightarrow> ledger_ok l')
     \<and> (\<forall>i j. i \<notin> I \<and> get_job i l' = Some j \<longrightarrow> get_job i l = Some j)"

lemma touches_refl [simp]: "touches I l l"
  by (simp add: touches_def)

lemma touches_trans: "touches I l l' \<Longrightarrow> touches I l' l'' \<Longrightarrow> touches I l l''"
  by (auto simp: touches_def)

lemma touches_status [simp]: "i \<in> I \<Longrightarrow> touches I l (update_job_status i st rt now l)"
  unfolding touches_def using memory_ledger.status_ok memory_ledger.status_shrinks by metis

lemma touches_create: "get_job i l = None \<Longrightarrow> i \<in> I \<Longrightarrow> touches I l (snd (create_job i now nb a t act tg r l))"
  unfolding touches_def using memory_ledger.create_ok memory_ledger.create_shrinks by metis

lemma touches_uid [simp]: "i \<in> I \<Longrightarrow> touches I l (snd (append_request_uid i u l))"
  unfolding touches_def using memory_ledger.uid_ok by (auto simp: memory_ledger.uid_lookup split: if_splits)

lemma touches_attribute [simp]: "touches I l (update_cell_attribution nb c e et x xt now l)"
  by (simp add: touches_def update_cell_attribution_ok get_job_simp)

lemma touches_evict [simp]: "touches I l (evict_notebook nb l)"
proof -
  have "dict_get (jobs_by_id l) i = Some j" if "dict_get (jobs_by_id (evict_notebook nb l)) i = Some j" for i j
    using that by (simp add: evict_notebook_def split: if_splits)
  then show ?thesis by (simp add: touches_def evict_notebook_ok get_job_simp)
qed

lemma jobs_ok_step:
  assumes "jobs_ok ts l" and "touches I l l'" and "\<And>i. i \<notin> I \<Longrightarrow> ts' i = ts i"
    and "\<And>i j. i \<in> I \<Longrightarrow> get_job i l' = Some j \<Longrightarrow> job_ok (ts' i) j"
  shows "jobs_ok ts' l'"
  unfolding jobs_ok_def
proof (intro conjI allI impI)
  show "ledger_ok l'" using assms(1,2) by (simp add: jobs_ok_def touches_def)
  fix i j assume j: "get_job i l' = Some j"
  show "job_ok (ts' i) j"
  proof (cases "i \<in> I")
    case False
    with j assms(2) have "get_job i l = Some j" by (auto simp: touches_def)
    with False assms(1,3) show ?thesis by (simp add: jobs_ok_def)
  qed (use assms(4) j in blast)
qed


text \<open>Ledger calls of a task keep the invariant.\<close>

lemma status_allowed_running:
  "running_in pc = Some r \<Longrightarrow> status_allowed pc st \<longleftrightarrow> st \<in> {RUNNING, job_status.AWAITING_INPUT}"
  by (cases pc) (simp_all add: status_allowed_def)

lemma server_ok_ledger:
  assumes "server_ok s" and "core s1 = core s" and "touches I (server_ledger s) l"
    and "\<And>i j. i \<in> I \<Longrightarrow> get_job i l = Some j \<Longrightarrow> job_ok (tasks s i) j"
  shows "server_ok (set_ledger l s1)"
proof -
  have "jobs_ok (tasks s) (server_ledger s)" using assms(1) by (simp add: server_ok_def)
  from jobs_ok_step [OF this assms(3) refl assms(4)] assms(1) core_eqD [OF assms(2)]
  show ?thesis by (simp add: server_ok_def)
qed

lemma job_ok_status:
  assumes "server_ok s" and "get_job i (update_job_status i st rt now (server_ledger s)) = Some j"
    and "tasks s i = Some t" and "status_allowed (task_pc t) st"
  shows "job_ok (tasks s i) j"
proof -
  have l: "ledger_ok (server_ledger s)" using assms(1) by (simp add: server_ok_def jobs_ok_def)
  obtain j0 where j0: "get_job i (server_ledger s) = Some j0" "j = with_status st rt now j0"
    using memory_ledger.status_kept [OF l assms(2)] by blast
  have "job_ok (tasks s i) j0" using assms(1) j0(1) by (simp add: server_ok_def jobs_ok_def)
  with j0(2) assms(3,4) show ?thesis by (simp add: job_ok_def)
qed

lemma ledger_status_server_ok:
  assumes "server_ok s" and "tasks s i = Some t" and "status_allowed (task_pc t) st"
  shows "server_ok (snd (ledger_status env i st rt s))"
proof -
  obtain now s1 where c: "core s1 = core s" and e: "ledger_status env i st rt s
      = (Inr (), set_ledger (update_job_status i st rt now (server_ledger s)) s1)"
    using ledger_status_effect by blast
  show ?thesis
    unfolding e snd_conv
    by (rule server_ok_ledger [OF assms(1) c, where I = "{i}"])
      (auto intro: job_ok_status [OF assms(1) _ assms(2,3)])
qed

lemma ledger_uid_server_ok:
  assumes "server_ok s"
  shows "server_ok (snd (ledger_uid i u s))"
proof -
  have "job_ok (tasks s i) j" if j: "get_job i (snd (append_request_uid i u (server_ledger s))) = Some j" for j
  proof -
    obtain j0 where j0: "get_job i (server_ledger s) = Some j0" "j = j0\<lparr>job_request_uids := job_request_uids j0 @ [u]\<rparr>"
      using j by (auto simp: memory_ledger.uid_lookup)
    have "job_ok (tasks s i) j0" using j0(1) assms by (simp add: server_ok_def jobs_ok_def)
    then show ?thesis by (simp add: job_ok_def j0(2) split: option.splits)
  qed
  then have "server_ok (set_ledger (snd (append_request_uid i u (server_ledger s))) s)"
    by (intro server_ok_ledger [OF assms refl, where I = "{i}"]) auto
  then show ?thesis by (simp add: ledger_uid_def case_prod_beta)
qed

lemma ledger_attribute_server_ok:
  assumes "server_ok s"
  shows "server_ok (snd (ledger_attribute env nb c e et x xt s))"
proof -
  obtain now s1 where c: "core s1 = core s" and a: "ledger_attribute env nb c e et x xt s =
        (Inr (), set_ledger (update_cell_attribution nb c e et x xt now (server_ledger s)) s1)"
    using ledger_attribute_effect by blast
  show ?thesis
    unfolding a snd_conv by (rule server_ok_ledger [OF assms c, where I = "{}"]) simp_all
qed

lemma ledger_calls_tasks [simp]:
  "tasks (snd (ledger_status env i st rt s)) = tasks s"
  "job_locks (snd (ledger_status env i st rt s)) = job_locks s"
  "tasks (snd (ledger_uid i u s)) = tasks s" "job_locks (snd (ledger_uid i u s)) = job_locks s"
  "tasks (snd (ledger_attribute env nb c e et x xt s)) = tasks s"
  "job_locks (snd (ledger_attribute env nb c e et x xt s)) = job_locks s"
  using ledger_status_effect [of s env i st rt] ledger_attribute_effect [of s env nb c e et x xt]
  by (auto simp: ledger_uid_def case_prod_beta dest!: core_eqD)

section \<open>Moves of a task\<close>

lemma set_pc_simps [simp]:
  "tasks (set_pc i t pc s) = (tasks s)(i := Some (t\<lparr>task_pc := pc\<rparr>))"
  "job_locks (set_pc i t pc s) = job_locks s" "server_ledger (set_pc i t pc s) = server_ledger s"
  by (simp_all add: set_pc_def server_ledger_def)

lemma locks_okD:
  assumes "locks_ok ts locks"
  shows "distinct (locks r)" and "i \<in> set (locks r) \<longleftrightarrow> queued_at ts r i"
    and "ts i = Some t \<Longrightarrow> running_in (task_pc t) = Some r \<Longrightarrow> locks r \<noteq> [] \<and> hd (locks r) = i"
  using assms unfolding locks_ok_def by blast+

lemma running_not_waiting [simp]: "running_in pc = Some r \<Longrightarrow> waiting_for pc = None"
  by (cases pc) simp_all

lemma jobs_ok_pc:
  assumes "jobs_ok ts l" and "ts i = Some t"
    and "\<And>st. status_allowed (task_pc t) st \<Longrightarrow> status_allowed pc st"
  shows "jobs_ok (ts(i := Some (t\<lparr>task_pc := pc\<rparr>))) l"
  using assms by (auto simp: jobs_ok_def job_ok_def split: option.splits)

lemma locks_same_queues:
  assumes "locks_ok ts locks" and "ts i = Some t"
    and "\<And>r. waiting_for pc = Some r \<or> running_in pc = Some r \<longleftrightarrow>
      waiting_for (task_pc t) = Some r \<or> running_in (task_pc t) = Some r"
    and "\<And>r. running_in pc = Some r \<Longrightarrow> locks r \<noteq> [] \<and> hd (locks r) = i"
  shows "locks_ok (ts(i := Some (t\<lparr>task_pc := pc\<rparr>))) locks"
proof -
  have q: "queued_at (ts(i := Some (t\<lparr>task_pc := pc\<rparr>))) r i' = queued_at ts r i'" for r i'
    using assms(2,3) by (auto simp: queued_at_def)
  show ?thesis
    unfolding locks_ok_def
  proof (intro allI conjI impI)
    fix r' i' t'
    assume "(ts(i := Some (t\<lparr>task_pc := pc\<rparr>))) i' = Some t' \<and> running_in (task_pc t') = Some r'"
    then show "locks r' \<noteq> []" "hd (locks r') = i'"
      using locks_okD(3) [OF assms(1), of i' t' r'] assms(4) by (auto split: if_splits)
  qed (use locks_okD(1,2) [OF assms(1)] q in auto)
qed

text \<open>The moves a running task makes between segments.\<close>

lemma set_pc_running:
  assumes "server_ok s" and "tasks s i = Some t"
    and "running_in (task_pc t) = Some r" and "running_in pc = Some r"
  shows "server_ok (set_pc i t pc s)"
proof -
  have "jobs_ok ((tasks s)(i := Some (t\<lparr>task_pc := pc\<rparr>))) (server_ledger s)"
    using assms by (intro jobs_ok_pc) (simp_all add: server_ok_def status_allowed_running)
  moreover have l: "locks_ok (tasks s) (job_locks s)" using assms(1) by (simp add: server_ok_def)
  have "locks_ok ((tasks s)(i := Some (t\<lparr>task_pc := pc\<rparr>))) (job_locks s)"
  proof (rule locks_same_queues [OF l assms(2)])
    show "job_locks s r' \<noteq> [] \<and> hd (job_locks s r') = i" if "running_in pc = Some r'" for r'
      using locks_okD(3) [OF l assms(2), of r'] that assms(3,4) by simp
  qed (use assms(3,4) in simp)
  ultimately show ?thesis by (simp add: server_ok_def)
qed

text \<open>The moves that change the lock queues.\<close>

lemma locks_enter:
  assumes "locks_ok ts locks" and "ts i = Some t" and "task_pc t = EnterRoom"
  shows "locks_ok (ts(i := Some (t\<lparr>task_pc := AwaitLock r\<rparr>))) (locks(r := locks r @ [i]))"
proof -
  have out: "i \<notin> set (locks r')" for r'
    using locks_okD(2) [OF assms(1), of i r'] assms(2,3) by (simp add: queued_at_def)
  have q: "queued_at (ts(i := Some (t\<lparr>task_pc := AwaitLock r\<rparr>))) r' i'
    = (if i' = i then r' = r else queued_at ts r' i')" for r' i'
    by (auto simp: queued_at_def)
  show ?thesis
    unfolding locks_ok_def
  proof (intro allI conjI impI)
    fix r' i' t'
    assume "(ts(i := Some (t\<lparr>task_pc := AwaitLock r\<rparr>))) i' = Some t' \<and> running_in (task_pc t') = Some r'"
    then have "locks r' \<noteq> [] \<and> hd (locks r') = i'"
      using locks_okD(3) [OF assms(1), of i' t' r'] by (auto split: if_splits)
    then show "(locks(r := locks r @ [i])) r' \<noteq> []" "hd ((locks(r := locks r @ [i])) r') = i'"
      by (auto simp: hd_append)
  qed (use locks_okD(1,2) [OF assms(1)] out q in \<open>auto split: if_splits\<close>)
qed

lemma locks_leave:
  assumes "locks_ok ts locks" and "ts i = Some t" and "running_in (task_pc t) = Some r"
  shows "locks_ok (ts(i := Some (t\<lparr>task_pc := Finished\<rparr>))) (locks(r := remove1 i (locks r)))"
proof -
  have w: "waiting_for (task_pc t) = None" using assms(3) by (cases "task_pc t") simp_all
  have q: "queued_at (ts(i := Some (t\<lparr>task_pc := Finished\<rparr>))) r' i' \<longleftrightarrow> i' \<noteq> i \<and> queued_at ts r' i'" for r' i'
    by (auto simp: queued_at_def)
  have only: "queued_at ts r' i \<longleftrightarrow> r' = r" for r'
    using assms(2,3) w by (auto simp: queued_at_def)
  show ?thesis
    unfolding locks_ok_def
  proof (intro allI conjI impI)
    fix r' i' t'
    assume a: "(ts(i := Some (t\<lparr>task_pc := Finished\<rparr>))) i' = Some t' \<and> running_in (task_pc t') = Some r'"
    then have i': "i' \<noteq> i" "ts i' = Some t'" by (auto split: if_splits)
    then have "locks r' \<noteq> [] \<and> hd (locks r') = i'" using locks_okD(3) [OF assms(1)] a by blast
    moreover have "r' \<noteq> r"
      using calculation locks_okD(3) [OF assms(1,2,3)] i'(1) by auto
    ultimately show "(locks(r := remove1 i (locks r))) r' \<noteq> []" "hd ((locks(r := remove1 i (locks r))) r') = i'"
      by simp_all
  qed (use locks_okD(1,2) [OF assms(1)] q only in \<open>auto simp: distinct_remove1\<close>)
qed

lemma locks_spawn:
  "locks_ok ts locks \<Longrightarrow> ts i = None \<Longrightarrow> task_pc t = EnterRoom \<Longrightarrow> locks_ok (ts(i := Some t)) locks"
  by (auto simp: locks_ok_def queued_at_def)

lemma leave_room_simps [simp]:
  "tasks (leave_room env i t r s) = (tasks s)(i := Some (t\<lparr>task_pc := Finished\<rparr>))"
  "job_locks (leave_room env i t r s) = (job_locks s)(r := remove1 i (job_locks s r))"
  "server_ledger (leave_room env i t r s) = server_ledger s"
proof -
  define s1 where "s1 = snd (update_manager (mark_job_finished (manager_services env) (task_notebook t) i) s)"
  define s2 where "s2 = (if room_state (room_of s1 r) = runtime_state.AWAITING_INPUT
      then snd (on_manager (set_runtime_state (manager_services env) r LIVE_DETACHED) s1)
      else snd (update_manager (touch_activity (manager_services env) r) s1))"
  have "core s2 = core s" by (simp add: s2_def s1_def)
  moreover have "leave_room env i t r s = set_pc i t Finished (s2\<lparr>job_locks := (job_locks s2)(r := remove1 i (job_locks s2 r))\<rparr>)"
    by (simp only: leave_room_def Let_def s1_def s2_def)
  ultimately show "tasks (leave_room env i t r s) = (tasks s)(i := Some (t\<lparr>task_pc := Finished\<rparr>))"
    "job_locks (leave_room env i t r s) = (job_locks s)(r := remove1 i (job_locks s r))"
    "server_ledger (leave_room env i t r s) = server_ledger s"
    by (auto simp: set_pc_def server_ledger_def dest!: core_eqD)
qed

lemma end_job_ok:
  assumes "server_ok s" and "tasks s i = Some t" and "running_in (task_pc t) = Some r"
    and "st \<in> {SUCCEEDED, job_status.FAILED}"
  shows "server_ok (end_job env i t r st s)"
proof -
  obtain now s1 where c: "core s1 = core s" and e: "ledger_status env i st None s
      = (Inr (), set_ledger (update_job_status i st None now (server_ledger s)) s1)"
    using ledger_status_effect by blast
  have jobs: "jobs_ok (tasks s) (server_ledger s)" and l: "locks_ok (tasks s) (job_locks s)"
    using assms(1) by (simp_all add: server_ok_def)
  have "job_ok (Some (t\<lparr>task_pc := Finished\<rparr>)) j"
    if j: "get_job i (update_job_status i st None now (server_ledger s)) = Some j" for j
  proof -
    obtain j0 where "get_job i (server_ledger s) = Some j0" "j = with_status st None now j0"
      using memory_ledger.status_kept [OF _ j] jobs by (auto simp: jobs_ok_def)
    moreover from this have "job_ok (tasks s i) j0" using jobs by (simp add: jobs_ok_def)
    ultimately show ?thesis using assms(2,4) by (auto simp: job_ok_def status_allowed_def)
  qed
  then have "jobs_ok ((tasks s)(i := Some (t\<lparr>task_pc := Finished\<rparr>)))
      (update_job_status i st None now (server_ledger s))"
    by (intro jobs_ok_step [OF jobs, where I = "{i}"]) auto
  with locks_leave [OF l assms(2,3)] core_eqD [OF c] show ?thesis
    by (simp add: end_job_def e server_ok_def)
qed


text \<open>The segments that do not move a task: the invariant holds and tasks and locks stay.\<close>

definition steady :: "(pystr \<Rightarrow> task option) \<Rightarrow> (pystr \<Rightarrow> pystr list) \<Rightarrow> 'x server \<Rightarrow> bool" where
  "steady ts locks s \<longleftrightarrow> server_ok s \<and> tasks s = ts \<and> job_locks s = locks"

lemma steady_core:
  assumes "core s' = core s"
  shows "steady ts locks s' = steady ts locks s"
  using core_eqD [OF assms] server_ok_core [OF assms] by (simp add: steady_def)

lemmas steady_simps [simp] =
  on_ext_core [THEN steady_core] on_stack_core [THEN steady_core] on_notebook_core [THEN steady_core]
  manager_ops_core [THEN steady_core] ensure_kernel_client_ready_core [THEN steady_core]
  interrupt_via_subshell_core [THEN steady_core] resolve_kernel_name_core [THEN steady_core]

lemma mbind_steady:
  assumes "steady ts locks s" and "\<And>s. steady ts locks s \<Longrightarrow> steady ts locks (snd (m s))"
    and "\<And>x s. steady ts locks s \<Longrightarrow> steady ts locks (snd (f x s))"
  shows "steady ts locks (snd (mbind m f s))"
proof -
  obtain r s1 where "m s = (r, s1)" by fastforce
  with assms(2) [OF assms(1)] assms(3) [of s1] show ?thesis by (simp add: mbind_def split: sum.split)
qed

lemma mret_steady [simp]: "steady ts locks (snd (mret x s)) = steady ts locks s"
  by (simp add: mret_def)

lemma ledger_calls_steady:
  "steady ts locks s \<Longrightarrow> steady ts locks (snd (ledger_uid i u s))"
  "steady ts locks s \<Longrightarrow> steady ts locks (snd (ledger_attribute env nb c e et x xt s))"
  "steady ts locks s \<Longrightarrow> ts i = Some t \<Longrightarrow> status_allowed (task_pc t) st \<Longrightarrow>
   steady ts locks (snd (ledger_status env i st rt s))"
  by (simp_all add: steady_def ledger_uid_server_ok ledger_attribute_server_ok ledger_status_server_ok)

lemma submit_cell_steady: "steady ts locks s \<Longrightarrow> steady ts locks (snd (submit_cell env i t kid c source s))"
  unfolding submit_cell_def by (intro mbind_steady) (simp_all add: ledger_calls_steady)

lemma record_result_steady: "steady ts locks s \<Longrightarrow> steady ts locks (snd (record_result env t c s))"
  unfolding record_result_def by (intro mbind_steady) (simp_all add: ledger_calls_steady)

lemma signature_record_core [simp]:
  "core (s\<lparr>awaiting_sig := a\<rparr>) = core s" "core (s\<lparr>awaiting_sig := a, resumed_sig := b\<rparr>) = core s"
  "core (s\<lparr>resumed_sig := b\<rparr>) = core s"
  by (simp_all add: core_def server_ledger_def)

lemmas signature_steady [simp] = signature_record_core [THEN steady_core]

lemma poll_turn_steady:
  assumes "steady ts locks s" and "ts i = Some t" and "running_in (task_pc t) = Some r0"
  shows "steady ts locks (snd (poll_turn env i r kid uid s))"
proof -
  have await: "status_allowed (task_pc t) job_status.AWAITING_INPUT"
    using assms(3) by (simp add: status_allowed_running)
  have ask: "steady ts locks (snd (mbind (ledger_status env i job_status.AWAITING_INPUT None) (\<lambda>_.
      mbind (on_manager (set_runtime_state (manager_services env) r runtime_state.AWAITING_INPUT)) (\<lambda>_.
      mret None)) s1))" if "steady ts locks s1" for s1
    using that ledger_calls_steady(3) [where ts = ts and i = i, OF _ assms(2) await]
    by (intro mbind_steady) simp_all
  show ?thesis
    unfolding poll_turn_def
    using assms(1)
    by (intro mbind_steady) (auto simp: Let_def ask split: option.split json.split)
qed

lemma or_fail_ok:
  assumes "steady ts locks (snd outcome)" and "ts i = Some t" and "running_in (task_pc t) = Some r"
    and "\<And>x s. steady ts locks s \<Longrightarrow> server_ok (k x s)"
  shows "server_ok (or_fail env i t r outcome k)"
proof (cases outcome)
  case (Pair x s1)
  have s1: "steady ts locks s1" using assms(1) Pair by simp
  then have "server_ok (end_job env i t r job_status.FAILED s1)"
    using assms(2,3) by (intro end_job_ok) (simp_all add: steady_def)
  with s1 assms(4) show ?thesis by (simp add: or_fail_def Pair split: sum.split)
qed

lemma set_pc_steady:
  "steady ts locks s \<Longrightarrow> ts i = Some t \<Longrightarrow> running_in (task_pc t) = Some r \<Longrightarrow> running_in pc = Some r \<Longrightarrow>
   server_ok (set_pc i t pc s)"
  by (simp add: steady_def set_pc_running)

lemma end_job_steady:
  "steady ts locks s \<Longrightarrow> ts i = Some t \<Longrightarrow> running_in (task_pc t) = Some r \<Longrightarrow>
   st \<in> {SUCCEEDED, job_status.FAILED} \<Longrightarrow> server_ok (end_job env i t r st s)"
  by (simp add: steady_def end_job_ok)

lemma enter_room_ok:
  assumes "server_ok s" and "tasks s i = Some t" and pc: "task_pc t = EnterRoom" and "core s1 = core s"
  shows "server_ok (set_pc i t Finished s1)"
    and "server_ok (set_pc i t (AwaitLock r) (s1\<lparr>job_locks := (job_locks s1)(r := job_locks s1 r @ [i])\<rparr>))"
proof -
  have s1: "jobs_ok (tasks s1) (server_ledger s1)" "locks_ok (tasks s1) (job_locks s1)" "tasks s1 i = Some t"
    using assms(1,2) core_eqD [OF assms(4)] by (simp_all add: server_ok_def)
  have "jobs_ok ((tasks s1)(i := Some (t\<lparr>task_pc := p\<rparr>))) (server_ledger s1)"
    if "p = Finished \<or> p = AwaitLock r" for p
    using s1(1,3) that by (intro jobs_ok_pc) (auto simp: status_allowed_def pc)
  moreover have "locks_ok ((tasks s1)(i := Some (t\<lparr>task_pc := Finished\<rparr>))) (job_locks s1)"
    using s1(2,3) by (rule locks_same_queues) (simp_all add: pc)
  moreover note locks_enter [OF s1(2,3) pc, of r]
  ultimately show "server_ok (set_pc i t Finished s1)"
    and "server_ok (set_pc i t (AwaitLock r) (s1\<lparr>job_locks := (job_locks s1)(r := job_locks s1 r @ [i])\<rparr>))"
    by (simp_all add: server_ok_def) (simp_all add: server_ledger_def set_pc_def)
qed

lemma acquire_ok:
  assumes "server_ok s" and "tasks s i = Some t" and pc: "task_pc t = AwaitLock r"
    and "job_locks s r \<noteq> []" and "hd (job_locks s r) = i" and "core s1 = core (snd (ledger_status env i RUNNING rt s))"
  shows "server_ok (set_pc i t (AtCell r cs) s1)"
proof -
  obtain now s2 where c: "core s2 = core s" and e: "ledger_status env i RUNNING rt s
      = (Inr (), set_ledger (update_job_status i RUNNING rt now (server_ledger s)) s2)"
    using ledger_status_effect by blast
  have s1: "tasks s1 = tasks s" "job_locks s1 = job_locks s"
    "server_ledger s1 = update_job_status i RUNNING rt now (server_ledger s)"
    using core_eqD [OF assms(6)] core_eqD [OF c] by (simp_all add: e)
  have jobs: "jobs_ok (tasks s) (server_ledger s)" and l: "locks_ok (tasks s) (job_locks s)"
    using assms(1) by (simp_all add: server_ok_def)
  have "job_ok (Some (t\<lparr>task_pc := AtCell r cs\<rparr>)) j"
    if j: "get_job i (update_job_status i RUNNING rt now (server_ledger s)) = Some j" for j
  proof -
    obtain j0 where "get_job i (server_ledger s) = Some j0" "j = with_status RUNNING rt now j0"
      using memory_ledger.status_kept [OF _ j] jobs by (auto simp: jobs_ok_def)
    moreover from this have "job_ok (tasks s i) j0" using jobs by (simp add: jobs_ok_def)
    ultimately show ?thesis using assms(2) by (auto simp: job_ok_def status_allowed_def)
  qed
  then have "jobs_ok ((tasks s)(i := Some (t\<lparr>task_pc := AtCell r cs\<rparr>)))
      (update_job_status i RUNNING rt now (server_ledger s))"
    by (intro jobs_ok_step [OF jobs, where I = "{i}"]) auto
  moreover have "locks_ok ((tasks s)(i := Some (t\<lparr>task_pc := AtCell r cs\<rparr>))) (job_locks s)"
    using l assms(2) by (rule locks_same_queues) (use pc assms(4,5) in auto)
  ultimately show ?thesis by (simp add: server_ok_def s1)
qed

lemma task_step_ok:
  assumes "server_ok s" and "tasks s i = Some t"
  shows "server_ok (task_step env i t s)"
proof -
  have st: "steady (tasks s) (job_locks s) s" using assms(1) by (simp add: steady_def)
  note move = set_pc_steady [where ts = "tasks s" and i = i and t = t, OF _ assms(2)]
    and fin = end_job_steady [where ts = "tasks s" and i = i and t = t, OF _ assms(2)]
    and attempt = or_fail_ok [where ts = "tasks s" and i = i and t = t, OF _ assms(2)]
  show ?thesis
  proof (cases "task_pc t")
    case EnterRoom
    obtain x s1 where e: "ensure env (task_notebook t) None s = (x, s1)" by fastforce
    then have "core s1 = core s" using manager_ops_core(1) [of env "task_notebook t" None s] by simp
    from enter_room_ok [OF assms EnterRoom this] show ?thesis
      by (simp add: task_step_def EnterRoom e split: sum.split)
  next
    case (AwaitLock r)
    have "core (snd (update_manager (touch_activity (manager_services env) r)
        (snd (ledger_status env i RUNNING (Some r) s)))) = core (snd (ledger_status env i RUNNING (Some r) s))"
      by simp
    from acquire_ok [OF assms AwaitLock _ _ this] assms(1) show ?thesis
      by (simp add: task_step_def AwaitLock)
  next
    case (AtCell r cs)
    then show ?thesis
      using st by (cases cs)
        (auto simp: task_step_def intro!: fin move attempt)
  next
    case (ReadSource r c cs)
    then show ?thesis
      using st by (auto simp: task_step_def intro!: move attempt)
  next
    case (Submit r c source cs)
    then show ?thesis
      using submit_cell_steady [OF st] by (auto simp: task_step_def intro!: move attempt)
  next
    case (Polling r kid uid c cs)
    have "steady (tasks s) (job_locks s) (snd (poll_turn env i r kid uid s))"
      using poll_turn_steady [OF st assms(2)] Polling by simp
    with Polling show ?thesis
      by (auto simp: task_step_def intro!: move [where r = r] attempt split: option.split)
        (simp add: steady_def)
  next
    case (Flush r c result cs)
    then show ?thesis
      using record_result_steady [OF st] by (auto simp: task_step_def intro!: fin move attempt)
  next
    case Finished
    then show ?thesis using assms(1) by (simp add: task_step_def)
  qed
qed


section \<open>Requests keep the invariant\<close>

definition fresh_job :: "pystr \<Rightarrow> 'x server \<Rightarrow> bool" where
  "fresh_job i s \<longleftrightarrow> tasks s i = None \<and> get_job i (server_ledger s) = None"

lemma ledger_create_server_ok:
  assumes "server_ok s" and "fresh_job new s" and "act \<noteq> EXECUTE"
  shows "server_ok (snd (ledger_create env new nb a t act tg r s))"
    and "tasks (snd (ledger_create env new nb a t act tg r s)) = tasks s"
proof -
  obtain now s1 where c: "core s1 = core s" and e: "ledger_create env new nb a t act tg r s =
      (Inr (new_job new now nb a t act tg r),
       set_ledger (snd (create_job new now nb a t act tg r (server_ledger s))) s1)"
    using ledger_create_effect by blast
  have l: "ledger_ok (server_ledger s)" using assms(1) by (simp add: server_ok_def jobs_ok_def)
  have new: "get_job new (server_ledger s) = None" "tasks s new = None"
    using assms(2) by (simp_all add: fresh_job_def)
  show "server_ok (snd (ledger_create env new nb a t act tg r s))"
    unfolding e snd_conv
  proof (rule server_ok_ledger [OF assms(1) c, where I = "{new}"])
    show "touches {new} (server_ledger s) (snd (create_job new now nb a t act tg r (server_ledger s)))"
      by (rule touches_create [OF new(1)]) simp
    fix i j
    assume "i \<in> {new}" "get_job i (snd (create_job new now nb a t act tg r (server_ledger s))) = Some j"
    then have "i = new" "j = new_job new now nb a t act tg r"
      using memory_ledger.create_lookup [OF l new(1)] by auto
    then show "job_ok (tasks s i) j" using new(2) assms(3) by (simp add: job_ok_def new_job_def)
  qed
  show "tasks (snd (ledger_create env new nb a t act tg r s)) = tasks s"
    using core_eqD [OF c] by (simp add: e)
qed

lemma queue_execution_shape:
  assumes "queue_execution env new nb cells actor atype k s = (res, s')"
  shows "(\<exists>e. res = Inl e \<and> core s' = core s)
    \<or> (\<exists>now r. res = Inr (new_job new now nb actor atype EXECUTE
             (Some (dumps default_dump (JList (map JStr cells)))) (Some r))
        \<and> core s' = ((tasks s)(new := Some \<lparr>task_notebook = nb, task_actor = actor, task_actor_type = atype,
                               task_cells = cells, task_pc = EnterRoom\<rparr>), job_locks s,
            snd (create_job new now nb actor atype EXECUTE
              (Some (dumps default_dump (JList (map JStr cells)))) (Some r) (server_ledger s))))"
proof -
  obtain x1 s1 where k: "resolve_kernel_name env nb k s = (x1, s1)" by fastforce
  have c1: "core s1 = core s" using resolve_kernel_name_core [of env nb k s] k by simp
  show ?thesis
  proof (cases x1)
    case (Inl e)
    with k assms c1 show ?thesis by (intro disjI1) (auto simp: queue_execution_def mbind_def)
  next
    case (Inr desired)
    obtain x2 s2 where e: "ensure env nb (Some desired) s1 = (x2, s2)" by fastforce
    have c2: "core s2 = core s" using manager_ops_core(1) [of env nb "Some desired" s1] e c1 by simp
    show ?thesis
    proof (cases x2)
      case (Inl err)
      with k e Inr assms c2 show ?thesis by (intro disjI1) (auto simp: queue_execution_def mbind_def)
    next
      case (Inr r)
      let ?tg = "Some (dumps default_dump (JList (map JStr cells)))"
      obtain now s3 where c3: "core s3 = core s2"
        and l: "ledger_create env new nb actor atype EXECUTE ?tg (Some r) s2 =
          (Inr (new_job new now nb actor atype EXECUTE ?tg (Some r)),
           set_ledger (snd (create_job new now nb actor atype EXECUTE ?tg (Some r) (server_ledger s2))) s3)"
        using ledger_create_effect by blast
      obtain s4 where u: "update_manager (mark_job_started (manager_services env) nb new)
          (set_ledger (snd (create_job new now nb actor atype EXECUTE ?tg (Some r) (server_ledger s2))) s3) = (Inr (), s4)"
        by (simp add: update_manager_def)
      have c4: "core s4 = core (set_ledger (snd (create_job new now nb actor atype EXECUTE ?tg (Some r) (server_ledger s2))) s3)"
        using manager_ops_core(9) [of env nb new
            "set_ledger (snd (create_job new now nb actor atype EXECUTE ?tg (Some r) (server_ledger s2))) s3"] u
        by simp
      have "res = Inr (new_job new now nb actor atype EXECUTE ?tg (Some r))"
        and s': "s' = s4\<lparr>tasks := (tasks s4)(new := Some \<lparr>task_notebook = nb, task_actor = actor,
            task_actor_type = atype, task_cells = cells, task_pc = EnterRoom\<rparr>)\<rparr>"
        using assms k e \<open>x1 = Inr desired\<close> Inr l u
        by (simp_all add: queue_execution_def queue_create_def mbind_def spawn_def mret_def)
      moreover have "core s' = ((tasks s)(new := Some \<lparr>task_notebook = nb, task_actor = actor,
            task_actor_type = atype, task_cells = cells, task_pc = EnterRoom\<rparr>), job_locks s,
          snd (create_job new now nb actor atype EXECUTE ?tg (Some r) (server_ledger s)))"
      proof -
        have "server_ledger s' = server_ledger s4" by (simp add: s' server_ledger_def)
        then show ?thesis
          using core_eqD [OF c2] core_eqD [OF c3] core_eqD [OF c4] by (simp add: core_def s')
      qed
      ultimately show ?thesis by blast
    qed
  qed
qed

lemma stdin_parts_core [simp]:
  "core (snd (stdin_ensure env j s)) = core s" "core (snd (stdin_input env v rk s)) = core s"
  "core (snd (interrupt_kernel_of env r s)) = core s"
proof -
  show "core (snd (stdin_ensure env j s)) = core s"
    unfolding stdin_ensure_def by (intro mbind_core) (simp_all split: option.split)
  show "core (snd (stdin_input env v rk s)) = core s"
    unfolding stdin_input_def by (intro mbind_core) simp_all
  have "core (snd (case interrupt_via_subshell env (kernel_id (room_of s1 r)) s1 of
          (True, s2) \<Rightarrow> update_manager (touch_activity (manager_services env) r) s2
        | (False, s2) \<Rightarrow> on_manager (interrupt_runtime (manager_services env) r) s2)) = core s1" for s1
    using interrupt_via_subshell_core [of env "kernel_id (room_of s1 r)" s1]
    by (auto simp: case_prod_beta split: bool.split prod.split)
  then show "core (snd (interrupt_kernel_of env r s)) = core s"
    unfolding interrupt_kernel_of_def by (intro mbind_core) simp_all
qed

lemma stdin_deliver_core [simp]: "core (snd (stdin_deliver env j v s)) = core s"
  unfolding stdin_deliver_def by (intro mbind_core) simp_all

lemma stdin_check_result:
  "stdin_check i s = (Inr j, s') \<Longrightarrow>
   s' = s \<and> get_job i (server_ledger s) = Some j \<and> job_status j = job_status.AWAITING_INPUT"
  by (auto simp: stdin_check_def split: option.splits if_splits)

lemma stdin_check_state: "snd (stdin_check i s) = s"
  by (simp add: stdin_check_def split: option.split)

text \<open>A job that awaits input has a running task.\<close>

lemma awaiting_job_runs:
  assumes "server_ok s" and "get_job i (server_ledger s) = Some j" and "job_status j = job_status.AWAITING_INPUT"
  obtains t r where "tasks s i = Some t" and "running_in (task_pc t) = Some r"
proof -
  have "job_ok (tasks s i) j" using assms(1,2) by (simp add: server_ok_def jobs_ok_def)
  with assms(3) obtain t where t: "tasks s i = Some t" "status_allowed (task_pc t) job_status.AWAITING_INPUT"
    by (auto simp: job_ok_def split: option.splits)
  then obtain r where "running_in (task_pc t) = Some r"
    by (cases "task_pc t") (auto simp: status_allowed_def)
  with t that show ?thesis by blast
qed

lemma job_id_lookup: "ledger_ok l \<Longrightarrow> get_job i l = Some j \<Longrightarrow> job_id j = i"
  using index_okD by (auto simp: ledger_ok_def get_job_simp)


section \<open>The parts of the requests keep the invariant\<close>

lemma queue_create_effect:
  "\<exists>now s'. queue_create env new nb cells actor atype r s =
      (Inr (new_job new now nb actor atype EXECUTE (Some (dumps default_dump (JList (map JStr cells)))) (Some r)), s')
    \<and> core s' = ((tasks s)(new := Some \<lparr>task_notebook = nb, task_actor = actor, task_actor_type = atype,
                             task_cells = cells, task_pc = EnterRoom\<rparr>), job_locks s,
          snd (create_job new now nb actor atype EXECUTE
            (Some (dumps default_dump (JList (map JStr cells)))) (Some r) (server_ledger s)))"
proof -
  let ?tg = "Some (dumps default_dump (JList (map JStr cells)))"
  obtain now s1 where c1: "core s1 = core s" and l: "ledger_create env new nb actor atype EXECUTE ?tg (Some r) s =
      (Inr (new_job new now nb actor atype EXECUTE ?tg (Some r)),
       set_ledger (snd (create_job new now nb actor atype EXECUTE ?tg (Some r) (server_ledger s))) s1)"
    using ledger_create_effect by blast
  let ?s2 = "set_ledger (snd (create_job new now nb actor atype EXECUTE ?tg (Some r) (server_ledger s))) s1"
  obtain s3 where u: "update_manager (mark_job_started (manager_services env) nb new) ?s2 = (Inr (), s3)"
    by (simp add: update_manager_def)
  have c3: "core s3 = core ?s2" using manager_ops_core(9) [of env nb new ?s2] u by simp
  have "server_ledger (s3\<lparr>tasks := f\<rparr>) = server_ledger s3" for f by (simp add: server_ledger_def)
  then show ?thesis
    using core_eqD [OF c1] core_eqD [OF c3]
    by (intro exI [of _ now]) (simp add: queue_create_def mbind_def l u spawn_def mret_def core_def)
qed

lemma queue_create_ok:
  assumes "server_ok s" and "fresh_job new s"
  shows "server_ok (snd (queue_create env new nb cells actor atype r s))"
proof -
  let ?t = "\<lparr>task_notebook = nb, task_actor = actor, task_actor_type = atype, task_cells = cells, task_pc = EnterRoom\<rparr>"
  obtain now s' where q: "snd (queue_create env new nb cells actor atype r s) = s'"
    and c: "core s' = ((tasks s)(new := Some ?t), job_locks s,
          snd (create_job new now nb actor atype EXECUTE
            (Some (dumps default_dump (JList (map JStr cells)))) (Some r) (server_ledger s)))"
    using queue_create_effect [of env new nb cells actor atype r s] by auto
  let ?l = "snd (create_job new now nb actor atype EXECUTE
            (Some (dumps default_dump (JList (map JStr cells)))) (Some r) (server_ledger s))"
  have jobs: "jobs_ok (tasks s) (server_ledger s)" and locks: "locks_ok (tasks s) (job_locks s)"
    using assms(1) by (simp_all add: server_ok_def)
  have new: "tasks s new = None" "get_job new (server_ledger s) = None"
    using assms(2) by (simp_all add: fresh_job_def)
  have "jobs_ok ((tasks s)(new := Some ?t)) ?l"
  proof (rule jobs_ok_step [OF jobs, where I = "{new}"])
    show "touches {new} (server_ledger s) ?l" by (rule touches_create [OF new(2)]) simp
    fix i j assume "i \<in> {new}" "get_job i ?l = Some j"
    then show "job_ok (((tasks s)(new := Some ?t)) i) j"
      using memory_ledger.create_lookup [OF _ new(2)] jobs
      by (auto simp: job_ok_def new_job_def status_allowed_def jobs_ok_def)
  qed auto
  moreover have "locks_ok ((tasks s)(new := Some ?t)) (job_locks s)"
    using locks_spawn [OF locks new(1)] by simp
  ultimately show ?thesis using c by (simp add: q server_ok_def core_def)
qed

lemma record_parts:
  "snd (stdin_record env new j actor atype r s) =
     snd (ledger_create env new (job_notebook_id j) actor atype STDIN_REPLY None (Some r)
       (case awaiting_sig s (job_id j) of None \<Rightarrow> s
        | Some sig \<Rightarrow> s\<lparr>resumed_sig := (resumed_sig s)(job_id j := Some sig)\<rparr>))"
  "snd (interrupt_record env new nb actor atype r s) =
     snd (ledger_create env new nb actor atype INTERRUPT None (Some r) s)"
  by (auto simp: stdin_record_def interrupt_record_def mbind_def mret_def Let_def split: prod.split sum.split)

lemma resumed_core: "core (case a of None \<Rightarrow> s | Some sig \<Rightarrow> s\<lparr>resumed_sig := f sig\<rparr>) = core s"
  by (simp split: option.split)

lemma record_parts_ok:
  assumes "server_ok s" and "fresh_job new s"
  shows "server_ok (snd (stdin_record env new j actor atype r s))"
    and "tasks (snd (stdin_record env new j actor atype r s)) = tasks s"
    and "server_ok (snd (interrupt_record env new nb actor atype r s))"
    and "tasks (snd (interrupt_record env new nb actor atype r s)) = tasks s"
proof -
  let ?s = "case awaiting_sig s (job_id j) of None \<Rightarrow> s
        | Some sig \<Rightarrow> s\<lparr>resumed_sig := (resumed_sig s)(job_id j := Some sig)\<rparr>"
  note c = resumed_core [where a = "awaiting_sig s (job_id j)" and s = s and f = "\<lambda>sig. (resumed_sig s)(job_id j := Some sig)"]
  have s: "server_ok ?s" "fresh_job new ?s" "tasks ?s = tasks s"
    using server_ok_core [OF c] assms core_eqD [OF c] by (simp_all add: fresh_job_def)
  show "server_ok (snd (stdin_record env new j actor atype r s))"
    "tasks (snd (stdin_record env new j actor atype r s)) = tasks s"
    unfolding record_parts using ledger_create_server_ok [OF s(1,2)] s(3) by simp_all
  show "server_ok (snd (interrupt_record env new nb actor atype r s))"
    "tasks (snd (interrupt_record env new nb actor atype r s)) = tasks s"
    unfolding record_parts using ledger_create_server_ok [OF assms] by simp_all
qed

text \<open>A task that has entered its room never leaves it but to end.\<close>

definition begun :: "task_pc \<Rightarrow> bool" where
  "begun pc \<longleftrightarrow> pc = Finished \<or> running_in pc \<noteq> None"

lemma begun_simps [simp]:
  "begun Finished" "\<not> begun EnterRoom" "\<not> begun (AwaitLock r)" "begun (AtCell r cs)" "begun (ReadSource r c cs)"
  "begun (Submit r c src cs)" "begun (Polling r k u c cs)" "begun (Flush r c x cs)"
  by (simp_all add: begun_def)

lemma begun_resumes: "begun pc \<Longrightarrow> status_allowed pc RUNNING"
  by (cases pc) (simp_all add: status_allowed_def)

lemma stdin_resume_shape:
  "snd (stdin_resume env j r s) = snd (on_manager (set_runtime_state (manager_services env) r
     (if attached_clients (room_of (snd (ledger_status env (job_id j) RUNNING (Some r) s)) r) \<noteq> {}
      then LIVE_ATTACHED else LIVE_DETACHED)) (snd (ledger_status env (job_id j) RUNNING (Some r) s)))"
proof -
  obtain s1 where "ledger_status env (job_id j) RUNNING (Some r) s = (Inr (), s1)"
    using ledger_status_effect by blast
  then show ?thesis by (simp add: stdin_resume_def mbind_def)
qed

lemma stdin_resume_core: "core (snd (stdin_resume env j r s)) = core (snd (ledger_status env (job_id j) RUNNING (Some r) s))"
  unfolding stdin_resume_shape by (rule manager_ops_core(2))

lemma stdin_resume_ok:
  assumes "server_ok s" and "tasks s (job_id j) = Some t" and "begun (task_pc t)"
  shows "server_ok (snd (stdin_resume env j r s))" and "tasks (snd (stdin_resume env j r s)) = tasks s"
  using ledger_status_server_ok [OF assms(1,2) begun_resumes [OF assms(3)]] core_eqD [OF stdin_resume_core [of env j r s]]
    server_ok_core [OF stdin_resume_core [of env j r s]] by simp_all

text \<open>Where a transition of a task leaves the tasks.\<close>

definition moved :: "pystr \<Rightarrow> task \<Rightarrow> (pystr \<Rightarrow> task option) \<Rightarrow> 'x server \<Rightarrow> bool" where
  "moved i t ts s \<longleftrightarrow> (\<exists>pc. tasks s = ts(i := Some (t\<lparr>task_pc := pc\<rparr>)) \<and> (begun (task_pc t) \<longrightarrow> begun pc))"

lemma moved_set_pc:
  assumes "tasks s = ts" and "begun (task_pc t) \<Longrightarrow> begun pc"
  shows "moved i t ts (set_pc i t pc s)"
  using assms by (auto simp: moved_def)

lemma moved_stay: "ts i = Some t \<Longrightarrow> tasks s = ts \<Longrightarrow> moved i t ts s"
  unfolding moved_def by (rule exI [of _ "task_pc t"]) (simp add: fun_upd_idem)

lemma moved_end: "tasks s = ts \<Longrightarrow> moved i t ts (end_job env i t r st s)"
  by (auto simp: moved_def end_job_def intro!: exI [of _ Finished])

lemma moved_or_fail:
  assumes "tasks (snd outcome) = ts" and "\<And>x s. tasks s = ts \<Longrightarrow> moved i t ts (k x s)"
  shows "moved i t ts (or_fail env i t r outcome k)"
  using assms by (cases outcome) (auto simp: or_fail_def moved_end split: sum.split)

lemma task_step_moved:
  assumes "server_ok s" and "tasks s i = Some t"
  shows "moved i t (tasks s) (task_step env i t s)"
proof -
  have st: "steady (tasks s) (job_locks s) s" using assms(1) by (simp add: steady_def)
  show ?thesis
  proof (cases "task_pc t")
    case EnterRoom
    have "tasks (snd (ensure env (task_notebook t) None s)) = tasks s"
      using core_eqD [OF manager_ops_core(1) [of env "task_notebook t" None s]] by simp
    then show ?thesis
      using EnterRoom by (auto simp: task_step_def moved_def split: sum.split prod.split intro: exI)
  next
    case (AwaitLock r)
    have "tasks (snd (update_manager (touch_activity (manager_services env) r)
        (snd (ledger_status env i RUNNING (Some r) s)))) = tasks s"
      using core_eqD [OF manager_ops_core(8) [of env r "snd (ledger_status env i RUNNING (Some r) s)"]] by simp
    then show ?thesis
      using AwaitLock moved_stay [where ts = "tasks s", OF assms(2) refl] by (auto simp: task_step_def intro!: moved_set_pc)
  next
    case (AtCell r cs)
    have "tasks (snd (ensure_kernel_client_ready env (kernel_of s r) s)) = tasks s"
      using core_eqD [OF ensure_kernel_client_ready_core] by blast
    then show ?thesis
      using AtCell by (cases cs) (auto simp: task_step_def intro!: moved_set_pc moved_or_fail moved_end)
  next
    case (ReadSource r c cs)
    have "tasks (snd (on_notebook f s)) = tasks s" for f :: "'a notebooks \<Rightarrow> (pystr, 'a notebooks) outcome"
      using core_eqD [OF on_notebook_core] by blast
    with ReadSource show ?thesis
      by (auto simp: task_step_def intro!: moved_set_pc moved_or_fail)
  next
    case (Submit r c source cs)
    then show ?thesis
      using submit_cell_steady [OF st, of env i t "kernel_of s r" c source]
      by (auto simp: task_step_def steady_def intro!: moved_set_pc moved_or_fail)
  next
    case (Polling r kid uid c cs)
    have "steady (tasks s) (job_locks s) (snd (poll_turn env i r kid uid s))"
      using poll_turn_steady [OF st assms(2)] Polling by simp
    then have "moved i t (tasks s) (or_fail env i t r (poll_turn env i r kid uid s)
        (\<lambda>answer s1. case answer of None \<Rightarrow> s1 | Some result \<Rightarrow> set_pc i t (Flush r c result cs) s1))"
      by (intro moved_or_fail) (auto simp: steady_def moved_stay [where ts = "tasks s", OF assms(2)] intro!: moved_set_pc split: option.split)
    with Polling show ?thesis by (simp add: task_step_def)
  next
    case (Flush r c result cs)
    then show ?thesis
      using record_result_steady [OF st, of env t c]
      by (auto simp: task_step_def steady_def intro!: moved_set_pc moved_or_fail moved_end)
  next
    case Finished
    then show ?thesis using assms(2) by (simp add: task_step_def moved_stay)
  qed
qed

lemma moved_begun:
  assumes "moved i t ts s" and "ts i = Some t" and "ts i' = Some t'" and "begun (task_pc t')"
  shows "\<exists>t''. tasks s i' = Some t'' \<and> begun (task_pc t'')"
  using assms by (auto simp: moved_def)

end
