(* ===== verification/Hn_Server.thy ===== *)
theory Hn_Server
  imports Hn_Orchestrator
begin

text \<open>
  The server as a transition system: the tasks of \<open>_run_job\<close>, the requests of the REST handlers and the
  outside world move one at a time, in any order.  The requests to execute, to answer an \<open>input()\<close> and to
  interrupt are calls in flight that stop at each of their awaits, so that anything may happen in between;
  the other requests, of which an edit changes what the invariants speak of (tasks, locks, ledger) in one
  place and a stop or a sweep only evicts jobs, are single transitions.  The invariant of the orchestrator holds in
  every state reached, and with it the guarantees about jobs and rooms that no single operation shows.
\<close>

section \<open>Requests in flight\<close>

text \<open>
  Where a call of \<open>queue_execution\<close>, \<open>send_stdin\<close> or \<open>interrupt\<close> stands: the await it waits in, and what it
  holds there.  A call has its job from the moment it was checked.
\<close>

datatype call =
    QueueAsked pystr "pystr list" pystr actor_type "pystr option"
  | QueueNamed pystr "pystr list" pystr actor_type pystr
  | QueueEnsured pystr "pystr list" pystr actor_type pystr
  | StdinAsked pystr json pystr actor_type
  | StdinChecked job json pystr actor_type
  | StdinEnsured job json pystr actor_type "pystr \<times> pystr"
  | StdinSent job pystr actor_type pystr
  | StdinRecorded job pystr
  | InterruptAsked pystr pystr actor_type
  | InterruptEnsured pystr pystr actor_type pystr
  | InterruptSent pystr pystr actor_type pystr

fun arrives :: "call \<Rightarrow> bool" where
  "arrives (QueueAsked nb cells a t k) = True"
| "arrives (StdinAsked i v a t) = True"
| "arrives (InterruptAsked nb a t) = True"
| "arrives _ = False"

text \<open>The calls whose next part creates a job, under an identifier that is not in use.\<close>

fun creates :: "call \<Rightarrow> bool" where
  "creates (QueueEnsured nb cells a t r) = True"
| "creates (StdinSent j a t r) = True"
| "creates (InterruptSent nb a t r) = True"
| "creates _ = False"

text \<open>A part of a call, and where the call goes on; a call that raises is over.\<close>

definition goes_on :: "('a, 'x server) outcome \<Rightarrow> ('a \<Rightarrow> call list) \<Rightarrow> call list \<times> 'x server" where
  "goes_on outcome k = (case outcome of (Inl e, s) \<Rightarrow> ([], s) | (Inr x, s) \<Rightarrow> (k x, s))"

fun call_step :: "'x server_env \<Rightarrow> pystr \<Rightarrow> call \<Rightarrow> 'x server \<Rightarrow> call list \<times> 'x server" where
  "call_step env new (QueueAsked nb cells a t k) s =
     goes_on (resolve_kernel_name env nb k s) (\<lambda>desired. [QueueNamed nb cells a t desired])"
| "call_step env new (QueueNamed nb cells a t desired) s =
     goes_on (ensure env nb (Some desired) s) (\<lambda>r. [QueueEnsured nb cells a t r])"
| "call_step env new (QueueEnsured nb cells a t r) s = goes_on (queue_create env new nb cells a t r s) (\<lambda>_. [])"
| "call_step env new (StdinAsked i v a t) s = goes_on (stdin_check i s) (\<lambda>j. [StdinChecked j v a t])"
| "call_step env new (StdinChecked j v a t) s = goes_on (stdin_ensure env j s) (\<lambda>rk. [StdinEnsured j v a t rk])"
| "call_step env new (StdinEnsured j v a t rk) s = goes_on (stdin_input env v rk s) (\<lambda>r. [StdinSent j a t r])"
| "call_step env new (StdinSent j a t r) s = goes_on (stdin_record env new j a t r s) (\<lambda>r. [StdinRecorded j r])"
| "call_step env new (StdinRecorded j r) s = goes_on (stdin_resume env j r s) (\<lambda>_. [])"
| "call_step env new (InterruptAsked nb a t) s = goes_on (ensure env nb None s) (\<lambda>r. [InterruptEnsured nb a t r])"
| "call_step env new (InterruptEnsured nb a t r) s = goes_on (interrupt_kernel_of env r s) (\<lambda>r. [InterruptSent nb a t r])"
| "call_step env new (InterruptSent nb a t r) s = goes_on (interrupt_record env new nb a t r s) (\<lambda>_. [])"

section \<open>Transitions\<close>

text \<open>Of the server's own state, the calls in flight standing still.\<close>

inductive server_step :: "'x server_env \<Rightarrow> 'x server \<Rightarrow> 'x server \<Rightarrow> bool" for env where
  step_task: "tasks s i = Some t \<Longrightarrow> server_step env s (task_step env i t s)"
| step_open: "server_step env s (snd (on_manager (open_runtime (manager_services env) nb c k) s))"
| step_attach: "server_step env s (snd (on_manager (attach_client (manager_services env) r c) s))"
| step_detach: "server_step env s (snd (on_manager (detach_client (manager_services env) r c) s))"
| step_status: "server_step env s (snd (runtime_status_of env nb s))"
| step_stop: "server_step env s (snd (on_manager (stop_runtime (manager_services env) r) s))"
| step_sweep: "server_step env s (snd (on_manager (gc_sweep (manager_services env)) s))"
| step_notebook: "server_step env s (snd (on_notebook (f :: 'x notebooks \<Rightarrow> unit \<times> 'x notebooks) s))"
| step_attribute: "server_step env s (snd (ledger_attribute env nb c (Some e) (Some et) None None s))"
| step_restart: "server_step env s (s\<lparr>exec_stack := cleanup_after_restart kid (exec_stack s)\<rparr>)"
| step_outside: "server_step env s (snd (on_stack (f :: stack \<times> 'x \<Rightarrow> unit \<times> stack \<times> 'x) s))"

text \<open>Of the server and the calls in flight: a call arrives, or moves to its next await or its end.\<close>

type_synonym 'x system = "'x server \<times> call list"

inductive system_step :: "'x server_env \<Rightarrow> 'x system \<Rightarrow> 'x system \<Rightarrow> bool" for env where
  system_server: "server_step env s s' \<Longrightarrow> system_step env (s, cs) (s', cs)"
| system_arrival: "arrives c \<Longrightarrow> system_step env (s, cs) (s, cs @ [c])"
| system_call: "(creates c \<longrightarrow> fresh_job new s) \<Longrightarrow> call_step env new c s = (next_part, s') \<Longrightarrow>
    system_step env (s, before @ c # after) (s', before @ next_part @ after)"

definition initial_server :: "time \<Rightarrow> int \<Rightarrow> stack \<Rightarrow> 'x \<Rightarrow> 'x server" where
  "initial_server ttl mx st x =
     \<lparr>manager = new_rtm ttl \<lparr>ext = x, ledger_of = new_ledger mx\<rparr>, docs = (\<lambda>_. None),
      docs_started = False, exec_stack = st, awaiting_sig = (\<lambda>_. None), resumed_sig = (\<lambda>_. None),
      job_locks = (\<lambda>_. []), tasks = (\<lambda>_. None)\<rparr>"

definition system_run :: "'x server_env \<Rightarrow> 'x system \<Rightarrow> 'x system \<Rightarrow> bool" where
  "system_run env = (system_step env)\<^sup>*\<^sup>*"

definition reachable_system :: "'x server_env \<Rightarrow> 'x system \<Rightarrow> bool" where
  "reachable_system env x \<longleftrightarrow> (\<exists>ttl mx st w. system_run env (initial_server ttl mx st w, []) x)"

definition reachable :: "'x server_env \<Rightarrow> 'x server \<Rightarrow> bool" where
  "reachable env s \<longleftrightarrow> (\<exists>cs. reachable_system env (s, cs))"

section \<open>Stopping runtimes evicts notebooks only\<close>

lemma callback_keeps:
  assumes "\<And>nb w. P w \<Longrightarrow> P (w\<lparr>ledger_of := evict_notebook nb (ledger_of w)\<rparr>)"
    and "services_keep (manager_services env) P" and "P (world s)"
  shows "P (world (snd (stop_runtime (manager_services env) r s)))"
proof -
  have release: "P (world (stop_release (manager_services env) r s1))" if "P (world s1)" for s1
    using that services_keepD(3,4) [OF assms(2) that]
    by (auto simp: stop_release_def split: option.split) (metis surj_pair snd_conv)+
  have "P (world (stop_finish (manager_services env) r s1))" if "P (world s1)" for s1
    using mark_activity_keeps [OF assms(2), of "modify_room r
        (\<lambda>m. m\<lparr>room_state := STOPPED, attached_clients := {}, active_jobs := {}\<rparr>) s1" r] that
    by (simp add: stop_finish_def Let_def)
  moreover have "P (world (stop_begin (manager_services env) r s))"
    unfolding stop_begin_def by (rule mark_activity_keeps [OF assms(2)]) (simp add: assms(3))
  ultimately have "P (world (stop_finish (manager_services env) r
      (stop_release (manager_services env) r (stop_begin (manager_services env) r s))))"
    using release by blast
  then show ?thesis
    using assms(1,3)
    by (simp add: stop_runtime_def Let_def notify_notebook_stopped_def manager_services_def)
qed

lemma sweep_keeps:
  assumes "\<And>nb w. P w \<Longrightarrow> P (w\<lparr>ledger_of := evict_notebook nb (ledger_of w)\<rparr>)"
    and "services_keep (manager_services env) P" and "P (world s)"
  shows "P (world (snd (gc_sweep (manager_services env) s)))"
proof -
  have "P (world (snd (gc_stop (manager_services env) rs s1)))" if "P (world s1)" for rs s1
    using that
  proof (induction rs arbitrary: s1)
    case (Cons r rs)
    obtain x s2 where st: "stop_runtime (manager_services env) r s1 = (x, s2)" by fastforce
    have "P (world s2)" using callback_keeps [OF assms(1,2) Cons.prems, of r] st by simp
    from Cons.IH [OF this] st show ?case by (simp split: sum.split prod.split add: case_prod_beta)
  qed simp
  moreover have "P (world (snd (read_clock (manager_services env) s)))"
    using services_keepD(6) [OF assms(2,3)] by (auto simp: read_clock_def split: prod.split)
  ultimately show ?thesis unfolding gc_sweep_unfold by blast
qed

text \<open>What a stop or a sweep does to the jobs: some notebooks' jobs are evicted.\<close>



lemma ledger_pred_keep: "services_keep (manager_services env) (\<lambda>w. Q (ledger_of w))"
  by (simp add: services_keep_def manager_services_def)

lemma stops_touch:
  "touches I (server_ledger s) (server_ledger (snd (on_manager (stop_runtime (manager_services env) r) s)))"
  "touches I (server_ledger s) (server_ledger (snd (on_manager (gc_sweep (manager_services env)) s)))"
proof -
  let ?Q = "\<lambda>w. touches I (server_ledger s) (ledger_of w)"
  have evict: "?Q (w\<lparr>ledger_of := evict_notebook nb (ledger_of w)\<rparr>)" if "?Q w" for nb w
    using that touches_trans touches_evict by fastforce
  have start: "?Q (world (manager s))" by (simp add: server_ledger_def)
  show "touches I (server_ledger s) (server_ledger (snd (on_manager (stop_runtime (manager_services env) r) s)))"
    using callback_keeps [where P = ?Q, OF evict ledger_pred_keep start]
    by (simp add: on_manager_def server_ledger_def case_prod_beta)
  show "touches I (server_ledger s) (server_ledger (snd (on_manager (gc_sweep (manager_services env)) s)))"
    using sweep_keeps [where P = ?Q, OF evict ledger_pred_keep start]
    by (simp add: on_manager_def server_ledger_def case_prod_beta)
qed

lemma on_manager_tasks [simp]:
  "tasks (snd (on_manager f s)) = tasks s" "job_locks (snd (on_manager f s)) = job_locks s"
  by (simp_all add: on_manager_def case_prod_beta)

lemma server_ok_touch:
  assumes "server_ok s" and "touches {} (server_ledger s) (server_ledger s')"
    and "tasks s' = tasks s" and "job_locks s' = job_locks s"
  shows "server_ok s'"
proof -
  have "jobs_ok (tasks s) (server_ledger s')"
    using assms(1) by (intro jobs_ok_step [OF _ assms(2)]) (simp_all add: server_ok_def)
  with assms show ?thesis by (simp add: server_ok_def)
qed

section \<open>The invariant holds in every reachable state\<close>

lemma server_step_ok: "server_step env s s' \<Longrightarrow> server_ok s \<Longrightarrow> server_ok s'"
proof (induction rule: server_step.induct)
  case (step_stop s r)
  then show ?case by (rule server_ok_touch [OF _ stops_touch(1)]) simp_all
next
  case (step_sweep s)
  then show ?case by (rule server_ok_touch [OF _ stops_touch(2)]) simp_all
qed (simp_all add: task_step_ok
    ledger_attribute_server_ok runtime_status_of_def server_ok_core [OF manager_ops_core(4)]
    server_ok_core [OF manager_ops_core(5)] server_ok_core [OF manager_ops_core(6)]
    server_ok_core [OF manager_ops_core(7)] server_ok_core [OF on_notebook_core]
    server_ok_core [OF on_stack_core] server_ok_core [OF stack_record_core])

text \<open>
  A reply to an input request was checked while its job's task ran; the task may have ended since, but
  it has not gone back to where its job is queued.
\<close>

fun reply_to :: "call \<Rightarrow> job option" where
  "reply_to (StdinChecked j v a t) = Some j"
| "reply_to (StdinEnsured j v a t rk) = Some j"
| "reply_to (StdinSent j a t r) = Some j"
| "reply_to (StdinRecorded j r) = Some j"
| "reply_to _ = None"

definition call_ok :: "(pystr \<Rightarrow> task option) \<Rightarrow> call \<Rightarrow> bool" where
  "call_ok ts c \<longleftrightarrow>
     (\<forall>j. reply_to c = Some j \<longrightarrow> (\<exists>t. ts (job_id j) = Some t \<and> begun (task_pc t)))"

definition tasks_go_on :: "(pystr \<Rightarrow> task option) \<Rightarrow> (pystr \<Rightarrow> task option) \<Rightarrow> bool" where
  "tasks_go_on ts ts' \<longleftrightarrow>
     (\<forall>i t. ts i = Some t \<and> begun (task_pc t) \<longrightarrow> (\<exists>t'. ts' i = Some t' \<and> begun (task_pc t')))"

lemma tasks_go_on_refl [simp]: "tasks_go_on ts ts"
  by (simp add: tasks_go_on_def)

lemma call_ok_mono: "tasks_go_on ts ts' \<Longrightarrow> call_ok ts c \<Longrightarrow> call_ok ts' c"
  by (auto simp: call_ok_def tasks_go_on_def)

definition system_ok :: "'x system \<Rightarrow> bool" where
  "system_ok x \<longleftrightarrow> server_ok (fst x) \<and> (\<forall>c \<in> set (snd x). call_ok (tasks (fst x)) c)"

lemma server_step_tasks: "server_step env s s' \<Longrightarrow> server_ok s \<Longrightarrow> tasks_go_on (tasks s) (tasks s')"
proof (induction rule: server_step.induct)
  case (step_task s i t)
  then show ?case using moved_begun [OF task_step_moved [of s i t env]] by (auto simp: tasks_go_on_def)
next
  case (step_attribute s nb c e et)
  then show ?case by simp
qed (simp_all add: runtime_status_of_def core_eqD [OF on_notebook_core] core_eqD [OF on_stack_core])

lemma goes_on_cases:
  assumes "goes_on outcome k = (cs, s')"
  obtains (raised) e where "outcome = (Inl e, s')" "cs = []"
  | (passed) x where "outcome = (Inr x, s')" "cs = k x"
  using assms by (cases outcome) (auto simp: goes_on_def split: sum.splits)

lemma goes_on_state: "goes_on outcome k = (cs, s') \<Longrightarrow> s' = snd outcome"
  by (auto elim: goes_on_cases)

text \<open>A part of a call keeps the invariant, and what the call holds stays true of the tasks.\<close>

lemma call_step_core_parts:
  assumes "call_step env new c s = (cs, s')"
  shows "case c of QueueEnsured nb cells a t r \<Rightarrow> s' = snd (queue_create env new nb cells a t r s)
    | StdinSent j a t r \<Rightarrow> s' = snd (stdin_record env new j a t r s)
    | StdinRecorded j r \<Rightarrow> s' = snd (stdin_resume env j r s)
    | InterruptSent nb a t r \<Rightarrow> s' = snd (interrupt_record env new nb a t r s)
    | _ \<Rightarrow> core s' = core s"
  using assms by (cases c) (auto dest!: goes_on_state simp: stdin_check_state)

lemma call_step_ok:
  assumes "call_step env new c s = (cs, s')" and "server_ok s" and "creates c \<longrightarrow> fresh_job new s" and "call_ok (tasks s) c"
  shows "server_ok s' \<and> tasks_go_on (tasks s) (tasks s')"
proof -
  have same: ?thesis if "core s' = core s"
    using server_ok_core [OF that] core_eqD [OF that] assms(2) by simp
  show ?thesis
  proof (cases c)
    case (QueueEnsured nb cells a t r)
    then have s': "s' = snd (queue_create env new nb cells a t r s)" using call_step_core_parts [OF assms(1)] by simp
    from QueueEnsured assms(3) have fresh: "fresh_job new s" by simp
    have "tasks s' = (tasks s)(new := Some \<lparr>task_notebook = nb, task_actor = a, task_actor_type = t,
        task_cells = cells, task_pc = EnterRoom\<rparr>)"
      using queue_create_effect [of env new nb cells a t r s] by (auto simp: s' core_def)
    with fresh have "tasks_go_on (tasks s) (tasks s')" by (auto simp: tasks_go_on_def fresh_job_def)
    with queue_create_ok [OF assms(2) fresh] s' show ?thesis by simp
  next
    case (StdinSent j a t r)
    with call_step_core_parts [OF assms(1)] record_parts_ok(1,2) [OF assms(2)] assms(3) show ?thesis by simp
  next
    case (InterruptSent nb a t r)
    with call_step_core_parts [OF assms(1)] record_parts_ok(3,4) [OF assms(2)] assms(3) show ?thesis by simp
  next
    case (StdinRecorded j r)
    with assms(4) obtain t where "tasks s (job_id j) = Some t" "begun (task_pc t)" by (auto simp: call_ok_def)
    from stdin_resume_ok [OF assms(2) this] call_step_core_parts [OF assms(1)] StdinRecorded show ?thesis by simp
  qed (use same call_step_core_parts [OF assms(1)] in simp_all)
qed

lemma call_step_next:
  assumes "call_step env new c s = (cs, s')" and "d \<in> set cs" and "reply_to d = Some j"
  shows "reply_to c = Some j \<or> (\<exists>i v a t. c = StdinAsked i v a t
    \<and> get_job i (server_ledger s) = Some j \<and> job_status j = job_status.AWAITING_INPUT \<and> s' = s)"
  using assms by (cases c) (auto elim!: goes_on_cases dest: stdin_check_result)

lemma call_step_calls_ok:
  assumes "call_step env new c s = (cs, s')" and "server_ok s" and "creates c \<longrightarrow> fresh_job new s" and "call_ok (tasks s) c"
    and "d \<in> set cs"
  shows "call_ok (tasks s') d"
  unfolding call_ok_def
proof (intro allI impI)
  fix j assume j: "reply_to d = Some j"
  have go: "tasks_go_on (tasks s) (tasks s')" using call_step_ok [OF assms(1-4)] by simp
  from call_step_next [OF assms(1,5) j] show "\<exists>t. tasks s' (job_id j) = Some t \<and> begun (task_pc t)"
  proof (elim disjE exE conjE)
    assume "reply_to c = Some j"
    then show ?thesis using call_ok_mono [OF go assms(4)] by (simp add: call_ok_def)
  next
    fix i v a t assume a: "get_job i (server_ledger s) = Some j" "job_status j = job_status.AWAITING_INPUT" "s' = s"
    obtain t r where "tasks s i = Some t" "running_in (task_pc t) = Some r"
      using awaiting_job_runs [OF assms(2) a(1,2)] by blast
    moreover have "job_id j = i" using job_id_lookup a(1) assms(2) by (auto simp: server_ok_def jobs_ok_def)
    ultimately show ?thesis using a(3) by (auto simp: begun_def)
  qed
qed

lemma system_step_ok: "system_step env x y \<Longrightarrow> system_ok x \<Longrightarrow> system_ok y"
proof (induction rule: system_step.induct)
  case (system_server s s' cs)
  then have ok: "server_ok s" by (simp add: system_ok_def)
  note go = call_ok_mono [OF server_step_tasks [OF system_server(1) ok]]
  from system_server(2) server_step_ok [OF system_server(1) ok] show ?case
    by (auto simp: system_ok_def intro: go)
next
  case (system_arrival c s cs)
  then have "call_ok (tasks s) c" by (cases c) (simp_all add: call_ok_def)
  with system_arrival show ?case by (simp add: system_ok_def)
next
  case (system_call c new s next_part s' before after)
  then have c: "server_ok s" "call_ok (tasks s) c" by (simp_all add: system_ok_def)
  note ok = call_step_ok [OF system_call(2) c(1) system_call(1) c(2)]
    and part = call_step_calls_ok [OF system_call(2) c(1) system_call(1) c(2)]
  with system_call call_ok_mono show ?case by (auto simp: system_ok_def)
qed

lemma system_run_ok: "system_run env x y \<Longrightarrow> system_ok x \<Longrightarrow> system_ok y"
  unfolding system_run_def by (induction rule: rtranclp_induct) (auto intro: system_step_ok)

lemma initial_server_ok: "server_ok (initial_server ttl mx st x)"
  by (simp add: initial_server_def server_ok_def jobs_ok_def locks_ok_def queued_at_def server_ledger_def
      new_rtm_def get_job_simp) (simp add: new_ledger_def)

lemma reachable_system_ok: "reachable_system env x \<Longrightarrow> system_ok x"
proof -
  assume "reachable_system env x"
  then obtain ttl mx st w where "system_run env (initial_server ttl mx st w, []) x"
    by (auto simp: reachable_system_def)
  then show ?thesis by (rule system_run_ok) (simp add: system_ok_def initial_server_ok)
qed

lemma reachable_ok: "reachable env s \<Longrightarrow> server_ok s"
  unfolding reachable_def using reachable_system_ok by (force simp: system_ok_def)

lemma reachable_initial: "reachable_system env (initial_server ttl mx st w, [])"
  by (auto simp: reachable_system_def system_run_def)

lemma system_run_trans: "system_run env x y \<Longrightarrow> system_run env y z \<Longrightarrow> system_run env x z"
  by (simp add: system_run_def)

lemma reachable_system_run: "reachable_system env x \<Longrightarrow> system_run env x y \<Longrightarrow> reachable_system env y"
  unfolding reachable_system_def using system_run_trans by blast

lemma reachable_run: "reachable_system env (s, cs) \<Longrightarrow> system_run env (s, cs) (s', cs') \<Longrightarrow> reachable env s'"
  unfolding reachable_def using reachable_system_run by blast

section \<open>Requests run to their end\<close>

text \<open>A request whose parts run one after the other is a run of the system; the other calls stand still.\<close>

lemma run_server: "server_step env s s' \<Longrightarrow> system_run env (s, cs) (s', cs)"
  by (simp add: system_run_def system_server r_into_rtranclp)

lemma run_call:
  assumes "creates c \<longrightarrow> fresh_job new s" and "call_step env new c s = (d, s')"
  shows "system_run env (s, cs @ [c]) (s', cs @ d)"
  using system_call [OF assms, of cs "[]"] by (simp add: system_run_def r_into_rtranclp)

lemma run_arrival: "arrives c \<Longrightarrow> system_run env (s, cs) (s, cs @ [c])"
  by (simp add: system_run_def system_arrival r_into_rtranclp)

text \<open>The parts of a call up to one that creates a job leave the identifiers of jobs alone.\<close>

lemma fresh_core: "core s' = core s \<Longrightarrow> fresh_job new s' = fresh_job new s"
  by (auto simp: fresh_job_def dest!: core_eqD)

lemma run_part:
  assumes "creates c \<longrightarrow> fresh_job new s" and "call_step env new c s = goes_on (m s) (\<lambda>x. [d x])"
    and "\<And>x. system_run env (snd (m s), cs @ [d x]) (snd (f x (snd (m s))), cs)"
  shows "system_run env (s, cs @ [c]) (snd (mbind m f s), cs)"
proof -
  obtain r s1 where m: "m s = (r, s1)" by fastforce
  show ?thesis
  proof (cases r)
    case (Inl e)
    then have "call_step env new c s = ([], s1)" by (simp add: assms(2) m goes_on_def)
    from run_call [OF assms(1) this, of cs] show ?thesis by (simp add: mbind_def m Inl)
  next
    case (Inr x)
    then have "call_step env new c s = ([d x], s1)" by (simp add: assms(2) m goes_on_def)
    from run_call [OF assms(1) this, of cs] assms(3) [of x]
    show ?thesis by (auto simp: mbind_def m Inr intro: system_run_trans)
  qed
qed

lemma run_mbind:
  assumes "fresh_job new s" and "call_step env new c s = goes_on (m s) (\<lambda>x. [d x])" and "core (snd (m s)) = core s"
    and "\<And>x s1. fresh_job new s1 \<Longrightarrow> system_run env (s1, cs @ [d x]) (snd (f x s1), cs)"
  shows "system_run env (s, cs @ [c]) (snd (mbind m f s), cs)"
  using assms(1,2) assms(4) fresh_core [OF assms(3)] by (intro run_part [where d = d]) simp_all

lemma run_last:
  assumes "creates c \<longrightarrow> fresh_job new s" and "call_step env new c s = goes_on (m s) (\<lambda>x. [])"
  shows "system_run env (s, cs @ [c]) (snd (m s), cs)"
proof -
  have "call_step env new c s = ([], snd (m s))"
    by (simp add: assms(2) goes_on_def split: prod.split sum.split)
  from run_call [OF assms(1) this, of cs] show ?thesis by simp
qed

lemma finish_queue:
  assumes "fresh_job new s"
  shows "system_run env (s, cs @ [QueueAsked nb cells a t k]) (snd (queue_execution env new nb cells a t k s), cs)"
  unfolding queue_execution_def
  by (rule run_mbind [OF assms, where d = "\<lambda>x. QueueNamed nb cells a t x"], simp, simp,
      erule run_mbind [where d = "\<lambda>x. QueueEnsured nb cells a t x"], simp, simp,
      rule run_last, simp, simp)

lemma run_queue:
  assumes "fresh_job new s"
  shows "system_run env (s, cs) (snd (queue_execution env new nb cells a t k s), cs)"
  by (rule system_run_trans [OF run_arrival finish_queue [OF assms]]) simp

lemma finish_interrupt:
  assumes "fresh_job new s"
  shows "system_run env (s, cs @ [InterruptAsked nb a t]) (snd (interrupt_notebook env new nb a t s), cs)"
  unfolding interrupt_notebook_def
  by (rule run_mbind [OF assms, where d = "\<lambda>x. InterruptEnsured nb a t x"], simp, simp,
      erule run_mbind [where d = "\<lambda>x. InterruptSent nb a t x"], simp, simp,
      rule run_last, simp, simp)

lemma run_interrupt:
  assumes "fresh_job new s"
  shows "system_run env (s, cs) (snd (interrupt_notebook env new nb a t s), cs)"
  by (rule system_run_trans [OF run_arrival finish_interrupt [OF assms]]) simp

lemma mbind_assoc: "mbind (mbind m f) g = mbind m (\<lambda>x. mbind (f x) g)"
  by (rule ext) (simp add: mbind_def split: prod.split sum.split)

lemma finish_stdin:
  assumes "fresh_job new s"
  shows "system_run env (s, cs @ [StdinAsked i v a t]) (snd (send_stdin env new i v a t s), cs)"
  unfolding send_stdin_def stdin_deliver_def stdin_finish_def mbind_assoc
  by (rule run_mbind [OF assms, where d = "\<lambda>j. StdinChecked j v a t"], simp, simp add: stdin_check_state,
      erule run_mbind [where d = "\<lambda>rk. StdinEnsured j v a t rk" for j], simp, simp,
      erule run_mbind [where d = "\<lambda>r. StdinSent j a t r" for j], simp, simp,
      rule run_part [where d = "\<lambda>r. StdinRecorded j r" for j], simp, simp,
      rule run_last, simp, simp)

lemma run_stdin:
  assumes "fresh_job new s"
  shows "system_run env (s, cs) (snd (send_stdin env new i v a t s), cs)"
  by (rule system_run_trans [OF run_arrival finish_stdin [OF assms]]) simp

section \<open>Which jobs a transition may change\<close>

definition changed_only :: "pystr set \<Rightarrow> ledger \<Rightarrow> 'x server \<Rightarrow> bool" where
  "changed_only I l s \<longleftrightarrow> touches I l (server_ledger s)"

lemma changed_only_core:
  assumes "core s' = core s"
  shows "changed_only I l s' = changed_only I l s"
  using core_eqD [OF assms] by (simp add: changed_only_def)

lemmas changed_only_simps [simp] =
  on_ext_core [THEN changed_only_core] on_stack_core [THEN changed_only_core]
  on_notebook_core [THEN changed_only_core] manager_ops_core [THEN changed_only_core]
  ensure_kernel_client_ready_core [THEN changed_only_core]
  interrupt_via_subshell_core [THEN changed_only_core] resolve_kernel_name_core [THEN changed_only_core]
  signature_record_core [THEN changed_only_core]

lemma changed_only_refl [simp]: "changed_only I (server_ledger s) s"
  by (simp add: changed_only_def)

lemma mbind_changed_only:
  assumes "changed_only I l s" and "\<And>s. changed_only I l s \<Longrightarrow> changed_only I l (snd (m s))"
    and "\<And>x s. changed_only I l s \<Longrightarrow> changed_only I l (snd (f x s))"
  shows "changed_only I l (snd (mbind m f s))"
proof -
  obtain r s1 where "m s = (r, s1)" by fastforce
  with assms(2) [OF assms(1)] assms(3) [of s1] show ?thesis by (simp add: mbind_def split: sum.split)
qed

lemma mret_changed_only [simp]: "changed_only I l (snd (mret x s)) = changed_only I l s"
  by (simp add: mret_def)

lemma ledger_calls_changed_only [simp]:
  "i \<in> I \<Longrightarrow> changed_only I l s \<Longrightarrow> changed_only I l (snd (ledger_status env i st rt s))"
  "i \<in> I \<Longrightarrow> changed_only I l s \<Longrightarrow> changed_only I l (snd (ledger_uid i u s))"
  "changed_only I l s \<Longrightarrow> changed_only I l (snd (ledger_attribute env nb c e et x xt s))"
proof -
  show "changed_only I l (snd (ledger_status env i st rt s))" if "i \<in> I" "changed_only I l s"
    using ledger_status_effect [of s env i st rt] that touches_trans [OF _ touches_status [OF that(1)]]
    by (auto simp: changed_only_def)
  show "changed_only I l (snd (ledger_uid i u s))" if "i \<in> I" "changed_only I l s"
    using that touches_trans [OF _ touches_uid [OF that(1)]]
    by (auto simp: changed_only_def ledger_uid_def case_prod_beta)
  show "changed_only I l (snd (ledger_attribute env nb c e et x xt s))" if "changed_only I l s"
    using ledger_attribute_effect [of s env nb c e et x xt] that touches_trans [OF _ touches_attribute]
    by (auto simp: changed_only_def)
qed

lemma set_pc_changed_only [simp]: "changed_only I l (set_pc i t pc s) = changed_only I l s"
  by (simp add: changed_only_def)

lemma end_job_changed_only [simp]: "i \<in> I \<Longrightarrow> changed_only I l s \<Longrightarrow> changed_only I l (end_job env i t r st s)"
  by (simp add: end_job_def changed_only_def [of _ _ "leave_room _ _ _ _ _"])
    (simp add: changed_only_def [symmetric])

lemma or_fail_changed_only:
  assumes "i \<in> I" and "changed_only I l (snd outcome)"
    and "\<And>x s. changed_only I l s \<Longrightarrow> changed_only I l (k x s)"
  shows "changed_only I l (or_fail env i t r outcome k)"
  using assms by (cases outcome) (auto simp: or_fail_def split: sum.split)

lemma segments_changed_only:
  assumes "changed_only {i} l s"
  shows "changed_only {i} l (snd (submit_cell env i t kid c source s))"
    and "changed_only {i} l (snd (record_result env t c s))"
    and "changed_only {i} l (snd (poll_turn env i r kid uid s))"
proof -
  show "changed_only {i} l (snd (submit_cell env i t kid c source s))"
    unfolding submit_cell_def by (intro mbind_changed_only assms) simp_all
  show "changed_only {i} l (snd (record_result env t c s))"
    unfolding record_result_def by (intro mbind_changed_only assms) simp_all
  have ask: "changed_only {i} l (snd (mbind (ledger_status env i job_status.AWAITING_INPUT None) (\<lambda>_.
      mbind (on_manager (set_runtime_state (manager_services env) r runtime_state.AWAITING_INPUT)) (\<lambda>_.
      mret None)) s1))" if "changed_only {i} l s1" for s1
    using that by (intro mbind_changed_only) simp_all
  show "changed_only {i} l (snd (poll_turn env i r kid uid s))"
    unfolding poll_turn_def
    using assms by (intro mbind_changed_only) (auto simp: Let_def ask split: option.split json.split)
qed

lemma task_step_changed_only: "changed_only {i} (server_ledger s) (task_step env i t s)"
proof -
  have locks: "changed_only I l (s1\<lparr>job_locks := k\<rparr>) = changed_only I l s1" for I l k s1
    by (simp add: changed_only_def server_ledger_def)
  have room: "changed_only {i} (server_ledger s) (snd (ensure env nb k s))" for nb k by simp
  show ?thesis
    using segments_changed_only [of i "server_ledger s" s env] room [of "task_notebook t" None]
    by (auto simp: task_step_def locks case_prod_beta split: task_pc.split list.split sum.split option.split
        intro!: or_fail_changed_only)
qed


lemma create_changed_only:
  assumes "fresh_job new s" and "core s1 = core s" and "new \<in> I"
  shows "changed_only I (server_ledger s) (snd (ledger_create env new nb a t act tg r s1))"
proof -
  obtain now s2 where "ledger_create env new nb a t act tg r s1 =
      (Inr (new_job new now nb a t act tg r),
       set_ledger (snd (create_job new now nb a t act tg r (server_ledger s1))) s2)"
    using ledger_create_effect by blast
  moreover have "get_job new (server_ledger s) = None" using assms(1) by (simp add: fresh_job_def)
  ultimately show ?thesis
    using touches_create [OF _ assms(3)] core_eqD [OF assms(2)] by (simp add: changed_only_def)
qed

lemma call_part_changed_only:
  assumes "server_ok s" and "call_step env new c s = (cs, s')" and "creates c \<longrightarrow> fresh_job new s"
    and "creates c \<Longrightarrow> new \<in> I" and "\<And>j r. c = StdinRecorded j r \<Longrightarrow> job_id j \<in> I"
  shows "changed_only I (server_ledger s) s'"
proof -
  have same: ?thesis if "core s' = core s" using changed_only_core [OF that] by simp
  show ?thesis
  proof (cases c)
    case (QueueEnsured nb cells a t r)
    with assms(3,4) have new: "get_job new (server_ledger s) = None" "new \<in> I" by (simp_all add: fresh_job_def)
    from QueueEnsured call_step_core_parts [OF assms(2)]
    have s': "s' = snd (queue_create env new nb cells a t r s)" by simp
    obtain now where "server_ledger s' = snd (create_job new now nb a t EXECUTE
        (Some (dumps default_dump (JList (map JStr cells)))) (Some r) (server_ledger s))"
      using queue_create_effect [of env new nb cells a t r s] by (auto simp: s' core_def)
    then show ?thesis using touches_create [OF new] by (simp add: changed_only_def)
  next
    case (StdinSent j a t r)
    with call_step_core_parts [OF assms(2)] assms(3,4) show ?thesis
      by (simp add: record_parts create_changed_only resumed_core)
  next
    case (StdinRecorded j r)
    with call_step_core_parts [OF assms(2)] have s': "s' = snd (stdin_resume env j r s)" by simp
    from assms(5) [OF StdinRecorded] show ?thesis
      by (simp add: s' changed_only_core [OF stdin_resume_core])
  next
    case (InterruptSent nb a t r)
    with call_step_core_parts [OF assms(2)] assms(3,4) show ?thesis
      by (simp add: record_parts create_changed_only)
  qed (use same call_step_core_parts [OF assms(2)] in simp_all)
qed

text \<open>The tasks, but for the one that is created or moves, stay where they are.\<close>

lemma call_step_tasks:
  assumes "call_step env new c s = (cs, s')" and "server_ok s" and "creates c \<longrightarrow> fresh_job new s"
    and "call_ok (tasks s) c" and "tasks s i = Some t"
  shows "tasks s' i = Some t"
proof -
  have same: ?thesis if "tasks s' = tasks s" using that assms(5) by simp
  show ?thesis
  proof (cases c)
    case (QueueEnsured nb cells a t' r)
    with assms(3,5) have "i \<noteq> new" by (auto simp: fresh_job_def)
    moreover from QueueEnsured call_step_core_parts [OF assms(1)]
    have "s' = snd (queue_create env new nb cells a t' r s)" by simp
    ultimately show ?thesis
      using queue_create_effect [of env new nb cells a t' r s] assms(5) by (auto simp: core_def)
  next
    case (StdinRecorded j r)
    with call_step_core_parts [OF assms(1)] have s': "s' = snd (stdin_resume env j r s)" by simp
    from assms(4) StdinRecorded obtain t' where "tasks s (job_id j) = Some t'" "begun (task_pc t')"
      by (auto simp: call_ok_def)
    from stdin_resume_ok(2) [OF assms(2) this] show ?thesis by (simp add: s' assms(5))
  qed (use call_step_core_parts [OF assms(1)] record_parts_ok(2,4) [OF assms(2), of new] assms(3) same
        in \<open>auto dest: core_eqD\<close>)
qed

text \<open>A finished task does nothing more, and no transition of the server touches its job.\<close>

lemma finished_task_stays:
  assumes "server_step env s s'" and "server_ok s" and "tasks s i = Some t" and "task_pc t = Finished"
  shows "tasks s' i = Some t \<and> (\<exists>I. changed_only I (server_ledger s) s' \<and> i \<notin> I)"
  using assms
proof (induction rule: server_step.induct)
  case (step_task s k t')
  show ?case
  proof (cases "k = i")
    case True
    with step_task show ?thesis by (auto simp: task_step_def intro: changed_only_refl)
  next
    case False
    have "tasks (task_step env k t' s) i = Some t"
      using task_step_moved [OF step_task(2,1), of env] False step_task(3) by (auto simp: moved_def)
    with False task_step_changed_only [of k s env t'] show ?thesis by blast
  qed
next
  case (step_stop s r)
  then show ?case by (intro conjI exI [of _ "{}"]) (simp_all add: changed_only_def stops_touch)
next
  case (step_sweep s)
  then show ?case by (intro conjI exI [of _ "{}"]) (simp_all add: changed_only_def stops_touch)
next
  case (step_attribute s nb c e et)
  then show ?case by (intro conjI exI [of _ "{}"]) simp_all
next
  case (step_restart s kid)
  then show ?case
    by (intro conjI exI [of _ "{}"]) (simp_all add: changed_only_core [OF stack_record_core])
qed (auto intro!: exI [of _ "{}"] simp: runtime_status_of_def core_eqD [OF on_notebook_core] core_eqD [OF on_stack_core])

section \<open>Jobs that are over\<close>

text \<open>The replies in flight to a job.\<close>

definition replies_to :: "pystr \<Rightarrow> call \<Rightarrow> bool" where
  "replies_to i c \<longleftrightarrow> (case reply_to c of None \<Rightarrow> False | Some j \<Rightarrow> job_id j = i)"

definition over :: "pystr \<Rightarrow> job \<Rightarrow> 'x system \<Rightarrow> bool" where
  "over i j x \<longleftrightarrow> system_ok x \<and> completed_status (job_status j)
     \<and> get_job i (server_ledger (fst x)) \<in> {Some j, None}
     \<and> (\<exists>t. tasks (fst x) i = Some t \<and> task_pc t = Finished) \<and> \<not> list_ex (replies_to i) (snd x)"

lemma over_start:
  assumes "system_ok (s, cs)" and "get_job i (server_ledger s) = Some j" and "completed_status (job_status j)"
    and "\<not> list_ex (replies_to i) cs"
  shows "over i j (s, cs)"
proof -
  have "job_ok (tasks s i) j" using assms(1,2) by (simp add: system_ok_def server_ok_def jobs_ok_def)
  then have "\<exists>t. tasks s i = Some t \<and> task_pc t = Finished"
    using assms(3) by (cases "tasks s i"; cases "task_pc (the (tasks s i))")
      (auto simp: job_ok_def status_allowed_def completed_status_def)
  with assms show ?thesis by (simp add: over_def)
qed

lemma unchanged_job:
  assumes "changed_only I (server_ledger s) s'" and "i \<notin> I" and "get_job i (server_ledger s) \<in> {Some j, None}"
  shows "get_job i (server_ledger s') \<in> {Some j, None}"
proof (cases "get_job i (server_ledger s')")
  case (Some j')
  with assms(1,2) have "get_job i (server_ledger s) = Some j'" by (auto simp: changed_only_def touches_def)
  with assms(3) Some show ?thesis by simp
qed simp

lemma over_step:
  assumes "system_step env x y" and "over i j x"
  shows "over i j y"
  using assms
proof (induction rule: system_step.induct)
  case (system_server s s' cs)
  from system_server(2) obtain t where t: "server_ok s" "tasks s i = Some t" "task_pc t = Finished"
    by (auto simp: over_def system_ok_def)
  from finished_task_stays [OF system_server(1) t] obtain I where
    "tasks s' i = Some t" "changed_only I (server_ledger s) s'" "i \<notin> I" by blast
  moreover from this(2,3) have "get_job i (server_ledger s') \<in> {Some j, None}"
    by (rule unchanged_job) (use system_server(2) in \<open>simp add: over_def\<close>)
  ultimately show ?case
    using system_server(2) t(3) system_step_ok [OF system_step.system_server [OF system_server(1)]]
    by (auto simp: over_def)
next
  case (system_arrival c s cs)
  then have "\<not> replies_to i c" by (cases c) (simp_all add: replies_to_def)
  with system_arrival system_step_ok [OF system_step.system_arrival [OF system_arrival(1)]] show ?case
    by (auto simp: over_def)
next
  case (system_call c new s part s' before after)
  from system_call(3) obtain t where t: "server_ok s" "tasks s i = Some t" "task_pc t = Finished"
    and c: "call_ok (tasks s) c" "\<not> replies_to i c" by (auto simp: over_def system_ok_def)
  note stays = call_step_tasks [OF system_call(2) t(1) system_call(1) c(1) t(2)]
  define I where "I = (if creates c then {new} else {}) \<union> {job_id j' |j' r. c = StdinRecorded j' r}"
  have "changed_only I (server_ledger s) s'"
    by (rule call_part_changed_only [OF t(1) system_call(2,1)]) (auto simp: I_def)
  moreover have "i \<notin> I" using c(2) t(2) system_call(1) by (auto simp: I_def replies_to_def fresh_job_def split: if_splits)
  ultimately have job: "get_job i (server_ledger s') \<in> {Some j, None}"
    by (rule unchanged_job) (use system_call(3) in \<open>simp add: over_def\<close>)
  have "\<not> replies_to i d" if "d \<in> set part" for d
  proof
    assume "replies_to i d"
    then obtain j' where j': "reply_to d = Some j'" "job_id j' = i" by (auto simp: replies_to_def split: option.splits)
    from call_step_next [OF system_call(2) that j'(1)] show False
    proof (elim disjE exE conjE)
      assume "reply_to c = Some j'"
      with c(2) j'(2) show False by (simp add: replies_to_def)
    next
      fix i0 v a t assume a: "get_job i0 (server_ledger s) = Some j'" "job_status j' = job_status.AWAITING_INPUT"
      then have "job_id j' = i0" using job_id_lookup t(1) by (auto simp: server_ok_def jobs_ok_def)
      with a j'(2) system_call(3) show False by (auto simp: over_def completed_status_def)
    qed
  qed
  then have "\<not> list_ex (replies_to i) (before @ part @ after)"
    using system_call(3) by (auto simp: over_def list_ex_iff)
  with system_call(3) job stays t(3) system_step_ok [OF system_step.system_call [OF system_call(1,2)]] show ?case
    by (auto simp: over_def)
qed

section \<open>A concrete server\<close>

text \<open>
  The environments of the components put together, with an execution stack that answers every
  request at once; two executions of one notebook are queued and the first has entered the room.
\<close>

definition demo_channel :: "'x kernel_io" where
  "demo_channel =
     \<lparr>io_monotonic = (\<lambda>x. (0, x)), io_header = (\<lambda>t x. ([], x)), io_control_send = (\<lambda>m x. x),
      io_control_get = (\<lambda>t x. (ControlTimeout, x)), io_shell_send = (\<lambda>m x. x)\<rparr>"

definition demo_env :: "demo_world server_env" where
  "demo_env =
     \<lparr>jupyter = demo_services, notebook_services = demo_nb_env, client_io = (\<lambda>_. demo_channel),
      stack_get_client = None, start_channels = (\<lambda>_ x. (Inr (), x)), wait_for_ready = None,
      stack_put = (\<lambda>k src document cell sx. (Inr cell, sx)),
      stack_get = (\<lambda>k uid sx. (Inr (Some [(lit ''status'', JStr (lit ''ok''))]), sx)),
      stack_send_input = (\<lambda>k v sx. (Inr (), sx)), reply_fuel = 1\<rparr>"

definition demo_start :: "demo_world server" where
  "demo_start = initial_server 5 20 demo_stack (0, {})"

definition demo_queue :: "string \<Rightarrow> demo_world server \<Rightarrow> demo_world server" where
  "demo_queue i s = snd (queue_execution demo_env (lit i) nb_a [lit ''c''] (lit ''me'') HUMAN (Some (lit ''py'')) s)"

definition demo_task :: "string \<Rightarrow> demo_world server \<Rightarrow> demo_world server" where
  "demo_task i s = (case tasks s (lit i) of None \<Rightarrow> s | Some t \<Rightarrow> task_step demo_env (lit i) t s)"

text \<open>The states of the run, written out: the task's point, the job, the room's clock and the lock.\<close>

definition demo_job :: "job_status \<Rightarrow> time option \<Rightarrow> job" where
  "demo_job st started = \<lparr>job_id = lit ''j1'', job_notebook_id = nb_a, job_actor_id = lit ''me'',
     job_actor_type = HUMAN, job_action = EXECUTE, job_status = st, job_created_at = 4,
     job_runtime_id = Some [0], job_target_cells = Some (dumps default_dump (JList [JStr (lit ''c'')])),
     job_request_uids = [], job_started_at = started, job_completed_at = None\<rparr>"

definition demo_state :: "task_pc \<Rightarrow> job \<Rightarrow> time \<Rightarrow> nat \<Rightarrow> pystr list \<Rightarrow> demo_world server" where
  "demo_state pc j activity n queue =
     \<lparr>manager = \<lparr>idle_ttl = 5,
        heap = (\<lambda>r. new_room r [] 0 0)([0] :=
          \<lparr>room_id = [0], room_notebook_id = nb_a, session_id = Some (lit ''s'' @ nb_a),
           kernel_id = Some (lit ''k''), kernel_name = Some (lit ''py''), room_state = LIVE_DETACHED,
           room_created_at = 1, last_activity = activity, attached_clients = {}, active_jobs = {lit ''j1''}\<rparr>),
        rooms = [[0]], notebook_to_room = [nb_a \<mapsto> [0]],
        world = \<lparr>ext = (n, {nb_a}),
          ledger_of = \<lparr>max_completed = 20, jobs_by_id = [(lit ''j1'', j)],
            job_ids_by_notebook = [nb_a \<mapsto> [lit ''j1'']], cell_attrs = []\<rparr>\<rparr>\<rparr>,
      docs = \<lambda>_. None, docs_started = False, exec_stack = demo_stack, awaiting_sig = \<lambda>_. None,
      resumed_sig = \<lambda>_. None, job_locks = (\<lambda>_. [])([0] := queue),
      tasks = [lit ''j1'' \<mapsto> \<lparr>task_notebook = nb_a, task_actor = lit ''me'', task_actor_type = HUMAN,
         task_cells = [lit ''c''], task_pc = pc\<rparr>]\<rparr>"

definition demo_waiting :: "demo_world server" where
  "demo_waiting = demo_state (AwaitLock [0]) (demo_job QUEUED None) 6 7 [lit ''j1'']"

definition demo_busy :: "demo_world server" where
  "demo_busy = demo_state (AtCell [0] [lit ''c'']) (demo_job RUNNING (Some 7)) 8 9 [lit ''j1'']"

lemmas demo_server_simps = demo_env_def demo_start_def demo_queue_def demo_task_def demo_state_def demo_job_def
  initial_server_def queue_execution_def queue_create_def resolve_kernel_name_def ensure_def on_manager_def
  ledger_create_def ledger_status_def on_ext_def update_manager_def spawn_def manager_services_def lift_ext_def mbind_def
  mret_def server_ledger_def set_ledger_def task_step_def set_pc_def demo_simps
  get_job_def create_job_def prune_completed_jobs_def completed_ids_def ids_of_def completed_status_def
  update_job_status_def with_status_def new_ledger_def mark_job_started_def new_job_def

lemma demo_run:
  "demo_queue ''j1'' demo_start = demo_state EnterRoom (demo_job QUEUED None) 5 6 []"
  "demo_task ''j1'' (demo_state EnterRoom (demo_job QUEUED None) 5 6 []) = demo_waiting"
  "demo_task ''j1'' demo_waiting = demo_busy"
  "demo_task ''j1'' demo_busy = demo_state (ReadSource [0] (lit ''c'') []) (demo_job RUNNING (Some 7)) 8 9 [lit ''j1'']"
  by (simp_all add: demo_waiting_def demo_busy_def demo_server_simps ensure_kernel_client_ready_def or_fail_def
      fun_upd_idem)

lemma demo_props:
  "tasks demo_busy (lit ''j1'') = Some \<lparr>task_notebook = nb_a, task_actor = lit ''me'', task_actor_type = HUMAN,
     task_cells = [lit ''c''], task_pc = AtCell [0] [lit ''c'']\<rparr>"
  "job_locks demo_waiting [0] = [lit ''j1'']"
  "task_pc (the (tasks demo_waiting (lit ''j1''))) = AwaitLock [0]"
  by (simp_all add: demo_busy_def demo_waiting_def demo_state_def)

text \<open>The runs of the demo: no other call is in flight.\<close>

definition demo_at :: "demo_world server \<Rightarrow> bool" where
  "demo_at s \<longleftrightarrow> reachable_system demo_env (s, [])"

lemma demo_at_reachable: "demo_at s \<Longrightarrow> reachable demo_env s"
  by (auto simp: demo_at_def reachable_def)

lemma demo_start_at: "demo_at demo_start"
  unfolding demo_at_def demo_start_def by (rule reachable_initial)

lemma demo_queue_at: "demo_at s \<Longrightarrow> fresh_job (lit i) s \<Longrightarrow> demo_at (demo_queue i s)"
  unfolding demo_queue_def demo_at_def by (erule reachable_system_run) (rule run_queue)

lemma demo_task_at: "demo_at s \<Longrightarrow> demo_at (demo_task i s)"
  by (auto simp: demo_task_def demo_at_def split: option.split
      intro: reachable_system_run run_server [OF step_task])

lemmas demo_start_reachable = demo_at_reachable [OF demo_start_at]

lemma demo_fresh: "i \<noteq> ''j1'' \<Longrightarrow> fresh_job (lit i) (demo_state pc j a n q)" "fresh_job (lit i) demo_start"
  by (simp_all add: fresh_job_def demo_state_def demo_start_def initial_server_def server_ledger_def
      new_rtm_def new_ledger_def get_job_def)

lemma demo_waiting_at: "demo_at demo_waiting"
  unfolding demo_run(2) [symmetric] demo_run(1) [symmetric]
  by (intro demo_task_at demo_queue_at demo_start_at demo_fresh)

lemma demo_busy_at: "demo_at demo_busy"
  unfolding demo_run(3) [symmetric] by (intro demo_task_at demo_waiting_at)

lemmas demo_waiting_reachable = demo_at_reachable [OF demo_waiting_at]
lemmas demo_busy_reachable = demo_at_reachable [OF demo_busy_at]

text \<open>The cell is not in the (empty) notebook, so reading its source raises and the job fails.\<close>

definition demo_failed :: "demo_world server" where
  "demo_failed = demo_task ''j1'' (demo_task ''j1'' demo_busy)"

lemma demo_failed_at: "demo_at demo_failed"
  unfolding demo_failed_def by (intro demo_task_at demo_busy_at)

lemmas demo_failed_reachable = demo_at_reachable [OF demo_failed_at]

lemma demo_failed_job:
  "\<exists>j. get_job (lit ''j1'') (server_ledger demo_failed) = Some j \<and> job_status j = job_status.FAILED
     \<and> job_id j = lit ''j1''"
  "fresh_job (lit ''x1'') demo_failed"
  unfolding demo_failed_def demo_run(4)
  by (simp_all add: fresh_job_def demo_server_simps or_fail_def end_job_def leave_room_def room_of_def
      on_notebook_def get_cell_source_def demo_nb_simps get_ycell_def empty_doc_def
      mark_job_finished_def set_runtime_state_def)

section \<open>Properties\<close>

text \<open>
  C3: one running job per room.  In every reachable state two tasks that run in the same room are
  the same task: executions of a notebook's kernel never overlap, whatever the requests and their
  order; and the job of a running task, if still in the ledger, is running or awaits input.
\<close>

theorem one_running_job_per_room:
  assumes "reachable env s"
    and "tasks s i = Some t" and "running_in (task_pc t) = Some r"
    and "tasks s i' = Some t'" and "running_in (task_pc t') = Some r"
  shows "i' = i \<and> (\<forall>j. get_job i (server_ledger s) = Some j \<longrightarrow>
    job_status j \<in> {RUNNING, job_status.AWAITING_INPUT})"
proof -
  have ok: "server_ok s" using reachable_ok [OF assms(1)] .
  have l: "locks_ok (tasks s) (job_locks s)" using ok by (simp add: server_ok_def)
  have "hd (job_locks s r) = i" "hd (job_locks s r) = i'"
    using locks_okD(3) [OF l assms(2,3)] locks_okD(3) [OF l assms(4,5)] by simp_all
  moreover have "job_status j \<in> {RUNNING, job_status.AWAITING_INPUT}"
    if "get_job i (server_ledger s) = Some j" for j
  proof -
    have "job_ok (tasks s i) j" using ok that by (simp add: server_ok_def jobs_ok_def)
    then show ?thesis using assms(2) status_allowed_running [OF assms(3)] by (simp add: job_ok_def)
  qed
  ultimately show ?thesis by simp
qed

lemma one_running_job_per_room_witness:
  "\<exists>j. get_job (lit ''j1'') (server_ledger demo_busy) = Some j
     \<and> job_status j \<in> {RUNNING, job_status.AWAITING_INPUT}"
proof -
  have "get_job (lit ''j1'') (server_ledger demo_busy) = Some (demo_job RUNNING (Some 7))"
    by (simp add: demo_busy_def demo_state_def server_ledger_def get_job_def copy_job_def)
  then show ?thesis
    using one_running_job_per_room [OF demo_busy_reachable demo_props(1) _ demo_props(1), of "[0]"]
    by simp
qed

text \<open>
  C7: finished jobs are final.  When a job has completed in a reachable state of the server and its calls
  in flight, and none of these is a reply to that job which was checked before the job ended, then
  whatever happens from there on (tasks, requests arriving and stopping at their awaits, sweeps, the
  outside), the job stays exactly as it is, or leaves the ledger by pruning or eviction and never comes
  back; no such reply comes up later, because every \<open>send_stdin\<close> to the job is refused.
\<close>

theorem finished_jobs_are_final:
  assumes "reachable_system env (s, cs)" and "system_run env (s, cs) (s', cs')"
    and "get_job i (server_ledger s) = Some j" and "completed_status (job_status j)"
    and "\<not> list_ex (replies_to i) cs"
  shows "get_job i (server_ledger s') \<in> {Some j, None} \<and> \<not> list_ex (replies_to i) cs'
    \<and> (\<exists>message. stdin_check i s' = (Inl (ValueError message), s'))"
proof -
  have start: "over i j (s, cs)" using over_start [OF reachable_system_ok [OF assms(1)] assms(3-5)] .
  from assms(2) have "over i j (s', cs')"
    unfolding system_run_def by (induction rule: rtranclp_induct) (auto intro: start over_step)
  then show ?thesis using assms(4) by (auto simp: over_def stdin_check_def completed_status_def)
qed

lemma finished_jobs_are_final_witness:
  "\<exists>j. job_status j = job_status.FAILED
    \<and> get_job (lit ''j1'') (server_ledger (snd (on_manager (stop_runtime (manager_services demo_env) [0]) demo_failed)))
        \<in> {Some j, None}"
proof -
  obtain j where j: "get_job (lit ''j1'') (server_ledger demo_failed) = Some j" "job_status j = job_status.FAILED"
    using demo_failed_job(1) by blast
  have "completed_status (job_status j)" by (simp add: j(2) completed_status_def)
  from finished_jobs_are_final [OF demo_failed_at [unfolded demo_at_def] run_server [OF step_stop [where r = "[0]"]] j(1) this]
    j(2)
  show ?thesis by auto
qed


text \<open>
  C18: the lock hands over.  In every reachable state in which a room's lock queue is not empty, its
  head is a task that either runs in the room, or waits for it and enters with its next step, its
  job becoming \<open>RUNNING\<close> there and its first cell next: no task waits behind a task that is not
  there, and waiting tasks enter in the order in which they arrived.
\<close>

theorem lock_queue_head_can_move:
  assumes "reachable env s" and "job_locks s r = i # rest"
  shows "\<exists>t. tasks s i = Some t
    \<and> (running_in (task_pc t) = Some r
       \<or> (task_pc t = AwaitLock r
          \<and> tasks (task_step env i t s) i = Some (t\<lparr>task_pc := AtCell r (task_cells t)\<rparr>)
          \<and> job_locks (task_step env i t s) r = i # rest
          \<and> (\<forall>j. get_job i (server_ledger (task_step env i t s)) = Some j \<longrightarrow> job_status j = RUNNING)))"
proof -
  have ok: "server_ok s" using reachable_ok [OF assms(1)] .
  have l: "locks_ok (tasks s) (job_locks s)" using ok by (simp add: server_ok_def)
  have "queued_at (tasks s) r i" using locks_okD(2) [OF l, of i r] assms(2) by simp
  then obtain t where t: "tasks s i = Some t" "waiting_for (task_pc t) = Some r \<or> running_in (task_pc t) = Some r"
    by (auto simp: queued_at_def)
  have "task_pc t = AwaitLock r" if "running_in (task_pc t) \<noteq> Some r"
    using t(2) that by (cases "task_pc t") simp_all
  moreover have "tasks (task_step env i t s) i = Some (t\<lparr>task_pc := AtCell r (task_cells t)\<rparr>)
      \<and> job_locks (task_step env i t s) r = i # rest
      \<and> (\<forall>j. get_job i (server_ledger (task_step env i t s)) = Some j \<longrightarrow> job_status j = RUNNING)"
    if pc: "task_pc t = AwaitLock r"
  proof -
    obtain now s1 where c: "core s1 = core s" and e: "ledger_status env i RUNNING (Some r) s
        = (Inr (), set_ledger (update_job_status i RUNNING (Some r) now (server_ledger s)) s1)"
      using ledger_status_effect by blast
    define s2 where "s2 = snd (update_manager (touch_activity (manager_services env) r)
        (set_ledger (update_job_status i RUNNING (Some r) now (server_ledger s)) s1))"
    have s2: "tasks s2 = tasks s" "job_locks s2 = job_locks s"
      "server_ledger s2 = update_job_status i RUNNING (Some r) now (server_ledger s)"
      using core_eqD [OF manager_ops_core(8) [of env r
            "set_ledger (update_job_status i RUNNING (Some r) now (server_ledger s)) s1"]] core_eqD [OF c]
      by (simp_all add: s2_def)
    have step: "task_step env i t s = set_pc i t (AtCell r (task_cells t)) s2"
      using assms(2) by (simp add: task_step_def pc e s2_def)
    have "ledger_ok (server_ledger s)" using ok by (simp add: server_ok_def jobs_ok_def)
    then show ?thesis
      using memory_ledger.status_after_status assms(2) by (auto simp: step s2)
  qed
  ultimately show ?thesis using t by blast
qed

lemma lock_queue_head_can_move_witness:
  "\<exists>t. tasks demo_waiting (lit ''j1'') = Some t
    \<and> tasks (task_step demo_env (lit ''j1'') t demo_waiting) (lit ''j1'')
      = Some (t\<lparr>task_pc := AtCell [0] (task_cells t)\<rparr>)"
  using lock_queue_head_can_move [OF demo_waiting_reachable demo_props(2)] demo_props(3)
  by auto

text \<open>
  Interrupts and stdin replies stay queued.  The jobs that record an interrupt or a stdin reply
  are created \<open>QUEUED\<close> and nothing ever updates them: in every reachable state each of them still in
  the ledger is queued, so it is listed as active and, not being completed, is never pruned.
\<close>

theorem control_jobs_stay_queued:
  assumes "reachable env s" and "get_job i (server_ledger s) = Some j" and "job_action j \<noteq> EXECUTE"
  shows "job_status j = QUEUED \<and> active_status (job_status j)"
proof -
  have "job_ok (tasks s i) j"
    using reachable_ok [OF assms(1)] assms(2) by (simp add: server_ok_def jobs_ok_def)
  with assms(3) show ?thesis by (auto simp: job_ok_def active_status_def split: option.splits)
qed

definition demo_interrupted :: "demo_world server" where
  "demo_interrupted = snd (interrupt_notebook demo_env (lit ''i1'') nb_a (lit ''me'') AGENT demo_start)"

lemma demo_interrupted_job:
  "\<exists>j. get_job (lit ''i1'') (server_ledger demo_interrupted) = Some j \<and> job_action j = INTERRUPT"
  by (simp add: demo_interrupted_def interrupt_notebook_def interrupt_kernel_of_def interrupt_record_def interrupt_via_subshell_def interrupt_runtime_def
      room_of_def demo_server_simps)

lemma control_jobs_stay_queued_witness:
  "\<exists>j. get_job (lit ''i1'') (server_ledger demo_interrupted) = Some j \<and> job_action j = INTERRUPT
    \<and> job_status j = QUEUED"
proof -
  have r: "reachable demo_env demo_interrupted"
    unfolding demo_interrupted_def using demo_start_at [unfolded demo_at_def]
    by (rule reachable_run) (rule run_interrupt [OF demo_fresh(2)])
  obtain j where j: "get_job (lit ''i1'') (server_ledger demo_interrupted) = Some j" "job_action j = INTERRUPT"
    using demo_interrupted_job by blast
  from control_jobs_stay_queued [OF r j(1)] j show ?thesis by simp
qed

text \<open>
  C26: a late stdin reply revives a finished job.  \<open>send_stdin\<close> checks the status before it delivers
  the input and sets \<open>RUNNING\<close> after; if the job finished in between, its completed record becomes
  running again, with its completion time still set, and no task is left to finish it.
\<close>

theorem late_stdin_revives_finished_job:
  assumes "server_ok s" and "fresh_job new s"
    and "get_job (job_id j) (server_ledger s) = Some finished_job" and "completed_status (job_status finished_job)"
  shows "\<exists>revived.
      get_job (job_id j) (server_ledger (snd (stdin_finish env new j actor atype r s))) = Some revived
    \<and> job_status revived = RUNNING \<and> job_completed_at revived = job_completed_at finished_job
    \<and> (\<exists>t. tasks (snd (stdin_finish env new j actor atype r s)) (job_id j) = Some t \<and> task_pc t = Finished)"
proof -
  let ?i = "job_id j"
  have ok: "ledger_ok (server_ledger s)" using assms(1) by (simp add: server_ok_def jobs_ok_def)
  have "job_ok (tasks s ?i) finished_job" using assms(1,3) by (simp add: server_ok_def jobs_ok_def)
  then obtain t where t: "tasks s ?i = Some t" "task_pc t = Finished"
    using assms(4) by (cases "tasks s ?i"; cases "task_pc (the (tasks s ?i))")
      (auto simp: job_ok_def status_allowed_def completed_status_def)
  define s3 where "s3 = (case awaiting_sig s ?i of None \<Rightarrow> s
    | Some sig \<Rightarrow> s\<lparr>resumed_sig := (resumed_sig s)(?i := Some sig)\<rparr>)"
  have c3: "core s3 = core s" by (simp add: s3_def split: option.split)
  have new: "get_job new (server_ledger s) = None" using assms(2) by (simp add: fresh_job_def)
  then have "?i \<noteq> new" using assms(3) by auto
  obtain now s4 where c4: "core s4 = core s3" and l: "ledger_create env new (job_notebook_id j) actor atype STDIN_REPLY None (Some r) s3
      = (Inr (new_job new now (job_notebook_id j) actor atype STDIN_REPLY None (Some r)),
         set_ledger (snd (create_job new now (job_notebook_id j) actor atype STDIN_REPLY None (Some r) (server_ledger s3))) s4)"
    using ledger_create_effect by blast
  let ?l = "snd (create_job new now (job_notebook_id j) actor atype STDIN_REPLY None (Some r) (server_ledger s))"
  define s5 where "s5 = set_ledger ?l s4"
  have s5: "server_ledger s5 = ?l" "tasks s5 = tasks s"
    using core_eqD [OF c3] core_eqD [OF c4] by (simp_all add: s5_def)
  have kept: "get_job ?i ?l = Some finished_job"
    using create_job_keeps [OF ok _ \<open>?i \<noteq> new\<close>] new assms(3) by (simp add: get_job_simp)
  have "ledger_ok ?l" using memory_ledger.create_ok [OF ok new] .
  obtain now' s6 where c6: "core s6 = core s5" and st: "ledger_status env ?i RUNNING (Some r) s5
      = (Inr (), set_ledger (update_job_status ?i RUNNING (Some r) now' ?l) s6)"
    using ledger_status_effect [of s5 env ?i RUNNING "Some r"] s5 by auto
  let ?s7 = "set_ledger (update_job_status ?i RUNNING (Some r) now' ?l) s6"
  have rec: "stdin_record env new j actor atype r s = (Inr r, s5)"
    using l core_eqD [OF c3] unfolding stdin_record_def Let_def s3_def [symmetric]
    by (simp add: mbind_def mret_def s5_def)
  have "core (snd (stdin_finish env new j actor atype r s)) = core ?s7"
    using stdin_resume_core [of env j r s5] by (simp add: stdin_finish_def mbind_def rec st)
  from core_eqD [OF this] have led: "server_ledger (snd (stdin_finish env new j actor atype r s)) =
      update_job_status ?i RUNNING (Some r) now' ?l"
    and ts: "tasks (snd (stdin_finish env new j actor atype r s)) = tasks s"
    using core_eqD [OF c6] s5 by simp_all
  have "get_job ?i (update_job_status ?i RUNNING (Some r) now' ?l) = Some (with_status RUNNING (Some r) now' finished_job)"
    using memory_ledger.status_lookup [OF \<open>ledger_ok ?l\<close> kept] by (simp add: active_status_def)
  then show ?thesis
    using t by (simp add: led ts) (simp add: with_status_def Let_def)
qed

lemma late_stdin_revives_finished_job_witness:
  "\<exists>j revived. job_status j = job_status.FAILED
    \<and> get_job (lit ''j1'') (server_ledger (snd (stdin_finish demo_env (lit ''x1'') j (lit ''me'') HUMAN [0] demo_failed)))
        = Some revived
    \<and> job_status revived = RUNNING"
proof -
  obtain j where j: "get_job (lit ''j1'') (server_ledger demo_failed) = Some j" "job_status j = job_status.FAILED"
    "job_id j = lit ''j1''"
    using demo_failed_job(1) by blast
  have ok: "server_ok demo_failed" using reachable_ok [OF demo_failed_reachable] .
  have "completed_status (job_status j)" by (simp add: j(2) completed_status_def)
  moreover note demo_failed_job(2)
  ultimately show ?thesis
    using late_stdin_revives_finished_job [OF ok, of "lit ''x1''" j j demo_env "lit ''me''" HUMAN "[0]"] j
    by auto
qed


text \<open>
  C27: a job whose task cannot enter its room is stranded.  The first \<open>ensure_room\<close> of a task stands
  before its \<open>try\<close>: when it raises (the kernel died and cannot be started again), the task ends, the
  job stays \<open>QUEUED\<close>, and no later step of the task changes anything: clients that wait for the job
  wait for ever.
\<close>

theorem failed_entry_strands_the_job:
  assumes "reachable env s" and "tasks s i = Some t" and "task_pc t = EnterRoom"
    and "get_job i (server_ledger s) = Some j" and "fst (ensure env (task_notebook t) None s) = Inl e"
  shows "let s' = task_step env i t s; t' = t\<lparr>task_pc := Finished\<rparr>
    in tasks s' i = Some t' \<and> get_job i (server_ledger s') = Some j \<and> job_status j = QUEUED
      \<and> task_step env i t' s' = s'"
proof -
  obtain s1 where e: "ensure env (task_notebook t) None s = (Inl e, s1)"
    using assms(5) by (cases "ensure env (task_notebook t) None s") simp
  have c: "core s1 = core s" using manager_ops_core(1) [of env "task_notebook t" None s] e by simp
  have "job_ok (tasks s i) j"
    using reachable_ok [OF assms(1)] assms(4) by (simp add: server_ok_def jobs_ok_def)
  then have "job_status j = QUEUED" using assms(2,3) by (simp add: job_ok_def status_allowed_def)
  with e assms core_eqD [OF c] show ?thesis by (simp add: task_step_def Let_def)
qed

text \<open>An environment in which no session can be had.\<close>

definition broken_env :: "demo_world server_env" where
  "broken_env = demo_env\<lparr>jupyter := demo_services
     \<lparr>create_session := (\<lambda>p n k w. (Inl (OtherError (lit ''E'') []), w)),
      get_session := (\<lambda>p (n, live). if n < 3 then (Inr \<lparr>sess_id = lit ''s'', sess_kernel_id = lit ''k'',
         sess_kernel_name = None\<rparr>, (n, live)) else (Inl (HTTPError 404 []), (n, live)))\<rparr>\<rparr>"

definition broken_queued :: "demo_world server" where
  "broken_queued = snd (queue_execution broken_env (lit ''j1'') nb_a [lit ''c''] (lit ''me'') HUMAN (Some (lit ''py'')) demo_start)"

lemma broken_queued_reachable: "reachable broken_env broken_queued"
proof -
  have "reachable_system broken_env (demo_start, [])" unfolding demo_start_def by (rule reachable_initial)
  then show ?thesis
    unfolding broken_queued_def by (rule reachable_run) (rule run_queue [OF demo_fresh(2)])
qed

lemma broken_queued_props:
  "\<exists>t. tasks broken_queued (lit ''j1'') = Some t \<and> task_pc t = EnterRoom
     \<and> (\<exists>e. fst (ensure broken_env (task_notebook t) None broken_queued) = Inl e)"
  "\<exists>j. get_job (lit ''j1'') (server_ledger broken_queued) = Some j"
  by (simp_all add: broken_queued_def broken_env_def demo_server_simps adopt_session_def)

lemma failed_entry_strands_the_job_witness:
  "\<exists>t j. job_status j = QUEUED
    \<and> get_job (lit ''j1'') (server_ledger (task_step broken_env (lit ''j1'') t broken_queued)) = Some j"
proof -
  obtain t e j where "tasks broken_queued (lit ''j1'') = Some t" "task_pc t = EnterRoom"
    "get_job (lit ''j1'') (server_ledger broken_queued) = Some j"
    "fst (ensure broken_env (task_notebook t) None broken_queued) = Inl e"
    using broken_queued_props by blast
  from failed_entry_strands_the_job [OF broken_queued_reachable this] show ?thesis
    by (auto simp: Let_def)
qed

end
