(* ===== verification/Hn_Handlers.thy ===== *)
theory Hn_Handlers
  imports Hn_Server
begin

text \<open>
  The REST handlers of \<^verbatim>\<open>server/handlers.py\<close>: each is one request on the server, from the decoded
  arguments to the response.  Arguments come in the types the SDK sends (a handler's body is a
  decoded JSON object); what a handler raises is an \<open>HTTPError\<close> with its status, or an exception it
  does not catch, which tornado answers with 500.  URL unquoting, the rendering of floats and the
  text of an \<open>HTTPError\<close> are parameters.
\<close>

section \<open>Requests and responses\<close>

datatype response = JsonResponse nat json | EmptyResponse nat

record 'x http_env =
  http_server :: "'x server_env"
  unquote :: "pystr \<Rightarrow> pystr"
  float_repr :: "time \<Rightarrow> pystr"
  http_error_str :: "nat \<Rightarrow> pystr \<Rightarrow> pystr"
  restart_kernel :: "pystr \<Rightarrow> 'x \<Rightarrow> (unit, 'x) outcome"
  kernel_model :: "pystr \<Rightarrow> 'x \<Rightarrow> (json, 'x) outcome"

definition http_status :: "pyexc + response \<Rightarrow> nat" where
  "http_status r =
     (case r of
        Inr (JsonResponse n _) \<Rightarrow> n
      | Inr (EmptyResponse n) \<Rightarrow> n
      | Inl (HTTPError n _) \<Rightarrow> n
      | Inl _ \<Rightarrow> 500)"

text \<open>\<open>str(exc)\<close>, and \<open>str(exc) or exc.__class__.__name__\<close>.\<close>

definition mismatch_message :: "(nat \<Rightarrow> bool) \<Rightarrow> pystr \<Rightarrow> pystr option \<Rightarrow> pystr \<Rightarrow> pystr" where
  "mismatch_message pr nb active requested =
     (let shown = (case active of None \<Rightarrow> lit ''<unknown>'' | Some a \<Rightarrow> if a = [] then lit ''<unknown>'' else a)
      in lit ''Notebook '' @ nb @ lit '' wants kernel '' @ repr_str pr requested @
         lit '', but the live runtime is using '' @ repr_str pr shown @
         lit ''. Stop or restart the runtime to pick up the notebook'' @ [39] @ lit ''s kernelspec.'')"

fun exc_str :: "'x http_env \<Rightarrow> pyexc \<Rightarrow> pystr" where
  "exc_str henv (ValueError m) = m"
| "exc_str henv (RuntimeError m) = m"
| "exc_str henv (KernelMismatch nb active requested) =
     mismatch_message (printable_char (notebook_services (http_server henv))) nb active requested"
| "exc_str henv (HTTPError code reason) = http_error_str henv code reason"
| "exc_str henv (OtherError name m) = m"

fun exc_class :: "pyexc \<Rightarrow> pystr" where
  "exc_class (ValueError m) = lit ''ValueError''"
| "exc_class (RuntimeError m) = lit ''RuntimeError''"
| "exc_class (KernelMismatch _ _ _) = lit ''RuntimeKernelMismatchError''"
| "exc_class (HTTPError _ _) = lit ''HTTPError''"
| "exc_class (OtherError name m) = name"

definition exc_reason :: "'x http_env \<Rightarrow> pyexc \<Rightarrow> pystr" where
  "exc_reason henv e = (if exc_str henv e = [] then exc_class e else exc_str henv e)"

fun value_error_to :: "nat \<Rightarrow> pyexc \<Rightarrow> pyexc" where
  "value_error_to code (ValueError m) = HTTPError code m"
| "value_error_to code e = e"

definition any_error_to :: "'x http_env \<Rightarrow> nat \<Rightarrow> pyexc \<Rightarrow> pyexc" where
  "any_error_to henv code e = HTTPError code (exc_str henv e)"

text \<open>The two \<open>except\<close> clauses of executing and opening.\<close>

definition runtime_error_to :: "'x http_env \<Rightarrow> pyexc \<Rightarrow> pyexc" where
  "runtime_error_to henv e =
     (case e of
        KernelMismatch _ _ _ \<Rightarrow> HTTPError 409 (exc_str henv e)
      | _ \<Rightarrow> HTTPError 400 (exc_reason henv e))"

text \<open>\<open>get_actor\<close>, from the two headers.\<close>

definition get_actor :: "pystr option \<Rightarrow> pystr option \<Rightarrow> pystr \<times> actor_type" where
  "get_actor actor_id actor_type_header =
     ((case actor_id of None \<Rightarrow> lit ''anonymous'' | Some i \<Rightarrow> i),
      (case actor_type_header of
         None \<Rightarrow> HUMAN
       | Some t \<Rightarrow> if t = lit ''agent'' then AGENT else HUMAN))"

section \<open>Payloads\<close>

definition opt_float :: "'x http_env \<Rightarrow> time option \<Rightarrow> json" where
  "opt_float henv t = (case t of None \<Rightarrow> JNull | Some x \<Rightarrow> JFloat (float_repr henv x))"

definition job_payload :: "'x http_env \<Rightarrow> job \<Rightarrow> json" where
  "job_payload henv j = JDict
     [(lit ''job_id'', JStr (job_id j)),
      (lit ''notebook_id'', JStr (job_notebook_id j)),
      (lit ''actor_id'', JStr (job_actor_id j)),
      (lit ''actor_type'', JStr (actor_type_value (job_actor_type j))),
      (lit ''action'', JStr (job_action_value (job_action j))),
      (lit ''status'', JStr (job_status_value (job_status j))),
      (lit ''target_cells'', opt_str (job_target_cells j)),
      (lit ''request_uids'', JList (map JStr (job_request_uids j))),
      (lit ''created_at'', JFloat (float_repr henv (job_created_at j))),
      (lit ''started_at'', opt_float henv (job_started_at j)),
      (lit ''completed_at'', opt_float henv (job_completed_at j)),
      (lit ''runtime_id'', opt_str (job_runtime_id j))]"

definition status_payload :: "'x http_env \<Rightarrow> runtime_status \<Rightarrow> jobj" where
  "status_payload henv st =
     [(lit ''state'', JStr (st_state st)),
      (lit ''room_id'', opt_str (st_room_id st)),
      (lit ''session_id'', opt_str (st_session_id st)),
      (lit ''kernel_id'', opt_str (st_kernel_id st)),
      (lit ''kernel_name'', opt_str (st_kernel_name st)),
      (lit ''attached_clients'', JList (map JStr (st_attached_clients st))),
      (lit ''active_jobs'', JList (map JStr (st_active_jobs st))),
      (lit ''last_activity'', opt_float henv (st_last_activity st)),
      (lit ''recoverable'', JBool (st_recoverable st))]"

section \<open>Executions, jobs and input\<close>

definition execute_post ::
  "'x http_env \<Rightarrow> pystr \<Rightarrow> pystr \<Rightarrow> pystr list \<Rightarrow> pystr option \<Rightarrow> pystr \<times> actor_type \<Rightarrow> 'x server
   \<Rightarrow> (response, 'x server) outcome" where
  "execute_post henv new path cell_ids kernel_name_arg actor =
     (let nb = unquote henv path
      in if cell_ids = [] then mraise (HTTPError 400 (lit ''cell_ids required''))
         else
           mbind (catching (runtime_error_to henv)
                    (queue_execution (http_server henv) new nb cell_ids (fst actor) (snd actor) kernel_name_arg))
             (\<lambda>j. mret (JsonResponse 202
                (JDict [(lit ''job_id'', JStr (job_id j)),
                        (lit ''status'', JStr (job_status_value (job_status j))),
                        (lit ''notebook_id'', JStr nb),
                        (lit ''request_uids'', JList (map JStr (job_request_uids j)))]))))"

fun parse_job_status :: "pystr \<Rightarrow> job_status option" where
  "parse_job_status s =
     (if s = lit ''queued'' then Some QUEUED
      else if s = lit ''running'' then Some RUNNING
      else if s = lit ''awaiting_input'' then Some job_status.AWAITING_INPUT
      else if s = lit ''succeeded'' then Some SUCCEEDED
      else if s = lit ''failed'' then Some job_status.FAILED
      else if s = lit ''interrupted'' then Some INTERRUPTED
      else None)"

text \<open>An unknown status name raises \<open>ValueError\<close>, which this handler does not catch.\<close>

definition jobs_get :: "'x http_env \<Rightarrow> pystr option \<Rightarrow> pystr option \<Rightarrow> 'x server \<Rightarrow> (response, 'x server) outcome" where
  "jobs_get henv nb_arg status_arg s =
     (let nb = map_option (unquote henv) nb_arg;
          answer = (\<lambda>st. (Inr (JsonResponse 200 (JDict [(lit ''jobs'',
             JList (map (job_payload henv) (list_jobs nb st 100 (server_ledger s))))])), s))
      in case status_arg of
           None \<Rightarrow> answer None
         | Some name \<Rightarrow>
             if name = [] then answer None
             else (case parse_job_status name of
                     None \<Rightarrow> (Inl (ValueError (repr_str (printable_char (notebook_services (http_server henv))) name
                               @ lit '' is not a valid JobStatus'')), s)
                   | Some st \<Rightarrow> answer (Some st)))"

definition job_get :: "'x http_env \<Rightarrow> pystr \<Rightarrow> 'x server \<Rightarrow> (response, 'x server) outcome" where
  "job_get henv i s =
     (case get_job i (server_ledger s) of
        None \<Rightarrow> (Inl (HTTPError 404 (lit ''Job '' @ i @ lit '' not found'')), s)
      | Some j \<Rightarrow> (Inr (JsonResponse 200 (job_payload henv j)), s))"

definition stdin_post ::
  "'x http_env \<Rightarrow> pystr \<Rightarrow> pystr \<Rightarrow> json \<Rightarrow> pystr \<times> actor_type \<Rightarrow> 'x server \<Rightarrow> (response, 'x server) outcome" where
  "stdin_post henv new i v actor =
     mbind (catching (value_error_to 400) (send_stdin (http_server henv) new i v (fst actor) (snd actor)))
       (\<lambda>_. mret (JsonResponse 200 (JDict [(lit ''sent'', JBool True)])))"

definition interrupt_post ::
  "'x http_env \<Rightarrow> pystr \<Rightarrow> pystr \<Rightarrow> pystr \<times> actor_type \<Rightarrow> 'x server \<Rightarrow> (response, 'x server) outcome" where
  "interrupt_post henv new path actor =
     mbind (catching (value_error_to 400)
              (interrupt_notebook (http_server henv) new (unquote henv path) (fst actor) (snd actor)))
       (\<lambda>_. mret (JsonResponse 200 (JDict [(lit ''interrupted'', JBool True)])))"

section \<open>Documents and cells\<close>

definition document_get :: "'x http_env \<Rightarrow> pystr \<Rightarrow> pystr \<Rightarrow> 'x server \<Rightarrow> (response, 'x server) outcome" where
  "document_get henv path content_arg =
     mbind (catching (any_error_to henv 404)
              (on_notebook (get_notebook_model (notebook_services (http_server henv)) (unquote henv path)
                 (content_arg \<noteq> lit ''0''))))
       (\<lambda>m. mret (JsonResponse 200 m))"

definition document_put :: "'x http_env \<Rightarrow> pystr \<Rightarrow> json \<Rightarrow> 'x server \<Rightarrow> (response, 'x server) outcome" where
  "document_put henv path body =
     mbind (catching (any_error_to henv 400)
              (on_notebook (create_notebook (notebook_services (http_server henv)) (unquote henv path) body)))
       (\<lambda>m. mret (JsonResponse 200 m))"

definition cells_get :: "'x http_env \<Rightarrow> pystr \<Rightarrow> 'x server \<Rightarrow> (response, 'x server) outcome" where
  "cells_get henv path =
     mbind (on_notebook (list_cells (notebook_services (http_server henv)) (unquote henv path)))
       (\<lambda>cells. mret (JsonResponse 200 (JDict [(lit ''cells'', JList cells)])))"

definition attribute_edit ::
  "'x http_env \<Rightarrow> pystr \<Rightarrow> pystr \<Rightarrow> pystr \<times> actor_type \<Rightarrow> 'x server \<Rightarrow> (unit, 'x server) outcome" where
  "attribute_edit henv nb cid actor =
     ledger_attribute (http_server henv) nb cid (Some (fst actor)) (Some (snd actor)) None None"

text \<open>The cell a POST builds from its body; the identifier is \<open>None\<close> when the body has none.\<close>

definition posted_cell :: "jobj \<Rightarrow> jobj" where
  "posted_cell body =
     [(lit ''id'', opt_json (field ''id'' body)),
      (lit ''cell_type'', get_or ''cell_type'' (JStr (lit ''code'')) body),
      (lit ''execution_count'', JNull),
      (lit ''metadata'', get_or ''metadata'' (JDict []) body),
      (lit ''outputs'', JList []),
      (lit ''source'', get_or ''source'' (JStr []) body)]"

text \<open>
  The attribution is stored under the created cell's identifier, a string in every notebook the
  SDK writes; \<open>id_str\<close> reads it.
\<close>

definition id_str :: "json \<Rightarrow> pystr" where
  "id_str j = (case j of JStr s \<Rightarrow> s | _ \<Rightarrow> [])"

definition cells_post ::
  "'x http_env \<Rightarrow> pystr \<Rightarrow> jobj \<Rightarrow> pystr option \<Rightarrow> pystr option \<Rightarrow> pystr \<times> actor_type \<Rightarrow> 'x server
   \<Rightarrow> (response, 'x server) outcome" where
  "cells_post henv path body before after actor =
     (let nb = unquote henv path
      in mbind (catching (value_error_to 400)
                 (on_notebook (insert_cell (notebook_services (http_server henv)) nb (posted_cell body) before after)))
           (\<lambda>created.
         mbind (of_result (item_of ''id'' created)) (\<lambda>cid.
         mbind (attribute_edit henv nb (id_str cid) actor) (\<lambda>_.
         mret (JsonResponse 201 (JDict [(lit ''cell'', JDict created)]))))))"

definition cell_get :: "'x http_env \<Rightarrow> pystr \<Rightarrow> pystr \<Rightarrow> 'x server \<Rightarrow> (response, 'x server) outcome" where
  "cell_get henv path cid =
     mbind (catching (value_error_to 404)
              (on_notebook (get_cell (notebook_services (http_server henv)) (unquote henv path) (JStr cid))))
       (\<lambda>c. mret (JsonResponse 200 (JDict [(lit ''cell'', JDict c)])))"

text \<open>The common end of the handlers that change one cell: attribution, then the cell.\<close>

definition edited ::
  "'x http_env \<Rightarrow> pystr \<Rightarrow> pystr \<Rightarrow> pystr \<times> actor_type \<Rightarrow> nat
   \<Rightarrow> ('x server \<Rightarrow> (jobj, 'x server) outcome) \<Rightarrow> 'x server \<Rightarrow> (response, 'x server) outcome" where
  "edited henv nb cid actor code m =
     mbind (catching (value_error_to code) m) (\<lambda>c.
     mbind (attribute_edit henv nb cid actor) (\<lambda>_.
     mret (JsonResponse 200 (JDict [(lit ''cell'', JDict c)]))))"

definition cell_patch ::
  "'x http_env \<Rightarrow> pystr \<Rightarrow> pystr \<Rightarrow> jobj \<Rightarrow> pystr \<times> actor_type \<Rightarrow> 'x server \<Rightarrow> (response, 'x server) outcome" where
  "cell_patch henv path cid body actor =
     (case field ''source'' body of
        None \<Rightarrow> mraise (HTTPError 400 (lit ''source required''))
      | Some source \<Rightarrow>
          edited henv (unquote henv path) cid actor 400
            (on_notebook (replace_cell_source (notebook_services (http_server henv)) (unquote henv path) cid source)))"

definition cell_delete :: "'x http_env \<Rightarrow> pystr \<Rightarrow> pystr \<Rightarrow> 'x server \<Rightarrow> (response, 'x server) outcome" where
  "cell_delete henv path cid =
     mbind (catching (value_error_to 404)
              (on_notebook (delete_cell (notebook_services (http_server henv)) (unquote henv path) cid)))
       (\<lambda>_. mret (JsonResponse 200 (JDict [(lit ''deleted'', JBool True)])))"

definition cell_move_post ::
  "'x http_env \<Rightarrow> pystr \<Rightarrow> pystr \<Rightarrow> pystr option \<Rightarrow> pystr option \<Rightarrow> pystr \<times> actor_type \<Rightarrow> 'x server
   \<Rightarrow> (response, 'x server) outcome" where
  "cell_move_post henv path cid before after actor =
     edited henv (unquote henv path) cid actor 400
       (on_notebook (move_cell (notebook_services (http_server henv)) (unquote henv path) cid before after))"

definition clear_outputs_post ::
  "'x http_env \<Rightarrow> pystr \<Rightarrow> pystr \<Rightarrow> pystr \<times> actor_type \<Rightarrow> 'x server \<Rightarrow> (response, 'x server) outcome" where
  "clear_outputs_post henv path cid actor =
     edited henv (unquote henv path) cid actor 404
       (on_notebook (clear_outputs (notebook_services (http_server henv)) (unquote henv path) cid))"

definition attribution_get :: "'x http_env \<Rightarrow> pystr \<Rightarrow> pystr \<Rightarrow> 'x server \<Rightarrow> (response, 'x server) outcome" where
  "attribution_get henv path cid s =
     (case get_cell_attribution (unquote henv path) cid (server_ledger s) of
        None \<Rightarrow> (Inr (JsonResponse 200 (JDict [])), s)
      | Some a \<Rightarrow>
          (Inr (JsonResponse 200 (JDict
             [(lit ''last_editor_id'', opt_str (last_editor_id a)),
              (lit ''last_editor_type'', opt_str (last_editor_type a)),
              (lit ''last_executor_id'', opt_str (last_executor_id a)),
              (lit ''last_executor_type'', opt_str (last_executor_type a)),
              (lit ''updated_at'', JFloat (float_repr henv (attr_updated_at a)))])), s))"

section \<open>Runtimes\<close>

definition runtime_status_get :: "'x http_env \<Rightarrow> pystr \<Rightarrow> 'x server \<Rightarrow> (response, 'x server) outcome" where
  "runtime_status_get henv path =
     (let nb = unquote henv path
      in mbind (runtime_status_of (http_server henv) nb) (\<lambda>st s.
           (Inr (JsonResponse 200 (JDict (set_field ''jobs''
              (JList (map (\<lambda>j. JStr (job_id j)) (list_active_jobs nb (server_ledger s))))
              (status_payload henv st)))), s)))"

definition runtime_open_post ::
  "'x http_env \<Rightarrow> pystr \<Rightarrow> pystr option \<Rightarrow> pystr option \<Rightarrow> 'x server \<Rightarrow> (response, 'x server) outcome" where
  "runtime_open_post henv path client_arg kernel_name_arg =
     (let nb = unquote henv path;
          client = (case client_arg of None \<Rightarrow> lit ''api-client'' | Some c \<Rightarrow> c)
      in mbind (catching (runtime_error_to henv)
                 (mbind (resolve_kernel_name (http_server henv) nb kernel_name_arg) (\<lambda>k.
                  on_manager (open_runtime (manager_services (http_server henv)) nb client (Some k)))))
           (\<lambda>r s. let m = room_of s r
             in (Inr (JsonResponse 200 (JDict
                  [(lit ''room_id'', JStr (room_id m)),
                   (lit ''state'', JStr (runtime_state_value (room_state m))),
                   (lit ''session_id'', opt_str (session_id m)),
                   (lit ''kernel_id'', opt_str (kernel_id m)),
                   (lit ''kernel_name'', opt_str (kernel_name m)),
                   (lit ''attached_clients'', JList (map JStr (sorted_list_of_set (attached_clients m))))])), s)))"

definition runtime_stop_post :: "'x http_env \<Rightarrow> pystr \<Rightarrow> 'x server \<Rightarrow> (response, 'x server) outcome" where
  "runtime_stop_post henv path s =
     (case get_room_for_notebook (unquote henv path) (manager s) of
        None \<Rightarrow> (Inl (HTTPError 404 (lit ''No runtime for notebook'')), s)
      | Some r \<Rightarrow>
          mbind (on_manager (stop_runtime (manager_services (http_server henv)) (room_id (room_of s r)))) (\<lambda>r' s1.
            (Inr (JsonResponse 200 (JDict
               [(lit ''room_id'', JStr (room_id (room_of s1 r'))),
                (lit ''state'', JStr (runtime_state_value (room_state (room_of s1 r'))))])), s1)) s)"

text \<open>JupyterLab's own stop and restart buttons, which the extension's routes take over.\<close>

definition kernel_interrupt_intercept :: "'x http_env \<Rightarrow> pystr \<Rightarrow> 'x server \<Rightarrow> (response, 'x server) outcome" where
  "kernel_interrupt_intercept henv kid s =
     (case interrupt_via_subshell (http_server henv) (Some kid) s of
        (True, s1) \<Rightarrow> (Inr (EmptyResponse 204), s1)
      | (False, s1) \<Rightarrow>
          mbind (on_ext (interrupt_kernel (jupyter (http_server henv)) kid)) (\<lambda>_. mret (EmptyResponse 204)) s1)"

definition kernel_restart_intercept :: "'x http_env \<Rightarrow> pystr \<Rightarrow> 'x server \<Rightarrow> (response, 'x server) outcome" where
  "kernel_restart_intercept henv kid s =
     (case on_ext (restart_kernel henv kid) s of
        (Inl (HTTPError code reason), s1) \<Rightarrow> (Inl (HTTPError code reason), s1)
      | (Inl e, s1) \<Rightarrow>
          (Inr (JsonResponse 500 (JDict [(lit ''message'', JStr (lit ''Exception restarting kernel'')),
                                         (lit ''traceback'', JStr [])])), s1)
      | (Inr _, s1) \<Rightarrow>
          mbind (on_ext (kernel_model henv kid)) (\<lambda>m. mret (JsonResponse 200 m))
            (s1\<lparr>exec_stack := cleanup_after_restart kid (exec_stack s1)\<rparr>))"

end
