(* ===== verification/Hn_Api.thy ===== *)
theory Hn_Api
  imports Hn_Handlers
begin

text \<open>
  The route table of \<open>HypernoteExtension.initialize_handlers\<close> (\<^verbatim>\<open>server/extension.py\<close>): a request is
  a route with its decoded arguments, and \<open>serve\<close> gives it to its handler.  Every request is a run of
  the server, whole or cut at the awaits of the orchestrator, so the invariants of the server hold
  whatever clients send and however their requests interleave;
  an edit is attributed to its actor exactly when it succeeds.
\<close>

section \<open>The routes\<close>

datatype request =
    Execute pystr "pystr list" "pystr option"
  | DocumentGet pystr pystr
  | DocumentPut pystr json
  | CellsGet pystr
  | CellsPost pystr jobj "pystr option" "pystr option"
  | CellMove pystr pystr "pystr option" "pystr option"
  | CellClearOutputs pystr pystr
  | CellGet pystr pystr
  | CellPatch pystr pystr jobj
  | CellDelete pystr pystr
  | Interrupt pystr
  | JobsList "pystr option" "pystr option"
  | JobGet pystr
  | JobStdin pystr json
  | RuntimeStatus pystr
  | RuntimeOpen pystr "pystr option" "pystr option"
  | RuntimeStop pystr
  | Attribution pystr pystr
  | KernelInterrupt pystr
  | KernelRestart pystr

text \<open>\<open>new\<close> is the identifier the ledger would draw for a job of this request.\<close>

definition serve ::
  "'x http_env \<Rightarrow> pystr \<Rightarrow> pystr option \<times> pystr option \<Rightarrow> request \<Rightarrow> 'x server \<Rightarrow> (response, 'x server) outcome" where
  "serve henv new headers req =
     (let actor = get_actor (fst headers) (snd headers)
      in case req of
        Execute path cells k \<Rightarrow> execute_post henv new path cells k actor
      | DocumentGet path c \<Rightarrow> document_get henv path c
      | DocumentPut path body \<Rightarrow> document_put henv path body
      | CellsGet path \<Rightarrow> cells_get henv path
      | CellsPost path body b a \<Rightarrow> cells_post henv path body b a actor
      | CellMove path c b a \<Rightarrow> cell_move_post henv path c b a actor
      | CellClearOutputs path c \<Rightarrow> clear_outputs_post henv path c actor
      | CellGet path c \<Rightarrow> cell_get henv path c
      | CellPatch path c body \<Rightarrow> cell_patch henv path c body actor
      | CellDelete path c \<Rightarrow> cell_delete henv path c
      | Interrupt path \<Rightarrow> interrupt_post henv new path actor
      | JobsList nb st \<Rightarrow> jobs_get henv nb st
      | JobGet i \<Rightarrow> job_get henv i
      | JobStdin i v \<Rightarrow> stdin_post henv new i v actor
      | RuntimeStatus path \<Rightarrow> runtime_status_get henv path
      | RuntimeOpen path c k \<Rightarrow> runtime_open_post henv path c k
      | RuntimeStop path \<Rightarrow> runtime_stop_post henv path
      | Attribution path c \<Rightarrow> attribution_get henv path c
      | KernelInterrupt kid \<Rightarrow> kernel_interrupt_intercept henv kid
      | KernelRestart kid \<Rightarrow> kernel_restart_intercept henv kid)"

section \<open>Requests are runs of the server\<close>

text \<open>The call of the orchestrator a request comes to, when it is one that stops at awaits.\<close>

fun orchestrator_calls :: "'x http_env \<Rightarrow> pystr \<times> actor_type \<Rightarrow> request \<Rightarrow> call list" where
  "orchestrator_calls henv actor (Execute path cells k) =
     (if cells = [] then [] else [QueueAsked (unquote henv path) cells (fst actor) (snd actor) k])"
| "orchestrator_calls henv actor (JobStdin i v) = [StdinAsked i v (fst actor) (snd actor)]"
| "orchestrator_calls henv actor (Interrupt path) = [InterruptAsked (unquote henv path) (fst actor) (snd actor)]"
| "orchestrator_calls henv actor _ = []"

text \<open>What runs between two states whatever other calls are in flight.\<close>

definition steps :: "'x server_env \<Rightarrow> 'x server \<Rightarrow> 'x server \<Rightarrow> bool" where
  "steps env s s' \<longleftrightarrow> (\<forall>cs. system_run env (s, cs) (s', cs))"

named_theorems steps_intros

lemma steps_refl [steps_intros, simp]: "steps env s s"
  by (simp add: steps_def system_run_def)

lemma steps_one: "server_step env s s' \<Longrightarrow> steps env s s'"
  by (simp add: steps_def run_server)

lemma steps_trans: "steps env s s1 \<Longrightarrow> steps env s1 s2 \<Longrightarrow> steps env s s2"
  unfolding steps_def using system_run_trans by blast

lemma steps_mbind [steps_intros]:
  assumes "steps env s (snd (m s))" and "\<And>x s1. steps env s1 (snd (f x s1))"
  shows "steps env s (snd (mbind m f s))"
proof -
  obtain r s1 where "m s = (r, s1)" by fastforce
  with assms(1) assms(2) [of s1] show ?thesis
    by (auto simp: mbind_def intro: steps_trans split: sum.split)
qed

lemma steps_catching [steps_intros]: "steps env s (snd (m s)) \<Longrightarrow> steps env s (snd (catching h m s))"
  by (auto simp: catching_def split: sum.split prod.split)

lemma steps_pure [steps_intros]:
  "steps env s (snd (mret x s))" "steps env s (snd (mraise e s))" "steps env s (snd (of_result r s))"
  by (simp_all add: mret_def mraise_def of_result_def split: sum.split)

lemma steps_on_notebook [steps_intros]: "steps env s (snd (on_notebook f s))"
proof -
  have "snd (on_notebook f s) = snd (on_notebook (\<lambda>n. ((), snd (f n))) s)"
    by (simp add: on_notebook_def split: prod.split)
  then show ?thesis using steps_one [OF step_notebook] by metis
qed

lemma steps_on_stack [steps_intros]: "steps env s (snd (on_stack f s))"
proof -
  have "snd (on_stack f s) = snd (on_stack (\<lambda>n. ((), snd (f n))) s)"
    by (simp add: on_stack_def split: prod.split)
  then show ?thesis using steps_one [OF step_outside] by metis
qed

lemma steps_on_ext [steps_intros]: "steps env s (snd (on_ext f s))"
proof -
  have "snd (on_ext f s) = snd (on_stack (\<lambda>(st, x). ((), st, snd (f x))) s)"
    by (simp add: on_stack_def on_ext_def on_manager_def lift_ext_def split: prod.split)
  then show ?thesis using steps_on_stack by metis
qed

lemmas steps_transitions [steps_intros] =
  steps_one [OF step_open] steps_one [OF step_stop] steps_one [OF step_status] steps_one [OF step_restart]

lemma steps_attribute [steps_intros]: "steps env s (snd (ledger_attribute env nb c (Some e) (Some et) None None s))"
  by (rule steps_one [OF step_attribute])

lemma steps_interrupt_via_subshell: "steps env s (snd (interrupt_via_subshell env kid s))"
proof -
  have "steps env s s2" if "on_stack f s = (x, s1)" "on_ext g s1 = (y, s2)" for f g x y s1 s2
    using steps_on_stack [of env s f] steps_on_ext [of env s1 g] that by (auto intro: steps_trans)
  moreover have "steps env s s1" if "on_stack f s = (x, s1)" for f x s1
    using steps_on_stack [of env s f] that by simp
  ultimately show ?thesis
    by (auto simp: interrupt_via_subshell_def split: option.split sum.split prod.split)
qed

lemma steps_resolve_kernel_name [steps_intros]: "steps env s (snd (resolve_kernel_name env nb k s))"
  by (auto simp: resolve_kernel_name_def intro: steps_intros split: option.split)

lemma steps_edited [steps_intros]:
  "steps (http_server henv) s (snd (m s)) \<Longrightarrow> steps (http_server henv) s (snd (edited henv nb cid actor code m s))"
  unfolding edited_def attribute_edit_def by (intro steps_intros)

lemma steps_kernel_interrupt: "steps (http_server henv) s (snd (kernel_interrupt_intercept henv kid s))"
proof -
  obtain b s1 where i: "interrupt_via_subshell (http_server henv) (Some kid) s = (b, s1)" by fastforce
  have "steps (http_server henv) s1 (snd (mbind (on_ext (interrupt_kernel (jupyter (http_server henv)) kid))
      (\<lambda>_. mret (EmptyResponse 204)) s1))"
    by (intro steps_intros)
  then show ?thesis
    using steps_interrupt_via_subshell [of "http_server henv" s "Some kid"] i
    by (cases b) (auto simp: kernel_interrupt_intercept_def intro: steps_trans)
qed

lemma steps_kernel_restart: "steps (http_server henv) s (snd (kernel_restart_intercept henv kid s))"
proof -
  obtain x s1 where r: "on_ext (restart_kernel henv kid) s = (x, s1)" by fastforce
  define s2 where "s2 = s1\<lparr>exec_stack := cleanup_after_restart kid (exec_stack s1)\<rparr>"
  have a: "steps (http_server henv) s s1" using steps_on_ext [of "http_server henv" s "restart_kernel henv kid"] r by simp
  have "steps (http_server henv) s1 s2" unfolding s2_def by (intro steps_intros)
  moreover have "steps (http_server henv) s2
      (snd (mbind (on_ext (kernel_model henv kid)) (\<lambda>m. mret (JsonResponse 200 m)) s2))"
    by (intro steps_intros)
  ultimately show ?thesis using a r
    by (auto simp: kernel_restart_intercept_def s2_def intro: steps_trans split: sum.split pyexc.split)
qed

lemma steps_runtime_stop: "steps (http_server henv) s (snd (runtime_stop_post henv path s))"
  by (auto simp: runtime_stop_post_def intro!: steps_mbind steps_transitions split: option.split)

text \<open>The state after a call and its answer is the state after the call.\<close>

lemma answered_state: "snd (mbind (catching h m) (\<lambda>x. mret (f x)) s) = snd (m s)"
  by (simp add: mbind_def catching_def mret_def split: prod.split sum.split)

lemma serve_calls:
  assumes "fresh_job new s" and "orchestrator_calls henv (get_actor (fst headers) (snd headers)) req = [c]"
  shows "system_run (http_server henv) (s, cs @ [c]) (snd (serve henv new headers req s), cs)"
  using assms finish_queue [OF assms(1)] finish_interrupt [OF assms(1)] finish_stdin [OF assms(1)]
  by (cases req) (auto simp: serve_def execute_post_def stdin_post_def interrupt_post_def Let_def answered_state
      split: if_splits)

lemma steps_serve:
  assumes "orchestrator_calls henv (get_actor (fst headers) (snd headers)) req = []"
  shows "steps (http_server henv) s (snd (serve henv new headers req s))"
proof (cases req)
  case (Execute path cells k)
  with assms show ?thesis
    by (auto simp: serve_def execute_post_def Let_def intro!: steps_intros split: if_splits)
next
  case (CellPatch path c body)
  then show ?thesis
    by (auto simp: serve_def cell_patch_def Let_def intro!: steps_intros split: option.split)
next
  case (JobsList nb st)
  then show ?thesis by (auto simp: serve_def jobs_get_def Let_def split: option.split)
next
  case (RuntimeOpen path c k)
  then show ?thesis by (auto simp: serve_def runtime_open_post_def Let_def intro!: steps_intros)
next
  case (RuntimeStatus path)
  then show ?thesis
    by (auto simp: serve_def runtime_status_get_def Let_def intro!: steps_mbind steps_transitions)
qed (use assms in \<open>auto simp: serve_def document_get_def document_put_def cells_get_def cells_post_def Let_def
    cell_move_post_def clear_outputs_post_def cell_get_def cell_delete_def job_get_def attribution_get_def
    attribute_edit_def steps_runtime_stop steps_kernel_interrupt steps_kernel_restart
    intro!: steps_intros split: option.split\<close>)

lemma running_alone:
  assumes "reachable env s" and "tasks s i = Some t" and "running_in (task_pc t) = Some room"
    and "tasks s i' = Some t'" and "running_in (task_pc t') = Some room"
  shows "i' = i"
proof -
  have l: "locks_ok (tasks s) (job_locks s)" using reachable_ok [OF assms(1)] by (simp add: server_ok_def)
  show ?thesis using locks_okD(3) [OF l assms(2,3)] locks_okD(3) [OF l assms(4,5)] by simp
qed

lemma call_arrives: "orchestrator_calls henv actor req = [] \<or>
    (\<exists>c. orchestrator_calls henv actor req = [c] \<and> arrives c)"
  by (cases req) simp_all

section \<open>The ledger under an edit\<close>

text \<open>The route and the cell of the requests that change a cell in place and attribute the change.\<close>

fun edit_target :: "request \<Rightarrow> (pystr \<times> pystr) option" where
  "edit_target (CellPatch path c body) = Some (path, c)"
| "edit_target (CellMove path c b a) = Some (path, c)"
| "edit_target (CellClearOutputs path c) = Some (path, c)"
| "edit_target _ = None"

lemma get_job_attribution [simp]:
  "get_job i (update_cell_attribution nb c e et x xt now l) = get_job i l"
  by (simp add: get_job_def update_cell_attribution_def Let_def)

lemma attribute_edit_effect:
  assumes "attribute_edit henv nb c actor s = (r, s')"
  shows "r = Inr () \<and> (\<exists>now. server_ledger s' =
    update_cell_attribution nb c (Some (fst actor)) (Some (snd actor)) None None now (server_ledger s))"
  using assms ledger_attribute_effect [of s "http_server henv" nb c "Some (fst actor)" "Some (snd actor)" None None]
  by (auto simp: attribute_edit_def)

lemma attribution_after_edit:
  "get_cell_attribution nb' c' (update_cell_attribution nb c (Some e) (Some et) None None now l) =
     (if (nb', c') = (nb, c)
      then Some \<lparr>attr_notebook_id = (case get_cell_attribution nb c l of Some a \<Rightarrow> attr_notebook_id a | None \<Rightarrow> nb),
                 attr_cell_id = (case get_cell_attribution nb c l of Some a \<Rightarrow> attr_cell_id a | None \<Rightarrow> c),
                 attr_updated_at = now, last_editor_id = Some e, last_editor_type = Some (actor_type_value et),
                 last_executor_id = Option.bind (get_cell_attribution nb c l) last_executor_id,
                 last_executor_type = Option.bind (get_cell_attribution nb c l) last_executor_type\<rparr>
      else get_cell_attribution nb' c' l)"
  by (auto simp: update_cell_attribution_def get_cell_attribution_def Let_def split: option.split)

definition attributed :: "pystr \<Rightarrow> pystr \<Rightarrow> pystr \<times> actor_type \<Rightarrow> ledger \<Rightarrow> ledger \<Rightarrow> bool" where
  "attributed nb c actor l l' \<longleftrightarrow>
     (\<exists>a. get_cell_attribution nb c l' = Some a \<and> last_editor_id a = Some (fst actor)
        \<and> last_editor_type a = Some (actor_type_value (snd actor))
        \<and> last_executor_id a = Option.bind (get_cell_attribution nb c l) last_executor_id
        \<and> last_executor_type a = Option.bind (get_cell_attribution nb c l) last_executor_type)
     \<and> (\<forall>nb' c'. (nb', c') \<noteq> (nb, c) \<longrightarrow> get_cell_attribution nb' c' l' = get_cell_attribution nb' c' l)
     \<and> (\<forall>i. get_job i l' = get_job i l)"

lemma on_notebook_ledger: "on_notebook f s = (r, s') \<Longrightarrow> server_ledger s' = server_ledger s"
  using core_eqD [OF on_notebook_core [of f s]] by simp

lemma edited_ledger:
  assumes "edited henv nb c actor code (on_notebook f) s = (r, s')"
  shows "case r of Inl e \<Rightarrow> server_ledger s' = server_ledger s
    | Inr x \<Rightarrow> http_status r = 200 \<and> attributed nb c actor (server_ledger s) (server_ledger s')"
proof -
  obtain y s1 where n: "on_notebook f s = (y, s1)" by fastforce
  obtain z s2 where a: "attribute_edit henv nb c actor s1 = (z, s2)" by fastforce
  note l = on_notebook_ledger [OF n] and e = attribute_edit_effect [OF a]
  show ?thesis
  proof (cases y)
    case (Inl err)
    with assms n l show ?thesis by (auto simp: edited_def mbind_def catching_def)
  next
    case (Inr v)
    with assms n a l e show ?thesis
      by (auto simp: edited_def mbind_def catching_def mret_def http_status_def attributed_def
          attribution_after_edit)
  qed
qed

section \<open>A concrete server\<close>

definition demo_http :: "demo_world http_env" where
  "demo_http =
     \<lparr>http_server = demo_env, unquote = (\<lambda>p. p), float_repr = (\<lambda>t. []),
      http_error_str = (\<lambda>n reason. reason), restart_kernel = (\<lambda>k x. (Inr (), x)),
      kernel_model = (\<lambda>k x. (Inr JNull, x))\<rparr>"

definition demo_edited :: "demo_world server" where
  "demo_edited = demo_start\<lparr>docs := (\<lambda>_. Some (DocumentRoom
     \<lparr>ycells = [demo_cell ''a'', demo_cell ''b''], ymeta = [], doc_ready = True\<rparr>)), docs_started := True\<rparr>"

section \<open>Properties\<close>

text \<open>
  C10: serving requests is safe.  Whatever request of the route table comes to a server that is running,
  from whatever actor, with whatever arguments and whatever calls are in flight: its call of the
  orchestrator can be in flight with them; handling it to its end without interruption, failures
  included, is one way on from there; and in every state of every way on, whatever happens between two
  awaits of this call and of the others, the ledger, the tasks and the locks satisfy their invariant, so
  executions of one room do not overlap.
\<close>

theorem serving_requests_is_safe:
  assumes "reachable_system (http_server henv) (s, cs)" and "fresh_job new s"
    and "serve henv new headers req s = (r, s')"
    and "orchestrator_calls henv (get_actor (fst headers) (snd headers)) req = calls"
  shows "system_run (http_server henv) (s, cs) (s, cs @ calls)
    \<and> system_run (http_server henv) (s, cs @ calls) (s', cs)
    \<and> (\<forall>s1 cs1. system_run (http_server henv) (s, cs @ calls) (s1, cs1) \<longrightarrow> server_ok s1
        \<and> (\<forall>i t i' t' room. tasks s1 i = Some t \<and> running_in (task_pc t) = Some room
            \<and> tasks s1 i' = Some t' \<and> running_in (task_pc t') = Some room \<longrightarrow> i' = i))"
proof -
  from call_arrives [of henv "get_actor (fst headers) (snd headers)" req]
  have arrival: "system_run (http_server henv) (s, cs) (s, cs @ calls)"
    and to_end: "system_run (http_server henv) (s, cs @ calls) (s', cs)"
    using assms(3,4) serve_calls [OF assms(2), of henv headers req] steps_serve [of henv headers req s new]
    by (auto simp: run_arrival steps_def) (simp add: system_run_def)
  have "server_ok s1 \<and> (\<forall>i t i' t' room. tasks s1 i = Some t \<and> running_in (task_pc t) = Some room
      \<and> tasks s1 i' = Some t' \<and> running_in (task_pc t') = Some room \<longrightarrow> i' = i)"
    if "system_run (http_server henv) (s, cs @ calls) (s1, cs1)" for s1 cs1
    using reachable_run [OF assms(1) system_run_trans [OF arrival that]] running_alone reachable_ok by blast
  with arrival to_end show ?thesis by blast
qed

lemma serving_requests_is_safe_witness:
  "system_run demo_env (demo_busy, []) (demo_busy, [QueueAsked nb_a [lit ''c''] (lit ''anonymous'') AGENT None])
   \<and> server_ok (snd (serve demo_http (lit ''j2'') (None, Some (lit ''agent''))
     (Execute nb_a [lit ''c''] None) demo_busy))"
proof -
  let ?req = "Execute nb_a [lit ''c''] None" and ?who = "(None, Some (lit ''agent''))"
  have start: "reachable_system (http_server demo_http) (demo_busy, [])" "fresh_job (lit ''j2'') demo_busy"
    using demo_busy_at demo_fresh(1) [of "''j2''"] by (simp_all add: demo_http_def demo_busy_def demo_at_def)
  have "orchestrator_calls demo_http (get_actor (fst ?who) (snd ?who)) ?req =
      [QueueAsked nb_a [lit ''c''] (lit ''anonymous'') AGENT None]"
    by (simp add: demo_http_def get_actor_def)
  from serving_requests_is_safe [OF start prod.collapse [symmetric] this] show ?thesis
    by (auto simp: demo_http_def)
qed

text \<open>
  Edits are attributed, and only they.  A request that changes a cell in place (its source, its
  position, its outputs) either answers 200 and then that cell's last editor is the requesting
  actor, its executor is what it was, and no other attribution and no job changed; or it raises and
  the ledger is exactly what it was.
\<close>

theorem edits_are_attributed:
  assumes "edit_target req = Some (path, c)" and "serve henv new headers req s = (r, s')"
  shows "(case r of
      Inl e \<Rightarrow> server_ledger s' = server_ledger s
    | Inr x \<Rightarrow> http_status r = 200 \<and>
        attributed (unquote henv path) c (get_actor (fst headers) (snd headers)) (server_ledger s) (server_ledger s'))"
  using assms edited_ledger [of henv "unquote henv path" c "get_actor (fst headers) (snd headers)"]
  by (cases req) (auto simp: serve_def Let_def cell_patch_def cell_move_post_def clear_outputs_post_def mraise_def
      split: option.splits)

lemma edits_are_attributed_witness:
  "\<exists>a. get_cell_attribution nb_a (lit ''b'') (server_ledger (snd (serve demo_http [] (Some (lit ''me''), Some (lit ''agent''))
      (CellPatch nb_a (lit ''b'') [(lit ''source'', JStr (lit ''x''))]) demo_edited))) = Some a
    \<and> last_editor_id a = Some (lit ''me'') \<and> last_editor_type a = Some (lit ''agent'')"
proof -
  let ?req = "CellPatch nb_a (lit ''b'') [(lit ''source'', JStr (lit ''x''))]"
  let ?r = "serve demo_http [] (Some (lit ''me''), Some (lit ''agent'')) ?req demo_edited"
  have t: "edit_target ?req = Some (nb_a, lit ''b'')" by simp
  obtain x where "fst ?r = Inr x"
    by (simp add: serve_def cell_patch_def edited_def demo_edited_def demo_http_def demo_server_simps
        demo_nb_simps on_notebook_def catching_def replace_cell_source_def attribute_edit_def
        ledger_attribute_def)
  with edits_are_attributed [OF t prod.collapse [symmetric], of demo_http "[]"
      "(Some (lit ''me''), Some (lit ''agent''))" demo_edited]
  show ?thesis by (auto simp: attributed_def get_actor_def demo_http_def)
qed

end
