(* ===== verification/Hn_Extension.thy ===== *)
theory Hn_Extension
  imports Hn_Handlers
begin

text \<open>
  The server extension (\<^verbatim>\<open>server/extension.py\<close>): the route table and how a URL finds its handler,
  the rules inserted in front of Jupyter's own kernel routes with the check that they win, the lazy
  initialization shared by concurrent requests, the diagnostics, and stopping.  The URL patterns are
  matched as Python's \<open>re\<close> does; what Jupyter's extension manager and router hold is given.
\<close>

section \<open>URL patterns\<close>

text \<open>
  The three constructs of the patterns: a literal, \<open>(.+)\<close> (greedy, any character but a newline) and
  \<open>([^/]+)\<close> (greedy, no slash).  Tornado anchors a pattern at both ends.
\<close>

datatype token = Lit pystr | AnyPlus | SegPlus

fun first_some :: "('a \<Rightarrow> 'b option) \<Rightarrow> 'a list \<Rightarrow> 'b option" where
  "first_some f [] = None"
| "first_some f (x # xs) = (case f x of None \<Rightarrow> first_some f xs | Some y \<Rightarrow> Some y)"

definition group_match :: "(nat \<Rightarrow> bool) \<Rightarrow> (pystr \<Rightarrow> pystr list option) \<Rightarrow> pystr \<Rightarrow> pystr list option" where
  "group_match ok cont s =
     first_some (\<lambda>n. if list_all ok (take n s) then map_option ((#) (take n s)) (cont (drop n s)) else None)
       (rev [1..<Suc (length s)])"

primrec re_match :: "token list \<Rightarrow> pystr \<Rightarrow> pystr list option" where
  "re_match [] = (\<lambda>s. if s = [] then Some [] else None)"
| "re_match (t # ts) =
     (case t of
        Lit l \<Rightarrow> (\<lambda>s. if take (length l) s = l then re_match ts (drop (length l) s) else None)
      | AnyPlus \<Rightarrow> group_match (\<lambda>c. c \<noteq> 10) (re_match ts)
      | SegPlus \<Rightarrow> group_match (\<lambda>c. c \<noteq> 47) (re_match ts))"

fun fits :: "token list \<Rightarrow> pystr list \<Rightarrow> pystr \<Rightarrow> bool" where
  "fits [] cs s \<longleftrightarrow> cs = [] \<and> s = []"
| "fits (Lit l # ts) cs s \<longleftrightarrow> (\<exists>r. s = l @ r \<and> fits ts cs r)"
| "fits (AnyPlus # ts) cs s \<longleftrightarrow>
     (\<exists>x r cs'. cs = x # cs' \<and> s = x @ r \<and> x \<noteq> [] \<and> list_all (\<lambda>c. c \<noteq> 10) x \<and> fits ts cs' r)"
| "fits (SegPlus # ts) cs s \<longleftrightarrow>
     (\<exists>x r cs'. cs = x # cs' \<and> s = x @ r \<and> x \<noteq> [] \<and> list_all (\<lambda>c. c \<noteq> 47) x \<and> fits ts cs' r)"

lemma first_some_None: "first_some f xs = None \<longleftrightarrow> (\<forall>x \<in> set xs. f x = None)"
  by (induction xs) (auto split: option.splits)

lemma first_some_Some: "first_some f xs = Some y \<Longrightarrow> \<exists>x \<in> set xs. f x = Some y"
  by (induction xs) (auto split: option.splits)

lemma set_lengths: "set (rev [1..<Suc k]) = {n. 0 < n \<and> n \<le> k}"
  by (auto simp del: upt_Suc)

lemma group_match_sound:
  assumes "group_match ok cont s = Some cs"
  shows "\<exists>x r cs'. cs = x # cs' \<and> s = x @ r \<and> x \<noteq> [] \<and> list_all ok x \<and> cont r = Some cs'"
proof -
  obtain n where n: "0 < n" "n \<le> length s" "list_all ok (take n s)"
    "map_option ((#) (take n s)) (cont (drop n s)) = Some cs"
    using first_some_Some [OF assms [unfolded group_match_def]] unfolding set_lengths
    by (auto split: if_splits)
  then show ?thesis by (intro exI [of _ "take n s"] exI [of _ "drop n s"]) auto
qed

lemma group_match_complete:
  assumes "group_match ok cont s = None" and "s = x @ r" and "x \<noteq> []" and "list_all ok x"
  shows "cont r = None"
proof -
  have "length x \<in> set (rev [1..<Suc (length s)])" unfolding set_lengths using assms(2,3) by simp
  then show ?thesis
    using assms(1,2,4) unfolding group_match_def first_some_None by fastforce
qed

lemma re_match_sound: "re_match ts s = Some cs \<Longrightarrow> fits ts cs s"
proof (induction ts arbitrary: s cs)
  case (Cons t ts)
  show ?case
  proof (cases t)
    case (Lit l)
    with Cons show ?thesis
      by (auto split: if_splits intro!: exI [of _ "drop (length l) s"]) (metis append_take_drop_id)
  qed (use Cons in \<open>auto dest!: group_match_sound\<close>)
qed (auto split: if_splits)

lemma re_match_complete: "fits ts cs s \<Longrightarrow> re_match ts s \<noteq> None"
proof (induction ts cs s rule: fits.induct)
  case (3 ts cs s)
  then obtain x r cs' where "s = x @ r" "x \<noteq> []" "list_all (\<lambda>c. c \<noteq> 10) x" "fits ts cs' r" by auto
  with 3(1) have "group_match (\<lambda>c. c \<noteq> 10) (re_match ts) s \<noteq> None"
    using group_match_complete [of _ "re_match ts" s x r] by blast
  then show ?case by simp
next
  case (4 ts cs s)
  then obtain x r cs' where "s = x @ r" "x \<noteq> []" "list_all (\<lambda>c. c \<noteq> 47) x" "fits ts cs' r" by auto
  with 4(1) have "group_match (\<lambda>c. c \<noteq> 47) (re_match ts) s \<noteq> None"
    using group_match_complete [of _ "re_match ts" s x r] by blast
  then show ?case by simp
qed auto

lemma re_match_None: "re_match ts s = None \<longleftrightarrow> (\<forall>cs. \<not> fits ts cs s)"
  using re_match_sound re_match_complete by (metis not_None_eq)

text \<open>When a pattern fits in one way only, that is its match.\<close>

lemma re_match_unique: "fits ts cs s \<Longrightarrow> (\<And>cs'. fits ts cs' s \<Longrightarrow> cs' = cs) \<Longrightarrow> re_match ts s = Some cs"
  using re_match_complete re_match_sound by (metis not_None_eq)

section \<open>The route table\<close>

datatype handler_class =
    ServerDiagnosticsHandler
  | NotebookDocumentHandler
  | NotebookCellsHandler
  | NotebookCellHandler
  | NotebookCellMoveHandler
  | NotebookCellClearOutputsHandler
  | ExecuteHandler
  | JobsHandler
  | JobHandler
  | SendStdinHandler
  | RuntimeStatusHandler
  | RuntimeOpenHandler
  | RuntimeStopHandler
  | InterruptHandler
  | CellAttributionHandler

definition notebooks_url :: pystr where "notebooks_url = lit ''/hypernote/api/notebooks/''"

definition jobs_url :: pystr where "jobs_url = lit ''/hypernote/api/jobs''"

definition routes :: "(token list \<times> handler_class) list" where
  "routes =
     [([Lit (lit ''/hypernote/api/diagnostics'')], ServerDiagnosticsHandler),
      ([Lit notebooks_url, AnyPlus, Lit (lit ''/document'')], NotebookDocumentHandler),
      ([Lit notebooks_url, AnyPlus, Lit (lit ''/cells'')], NotebookCellsHandler),
      ([Lit notebooks_url, AnyPlus, Lit (lit ''/cells/''), SegPlus], NotebookCellHandler),
      ([Lit notebooks_url, AnyPlus, Lit (lit ''/cells/''), SegPlus, Lit (lit ''/move'')], NotebookCellMoveHandler),
      ([Lit notebooks_url, AnyPlus, Lit (lit ''/cells/''), SegPlus, Lit (lit ''/clear-outputs'')],
       NotebookCellClearOutputsHandler),
      ([Lit notebooks_url, AnyPlus, Lit (lit ''/execute'')], ExecuteHandler),
      ([Lit jobs_url], JobsHandler),
      ([Lit (jobs_url @ lit ''/''), SegPlus], JobHandler),
      ([Lit (jobs_url @ lit ''/''), SegPlus, Lit (lit ''/stdin'')], SendStdinHandler),
      ([Lit notebooks_url, AnyPlus, Lit (lit ''/runtime'')], RuntimeStatusHandler),
      ([Lit notebooks_url, AnyPlus, Lit (lit ''/runtime/open'')], RuntimeOpenHandler),
      ([Lit notebooks_url, AnyPlus, Lit (lit ''/runtime/stop'')], RuntimeStopHandler),
      ([Lit notebooks_url, AnyPlus, Lit (lit ''/interrupt'')], InterruptHandler),
      ([Lit notebooks_url, AnyPlus, Lit (lit ''/cells/''), SegPlus, Lit (lit ''/attribution'')],
       CellAttributionHandler)]"

fun dispatch :: "(token list \<times> 'h) list \<Rightarrow> pystr \<Rightarrow> ('h \<times> pystr list) option" where
  "dispatch [] path = None"
| "dispatch ((p, h) # rest) path =
     (case re_match p path of None \<Rightarrow> dispatch rest path | Some cs \<Rightarrow> Some (h, cs))"

text \<open>A URL segment as the SDK sends it: percent-encoded, so without slashes and control characters.\<close>

definition segment :: "pystr \<Rightarrow> bool" where
  "segment s \<longleftrightarrow> s \<noteq> [] \<and> list_all (\<lambda>c. c \<noteq> 47 \<and> c \<noteq> 10) s"

lemma segmentD: "segment s \<Longrightarrow> s \<noteq> [] \<and> 47 \<notin> set s \<and> 10 \<notin> set s"
  by (auto simp: segment_def list_all_iff)

lemma of_char_slash: "(of_char c = (47 :: nat)) = (c = CHR ''/'')"
  using of_char_eq_iff [of c "CHR ''/''", where 'a = nat] by simp

lemma no_slash_lit [simp]: "47 \<in> set (lit s) \<longleftrightarrow> CHR ''/'' \<in> set s"
  by (auto simp: lit_def of_char_slash image_iff eq_commute [of "47 :: nat"])

text \<open>The segments of a path, last one first.\<close>

primrec segs :: "pystr \<Rightarrow> pystr list" where
  "segs [] = [[]]"
| "segs (c # s) = (if c = 47 then [] # segs s else (c # hd (segs s)) # tl (segs s))"

definition rsegs :: "pystr \<Rightarrow> pystr list" where "rsegs s = rev (segs s)"

lemma segs_ne [simp]: "segs s \<noteq> []"
  by (cases s) simp_all

lemma segs_append: "segs (a @ 47 # b) = segs a @ segs b"
  by (induction a) (simp_all add: tl_append split: list.split)

lemma segs_single: "47 \<notin> set s \<Longrightarrow> segs s = [s]"
  by (induction s) auto

lemma segs_join: "py_join [47] (segs s) = s"
proof (induction s)
  case (Cons c s)
  obtain y ys where "segs s = y # ys" using segs_ne [of s] by (cases "segs s") blast+
  with Cons show ?case by (cases ys) auto
qed simp

lemma rsegs_append [simp]: "rsegs (a @ 47 # b) = rsegs b @ rsegs a"
  by (simp add: rsegs_def segs_append)

lemma rsegs_single: "47 \<notin> set s \<Longrightarrow> rsegs s = [s]"
  by (simp add: rsegs_def segs_single)

lemma rsegs_lit [simp]: "CHR ''/'' \<notin> set s \<Longrightarrow> rsegs (lit s) = [lit s]"
  by (rule rsegs_single) simp

lemma rsegs_segment [simp]: "segment s \<Longrightarrow> rsegs s = [s]"
  using segmentD [of s] by (intro rsegs_single) simp

lemma rsegs_ne [simp]: "rsegs s \<noteq> []" "[] \<noteq> rsegs s"
  by (simp_all add: rsegs_def)

lemma rsegs_eq: "rsegs x = rsegs y \<longleftrightarrow> x = y"
  unfolding rsegs_def using segs_join by (metis rev_rev_ident)

lemma path_eq: "x = y \<Longrightarrow> rsegs x = rsegs y" by simp

lemma slash_lits:
  "lit ''/document'' = 47 # lit ''document''" "lit ''/cells'' = 47 # lit ''cells''"
  "lit ''/cells/'' = 47 # lit ''cells'' @ [47]" "lit ''/move'' = 47 # lit ''move''"
  "lit ''/clear-outputs'' = 47 # lit ''clear-outputs''" "lit ''/execute'' = 47 # lit ''execute''"
  "lit ''/stdin'' = 47 # lit ''stdin''" "lit ''/runtime'' = 47 # lit ''runtime''"
  "lit ''/runtime/open'' = 47 # lit ''runtime'' @ 47 # lit ''open''"
  "lit ''/runtime/stop'' = 47 # lit ''runtime'' @ 47 # lit ''stop''"
  "lit ''/interrupt'' = 47 # lit ''interrupt''" "lit ''/attribution'' = 47 # lit ''attribution''"
  "lit ''/'' = [47]"
  by (simp_all add: lit_def)

lemma fits_end: "fits [Lit a, AnyPlus, Lit b] cs (a @ s) \<longleftrightarrow>
    (\<exists>x. cs = [x] \<and> s = x @ b \<and> x \<noteq> [] \<and> list_all (\<lambda>c. c \<noteq> 10) x)"
  by auto

lemma fits_cell: "fits [Lit a, AnyPlus, Lit b, SegPlus] cs (a @ s) \<longleftrightarrow>
    (\<exists>x y. cs = [x, y] \<and> s = x @ b @ y \<and> x \<noteq> [] \<and> list_all (\<lambda>c. c \<noteq> 10) x
       \<and> y \<noteq> [] \<and> list_all (\<lambda>c. c \<noteq> 47) y)"
  by auto

lemma fits_cell_end: "fits [Lit a, AnyPlus, Lit b, SegPlus, Lit e] cs (a @ s) \<longleftrightarrow>
    (\<exists>x y. cs = [x, y] \<and> s = x @ b @ y @ e \<and> x \<noteq> [] \<and> list_all (\<lambda>c. c \<noteq> 10) x
       \<and> y \<noteq> [] \<and> list_all (\<lambda>c. c \<noteq> 47) y)"
  by auto

lemma no_slash: "list_all (\<lambda>c. c \<noteq> 47) y \<longleftrightarrow> 47 \<notin> set y"
  by (auto simp: list_all_iff)

text \<open>A path under a notebook matches no other fixed prefix.\<close>

lemma other_prefix:
  "\<not> fits (Lit (lit ''/hypernote/api/diagnostics'') # ts) cs (notebooks_url @ s)"
  "\<not> fits (Lit jobs_url # ts) cs (notebooks_url @ s)"
  "\<not> fits (Lit (jobs_url @ b) # ts) cs (notebooks_url @ s)"
  "\<not> fits (Lit (lit ''/hypernote/api/diagnostics'') # ts) cs (jobs_url @ s)"
  "\<not> fits (Lit notebooks_url # ts) cs (jobs_url @ s)"
  by (simp_all add: notebooks_url_def jobs_url_def lit_def)

lemma re_match_eq:
  assumes "\<And>cs. fits ts cs s \<longleftrightarrow> P \<and> cs = k"
  shows "re_match ts s = (if P then Some k else None)"
proof (cases P)
  case True
  with assms show ?thesis by (auto intro: re_match_unique)
qed (use assms in \<open>simp add: re_match_None\<close>)

text \<open>The paths of a notebook with one segment after it, with two, and with a cell and one more.\<close>

definition bare :: "pystr \<Rightarrow> bool" where "bare s \<longleftrightarrow> s \<noteq> [] \<and> 47 \<notin> set s"

lemma bare_lit [simp]: "bare (lit s) \<longleftrightarrow> s \<noteq> [] \<and> CHR ''/'' \<notin> set s"
  by (simp add: bare_def)

lemma bare_segment: "segment s \<Longrightarrow> bare s"
  using segmentD by (auto simp: bare_def)

lemma rsegs_bare [simp]: "bare s \<Longrightarrow> rsegs s = [s]"
  by (simp add: bare_def rsegs_single)

lemma rsegs_bare_eq [simp]: "bare b \<Longrightarrow> rsegs x = [b] \<longleftrightarrow> x = b" "bare b \<Longrightarrow> [b] = rsegs x \<longleftrightarrow> x = b"
  using rsegs_bare rsegs_eq by metis+

lemma rsegs_two [simp]:
  "bare a \<Longrightarrow> bare b \<Longrightarrow> rsegs x = [b, a] \<longleftrightarrow> x = a @ 47 # b"
  "bare a \<Longrightarrow> bare b \<Longrightarrow> [b, a] = rsegs x \<longleftrightarrow> x = a @ 47 # b"
  using rsegs_eq [of x "a @ 47 # b"] by auto

lemma path_eqs:
  "x @ 47 # b = nb @ 47 # e \<longleftrightarrow> rsegs (x @ 47 # b) = rsegs (nb @ 47 # e)"
  "x @ 47 # b = nb @ 47 # d @ 47 # e \<longleftrightarrow> rsegs (x @ 47 # b) = rsegs (nb @ 47 # d @ 47 # e)"
  "x @ 47 # b = nb @ 47 # d @ 47 # c @ 47 # e \<longleftrightarrow> rsegs (x @ 47 # b) = rsegs (nb @ 47 # d @ 47 # c @ 47 # e)"
  by (simp_all add: rsegs_eq del: rsegs_append)

lemma one_segment:
  assumes "segment nb" and "bare e" and "bare b" and "bare b'" and "bare k"
  shows "re_match [Lit a, AnyPlus, Lit (47 # b)] (a @ nb @ 47 # e) = (if e = b then Some [nb] else None)"
    and "re_match [Lit a, AnyPlus, Lit (47 # b @ 47 # b')] (a @ nb @ 47 # e) = None"
    and "re_match [Lit a, AnyPlus, Lit (47 # k @ [47]), SegPlus] (a @ nb @ 47 # e) = None"
    and "re_match [Lit a, AnyPlus, Lit (47 # k @ [47]), SegPlus, Lit (47 # b)] (a @ nb @ 47 # e) = None"
proof -
  have nb: "bare nb" "nb \<noteq> []" "list_all (\<lambda>c. c \<noteq> 10) nb" using assms(1) bare_segment segmentD
    by (auto simp: list_all_iff)
  show "re_match [Lit a, AnyPlus, Lit (47 # b)] (a @ nb @ 47 # e) = (if e = b then Some [nb] else None)"
    by (rule re_match_eq) (use assms nb in \<open>auto simp: fits_end path_eqs simp del: fits.simps\<close>)
  show "re_match [Lit a, AnyPlus, Lit (47 # b @ 47 # b')] (a @ nb @ 47 # e) = None"
    unfolding re_match_None fits_end append_Cons append_assoc path_eqs using assms nb by (auto dest!: path_eq)
  show "re_match [Lit a, AnyPlus, Lit (47 # k @ [47]), SegPlus] (a @ nb @ 47 # e) = None"
    unfolding re_match_None fits_cell using assms nb by (auto simp: no_slash rsegs_single dest!: path_eq)
  show "re_match [Lit a, AnyPlus, Lit (47 # k @ [47]), SegPlus, Lit (47 # b)] (a @ nb @ 47 # e) = None"
    unfolding re_match_None fits_cell_end using assms nb by (auto simp: no_slash rsegs_single dest!: path_eq)
qed

lemma two_segments:
  assumes "segment nb" and "bare d" and "bare e" and "bare b" and "bare b'" and "bare k"
    and "10 \<notin> set d" and "10 \<notin> set e"
  shows "re_match [Lit a, AnyPlus, Lit (47 # b)] (a @ nb @ 47 # d @ 47 # e) =
      (if e = b then Some [nb @ 47 # d] else None)"
    and "re_match [Lit a, AnyPlus, Lit (47 # b @ 47 # b')] (a @ nb @ 47 # d @ 47 # e) =
      (if d = b \<and> e = b' then Some [nb] else None)"
    and "re_match [Lit a, AnyPlus, Lit (47 # k @ [47]), SegPlus] (a @ nb @ 47 # d @ 47 # e) =
      (if d = k then Some [nb, e] else None)"
    and "re_match [Lit a, AnyPlus, Lit (47 # k @ [47]), SegPlus, Lit (47 # b)] (a @ nb @ 47 # d @ 47 # e) = None"
proof -
  have nb: "bare nb" "nb \<noteq> []" "list_all (\<lambda>c. c \<noteq> 10) nb" "list_all (\<lambda>c. c \<noteq> 10) d"
    "list_all (\<lambda>c. c \<noteq> 47) e" "e \<noteq> []"
    using assms bare_segment segmentD by (auto simp: list_all_iff bare_def)
  show "re_match [Lit a, AnyPlus, Lit (47 # b)] (a @ nb @ 47 # d @ 47 # e) =
      (if e = b then Some [nb @ 47 # d] else None)"
    by (rule re_match_eq) (use assms nb in \<open>auto simp: fits_end path_eqs simp del: fits.simps\<close>)
  show "re_match [Lit a, AnyPlus, Lit (47 # b @ 47 # b')] (a @ nb @ 47 # d @ 47 # e) =
      (if d = b \<and> e = b' then Some [nb] else None)"
    by (rule re_match_eq) (use assms nb in \<open>auto simp: fits_end simp del: fits.simps dest!: path_eq\<close>)
  show "re_match [Lit a, AnyPlus, Lit (47 # k @ [47]), SegPlus] (a @ nb @ 47 # d @ 47 # e) =
      (if d = k then Some [nb, e] else None)"
    by (rule re_match_eq)
      (use assms nb in \<open>auto simp: fits_cell no_slash rsegs_single simp del: fits.simps dest!: path_eq\<close>)
  show "re_match [Lit a, AnyPlus, Lit (47 # k @ [47]), SegPlus, Lit (47 # b)] (a @ nb @ 47 # d @ 47 # e) = None"
    unfolding re_match_None fits_cell_end using assms nb by (auto simp: no_slash rsegs_single dest!: path_eq)
qed

lemma three_segments:
  assumes "segment nb" and "segment c" and "bare e" and "bare b" and "bare k" and "10 \<notin> set k"
  shows "e \<noteq> b \<Longrightarrow> re_match [Lit a, AnyPlus, Lit (47 # b)] (a @ nb @ 47 # k @ 47 # c @ 47 # e) = None"
    and "re_match [Lit a, AnyPlus, Lit (47 # k @ [47]), SegPlus] (a @ nb @ 47 # k @ 47 # c @ 47 # e) =
      (if c = k then Some [nb @ 47 # k, e] else None)"
    and "re_match [Lit a, AnyPlus, Lit (47 # k @ [47]), SegPlus, Lit (47 # b)] (a @ nb @ 47 # k @ 47 # c @ 47 # e) =
      (if e = b then Some [nb, c] else None)"
    and "c \<noteq> d \<or> e \<noteq> d' \<Longrightarrow> bare d \<Longrightarrow> bare d' \<Longrightarrow>
      re_match [Lit a, AnyPlus, Lit (47 # d @ 47 # d')] (a @ nb @ 47 # k @ 47 # c @ 47 # e) = None"
proof -
  have nb: "bare nb" "bare c" "nb \<noteq> []" "c \<noteq> []" "list_all (\<lambda>c. c \<noteq> 10) nb" "list_all (\<lambda>c. c \<noteq> 47) c"
    "list_all (\<lambda>c. c \<noteq> 10) k" "list_all (\<lambda>c. c \<noteq> 47) e" "e \<noteq> []"
    using assms bare_segment segmentD by (auto simp: list_all_iff bare_def)
  show "re_match [Lit a, AnyPlus, Lit (47 # b)] (a @ nb @ 47 # k @ 47 # c @ 47 # e) = None" if "e \<noteq> b"
    unfolding re_match_None fits_end using assms nb that by (auto dest!: path_eq)
  show "re_match [Lit a, AnyPlus, Lit (47 # k @ [47]), SegPlus] (a @ nb @ 47 # k @ 47 # c @ 47 # e) =
      (if c = k then Some [nb @ 47 # k, e] else None)"
    by (rule re_match_eq)
      (use assms nb in \<open>auto simp: fits_cell no_slash rsegs_single simp del: fits.simps dest!: path_eq\<close>)
  show "re_match [Lit a, AnyPlus, Lit (47 # k @ [47]), SegPlus, Lit (47 # b)] (a @ nb @ 47 # k @ 47 # c @ 47 # e) =
      (if e = b then Some [nb, c] else None)"
    by (rule re_match_eq)
      (use assms nb in \<open>auto simp: fits_cell_end no_slash rsegs_single simp del: fits.simps dest!: path_eq\<close>)
  show "re_match [Lit a, AnyPlus, Lit (47 # d @ 47 # d')] (a @ nb @ 47 # k @ 47 # c @ 47 # e) = None"
    if "c \<noteq> d \<or> e \<noteq> d'" "bare d" "bare d'"
    unfolding re_match_None fits_end using assms nb that by (auto dest!: path_eq)
qed

lemma other_prefix_match:
  "re_match (Lit (lit ''/hypernote/api/diagnostics'') # ts) (notebooks_url @ s) = None"
  "re_match (Lit jobs_url # ts) (notebooks_url @ s) = None"
  "re_match (Lit (jobs_url @ b) # ts) (notebooks_url @ s) = None"
  using other_prefix unfolding re_match_None by blast+

lemma no_newline [simp]: "10 \<in> set (lit s) \<longleftrightarrow> CHR 0x0A \<in> set s"
proof -
  have "(of_char c = (10 :: nat)) = (c = CHR 0x0A)" for c :: char
    using of_char_eq_iff [of c "CHR 0x0A", where 'a = nat] by simp
  then show ?thesis by (auto simp: lit_def image_iff eq_commute [of "10 :: nat"])
qed

lemmas dispatch_simps = routes_def slash_lits other_prefix_match

text \<open>The variables a fact does not mention are given some literal.\<close>

lemmas one_segment_match =
  one_segment(1) [where b' = "lit ''x''" and k = "lit ''x''"] one_segment(2) [where k = "lit ''x''"]
  one_segment(3) [where b = "lit ''x''" and b' = "lit ''x''"] one_segment(4) [where b' = "lit ''x''"]

lemmas two_segments_match =
  two_segments(1) [where b' = "lit ''x''" and k = "lit ''x''"] two_segments(2) [where k = "lit ''x''"]
  two_segments(3) [where b = "lit ''x''" and b' = "lit ''x''"] two_segments(4) [where b' = "lit ''x''"]

lemmas three_segments_match =
  three_segments(1,3) three_segments(2) [where b = "lit ''x''"] three_segments(4) [where b = "lit ''x''"]

lemma dispatch_one:
  assumes "segment nb"
  shows "dispatch routes (notebooks_url @ nb @ lit ''/document'') = Some (NotebookDocumentHandler, [nb])"
    and "dispatch routes (notebooks_url @ nb @ lit ''/cells'') = Some (NotebookCellsHandler, [nb])"
    and "dispatch routes (notebooks_url @ nb @ lit ''/execute'') = Some (ExecuteHandler, [nb])"
    and "dispatch routes (notebooks_url @ nb @ lit ''/runtime'') = Some (RuntimeStatusHandler, [nb])"
    and "dispatch routes (notebooks_url @ nb @ lit ''/interrupt'') = Some (InterruptHandler, [nb])"
  by (simp_all add: dispatch_simps one_segment_match [OF assms] del: re_match.simps)

lemma dispatch_two:
  assumes "segment nb"
  shows "dispatch routes (notebooks_url @ nb @ lit ''/runtime/open'') = Some (RuntimeOpenHandler, [nb])"
    and "dispatch routes (notebooks_url @ nb @ lit ''/runtime/stop'') = Some (RuntimeStopHandler, [nb])"
  by (simp_all add: dispatch_simps two_segments_match [OF assms] del: re_match.simps)

lemma dispatch_cell:
  assumes "segment nb" and "segment c"
  shows "dispatch routes (notebooks_url @ nb @ lit ''/cells/'' @ c) =
      (if c = lit ''document'' then Some (NotebookDocumentHandler, [nb @ lit ''/cells''])
       else if c = lit ''cells'' then Some (NotebookCellsHandler, [nb @ lit ''/cells''])
       else Some (NotebookCellHandler, [nb, c]))"
  using bare_segment [OF assms(2)] segmentD [OF assms(2)]
  by (simp add: dispatch_simps two_segments_match [OF assms(1)] del: re_match.simps)

lemma dispatch_cell_action:
  assumes "segment nb" and "segment c"
    and "(e, h) \<in> {(''move'', NotebookCellMoveHandler), (''clear-outputs'', NotebookCellClearOutputsHandler),
        (''attribution'', CellAttributionHandler)}"
  shows "dispatch routes (notebooks_url @ nb @ lit ''/cells/'' @ c @ lit (CHR ''/'' # e)) =
      (if c = lit ''cells'' then Some (NotebookCellHandler, [nb @ lit ''/cells'', lit e]) else Some (h, [nb, c]))"
  using assms(3)
  by (elim insertE)
    (simp_all add: dispatch_simps three_segments_match [OF assms(1,2)] del: re_match.simps)

text \<open>The paths of the jobs, which have their own prefix, and of the diagnostics.\<close>

lemma jobs_prefix_match:
  "re_match (Lit (lit ''/hypernote/api/diagnostics'') # ts) (jobs_url @ s) = None"
  "re_match (Lit notebooks_url # ts) (jobs_url @ s) = None"
  using other_prefix unfolding re_match_None by blast+

lemma job_paths:
  assumes "segment i" and "bare e"
  shows "re_match [Lit jobs_url] (jobs_url @ s) = (if s = [] then Some [] else None)"
    and "re_match (Lit (jobs_url @ [47]) # ts) (jobs_url @ 47 # s) = re_match ts s"
    and "re_match (Lit (jobs_url @ [47]) # ts) jobs_url = None"
    and "re_match [SegPlus] i = Some [i]"
    and "re_match [SegPlus] (i @ 47 # e) = None"
    and "re_match [SegPlus, Lit (47 # e)] i = None"
    and "re_match [SegPlus, Lit (47 # e)] (i @ 47 # e) = Some [i]"
proof -
  have i: "i \<noteq> []" "47 \<notin> set i" using segmentD [OF assms(1)] by simp_all
  show "re_match [Lit jobs_url] (jobs_url @ s) = (if s = [] then Some [] else None)"
    and "re_match (Lit (jobs_url @ [47]) # ts) (jobs_url @ 47 # s) = re_match ts s"
    and "re_match (Lit (jobs_url @ [47]) # ts) jobs_url = None" by simp_all
  show "re_match [SegPlus] i = Some [i]" by (rule re_match_unique) (use i in \<open>auto simp: no_slash\<close>)
  show "re_match [SegPlus] (i @ 47 # e) = None" "re_match [SegPlus, Lit (47 # e)] i = None"
    unfolding re_match_None using i by (auto simp: no_slash)
  show "re_match [SegPlus, Lit (47 # e)] (i @ 47 # e) = Some [i]"
    by (rule re_match_unique) (use i in \<open>auto simp: no_slash\<close>)
qed

lemma jobs_slash: "jobs_url @ lit ''/'' @ s = jobs_url @ 47 # s" "jobs_url @ lit ''/'' = jobs_url @ [47]"
  by (simp_all add: lit_def)

lemma dispatch_jobs:
  assumes "segment i"
  shows "dispatch routes jobs_url = Some (JobsHandler, [])"
    and "dispatch routes (jobs_url @ lit ''/'' @ i) = Some (JobHandler, [i])"
    and "dispatch routes (jobs_url @ lit ''/'' @ i @ lit ''/stdin'') = Some (SendStdinHandler, [i])"
    and "dispatch routes (lit ''/hypernote/api/diagnostics'') = Some (ServerDiagnosticsHandler, [])"
proof -
  have stdin: "bare (lit ''stdin'')" by simp
  have bare_url: "re_match (Lit (lit ''/hypernote/api/diagnostics'') # ts) jobs_url = None"
    "re_match (Lit notebooks_url # ts) jobs_url = None" for ts
    using jobs_prefix_match [of ts "[]"] by (simp_all del: re_match.simps)
  note paths = job_paths [OF assms stdin] jobs_prefix_match bare_url
  show "dispatch routes jobs_url = Some (JobsHandler, [])"
    using paths(1) [of "[]"] by (simp add: routes_def jobs_slash paths del: re_match.simps)
  show "dispatch routes (jobs_url @ lit ''/'' @ i) = Some (JobHandler, [i])"
    by (simp add: routes_def jobs_slash paths slash_lits del: re_match.simps)
  show "dispatch routes (jobs_url @ lit ''/'' @ i @ lit ''/stdin'') = Some (SendStdinHandler, [i])"
    by (simp add: routes_def jobs_slash paths slash_lits del: re_match.simps)
  show "dispatch routes (lit ''/hypernote/api/diagnostics'') = Some (ServerDiagnosticsHandler, [])"
    by (simp add: routes_def)
qed

section \<open>Properties of the routes\<close>

text \<open>
  C19: every URL of the API reaches its handler, with the captures the SDK encoded, except for cells with
  two identifiers.  The URLs of a notebook, of the jobs and of the diagnostics always do.  A cell named \<open>document\<close> or \<open>cells\<close> cannot be
  read, edited or deleted, since its URL reaches the handler of another notebook's document or cell
  list; and the move, clear and attribution URLs of a cell named \<open>cells\<close> reach the cell handler of
  another notebook.
\<close>

theorem routes_reach_their_handlers:
  assumes "segment nb" and "segment c" and "segment i"
  shows "(\<forall>(e, h) \<in> {(''document'', NotebookDocumentHandler), (''cells'', NotebookCellsHandler),
        (''execute'', ExecuteHandler), (''runtime'', RuntimeStatusHandler), (''interrupt'', InterruptHandler),
        (''runtime/open'', RuntimeOpenHandler), (''runtime/stop'', RuntimeStopHandler)}.
      dispatch routes (notebooks_url @ nb @ lit (CHR ''/'' # e)) = Some (h, [nb]))
    \<and> dispatch routes (notebooks_url @ nb @ lit ''/cells/'' @ c) =
      (if c = lit ''document'' then Some (NotebookDocumentHandler, [nb @ lit ''/cells''])
       else if c = lit ''cells'' then Some (NotebookCellsHandler, [nb @ lit ''/cells''])
       else Some (NotebookCellHandler, [nb, c]))
    \<and> (\<forall>(e, h) \<in> {(''move'', NotebookCellMoveHandler), (''clear-outputs'', NotebookCellClearOutputsHandler),
        (''attribution'', CellAttributionHandler)}.
      dispatch routes (notebooks_url @ nb @ lit ''/cells/'' @ c @ lit (CHR ''/'' # e)) =
      (if c = lit ''cells'' then Some (NotebookCellHandler, [nb @ lit ''/cells'', lit e]) else Some (h, [nb, c])))
    \<and> dispatch routes jobs_url = Some (JobsHandler, [])
    \<and> dispatch routes (jobs_url @ lit ''/'' @ i) = Some (JobHandler, [i])
    \<and> dispatch routes (jobs_url @ lit ''/'' @ i @ lit ''/stdin'') = Some (SendStdinHandler, [i])
    \<and> dispatch routes (lit ''/hypernote/api/diagnostics'') = Some (ServerDiagnosticsHandler, [])"
  using dispatch_one [OF assms(1)] dispatch_two [OF assms(1)] dispatch_cell [OF assms(1,2)]
    dispatch_cell_action [OF assms(1,2)] dispatch_jobs [OF assms(3)]
  by auto

lemma routes_reach_their_handlers_witness:
  "dispatch routes (notebooks_url @ lit ''a.ipynb'' @ lit ''/cells/'' @ lit ''document'')
     = Some (NotebookDocumentHandler, [lit ''a.ipynb/cells''])
   \<and> dispatch routes (jobs_url @ lit ''/'' @ lit ''j1'' @ lit ''/stdin'') = Some (SendStdinHandler, [lit ''j1''])"
proof -
  have s: "segment (lit ''a.ipynb'')" "segment (lit ''document'')" "segment (lit ''j1'')"
    by (simp_all add: segment_def lit_def)
  from routes_reach_their_handlers [OF s] show ?thesis by (simp add: lit_def)
qed

section \<open>Overriding Jupyter's kernel routes\<close>

text \<open>
  A rule of Tornado's router as \<open>_first_matching_handler\<close> reads it: the matcher may have no
  \<open>regex\<close>, and matching may raise (the inner \<open>None\<close>); both are skipped.
\<close>

record 'h rule =
  rule_regex :: "(pystr \<Rightarrow> bool option) option"
  rule_target :: "'h option"

datatype kernel_handler =
    KernelInterruptInterceptHandler
  | KernelRestartInterceptHandler
  | OtherKernelHandler pystr

fun first_matching_handler :: "'h rule list \<Rightarrow> pystr \<Rightarrow> 'h option" where
  "first_matching_handler [] path = None"
| "first_matching_handler (rule # rules) path =
     (case rule_regex rule of
        None \<Rightarrow> first_matching_handler rules path
      | Some regex \<Rightarrow>
          (case regex path of
             Some True \<Rightarrow> rule_target rule
           | _ \<Rightarrow> first_matching_handler rules path))"

definition url_spec :: "token list \<Rightarrow> 'h \<Rightarrow> 'h rule" where
  "url_spec p h = \<lparr>rule_regex = Some (\<lambda>path. Some (re_match p path \<noteq> None)), rule_target = Some h\<rparr>"

definition kernel_url :: "pystr \<Rightarrow> string \<Rightarrow> pystr" where
  "kernel_url kid action = lit ''/api/kernels/'' @ kid @ lit (CHR ''/'' # action)"

definition override_rules :: "kernel_handler rule list" where
  "override_rules =
     [url_spec [Lit (lit ''/api/kernels/''), SegPlus, Lit (lit ''/interrupt'')] KernelInterruptInterceptHandler,
      url_spec [Lit (lit ''/api/kernels/''), SegPlus, Lit (lit ''/restart'')] KernelRestartInterceptHandler]"

text \<open>\<open>for rule in rules: router.rules.insert(0, rule)\<close>.\<close>

definition install_interrupt_intercept :: "kernel_handler rule list \<Rightarrow> kernel_handler rule list" where
  "install_interrupt_intercept rules = fold (#) override_rules rules"

text \<open>The probe paths for which a warning is logged.\<close>

definition verify_route_overrides :: "kernel_handler rule list \<Rightarrow> pystr list" where
  "verify_route_overrides rules =
     map fst (filter (\<lambda>(path, expected). first_matching_handler rules path \<noteq> Some expected)
       [(kernel_url (lit ''test-kernel-probe'') ''interrupt'', KernelInterruptInterceptHandler),
        (kernel_url (lit ''test-kernel-probe'') ''restart'', KernelRestartInterceptHandler)])"

section \<open>Initialization\<close>

text \<open>
  The extensions Jupyter loaded, each set in its iteration order; an instance of the execution
  extension has its private stack or not.
\<close>

record 'k extension_app = app_stack :: "'k option"

type_synonym 'k extension_apps = "(pystr, 'k extension_app list) pydict"

definition nbmodel_extension :: pystr where "nbmodel_extension = lit ''jupyter_server_nbmodel''"
definition ydoc_extension :: pystr where "ydoc_extension = lit ''jupyter_server_ydoc''"

definition get_extension_instance :: "'k extension_apps \<Rightarrow> pystr \<Rightarrow> pyexc + 'k extension_app" where
  "get_extension_instance apps name =
     (case dict_get apps name of
        Some (app # _) \<Rightarrow> Inr app
      | _ \<Rightarrow> Inl (RuntimeError (lit ''Required Jupyter extension '' @ [39] @ name @ [39] @ lit '' is not loaded'')))"

text \<open>\<open>getattr(nbmodel_ext, "_Extension__execution_stack")\<close>; \<open>validate_nbmodel_internals\<close> only logs.\<close>

definition get_execution_stack :: "'k extension_apps \<Rightarrow> pyexc + 'k" where
  "get_execution_stack apps =
     (case get_extension_instance apps nbmodel_extension of
        Inl e \<Rightarrow> Inl e
      | Inr app \<Rightarrow> (case app_stack app of None \<Rightarrow> Inl attribute_error | Some st \<Rightarrow> Inr st))"

text \<open>The part of \<open>_ensure_initialized\<close> up to the construction of the orchestrator.\<close>

definition setup_extension :: "'k extension_apps \<Rightarrow> pyexc + 'k" where
  "setup_extension apps =
     (case get_execution_stack apps of
        Inl e \<Rightarrow> Inl e
      | Inr st \<Rightarrow> (case get_extension_instance apps ydoc_extension of Inl e \<Rightarrow> Inl e | Inr _ \<Rightarrow> Inr st))"

definition diagnosis :: "(pyexc \<Rightarrow> pystr) \<Rightarrow> pyexc + 'a \<Rightarrow> pystr" where
  "diagnosis str r = (case r of Inl e \<Rightarrow> lit ''error: '' @ str e | Inr _ \<Rightarrow> lit ''ok'')"

definition server_diagnostics :: "(pyexc \<Rightarrow> pystr) \<Rightarrow> 'k extension_apps \<Rightarrow> (pystr, pystr) pydict" where
  "server_diagnostics str apps =
     [(lit ''jupyter_server_nbmodel'', diagnosis str (get_execution_stack apps)),
      (lit ''jupyter_server_ydoc'', diagnosis str (get_extension_instance apps ydoc_extension))]"

text \<open>
  The extension's own state: whether \<open>_orchestrator\<close> is set, \<open>_init_error\<close>, and \<open>_init_event\<close> with
  whether it is set.  A coroutine in \<open>_ensure_initialized\<close> waits for the event or initializes;
  \<open>init_end\<close> is how the initialization ends.
\<close>

record extension =
  orchestrator_set :: bool
  init_error :: "pyexc option"
  init_event :: "bool option"

definition initialize_settings :: extension where
  "initialize_settings = \<lparr>orchestrator_set = False, init_error = None, init_event = None\<rparr>"

datatype caller = NotCalled | Waiting | Initializing | Returned | Raised pyexc

datatype init_end = Completed | SetupRaised pyexc | InstallRaised pyexc

definition not_completed :: pyexc where
  "not_completed = RuntimeError (lit ''Hypernote extension initialization did not complete'')"

definition ensure_begin :: "extension \<Rightarrow> caller \<times> extension" where
  "ensure_begin x =
     (if orchestrator_set x then (Returned, x)
      else case init_error x of
             Some e \<Rightarrow> (Raised e, x)
           | None \<Rightarrow>
               (case init_event x of
                  Some _ \<Rightarrow> (Waiting, x)
                | None \<Rightarrow> (Initializing, x\<lparr>init_event := Some False\<rparr>)))"

definition ensure_wake :: "extension \<Rightarrow> caller" where
  "ensure_wake x =
     (case init_error x of
        Some e \<Rightarrow> Raised e
      | None \<Rightarrow> if orchestrator_set x then Returned else Raised not_completed)"

fun init_finish :: "init_end \<Rightarrow> extension \<Rightarrow> caller \<times> extension" where
  "init_finish Completed x = (Returned, \<lparr>orchestrator_set = True, init_error = None, init_event = Some True\<rparr>)"
| "init_finish (SetupRaised e) x = (Raised e, x\<lparr>init_error := Some e, init_event := Some True\<rparr>)"
| "init_finish (InstallRaised e) x =
     (Raised e, \<lparr>orchestrator_set = True, init_error = Some e, init_event = Some True\<rparr>)"

fun possible_end :: "'k extension_apps \<Rightarrow> init_end \<Rightarrow> bool" where
  "possible_end apps Completed \<longleftrightarrow> (\<exists>st. setup_extension apps = Inr st)"
| "possible_end apps (SetupRaised e) \<longleftrightarrow> setup_extension apps = Inl e"
| "possible_end apps (InstallRaised e) \<longleftrightarrow> (\<exists>st. setup_extension apps = Inr st)"

text \<open>Concurrent callers, interleaved at their awaits; \<open>k\<close> is a caller.\<close>

type_synonym ext_system = "extension \<times> (nat \<Rightarrow> caller)"

inductive init_step :: "'k extension_apps \<Rightarrow> ext_system \<Rightarrow> ext_system \<Rightarrow> bool" for apps where
  init_call: "cs k = NotCalled \<Longrightarrow> ensure_begin x = (c, x') \<Longrightarrow> init_step apps (x, cs) (x', cs(k := c))"
| init_wake: "cs k = Waiting \<Longrightarrow> init_event x = Some True \<Longrightarrow> init_step apps (x, cs) (x, cs(k := ensure_wake x))"
| init_end: "cs k = Initializing \<Longrightarrow> possible_end apps how \<Longrightarrow> init_finish how x = (c, x') \<Longrightarrow>
    init_step apps (x, cs) (x', cs(k := c))"

inductive_cases init_stepE: "init_step apps (x, cs) s'"

definition ext_reachable :: "'k extension_apps \<Rightarrow> ext_system \<Rightarrow> bool" where
  "ext_reachable apps s \<longleftrightarrow> (init_step apps)\<^sup>*\<^sup>* (initialize_settings, \<lambda>_. NotCalled) s"

text \<open>\<open>stop_extension\<close>: the runtime manager exists once the extension is initialized.\<close>

definition stop_extension :: "'x server_env \<Rightarrow> extension \<Rightarrow> 'x server \<Rightarrow> 'x server" where
  "stop_extension env x s =
     (let s1 = (if orchestrator_set x then s\<lparr>manager := shutdown (manager_services env) (manager s)\<rparr> else s)
      in set_ledger (close_ledger (server_ledger s1)) s1)"

section \<open>The overrides win\<close>

lemma kernel_rule_match:
  assumes "bare k" and "CHR ''/'' \<notin> set b" and "CHR ''/'' \<notin> set e"
  shows "re_match [Lit (lit ''/api/kernels/''), SegPlus, Lit (lit (CHR ''/'' # b))] (kernel_url k e) \<noteq> None \<longleftrightarrow> e = b"
proof -
  have slash: "lit (CHR ''/'' # z) = 47 # lit z" for z by (simp add: lit_def)
  have "fits [Lit a, SegPlus, Lit (47 # lit b)] cs (a @ k @ 47 # lit e) \<longleftrightarrow> e = b \<and> cs = [k]" for a cs
    using assms by (auto simp: no_slash bare_def rsegs_single dest!: path_eq)
  then show ?thesis by (auto simp: re_match_None kernel_url_def slash [of b] slash [of e] simp del: fits.simps re_match.simps)
qed

lemma kernel_url_only:
  "re_match [Lit (lit ''/api/kernels/''), SegPlus, Lit (lit (CHR ''/'' # b))] path \<noteq> None \<Longrightarrow>
    \<exists>k. bare k \<and> path = kernel_url k b"
  unfolding re_match_None by (auto simp: kernel_url_def bare_def no_slash)

text \<open>
  The overrides win and touch nothing else.  Whatever rules the router held, after the
  installation every kernel's interrupt and restart URL resolves to Hypernote's handlers, the startup
  check logs no warning, and every other path resolves as before.
\<close>

theorem overrides_win:
  "(\<forall>k. bare k \<longrightarrow>
      first_matching_handler (install_interrupt_intercept rules) (kernel_url k ''interrupt'')
        = Some KernelInterruptInterceptHandler
    \<and> first_matching_handler (install_interrupt_intercept rules) (kernel_url k ''restart'')
        = Some KernelRestartInterceptHandler)
   \<and> verify_route_overrides (install_interrupt_intercept rules) = []
   \<and> (\<forall>path. (\<forall>k. bare k \<longrightarrow> path \<noteq> kernel_url k ''interrupt'' \<and> path \<noteq> kernel_url k ''restart'')
        \<longrightarrow> first_matching_handler (install_interrupt_intercept rules) path = first_matching_handler rules path)"
proof -
  let ?m = "\<lambda>b. re_match [Lit (lit ''/api/kernels/''), SegPlus, Lit (lit (CHR ''/'' # b))]"
  have first: "first_matching_handler (install_interrupt_intercept rules) path =
      (if ?m ''restart'' path \<noteq> None then Some KernelRestartInterceptHandler
       else if ?m ''interrupt'' path \<noteq> None then Some KernelInterruptInterceptHandler
       else first_matching_handler rules path)" for path
    by (simp add: install_interrupt_intercept_def override_rules_def url_spec_def del: re_match.simps)
  have ours: "first_matching_handler (install_interrupt_intercept rules) (kernel_url k ''interrupt'')
        = Some KernelInterruptInterceptHandler"
    "first_matching_handler (install_interrupt_intercept rules) (kernel_url k ''restart'')
        = Some KernelRestartInterceptHandler" if "bare k" for k
    unfolding first using kernel_rule_match [OF that] by simp_all
  moreover have "verify_route_overrides (install_interrupt_intercept rules) = []"
    by (simp add: verify_route_overrides_def ours)
  moreover have "first_matching_handler (install_interrupt_intercept rules) path = first_matching_handler rules path"
    if "\<forall>k. bare k \<longrightarrow> path \<noteq> kernel_url k ''interrupt'' \<and> path \<noteq> kernel_url k ''restart''" for path
    unfolding first using that kernel_url_only by metis
  ultimately show ?thesis by blast
qed

lemma overrides_win_witness:
  "first_matching_handler (install_interrupt_intercept
     [\<lparr>rule_regex = Some (\<lambda>p. Some True), rule_target = Some (OtherKernelHandler [])\<rparr>])
     (kernel_url (lit ''k1'') ''restart'') = Some KernelRestartInterceptHandler"
  using overrides_win by simp

section \<open>Initialization runs once\<close>

definition init_ok :: "ext_system \<Rightarrow> bool" where
  "init_ok s \<longleftrightarrow>
     (case init_event (fst s) of
        None \<Rightarrow> snd s = (\<lambda>_. NotCalled) \<and> \<not> orchestrator_set (fst s) \<and> init_error (fst s) = None
      | Some False \<Rightarrow> (\<exists>!k. snd s k = Initializing) \<and> range (snd s) \<subseteq> {NotCalled, Waiting, Initializing}
          \<and> \<not> orchestrator_set (fst s) \<and> init_error (fst s) = None
      | Some True \<Rightarrow> Initializing \<notin> range (snd s) \<and> (orchestrator_set (fst s) \<or> init_error (fst s) \<noteq> None))"

lemma init_ok_simps:
  "init_event x = None \<Longrightarrow> init_ok (x, cs) \<longleftrightarrow>
     cs = (\<lambda>_. NotCalled) \<and> \<not> orchestrator_set x \<and> init_error x = None"
  "init_event x = Some False \<Longrightarrow> init_ok (x, cs) \<longleftrightarrow> (\<exists>!k. cs k = Initializing)
     \<and> range cs \<subseteq> {NotCalled, Waiting, Initializing} \<and> \<not> orchestrator_set x \<and> init_error x = None"
  "init_event x = Some True \<Longrightarrow> init_ok (x, cs) \<longleftrightarrow>
     Initializing \<notin> range cs \<and> (orchestrator_set x \<or> init_error x \<noteq> None)"
  by (simp_all add: init_ok_def)

lemma range_upd: "range cs \<subseteq> A \<Longrightarrow> c \<in> A \<Longrightarrow> range (cs(k := c)) \<subseteq> A" "c \<noteq> v \<Longrightarrow> v \<notin> range cs \<Longrightarrow> v \<notin> range (cs(k := c))"
  by auto

lemma init_step_ok: "init_step apps s s' \<Longrightarrow> init_ok s \<Longrightarrow> init_ok s'"
proof (induction rule: init_step.induct)
  case (init_call cs k x c x')
  consider "init_event x = None" | "init_event x = Some False" | "init_event x = Some True" by (cases "init_event x") auto
  then show ?case
  proof cases
    case 1
    with init_call have "cs = (\<lambda>_. NotCalled)" "\<not> orchestrator_set x" "init_error x = None" by (simp_all add: init_ok_simps)
    with 1 init_call(2) show ?thesis by (auto simp: ensure_begin_def init_ok_simps)
  next
    case 2
    with init_call have "\<exists>!k. cs k = Initializing" "range cs \<subseteq> {NotCalled, Waiting, Initializing}"
      and s: "\<not> orchestrator_set x" "init_error x = None" by (simp_all add: init_ok_simps)
    moreover have "c = Waiting" "x' = x" using 2 init_call(2) s by (simp_all add: ensure_begin_def)
    moreover have "(cs(k := Waiting)) i = Initializing \<longleftrightarrow> cs i = Initializing" for i
      using init_call(1) by simp
    ultimately show ?thesis
      using 2 range_upd(1) [of cs _ Waiting k] by (simp add: init_ok_simps del: fun_upd_apply)
  next
    case 3
    with init_call have "Initializing \<notin> range cs" "orchestrator_set x \<or> init_error x \<noteq> None" by (simp_all add: init_ok_simps)
    moreover from this 3 init_call(2) have "c \<noteq> Initializing" "x' = x" by (auto simp: ensure_begin_def split: if_splits)
    moreover from calculation have "Initializing \<notin> range (cs(k := c))" by (intro range_upd(2)) simp_all
    ultimately show ?thesis using 3 by (simp add: init_ok_simps del: fun_upd_apply)
  qed
next
  case (init_wake cs k x)
  then have "Initializing \<notin> range cs" "orchestrator_set x \<or> init_error x \<noteq> None" by (simp_all add: init_ok_simps)
  moreover have "ensure_wake x \<noteq> Initializing" by (simp add: ensure_wake_def split: option.split)
  ultimately show ?case using init_wake(2) range_upd(2) [of "ensure_wake x"] by (simp add: init_ok_simps)
next
  case (init_end cs k how x c x')
  have "Initializing \<in> range cs" using init_end(1) by (metis rangeI)
  then have ev: "init_event x = Some False" using init_end(4) by (auto simp: init_ok_def split: option.splits bool.splits)
  have x': "init_event x' = Some True" "c \<noteq> Initializing" "orchestrator_set x' \<or> init_error x' \<noteq> None"
    using init_end(3) by (cases how; auto)+
  have "k' = k" if "cs k' = Initializing" for k' using ev init_end(1,4) that by (auto simp: init_ok_simps)
  then have "Initializing \<notin> range (cs(k := c))" using x'(2) by auto
  with x' show ?case by (simp add: init_ok_simps)
qed

lemma ext_reachable_ok: "ext_reachable apps s \<Longrightarrow> init_ok s"
  unfolding ext_reachable_def
proof (induction rule: rtranclp_induct)
  case base
  show ?case by (simp add: init_ok_def initialize_settings_def)
qed (rule init_step_ok)

text \<open>
  C20: concurrent first requests initialize once.  In every reachable interleaving at most one caller
  initializes and exactly one does while the event is unset, so every waiting caller is woken; a
  caller that returned finds the orchestrator set; and once the event is set a waiter returns or
  raises the recorded error, so the "did not complete" branch is never taken, and a new caller
  returns or raises the recorded error at once and never initializes a second time.
\<close>

theorem initialization_runs_once:
  assumes "ext_reachable apps (x, cs)"
  shows "(cs k = Initializing \<and> cs k' = Initializing \<longrightarrow> k' = k)
    \<and> (cs k = Waiting \<and> init_event x = Some False \<longrightarrow> (\<exists>i. cs i = Initializing))
    \<and> (cs k = Waiting \<longrightarrow> init_event x \<noteq> None)
    \<and> (init_event x = Some True \<longrightarrow>
         ensure_wake x = (case init_error x of Some e \<Rightarrow> Raised e | None \<Rightarrow> Returned)
       \<and> ensure_begin x = (if orchestrator_set x then Returned else Raised (the (init_error x)), x))"
proof -
  have ok: "init_ok (x, cs)" using ext_reachable_ok [OF assms] .
  consider "init_event x = None" | "init_event x = Some False" | "init_event x = Some True" by (cases "init_event x") auto
  then show ?thesis
  proof cases
    case 3
    with ok have "Initializing \<notin> range cs" and d: "orchestrator_set x \<or> init_error x \<noteq> None"
      by (auto simp: init_ok_simps)
    then have "cs i \<noteq> Initializing" for i by (metis rangeI)
    with 3 d show ?thesis by (auto simp: ensure_wake_def ensure_begin_def split: option.split)
  qed (use ok in \<open>auto simp: init_ok_simps\<close>)
qed

lemma initialization_runs_once_witness:
  "ensure_begin \<lparr>orchestrator_set = False, init_error = Some attribute_error, init_event = Some True\<rparr>
     = (Raised attribute_error, \<lparr>orchestrator_set = False, init_error = Some attribute_error, init_event = Some True\<rparr>)"
proof -
  define apps :: "unit extension_apps" where "apps = [(nbmodel_extension, [\<lparr>app_stack = None\<rparr>])]"
  have f: "setup_extension apps = Inl attribute_error"
    by (simp add: apps_def setup_extension_def get_execution_stack_def get_extension_instance_def)
  let ?x = "\<lparr>orchestrator_set = False, init_error = Some attribute_error, init_event = Some True\<rparr>"
  have a: "init_step apps (initialize_settings, \<lambda>_. NotCalled)
      (initialize_settings\<lparr>init_event := Some False\<rparr>, (\<lambda>_. NotCalled)(0 := Initializing))"
    by (rule init_call) (simp_all add: ensure_begin_def initialize_settings_def)
  have b: "init_step apps (initialize_settings\<lparr>init_event := Some False\<rparr>, (\<lambda>_. NotCalled)(0 := Initializing))
      (?x, ((\<lambda>_. NotCalled)(0 := Initializing))(0 := Raised attribute_error))"
    by (rule init_end [of _ _ _ "SetupRaised attribute_error"]) (simp_all add: f initialize_settings_def)
  have "ext_reachable apps (?x, ((\<lambda>_. NotCalled)(0 := Initializing))(0 := Raised attribute_error))"
    unfolding ext_reachable_def using a b by (meson converse_rtranclp_into_rtranclp rtranclp.rtrancl_refl)
  from initialization_runs_once [OF this, of 0 0] show ?thesis by simp
qed

end
