(* ===== verification/Hn_Text.thy ===== *)
theory Hn_Text
  imports Hn_Json
begin

text \<open>
  The text previews of the SDK (\<^verbatim>\<open>sdk.py\<close>): Python's whitespace splitting and stripping, the removal of
  ANSI escape sequences, truncation with an ellipsis, and the text of a kernel output.
\<close>

section \<open>Python's whitespace\<close>

text \<open>\<open>str.isspace\<close>: the code points \<open>str.split\<close> and \<open>str.strip\<close> treat as whitespace.\<close>

definition is_space :: "nat \<Rightarrow> bool" where
  "is_space c \<longleftrightarrow> 9 \<le> c \<and> c \<le> 13 \<or> 28 \<le> c \<and> c \<le> 32 \<or> 8192 \<le> c \<and> c \<le> 8202
     \<or> c \<in> {133, 160, 5760, 8232, 8233, 8239, 8287, 12288}"

function split_ws :: "pystr \<Rightarrow> pystr list" where
  "split_ws [] = []"
| "split_ws (c # s) =
     (if is_space c then split_ws s
      else (c # takeWhile (\<lambda>x. \<not> is_space x) s) # split_ws (dropWhile (\<lambda>x. \<not> is_space x) s))"
  by pat_completeness auto
termination
  by (relation "measure length") (auto simp: less_Suc_eq_le length_dropWhile_le)

definition rstrip :: "pystr \<Rightarrow> pystr" where
  "rstrip s = rev (dropWhile is_space (rev s))"

definition strip :: "pystr \<Rightarrow> pystr" where
  "strip s = rstrip (dropWhile is_space s)"

section \<open>Normalisation\<close>

text \<open>
  \<open>ANSI_ESCAPE_RE.sub("", s)\<close>: an escape, a bracket, parameter characters, intermediate characters
  and a final one.  The three classes are disjoint, so greedy matching never backtracks.
\<close>

definition after_csi :: "pystr \<Rightarrow> pystr option" where
  "after_csi s =
     (case s of
        [] \<Rightarrow> None
      | b # t \<Rightarrow>
          (case dropWhile (\<lambda>c. 32 \<le> c \<and> c \<le> 47) (dropWhile (\<lambda>c. 48 \<le> c \<and> c \<le> 63) t) of
             [] \<Rightarrow> None
           | f # u \<Rightarrow> if b = 91 \<and> 64 \<le> f \<and> f \<le> 126 then Some u else None))"

lemma after_csi_length:
  assumes "after_csi s = Some u"
  shows "length u < length s"
proof -
  obtain b t f where s: "s = b # t"
    and d: "dropWhile (\<lambda>c. 32 \<le> c \<and> c \<le> 47) (dropWhile (\<lambda>c. 48 \<le> c \<and> c \<le> 63) t) = f # u"
    using assms by (auto simp: after_csi_def split: list.splits if_splits)
  have "length (f # u) \<le> length t"
    unfolding d [symmetric] by (rule order_trans [OF length_dropWhile_le length_dropWhile_le])
  with s show ?thesis by simp
qed

function strip_ansi :: "pystr \<Rightarrow> pystr" where
  "strip_ansi [] = []"
| "strip_ansi (c # s) =
     (if c = 27 then (case after_csi s of Some u \<Rightarrow> strip_ansi u | None \<Rightarrow> c # strip_ansi s)
      else c # strip_ansi s)"
  by pat_completeness auto
termination
  by (relation "measure length") (auto dest: after_csi_length)

definition normalize_preview_text :: "bool \<Rightarrow> pystr \<Rightarrow> pystr" where
  "normalize_preview_text preserve_lines s =
     (let text = strip_ansi s
      in if preserve_lines then text else py_join [32] (split_ws text))"

section \<open>Truncation\<close>

definition ellipsis :: pystr where "ellipsis = [8230]"

text \<open>
  \<open>_truncate_text\<close> answers the text and, when it cut it, the total number of characters; a
  missing text stays missing.
\<close>

definition truncate_text :: "pystr option \<Rightarrow> int \<Rightarrow> bool \<Rightarrow> bool \<Rightarrow> pystr option \<times> nat option" where
  "truncate_text v limit full preserve_lines =
     (case v of
        None \<Rightarrow> (None, None)
      | Some s \<Rightarrow>
          let normalized = normalize_preview_text preserve_lines s
          in if full \<or> limit \<le> 0 \<or> int (length normalized) \<le> limit then (Some normalized, None)
             else
               let cut = rstrip (take (nat (max (limit - 1) 0)) normalized);
                   text = (if cut \<noteq> [] \<and> length normalized > length cut then cut @ ellipsis else cut)
               in (Some text, Some (length normalized)))"

definition render_text_preview :: "pystr option \<Rightarrow> int \<Rightarrow> bool \<Rightarrow> bool \<Rightarrow> jobj" where
  "render_text_preview v limit full preserve_lines =
     (case truncate_text v limit full preserve_lines of
        (text, None) \<Rightarrow> [(lit ''text'', opt_str text)]
      | (text, Some n) \<Rightarrow>
          [(lit ''text'', opt_str text), (lit ''truncated'', JBool True), (lit ''total_chars'', JInt (int n))])"

text \<open>\<open>_truncate\<close>, for sources; a limit of zero or less would cut from the end, as the slice does.\<close>

definition slice_to :: "int \<Rightarrow> pystr \<Rightarrow> pystr" where
  "slice_to n s = take (nat (if n < 0 then int (length s) + n else n)) s"

definition truncate_source :: "pystr \<Rightarrow> int \<Rightarrow> pystr" where
  "truncate_source s limit = (if int (length s) \<le> limit then s else slice_to (limit - 1) s @ ellipsis)"

section \<open>The text of an output\<close>

text \<open>
  \<open>default=str\<close> never applies: outputs come from JSON.  \<open>pr\<close> is \<open>str.isprintable\<close> beyond ASCII.
\<close>

definition joined_parts :: "(nat \<Rightarrow> bool) \<Rightarrow> json \<Rightarrow> pystr" where
  "joined_parts pr j = (case j of JList parts \<Rightarrow> concat (map (py_str pr) parts) | _ \<Rightarrow> py_str pr j)"

definition output_type_is :: "string \<Rightarrow> jobj \<Rightarrow> bool" where
  "output_type_is t output \<longleftrightarrow> field ''output_type'' output = Some (JStr (lit t))"

definition error_text :: "(nat \<Rightarrow> bool) \<Rightarrow> jobj \<Rightarrow> pyexc + pystr" where
  "error_text pr output =
     (let traceback = opt_json (field ''traceback'' output)
      in if truthy traceback
         then (case py_list traceback of
                 Inl e \<Rightarrow> Inl e
               | Inr lines \<Rightarrow> Inr (py_join [10] (map (py_str pr) lines)))
         else Inr (strip (py_str pr (get_or ''ename'' (JStr (lit ''Error'')) output) @ lit '': ''
                 @ py_str pr (get_or ''evalue'' (JStr []) output))))"

definition output_text :: "(nat \<Rightarrow> bool) \<Rightarrow> jobj \<Rightarrow> pyexc + pystr" where
  "output_text pr output =
     (if output_type_is ''stream'' output then Inr (joined_parts pr (get_or ''text'' (JStr []) output))
      else if output_type_is ''error'' output then error_text pr output
      else
        let plain = (case field ''data'' output of
                       Some (JDict data) \<Rightarrow> map_option (joined_parts pr) (field ''text/plain'' data)
                     | _ \<Rightarrow> None)
        in case plain of
             Some s \<Rightarrow> Inr s
           | None \<Rightarrow>
               (case field ''text'' output of
                  Some t \<Rightarrow> Inr (py_str pr t)
                | None \<Rightarrow> Inr (normalize_preview_text False (dumps default_dump (JDict output)))))"

section \<open>Lengths\<close>

lemma length_rstrip: "length (rstrip s) \<le> length s"
  using length_dropWhile_le [of is_space "rev s"] by (simp add: rstrip_def)

lemma rstrip_prefix: "\<exists>n. rstrip s = take n s"
proof -
  have "rev s = takeWhile is_space (rev s) @ dropWhile is_space (rev s)" by simp
  then have "s = rstrip s @ rev (takeWhile is_space (rev s))"
    by (metis rev_append rev_rev_ident rstrip_def)
  then show ?thesis by (metis append_eq_conv_conj)
qed

lemma length_strip_ansi: "length (strip_ansi s) \<le> length s"
proof (induction s rule: strip_ansi.induct)
  case (2 c s)
  show ?case
  proof (cases "c = 27")
    case True
    then show ?thesis
    proof (cases "after_csi s")
      case (Some u)
      with True 2(2) [OF True Some] after_csi_length [OF Some] show ?thesis by simp
    qed (use True 2(1) in simp)
  qed (use 2(3) in simp)
qed simp

text \<open>Without its whitespace, what normalisation keeps; with it, no run of whitespace but single blanks.\<close>

lemma split_ws_simps:
  "split_ws [] = []"
  "is_space c \<Longrightarrow> split_ws (c # s) = split_ws s"
  "\<not> is_space c \<Longrightarrow> split_ws (c # s) =
     (c # takeWhile (\<lambda>x. \<not> is_space x) s) # split_ws (dropWhile (\<lambda>x. \<not> is_space x) s)"
  by (simp_all only: split_ws.simps if_True if_False)

declare split_ws.simps [simp del]

lemma split_ws_words: "w \<in> set (split_ws s) \<Longrightarrow> w \<noteq> [] \<and> (\<forall>c \<in> set w. \<not> is_space c)"
proof (induction s rule: split_ws.induct)
  case (2 c s)
  show ?case
  proof (cases "is_space c")
    case True
    then show ?thesis using 2(1) 2(3) unfolding split_ws_simps(2) [OF True] by blast
  next
    case False
    then consider "w = c # takeWhile (\<lambda>x. \<not> is_space x) s" | "w \<in> set (split_ws (dropWhile (\<lambda>x. \<not> is_space x) s))"
      using 2(3) unfolding split_ws_simps(3) [OF False] by (meson set_ConsD)
    then show ?thesis
    proof cases
      case 1
      then show ?thesis using False by (metis list.distinct(1) set_ConsD set_takeWhileD)
    qed (use 2(2) [OF False] in blast)
  qed
qed (simp add: split_ws_simps(1))

lemma split_ws_concat: "concat (split_ws s) = filter (\<lambda>c. \<not> is_space c) s"
proof (induction s rule: split_ws.induct)
  case (2 c s)
  let ?P = "\<lambda>x. \<not> is_space x"
  have "filter ?P s = filter ?P (takeWhile ?P s) @ filter ?P (dropWhile ?P s)"
    by (metis filter_append takeWhile_dropWhile_id)
  also have "filter ?P (takeWhile ?P s) = takeWhile ?P s" by (rule filter_True) (blast dest: set_takeWhileD)
  finally have f: "filter ?P s = takeWhile ?P s @ filter ?P (dropWhile ?P s)" .
  show ?case
  proof (cases "is_space c")
    case True
    then show ?thesis using 2(1) [OF True] unfolding split_ws_simps(2) [OF True] by simp
  next
    case False
    then show ?thesis using 2(2) [OF False] f by (simp only: split_ws_simps filter.simps concat.simps append_Cons if_True not_False_eq_True)
  qed
qed (simp add: split_ws_simps(1))

lemma join_words:
  assumes "\<And>w. w \<in> set ws \<Longrightarrow> \<forall>c \<in> set w. \<not> is_space c"
  shows "filter (\<lambda>c. \<not> is_space c) (py_join [32] ws) = concat ws"
    and "c \<in> set (py_join [32] ws) \<Longrightarrow> is_space c \<Longrightarrow> c = 32"
  using assms
proof (induction "[32] :: pystr" ws rule: py_join.induct)
  case (3 x y zs)
  have sp: "is_space 32" by (simp add: is_space_def)
  { case 1
    then have "filter (\<lambda>c. \<not> is_space c) x = x" by (auto simp: filter_id_conv)
    moreover have "filter (\<lambda>c. \<not> is_space c) (py_join [32] (y # zs)) = concat (y # zs)"
      using 1 by (intro 3(1)) (meson list.set_intros)
    ultimately show ?case using sp by simp }
  { case 2
    with 3 show ?case by auto }
qed (auto simp: filter_id_conv)

section \<open>Properties\<close>

text \<open>
  C28: previews are bounded and honest.  Unless it is asked for in full, a preview with a positive
  limit has at most that many characters; it is reported as truncated exactly when the normalised
  text is longer, with that text's length, and is then a prefix of it closed by an ellipsis (or
  empty); otherwise it is the normalised text.  Normalising without line breaks leaves no whitespace
  but blanks and every other character of the text that is not part of an escape sequence.
\<close>

theorem previews_are_bounded:
  assumes "truncate_text (Some s) limit full pl = (t, n)" and "0 < limit"
  shows "\<exists>text. t = Some text
    \<and> (\<not> full \<longrightarrow> int (length text) \<le> limit)
    \<and> n = (if \<not> full \<and> limit < int (length (normalize_preview_text pl s))
           then Some (length (normalize_preview_text pl s)) else None)
    \<and> (if n = None then text = normalize_preview_text pl s
       else text = [] \<or> (\<exists>k. text = take k (normalize_preview_text pl s) @ ellipsis))
    \<and> (\<not> pl \<longrightarrow> (\<forall>c \<in> set (normalize_preview_text pl s). is_space c \<longrightarrow> c = 32)
         \<and> filter (\<lambda>c. \<not> is_space c) (normalize_preview_text pl s)
             = filter (\<lambda>c. \<not> is_space c) (strip_ansi s))"
proof -
  let ?norm = "normalize_preview_text pl s"
  let ?raw = "take (nat (limit - 1)) ?norm"
  have "length (rstrip ?raw) \<le> nat (limit - 1)" using length_rstrip [of ?raw] by simp
  then have len: "int (length (rstrip ?raw)) \<le> limit - 1" using assms(2) by linarith
  obtain k where "rstrip ?raw = take k ?raw" using rstrip_prefix by blast
  then have pre: "rstrip ?raw = take (min k (nat (limit - 1))) ?norm" by simp
  have words: "\<not> pl \<Longrightarrow> (\<forall>c \<in> set ?norm. is_space c \<longrightarrow> c = 32)
      \<and> filter (\<lambda>c. \<not> is_space c) ?norm = filter (\<lambda>c. \<not> is_space c) (strip_ansi s)"
    using join_words [of "split_ws (strip_ansi s)"] split_ws_words split_ws_concat
    by (simp add: normalize_preview_text_def)
  show ?thesis
  proof (cases "\<not> full \<and> limit < int (length ?norm)")
    case True
    then have "t = Some (if rstrip ?raw \<noteq> [] \<and> length ?norm > length (rstrip ?raw)
        then rstrip ?raw @ ellipsis else rstrip ?raw)" "n = Some (length ?norm)"
      using assms by (auto simp: truncate_text_def Let_def max_def)
    moreover have "length ?norm > length (rstrip ?raw)" using True len by linarith
    moreover have "int (length (rstrip ?raw @ ellipsis)) \<le> limit" using len by (simp add: ellipsis_def)
    ultimately show ?thesis using True words pre assms(2) by auto
  next
    case False
    then have "t = Some ?norm" "n = None" using assms by (auto simp: truncate_text_def Let_def)
    with False words assms(2) show ?thesis by auto
  qed
qed

lemma previews_are_bounded_witness:
  "\<exists>text. truncate_text (Some (lit ''two  words and more'')) 5 False False = (Some text, Some 18) \<and> length text \<le> 5"
proof -
  have n: "normalize_preview_text False (lit ''two  words and more'') = lit ''two words and more''"
    by (simp add: normalize_preview_text_def lit_def split_ws.simps is_space_def)
  obtain t m where e: "truncate_text (Some (lit ''two  words and more'')) 5 False False = (t, m)" by fastforce
  from previews_are_bounded [OF e] show ?thesis using e by (auto simp: n)
qed

end
