(* ===== verification/Hn_Codec.thy ===== *)
theory Hn_Codec
  imports Hn_Json
begin

text \<open>
  The codecs of the standard library the SDK's snapshot tokens go through: UTF-8 and URL-safe base64
  as CPython decodes it, each with its round trip.  Bytes are naturals below 256.
\<close>

section \<open>UTF-8\<close>

definition surrogate :: "nat \<Rightarrow> bool" where "surrogate c \<longleftrightarrow> 55296 \<le> c \<and> c \<le> 57343"

definition scalar :: "nat \<Rightarrow> bool" where "scalar c \<longleftrightarrow> c < 1114112 \<and> \<not> surrogate c"

text \<open>\<open>str.encode()\<close>; a surrogate cannot be encoded.\<close>

definition utf8_char :: "nat \<Rightarrow> nat list" where
  "utf8_char c =
     (if c < 128 then [c]
      else if c < 2048 then [192 + c div 64, 128 + c mod 64]
      else if c < 65536 then [224 + c div 4096, 128 + c div 64 mod 64, 128 + c mod 64]
      else [240 + c div 262144, 128 + c div 4096 mod 64, 128 + c div 64 mod 64, 128 + c mod 64])"

definition utf8_encode :: "pystr \<Rightarrow> nat list option" where
  "utf8_encode s = (if list_all scalar s then Some (concat (map utf8_char s)) else None)"

text \<open>\<open>s.encode()\<close>, which refuses surrogates.\<close>

definition encode :: "pystr \<Rightarrow> pyexc + nat list" where
  "encode s = (case utf8_encode s of None \<Rightarrow> Inl (OtherError (lit ''UnicodeEncodeError'') []) | Some b \<Rightarrow> Inr b)"

definition cont :: "nat \<Rightarrow> bool" where "cont b \<longleftrightarrow> 128 \<le> b \<and> b < 192"

text \<open>One well-formed sequence at the head of the bytes, with its length.\<close>

definition utf8_head :: "nat list \<Rightarrow> (nat \<times> nat) option" where
  "utf8_head bs =
     (case bs of
        [] \<Rightarrow> None
      | a # _ \<Rightarrow>
          (let b = bs ! 1; c = bs ! 2; d = bs ! 3;
               two = (a - 192) * 64 + (b - 128);
               three = (a - 224) * 4096 + (b - 128) * 64 + (c - 128);
               four = (a - 240) * 262144 + (b - 128) * 4096 + (c - 128) * 64 + (d - 128)
           in if a < 128 then Some (a, 1)
              else if 192 \<le> a \<and> a < 224 \<and> length bs \<ge> 2 \<and> cont b \<and> 128 \<le> two then Some (two, 2)
              else if 224 \<le> a \<and> a < 240 \<and> length bs \<ge> 3 \<and> cont b \<and> cont c \<and> 2048 \<le> three
                \<and> \<not> surrogate three then Some (three, 3)
              else if 240 \<le> a \<and> a < 248 \<and> length bs \<ge> 4 \<and> cont b \<and> cont c \<and> cont d
                \<and> 65536 \<le> four \<and> four < 1114112 then Some (four, 4)
              else None))"

lemma utf8_head_length: "utf8_head bs = Some (c, n) \<Longrightarrow> 0 < n \<and> n \<le> length bs"
  by (auto simp: utf8_head_def Let_def split: list.splits if_splits)

text \<open>\<open>bytes.decode()\<close>.\<close>

function utf8_decode :: "nat list \<Rightarrow> pystr option" where
  "utf8_decode bs =
     (if bs = [] then Some []
      else case utf8_head bs of
             None \<Rightarrow> None
           | Some (c, n) \<Rightarrow> map_option ((#) c) (utf8_decode (drop n bs)))"
  by pat_completeness auto
termination
  by (relation "measure length") (auto dest: utf8_head_length)

declare utf8_decode.simps [simp del]

lemma base64_digits:
  fixes c :: nat
  shows "c div 64 * 64 + c mod 64 = c"
    and "c div 4096 * 4096 + c div 64 mod 64 * 64 + c mod 64 = c"
    and "c div 262144 * 262144 + c div 4096 mod 64 * 4096 + c div 64 mod 64 * 64 + c mod 64 = c"
proof -
  have d: "c div 64 div 64 = c div 4096" "c div 4096 div 64 = c div 262144"
    by (simp_all add: div_mult2_eq [symmetric])
  have 1: "c div 64 * 64 + c mod 64 = c" by simp
  have 2: "c div 64 div 64 * 64 + c div 64 mod 64 = c div 64" by simp
  have 3: "c div 4096 div 64 * 64 + c div 4096 mod 64 = c div 4096" by simp
  show "c div 64 * 64 + c mod 64 = c" by (rule 1)
  show "c div 4096 * 4096 + c div 64 mod 64 * 64 + c mod 64 = c" using 1 2 unfolding d by linarith
  show "c div 262144 * 262144 + c div 4096 mod 64 * 4096 + c div 64 mod 64 * 64 + c mod 64 = c"
    using 1 2 3 unfolding d by linarith
qed

lemma utf8_char_head:
  assumes "scalar c"
  shows "utf8_head (utf8_char c @ bs) = Some (c, length (utf8_char c))"
proof -
  have low: "c mod 64 < 64" "c div 64 mod 64 < 64" "c div 4096 mod 64 < 64" by simp_all
  consider "c < 128" | "128 \<le> c" "c < 2048" | "2048 \<le> c" "c < 65536" | "65536 \<le> c" by linarith
  then show ?thesis
  proof cases
    case 1
    then show ?thesis by (simp add: utf8_head_def utf8_char_def)
  next
    case 2
    then have "utf8_char c = [192 + c div 64, 128 + c mod 64]" "192 + c div 64 < 224"
      by (simp_all add: utf8_char_def)
    then show ?thesis using low 2(1) base64_digits(1) [of c] by (simp add: utf8_head_def cont_def Let_def)
  next
    case 3
    then have "utf8_char c = [224 + c div 4096, 128 + c div 64 mod 64, 128 + c mod 64]" "224 + c div 4096 < 240"
      by (simp_all add: utf8_char_def)
    then show ?thesis using low 3(1) assms base64_digits(2) [of c]
      by (simp add: utf8_head_def cont_def Let_def scalar_def)
  next
    case 4
    then have "utf8_char c = [240 + c div 262144, 128 + c div 4096 mod 64, 128 + c div 64 mod 64, 128 + c mod 64]"
      "240 + c div 262144 < 248"
      using assms by (simp_all add: utf8_char_def scalar_def less_mult_imp_div_less)
    then show ?thesis using low 4 assms base64_digits(3) [of c]
      by (simp add: utf8_head_def cont_def Let_def scalar_def)
  qed
qed

lemma utf8_ascii: "\<forall>c \<in> set s. c < 128 \<Longrightarrow> utf8_encode s = Some s"
proof -
  assume a: "\<forall>c \<in> set s. c < 128"
  then have "list_all scalar s" by (auto simp: list_all_iff scalar_def surrogate_def)
  moreover have "concat (map utf8_char s) = s" using a by (induction s) (auto simp: utf8_char_def)
  ultimately show ?thesis by (simp add: utf8_encode_def)
qed

lemma utf8_char_length: "0 < length (utf8_char c)"
  by (simp add: utf8_char_def)

lemma utf8_round_trip: "utf8_encode s = Some bs \<Longrightarrow> utf8_decode bs = Some s"
proof -
  have "list_all scalar s \<Longrightarrow> utf8_decode (concat (map utf8_char s)) = Some s"
  proof (induction s)
    case (Cons c s)
    then have "utf8_head (utf8_char c @ concat (map utf8_char s)) = Some (c, length (utf8_char c))"
      using utf8_char_head by simp
    moreover have "utf8_char c @ concat (map utf8_char s) \<noteq> []" using utf8_char_length [of c] by auto
    ultimately show ?case using Cons by (subst utf8_decode.simps) simp
  qed (simp add: utf8_decode.simps)
  then show "utf8_encode s = Some bs \<Longrightarrow> utf8_decode bs = Some s"
    by (auto simp: utf8_encode_def split: if_splits)
qed

section \<open>URL-safe base64\<close>

definition b64_char :: "nat \<Rightarrow> nat" where
  "b64_char n =
     (if n < 26 then 65 + n else if n < 52 then 71 + n else if n < 62 then n - 4
      else if n = 62 then 45 else 95)"

fun urlsafe_b64encode :: "nat list \<Rightarrow> pystr" where
  "urlsafe_b64encode [] = []"
| "urlsafe_b64encode [a] = [b64_char (a div 4), b64_char (a mod 4 * 16), 61, 61]"
| "urlsafe_b64encode [a, b] =
     [b64_char (a div 4), b64_char (a mod 4 * 16 + b div 16), b64_char (b mod 16 * 4), 61]"
| "urlsafe_b64encode (a # b # c # bs) =
     b64_char (a div 4) # b64_char (a mod 4 * 16 + b div 16) # b64_char (b mod 16 * 4 + c div 64)
       # b64_char (c mod 64) # urlsafe_b64encode bs"

text \<open>
  \<open>urlsafe_b64decode\<close>: \<open>-\<close> and \<open>_\<close> stand for \<open>+\<close> and \<open>/\<close>; then \<open>binascii.a2b_base64\<close> in its
  non-strict mode, which skips other characters, stops at complete padding, and fails when a
  group is left incomplete.  \<open>pos\<close> is the position in the group, \<open>left\<close> the bits left over.
\<close>

definition b64_val :: "nat \<Rightarrow> nat option" where
  "b64_val ch =
     (if 65 \<le> ch \<and> ch \<le> 90 then Some (ch - 65)
      else if 97 \<le> ch \<and> ch \<le> 122 then Some (ch - 71)
      else if 48 \<le> ch \<and> ch \<le> 57 then Some (ch + 4)
      else if ch = 45 \<or> ch = 43 then Some 62
      else if ch = 95 \<or> ch = 47 then Some 63
      else None)"

fun a2b_base64 :: "nat \<Rightarrow> nat \<Rightarrow> nat \<Rightarrow> pystr \<Rightarrow> nat list option" where
  "a2b_base64 pos left pads [] = (if pos = 0 then Some [] else None)"
| "a2b_base64 pos left pads (ch # s) =
     (if ch = 61 then
        (if 2 \<le> pos \<and> 4 \<le> pos + Suc pads then Some []
         else a2b_base64 pos left (if 2 \<le> pos then Suc pads else pads) s)
      else case b64_val ch of
             None \<Rightarrow> a2b_base64 pos left pads s
           | Some v \<Rightarrow>
               if pos = 0 then a2b_base64 1 v 0 s
               else if pos = 1 then map_option ((#) (left * 4 + v div 16)) (a2b_base64 2 (v mod 16) 0 s)
               else if pos = 2 then map_option ((#) (left * 16 + v div 4)) (a2b_base64 3 (v mod 4) 0 s)
               else map_option ((#) (left * 64 + v)) (a2b_base64 0 0 0 s))"

definition urlsafe_b64decode :: "pystr \<Rightarrow> nat list option" where
  "urlsafe_b64decode s = a2b_base64 0 0 0 s"

lemma b64_val_char: "n < 64 \<Longrightarrow> b64_val (b64_char n) = Some n \<and> b64_char n \<noteq> 61"
  by (auto simp: b64_val_def b64_char_def)

lemma a2b_char:
  "n < 64 \<Longrightarrow> a2b_base64 pos left pads (b64_char n # s) =
     (if pos = 0 then a2b_base64 1 n 0 s
      else if pos = 1 then map_option ((#) (left * 4 + n div 16)) (a2b_base64 2 (n mod 16) 0 s)
      else if pos = 2 then map_option ((#) (left * 16 + n div 4)) (a2b_base64 3 (n mod 4) 0 s)
      else map_option ((#) (left * 64 + n)) (a2b_base64 0 0 0 s))"
  using b64_val_char [of n] by simp

lemma a2b_pad:
  "a2b_base64 pos left pads (61 # s) =
     (if 2 \<le> pos \<and> 4 \<le> pos + Suc pads then Some []
      else a2b_base64 pos left (if 2 \<le> pos then Suc pads else pads) s)"
  by simp

declare a2b_base64.simps(2) [simp del]

lemma sextets:
  assumes "a < 256" and "b < 256" and "c < (256 :: nat)"
  shows "a div 4 < 64" "a mod 4 * 16 < 64" "a mod 4 * 16 + b div 16 < 64" "b mod 16 * 4 < 64"
    "b mod 16 * 4 + c div 64 < 64" "c mod 64 < 64"
    "a div 4 * 4 + (a mod 4 * 16 + b div 16) div 16 = a" "(a mod 4 * 16 + b div 16) mod 16 = b div 16"
    "a div 4 * 4 + a mod 4 * 16 div 16 = a"
    "b div 16 * 16 + (b mod 16 * 4 + c div 64) div 4 = b" "(b mod 16 * 4 + c div 64) mod 4 = c div 64"
    "b div 16 * 16 + b mod 16 * 4 div 4 = b" "c div 64 * 64 + c mod 64 = c"
proof -
  have q: "a div 4 < 64" "b div 16 < 16" "c div 64 < 4" using assms by auto
  have r: "a mod 4 < 4" "b mod 16 < 16" "c mod 64 < 64" by simp_all
  show "a div 4 < 64" "a mod 4 * 16 < 64" "a mod 4 * 16 + b div 16 < 64" "b mod 16 * 4 < 64"
    "b mod 16 * 4 + c div 64 < 64" "c mod 64 < 64"
    using q r by linarith+
  have "(a mod 4 * 16 + b div 16) div 16 = a mod 4" "(b mod 16 * 4 + c div 64) div 4 = b mod 16"
    using q(2,3) by simp_all
  then show "a div 4 * 4 + (a mod 4 * 16 + b div 16) div 16 = a" "b div 16 * 16 + (b mod 16 * 4 + c div 64) div 4 = b"
    by simp_all
  show "(a mod 4 * 16 + b div 16) mod 16 = b div 16" "(b mod 16 * 4 + c div 64) mod 4 = c div 64"
    using q(2,3) by simp_all
qed simp_all

lemma b64_round_trip:
  "\<forall>b \<in> set bs. b < 256 \<Longrightarrow> urlsafe_b64decode (urlsafe_b64encode bs) = Some bs"
  unfolding urlsafe_b64decode_def
proof (induction bs rule: urlsafe_b64encode.induct)
  case (2 a)
  then show ?case using sextets [of a 0 0] by (simp add: a2b_char a2b_pad)
next
  case (3 a b)
  then show ?case using sextets [of a b 0] by (simp add: a2b_char a2b_pad)
next
  case (4 a b c bs)
  define p q r where "p = b div 16" and "q = b mod 16" and "r = c div 64"
  have pqr: "p < 16" "q < 16" "r < 4" "p * 16 + q = b" using 4(2) by (auto simp: p_def q_def r_def)
  note s = sextets [of a b c, folded p_def q_def r_def]
  show ?case
    using s(1,3,5,6) pqr 4 by (simp add: a2b_char a2b_pad p_def [symmetric] q_def [symmetric] r_def [symmetric])
      (simp add: r_def)
qed simp

lemma b64_ascii: "\<forall>b \<in> set bs. b < 256 \<Longrightarrow> \<forall>c \<in> set (urlsafe_b64encode bs). c < 128"
proof -
  have "b64_char n < 128" for n by (auto simp: b64_char_def)
  then show ?thesis by (induction bs rule: urlsafe_b64encode.induct) auto
qed

end
