(* ===== verification/Hn_Cells.thy ===== *)
theory Hn_Cells
  imports Hn_Text Hn_Codec
begin

text \<open>
  What the SDK shows of cells (\<^verbatim>\<open>sdk.py\<close>): the state of a cell with its previews, the summaries of
  its outputs, the raw MIME bundles with the check that they are raw, the image files, and the
  aggregates and compact views of a notebook's status.  Outputs are dictionaries, as nbformat
  requires.  \<open>str.lower\<close>, \<open>hashlib\<close> (on bytes) and \<open>base64.b64decode\<close> are parameters.
\<close>

record text_env =
  printable :: "nat \<Rightarrow> bool"
  lower_case :: "pystr \<Rightarrow> pystr"
  sha1_hex :: "nat list \<Rightarrow> pystr"
  sha256_hex :: "nat list \<Rightarrow> pystr"
  b64_bytes :: "pystr \<Rightarrow> pyexc + nat list"

definition hypernote_error :: "pystr \<Rightarrow> pyexc" where
  "hypernote_error m = OtherError (lit ''HypernoteError'') m"

section \<open>Types\<close>

datatype cell_type = CODE | MARKDOWN | RAW

fun cell_type_value :: "cell_type \<Rightarrow> pystr" where
  "cell_type_value CODE = lit ''code''"
| "cell_type_value MARKDOWN = lit ''markdown''"
| "cell_type_value RAW = lit ''raw''"

text \<open>\<open>CellType(x)\<close>.\<close>

definition cell_type_of :: "(nat \<Rightarrow> bool) \<Rightarrow> json \<Rightarrow> pyexc + cell_type" where
  "cell_type_of pr j =
     (if j = JStr (lit ''code'') then Inr CODE
      else if j = JStr (lit ''markdown'') then Inr MARKDOWN
      else if j = JStr (lit ''raw'') then Inr RAW
      else Inl (ValueError (py_repr pr j @ lit '' is not a valid CellType'')))"

datatype change_kind = ADDED | DELETED | MOVED | SOURCE_EDITED | OUTPUT_CHANGED | EXECUTION_COUNT

fun change_kind_value :: "change_kind \<Rightarrow> pystr" where
  "change_kind_value ADDED = lit ''added''"
| "change_kind_value DELETED = lit ''deleted''"
| "change_kind_value MOVED = lit ''moved''"
| "change_kind_value SOURCE_EDITED = lit ''source_edited''"
| "change_kind_value OUTPUT_CHANGED = lit ''output_changed''"
| "change_kind_value EXECUTION_COUNT = lit ''execution_count''"

text \<open>\<open>Snapshot\<close>; the timestamp is a float, carried as its text.\<close>

record snapshot =
  snap_token :: pystr
  snap_timestamp :: pystr
  snap_cell_count :: nat

definition snapshot_dict :: "snapshot \<Rightarrow> json" where
  "snapshot_dict s = JDict
     [(lit ''token'', JStr (snap_token s)), (lit ''timestamp'', JFloat (snap_timestamp s)),
      (lit ''cell_count'', JInt (int (snap_cell_count s)))]"

text \<open>\<open>CellStatus\<close>.\<close>

record cell_status =
  cs_id :: json
  cs_type :: cell_type
  cs_changed :: bool
  cs_change_kinds :: "change_kind list"
  cs_source :: "pystr option"
  cs_outputs :: "jobj list option"
  cs_execution_count :: json

definition outputs_or_empty :: "cell_status \<Rightarrow> jobj list" where
  "outputs_or_empty c = (case cs_outputs c of None \<Rightarrow> [] | Some os \<Rightarrow> os)"

definition kinds_json :: "change_kind list \<Rightarrow> json" where
  "kinds_json ks = JList (map (\<lambda>k. JStr (change_kind_value k)) ks)"

definition cell_status_dict :: "cell_status \<Rightarrow> json" where
  "cell_status_dict c = JDict
     [(lit ''id'', cs_id c),
      (lit ''type'', JStr (cell_type_value (cs_type c))),
      (lit ''changed'', JBool (cs_changed c)),
      (lit ''change_kinds'', kinds_json (cs_change_kinds c)),
      (lit ''source'', opt_str (cs_source c)),
      (lit ''outputs'', (case cs_outputs c of None \<Rightarrow> JNull | Some os \<Rightarrow> JList (map JDict os))),
      (lit ''execution_count'', cs_execution_count c)]"

section \<open>Summaries of outputs\<close>

definition summarize_output :: "(nat \<Rightarrow> bool) \<Rightarrow> int \<Rightarrow> bool \<Rightarrow> bool \<Rightarrow> jobj \<Rightarrow> pyexc + jobj" where
  "summarize_output pr max_chars full_output preserve_lines output =
     (case output_text pr output of
        Inl e \<Rightarrow> Inl e
      | Inr s \<Rightarrow>
          let (text, cut) = truncate_text (Some s) max_chars full_output preserve_lines
          in Inr
            ([(lit ''output_type'', get_or ''output_type'' (JStr (lit ''unknown'')) output),
              (lit ''text'', opt_str text)]
             @ (case cut of
                  None \<Rightarrow> []
                | Some n \<Rightarrow>
                    [(lit ''truncated'', JBool True), (lit ''total_chars'', JInt (int n)),
                     (lit ''hint'', JStr (lit ''truncated, '' @ dec_digits n
                        @ lit '' chars total; use --full-output to see complete text''))])
             @ (if output_type_is ''stream'' output
                then [(lit ''name'', opt_json (field ''name'' output))] else [])
             @ (if output_type_is ''error'' output
                then [(lit ''ename'', opt_json (field ''ename'' output)),
                      (lit ''evalue'', opt_json (field ''evalue'' output))] else [])
             @ (case field ''data'' output of
                  Some (JDict data) \<Rightarrow> [(lit ''data_keys'', JList (map JStr (sort (dict_keys data))))]
                | _ \<Rightarrow> [])))"

fun each :: "('a \<Rightarrow> pyexc + 'b) \<Rightarrow> 'a list \<Rightarrow> pyexc + 'b list" where
  "each f [] = Inr []"
| "each f (x # xs) =
     (case f x of
        Inl e \<Rightarrow> Inl e
      | Inr y \<Rightarrow> (case each f xs of Inl e \<Rightarrow> Inl e | Inr ys \<Rightarrow> Inr (y # ys)))"

definition summary_output_text_chars :: int where "summary_output_text_chars = 80"
definition summary_source_chars :: int where "summary_source_chars = 120"
definition default_read_output_chars :: int where "default_read_output_chars = 400"

definition has_error_output :: "jobj list \<Rightarrow> bool" where
  "has_error_output outputs \<longleftrightarrow> list_ex (output_type_is ''error'') outputs"

definition cell_output_preview :: "(nat \<Rightarrow> bool) \<Rightarrow> jobj list \<Rightarrow> int \<Rightarrow> bool \<Rightarrow> pyexc + jobj option" where
  "cell_output_preview pr outputs max_chars full_output =
     (if outputs = [] then Inr None
      else case summarize_output pr max_chars full_output False (last outputs) of
             Inl e \<Rightarrow> Inl e
           | Inr s \<Rightarrow> Inr (Some s))"

text \<open>Which outputs came from \<open>_summarize_output\<close>, by the marks it leaves.\<close>

definition is_summarized_output :: "jobj \<Rightarrow> bool" where
  "is_summarized_output output \<longleftrightarrow>
     field ''data_keys'' output \<noteq> None
     \<or> field ''truncated'' output = Some (JBool True) \<or> field ''total_chars'' output \<noteq> None
     \<or> list_ex (\<lambda>t. output_type_is t output) [''display_data'', ''execute_result'', ''update_display_data'']
         \<and> \<not> is_dict (opt_json (field ''data'' output))
     \<or> output_type_is ''error'' output \<and> field ''traceback'' output = None"

definition require_raw_outputs :: "jobj list \<Rightarrow> pyexc + unit" where
  "require_raw_outputs outputs =
     (if list_ex is_summarized_output outputs
      then Inl (hypernote_error (lit ''Cell outputs are summarized, so raw MIME data is unavailable. ''
             @ lit ''Build the status with nb.status(full=True) or ''
             @ lit ''CellStatus.from_handle(cell) before reading MIME bundles.''))
      else Inr ())"

section \<open>MIME bundles\<close>

definition joined_data_content :: "json \<Rightarrow> json" where
  "joined_data_content v =
     (case v of
        JList parts \<Rightarrow> (case join_strs parts of Inr s \<Rightarrow> JStr s | Inl e \<Rightarrow> v)
      | _ \<Rightarrow> v)"

text \<open>
  \<open>dict(x or {})\<close>; then the bundle's data and metadata.  A cut entry stays a prefix, and the
  original lengths are listed.
\<close>

definition dict_or_empty :: "json \<Rightarrow> pyexc + jobj" where
  "dict_or_empty j = (if \<not> truthy j then Inr [] else case j of JDict d \<Rightarrow> Inr d | _ \<Rightarrow> Inl type_error)"

definition bundle_data :: "(nat \<Rightarrow> bool) \<Rightarrow> jobj \<Rightarrow> pyexc + jobj" where
  "bundle_data pr output =
     (if output_type_is ''stream'' output
      then Inr [(lit ''text/plain'', joined_data_content (get_or ''text'' (JStr []) output))]
      else if output_type_is ''error'' output
      then (case output_text pr output of Inl e \<Rightarrow> Inl e | Inr s \<Rightarrow> Inr [(lit ''text/plain'', JStr s)])
      else Inr (case field ''data'' output of
                  Some (JDict data) \<Rightarrow> map (\<lambda>(m, v). (m, joined_data_content v)) data
                | _ \<Rightarrow> []))"

definition bundle_metadata :: "jobj \<Rightarrow> jobj \<Rightarrow> jobj" where
  "bundle_metadata output md =
     (if output_type_is ''stream'' output
      then (if opt_json (field ''name'' output) \<noteq> JNull
            then set_field ''stream_name'' (opt_json (field ''name'' output)) md else md)
      else if output_type_is ''error'' output
      then set_field ''evalue'' (opt_json (field ''evalue'' output))
             (set_field ''ename'' (opt_json (field ''ename'' output)) md)
      else md)"

definition too_long :: "nat \<Rightarrow> json \<Rightarrow> bool" where
  "too_long n v = (case v of JStr s \<Rightarrow> length s > n | _ \<Rightarrow> False)"

definition cut_content :: "nat \<Rightarrow> json \<Rightarrow> json" where
  "cut_content n v = (case v of JStr s \<Rightarrow> JStr (take n s) | _ \<Rightarrow> v)"

definition content_length :: "json \<Rightarrow> json" where
  "content_length v = (case v of JStr s \<Rightarrow> JInt (int (length s)) | _ \<Rightarrow> JNull)"

definition output_mime_bundle :: "(nat \<Rightarrow> bool) \<Rightarrow> int option \<Rightarrow> jobj \<Rightarrow> pyexc + jobj" where
  "output_mime_bundle pr max_content_chars output =
     (case dict_or_empty (opt_json (field ''metadata'' output)) of Inl e \<Rightarrow> Inl e | Inr md \<Rightarrow>
      case bundle_data pr output of Inl e \<Rightarrow> Inl e | Inr data \<Rightarrow>
        let bundle = (\<lambda>d. [(lit ''output_type'', get_or ''output_type'' (JStr (lit ''unknown'')) output),
                          (lit ''data'', JDict d), (lit ''metadata'', JDict (bundle_metadata output md))])
        in Inr (case max_content_chars of
                  None \<Rightarrow> bundle data
                | Some limit \<Rightarrow>
                    if limit \<le> 0 then bundle data
                    else
                      let n = nat limit;
                          long = filter (\<lambda>(m, v). too_long n v) data;
                          cut = bundle (map (\<lambda>(m, v). (m, cut_content n v)) data)
                      in if long = [] then cut
                         else cut @
                           [(lit ''data_truncated'', JDict (map (\<lambda>(m, v). (m, content_length v)) long)),
                            (lit ''hint'', JStr (lit ''data truncated; use --full-output or ''
                               @ lit ''output_mime_bundles() without max_content_chars for intact payloads''))]))"

definition output_mime_bundles :: "(nat \<Rightarrow> bool) \<Rightarrow> int option \<Rightarrow> cell_status \<Rightarrow> pyexc + jobj list" where
  "output_mime_bundles pr limit c =
     (case require_raw_outputs (outputs_or_empty c) of
        Inl e \<Rightarrow> Inl e
      | Inr _ \<Rightarrow> each (output_mime_bundle pr limit) (outputs_or_empty c))"

definition mime_bundle_payload :: "(nat \<Rightarrow> bool) \<Rightarrow> int option \<Rightarrow> cell_status \<Rightarrow> pyexc + jobj" where
  "mime_bundle_payload pr limit c =
     (case output_mime_bundles pr limit c of
        Inl e \<Rightarrow> Inl e
      | Inr bundles \<Rightarrow> Inr
          [(lit ''cell_id'', cs_id c), (lit ''output_count'', JInt (int (length bundles))),
           (lit ''mime_bundles'', JList (map JDict bundles))])"

section \<open>Image files\<close>

text \<open>
  \<open>_safe_file_stem\<close>: other characters than letters, digits, dot, underscore and dash become dashes,
  and then a hash of the identifier keeps two cells apart.
\<close>

definition safe_char :: "nat \<Rightarrow> bool" where
  "safe_char c \<longleftrightarrow> 65 \<le> c \<and> c \<le> 90 \<or> 97 \<le> c \<and> c \<le> 122 \<or> 48 \<le> c \<and> c \<le> 57 \<or> c \<in> {46, 95, 45}"

definition strip_dashes :: "pystr \<Rightarrow> pystr" where
  "strip_dashes s = rev (dropWhile (\<lambda>c. c = 45) (rev (dropWhile (\<lambda>c. c = 45) s)))"

definition safe_file_stem :: "text_env \<Rightarrow> json \<Rightarrow> pyexc + pystr" where
  "safe_file_stem env j =
     (case j of
        JStr v \<Rightarrow>
          let stem = map (\<lambda>c. if safe_char c then c else 45) v
          in if stem = v then Inr (if stem = [] then lit ''cell'' else stem)
             else (case encode v of
                     Inl e \<Rightarrow> Inl e
                   | Inr bytes \<Rightarrow>
                       Inr ((if strip_dashes stem = [] then lit ''cell'' else strip_dashes stem)
                            @ lit ''-'' @ take 8 (sha1_hex env bytes)))
      | _ \<Rightarrow> Inl type_error)"

definition image_mime_extensions :: "(pystr \<times> pystr) list" where
  "image_mime_extensions =
     [(lit ''image/png'', lit ''png''), (lit ''image/jpeg'', lit ''jpg''), (lit ''image/svg+xml'', lit ''svg'')]"

text \<open>
  What is written: text for SVG, decoded bytes otherwise.  The directory's own operations (creating
  it, writing a file) are given; a file is written before the next output is looked at.
\<close>

datatype image_file = SvgText pystr | ImageBytes "nat list"

record 'w file_system =
  make_dir :: "pystr \<Rightarrow> 'w \<Rightarrow> (pystr, 'w) outcome"
  write_image :: "pystr \<Rightarrow> image_file \<Rightarrow> 'w \<Rightarrow> (unit, 'w) outcome"

definition os_error :: pystr where "os_error = lit ''OSError''"

text \<open>\<open>except ValueError\<close> and \<open>except OSError\<close>, each turned into a \<open>HypernoteError\<close> with its own prefix.\<close>

definition value_error_message :: "pystr \<Rightarrow> pyexc \<Rightarrow> pyexc" where
  "value_error_message prefix e = (case e of ValueError m \<Rightarrow> hypernote_error (prefix @ m) | _ \<Rightarrow> e)"

definition os_error_message :: "pystr \<Rightarrow> pyexc \<Rightarrow> pyexc" where
  "os_error_message prefix e =
     (case e of OtherError name m \<Rightarrow> if name = os_error then hypernote_error (prefix @ m) else e | _ \<Rightarrow> e)"

definition image_content :: "text_env \<Rightarrow> pystr \<Rightarrow> pystr \<Rightarrow> pyexc + image_file" where
  "image_content env mime content =
     (if mime = lit ''image/svg+xml'' then Inr (SvgText content)
      else case b64_bytes env (concat (split_ws content)) of Inl e \<Rightarrow> Inl e | Inr bytes \<Rightarrow> Inr (ImageBytes bytes))"

definition save_image ::
  "text_env \<Rightarrow> 'w file_system \<Rightarrow> pystr \<Rightarrow> json \<Rightarrow> nat \<Rightarrow> jobj \<Rightarrow> pystr \<times> pystr \<Rightarrow> 'w \<Rightarrow> (pystr list, 'w) outcome" where
  "save_image env fs target cell_id index data me =
     (case dict_get data (fst me) of
        None \<Rightarrow> mret []
      | Some v \<Rightarrow>
          (case joined_data_content v of
             JStr content \<Rightarrow>
               if strip content = [] then mret []
               else
                 mbind (of_result (safe_file_stem env cell_id)) (\<lambda>stem.
                   let path = target @ lit ''/'' @ stem @ lit ''-out'' @ dec_digits index @ lit ''.'' @ snd me;
                       undecodable = lit ''Could not decode '' @ fst me @ lit '' output for cell ''
                                @ py_repr (printable env) cell_id @ lit '': '';
                       unwritable = lit ''Could not write image output to '' @ path @ lit '': ''
                   in mbind (catching (\<lambda>e. os_error_message unwritable (value_error_message undecodable e))
                          (mbind (of_result (image_content env (fst me) content)) (write_image fs path))) (\<lambda>_.
                      mret [path]))
           | _ \<Rightarrow> mret []))"

fun gather :: "('a \<Rightarrow> 'w \<Rightarrow> ('b list, 'w) outcome) \<Rightarrow> 'a list \<Rightarrow> 'w \<Rightarrow> ('b list, 'w) outcome" where
  "gather f [] = mret []"
| "gather f (x # xs) = mbind (f x) (\<lambda>ys. mbind (gather f xs) (\<lambda>zs. mret (ys @ zs)))"

definition save_image_outputs ::
  "text_env \<Rightarrow> 'w file_system \<Rightarrow> pystr \<Rightarrow> cell_status \<Rightarrow> 'w \<Rightarrow> (pystr list, 'w) outcome" where
  "save_image_outputs env fs directory c =
     mbind (of_result (require_raw_outputs (outputs_or_empty c))) (\<lambda>_.
     mbind (catching (os_error_message (lit ''Could not create image directory '' @ directory @ lit '': ''))
              (make_dir fs directory)) (\<lambda>target.
       gather (\<lambda>(index, output).
                 case field ''data'' output of
                   Some (JDict data) \<Rightarrow>
                     gather (save_image env fs target (cs_id c) index data) image_mime_extensions
                 | _ \<Rightarrow> mret [])
         (enumerate 0 (outputs_or_empty c))))"

section \<open>Compact views\<close>

definition has_error_output_of :: "cell_status \<Rightarrow> bool" where
  "has_error_output_of c = has_error_output (outputs_or_empty c)"

definition source_preview :: "bool \<Rightarrow> int \<Rightarrow> cell_status \<Rightarrow> jobj" where
  "source_preview full limit c = render_text_preview (cs_source c) limit full False"

definition output_preview :: "(nat \<Rightarrow> bool) \<Rightarrow> int \<Rightarrow> bool \<Rightarrow> cell_status \<Rightarrow> pyexc + jobj option" where
  "output_preview pr max_chars full_output c = cell_output_preview pr (outputs_or_empty c) max_chars full_output"

definition compact_cell ::
  "(nat \<Rightarrow> bool) \<Rightarrow> bool \<Rightarrow> bool \<Rightarrow> bool \<Rightarrow> int \<Rightarrow> cell_status \<Rightarrow> pyexc + jobj" where
  "compact_cell pr full_source include_outputs full_output max_output_chars c =
     (let outputs = outputs_or_empty c;
          (text, cut) = truncate_text (cs_source c) summary_source_chars full_source False
      in case output_preview pr max_output_chars full_output c of
           Inl e \<Rightarrow> Inl e
         | Inr preview \<Rightarrow>
             (case (if include_outputs then each (summarize_output pr max_output_chars full_output False) outputs
                    else Inr []) of
                Inl e \<Rightarrow> Inl e
              | Inr summaries \<Rightarrow> Inr
                 ([(lit ''id'', cs_id c),
                   (lit ''type'', JStr (cell_type_value (cs_type c))),
                   (lit ''execution_count'', cs_execution_count c),
                   (lit ''output_count'', JInt (int (length outputs))),
                   (lit ''has_error_output'', JBool (has_error_output_of c)),
                   (lit ''source_preview'', opt_str text)]
                  @ (case cut of
                       None \<Rightarrow> []
                     | Some n \<Rightarrow>
                         [(lit ''source_truncated'', JBool True), (lit ''source_total_chars'', JInt (int n)),
                          (lit ''source_hint'', JStr (lit ''truncated, use --full to see complete source''))])
                  @ (if full_source then [(lit ''source'', opt_str (cs_source c))] else [])
                  @ (case preview of
                       None \<Rightarrow> []
                     | Some p \<Rightarrow>
                         (lit ''output_preview'', opt_json (field ''text'' p)) #
                         (if field ''truncated'' p = Some (JBool True)
                          then [(lit ''output_truncated'', JBool True),
                                (lit ''output_total_chars'', opt_json (field ''total_chars'' p)),
                                (lit ''output_hint'', opt_json (field ''hint'' p))]
                          else []))
                  @ (if cs_change_kinds c \<noteq> [] then [(lit ''change_kinds'', kinds_json (cs_change_kinds c))] else [])
                  @ (if include_outputs then [(lit ''outputs'', JList (map JDict summaries))] else []))))"

definition output_payload :: "(nat \<Rightarrow> bool) \<Rightarrow> int \<Rightarrow> bool \<Rightarrow> bool \<Rightarrow> cell_status \<Rightarrow> pyexc + jobj" where
  "output_payload pr max_chars full_output tail c =
     (let outputs = outputs_or_empty c
      in case each (summarize_output pr max_chars full_output True) outputs of
           Inl e \<Rightarrow> Inl e
         | Inr summaries \<Rightarrow>
             let payload = [(lit ''cell_id'', cs_id c), (lit ''output_count'', JInt (int (length outputs))),
                            (lit ''outputs'', JList (map JDict summaries))]
             in if tail \<and> outputs \<noteq> []
                then (case output_text pr (last outputs) of
                        Inl e \<Rightarrow> Inl e
                      | Inr s \<Rightarrow>
                          let (text, cut) = truncate_text (Some s) max_chars full_output True
                          in Inr (payload @ [(lit ''tail_output'', opt_str text)]
                               @ (case cut of
                                    None \<Rightarrow> []
                                  | Some n \<Rightarrow> [(lit ''tail_output_truncated'', JBool True),
                                               (lit ''tail_output_total_chars'', JInt (int n))])))
                else Inr payload)"

fun is_infix_of :: "pystr \<Rightarrow> pystr \<Rightarrow> bool" where
  "is_infix_of q s \<longleftrightarrow> take (length q) s = q \<or> (case s of [] \<Rightarrow> False | _ # t \<Rightarrow> is_infix_of q t)"

declare is_infix_of.simps [simp del]

text \<open>
  \<open>_matches_query\<close>: the parts are looked at in order and lazily; a part that is no string and not
  empty has no \<open>lower\<close>.
\<close>

fun any_part :: "(pystr \<Rightarrow> pystr) \<Rightarrow> pystr \<Rightarrow> json list \<Rightarrow> pyexc + bool" where
  "any_part lower q [] = Inr False"
| "any_part lower q (p # ps) =
     (case (if truthy p then p else JStr []) of
        JStr s \<Rightarrow> if is_infix_of q (lower s) then Inr True else any_part lower q ps
      | _ \<Rightarrow> Inl attribute_error)"

definition matches_query :: "(pystr \<Rightarrow> pystr) \<Rightarrow> pystr option \<Rightarrow> json list \<Rightarrow> pyexc + bool" where
  "matches_query lower query parts =
     (case query of
        None \<Rightarrow> Inr True
      | Some q \<Rightarrow> if q = [] then Inr True else any_part lower (lower q) parts)"

section \<open>Which summaries are recognised\<close>

lemma summarize_fields:
  assumes "summarize_output pr max_chars full pl output = Inr sm"
  shows "\<exists>s text cut. output_text pr output = Inr s \<and> truncate_text (Some s) max_chars full pl = (text, cut)
    \<and> field ''text'' sm = Some (opt_str text)
    \<and> field ''output_type'' sm = Some (get_or ''output_type'' (JStr (lit ''unknown'')) output)
    \<and> field ''truncated'' sm = (if cut = None then None else Some (JBool True))
    \<and> field ''total_chars'' sm = map_option (\<lambda>n. JInt (int n)) cut
    \<and> field ''data'' sm = None \<and> field ''traceback'' sm = None
    \<and> (field ''data_keys'' sm \<noteq> None \<longleftrightarrow> is_dict (opt_json (field ''data'' output)))"
proof -
  obtain s where s: "output_text pr output = Inr s" using assms by (auto simp: summarize_output_def split: sum.splits)
  obtain out cut where t: "truncate_text (Some s) max_chars full pl = (out, cut)" by fastforce
  define streams where "streams = (if output_type_is ''stream'' output
      then [(lit ''name'', opt_json (field ''name'' output))] else [])"
  define errors where "errors = (if output_type_is ''error'' output
      then [(lit ''ename'', opt_json (field ''ename'' output)), (lit ''evalue'', opt_json (field ''evalue'' output))] else [])"
  define datas where "datas = (case field ''data'' output of
      Some (JDict data) \<Rightarrow> [(lit ''data_keys'', JList (map JStr (sort (dict_keys data))))] | _ \<Rightarrow> [])"
  define cuts where "cuts = (case cut of None \<Rightarrow> [] | Some n \<Rightarrow>
      [(lit ''truncated'', JBool True), (lit ''total_chars'', JInt (int n)),
       (lit ''hint'', JStr (lit ''truncated, '' @ dec_digits n @ lit '' chars total; use --full-output to see complete text''))])"
  have sm: "sm = [(lit ''output_type'', get_or ''output_type'' (JStr (lit ''unknown'')) output), (lit ''text'', opt_str out)]
      @ cuts @ streams @ errors @ datas"
    using assms by (simp add: summarize_output_def s t cuts_def streams_def errors_def datas_def)
  have keys: "field k streams = None" "field k errors = None" if "k \<notin> {''name'', ''ename'', ''evalue''}" for k
    using that by (auto simp: streams_def errors_def)
  have "field k datas = None" if "k \<noteq> ''data_keys''" for k
    using that by (auto simp: datas_def split: option.split json.split)
  moreover have "field ''data_keys'' datas \<noteq> None \<longleftrightarrow> is_dict (opt_json (field ''data'' output))"
    by (auto simp: datas_def opt_json_def split: option.split json.split)
  moreover have "field ''truncated'' cuts = (if cut = None then None else Some (JBool True))"
    "field ''total_chars'' cuts = map_option (\<lambda>n. JInt (int n)) cut"
    "k \<notin> {''truncated'', ''total_chars'', ''hint''} \<Longrightarrow> field k cuts = None" for k
    by (auto simp: cuts_def split: option.split)
  ultimately show ?thesis
    using s t keys by (intro exI [of _ s] exI [of _ out] exI [of _ cut]) (simp add: sm map_add_def split: option.split)
qed

lemma output_type_is_summary:
  assumes "summarize_output pr max_chars full pl output = Inr sm" and "t \<noteq> ''unknown''"
  shows "output_type_is t sm \<longleftrightarrow> output_type_is t output"
  using summarize_fields [OF assms(1)] assms(2) by (auto simp: output_type_is_def get_or_def split: option.splits)

text \<open>
  C29: which summaries the export refuses.  The summary of a display output or of an error is always
  recognised, so it is never exported as raw data.  The summary of a stream is recognised exactly
  when its text was cut; a stream that fits is exported with its normalised text, so what it printed
  is handed back with its line breaks turned into blanks.
\<close>

theorem summaries_are_refused:
  assumes sm: "summarize_output pr max_chars False False output = Inr sm" and "0 < max_chars"
    and nd: "field ''data'' output = None \<or> \<not> output_type_is ''stream'' output"
  shows "(list_ex (\<lambda>t. output_type_is t output) [''display_data'', ''execute_result'', ''update_display_data'', ''error'']
      \<longrightarrow> is_summarized_output sm)
    \<and> (output_type_is ''stream'' output \<longrightarrow>
        (let printed = joined_parts pr (get_or ''text'' (JStr []) output);
             shown = normalize_preview_text False printed
         in (is_summarized_output sm \<longleftrightarrow> max_chars < int (length shown))
          \<and> (\<not> is_summarized_output sm \<longrightarrow> bundle_data pr sm = Inr [(lit ''text/plain'', JStr shown)])))"
proof -
  note ty = output_type_is_summary [OF sm]
  obtain s out cut where f: "output_text pr output = Inr s" "truncate_text (Some s) max_chars False False = (out, cut)"
    "field ''text'' sm = Some (opt_str out)" "field ''truncated'' sm = (if cut = None then None else Some (JBool True))"
    "field ''total_chars'' sm = map_option (\<lambda>n. JInt (int n)) cut" "field ''data'' sm = None"
    "field ''traceback'' sm = None" "field ''data_keys'' sm \<noteq> None \<longleftrightarrow> is_dict (opt_json (field ''data'' output))"
    using summarize_fields [OF sm] by blast
  have "is_summarized_output sm"
    if "list_ex (\<lambda>t. output_type_is t output) [''display_data'', ''execute_result'', ''update_display_data'', ''error'']"
    using that f(6,7) ty by (auto simp: is_summarized_output_def opt_json_def)
  moreover have "let printed = joined_parts pr (get_or ''text'' (JStr []) output);
             shown = normalize_preview_text False printed
         in (is_summarized_output sm \<longleftrightarrow> max_chars < int (length shown))
          \<and> (\<not> is_summarized_output sm \<longrightarrow> bundle_data pr sm = Inr [(lit ''text/plain'', JStr shown)])"
    if st: "output_type_is ''stream'' output"
  proof -
    let ?shown = "normalize_preview_text False (joined_parts pr (get_or ''text'' (JStr []) output))"
    have s: "s = joined_parts pr (get_or ''text'' (JStr []) output)" using f(1) st by (simp add: output_text_def)
    have others: "\<not> output_type_is t sm" if "t \<in> {''display_data'', ''execute_result'', ''update_display_data'', ''error''}" for t
      using that st ty [of t] by (auto simp: output_type_is_def)
    have "is_summarized_output sm \<longleftrightarrow> cut \<noteq> None"
      using others f(4,5,8) nd st by (auto simp: is_summarized_output_def opt_json_def)
    moreover have "cut \<noteq> None \<longleftrightarrow> max_chars < int (length ?shown)" "cut = None \<Longrightarrow> out = Some ?shown"
      using f(2) assms(2) by (auto simp: truncate_text_def s Let_def split: if_splits)
    moreover have "output_type_is ''stream'' sm" using ty st by simp
    ultimately show ?thesis
      using f(3) by (auto simp: Let_def bundle_data_def get_or_def opt_str_def joined_data_content_def)
  qed
  ultimately show ?thesis by blast
qed

lemma summaries_are_refused_witness:
  "\<exists>sm. summarize_output (\<lambda>c. True) 80 False False
      [(lit ''output_type'', JStr (lit ''stream'')), (lit ''text'', JStr [97, 10, 98])] = Inr sm
    \<and> bundle_data (\<lambda>c. True) sm = Inr [(lit ''text/plain'', JStr [97, 32, 98])]"
proof -
  let ?o = "[(lit ''output_type'', JStr (lit ''stream'')), (lit ''text'', JStr [97, 10, 98])]"
  have n: "normalize_preview_text False [97, 10, 98] = [97, 32, 98]"
    by (simp add: normalize_preview_text_def split_ws.simps is_space_def)
  have st: "output_type_is ''stream'' ?o" by (simp add: output_type_is_def)
  obtain sm where sm: "summarize_output (\<lambda>c. True) 80 False False ?o = Inr sm"
    by (simp add: summarize_output_def output_text_def st case_prod_beta)
  from summaries_are_refused [OF sm] show ?thesis
    using sm st by (auto simp: n joined_parts_def get_or_def py_str_def Let_def)
qed

end
