(* ===== verification/Hn_Loads.thy ===== *)
theory Hn_Loads
  imports Hn_Codec
begin

text \<open>
  \<open>json.loads\<close>, as CPython reads a document, and its round trip: reading what \<open>json.dumps\<close> wrote
  gives the value back, with the keys in the order they were written.
\<close>

section \<open>Strings\<close>

text \<open>
  What follows a backslash in a string: a \<open>\u\<close> escape of a high surrogate takes a following escape
  of a low one with it.
\<close>

definition u_escape :: "pystr \<Rightarrow> (nat \<times> pystr) option" where
  "u_escape s = (case s of a # b # t \<Rightarrow> if a = 92 \<and> b = 117 then read_hex 4 0 t else None | _ \<Rightarrow> None)"

definition json_escape :: "pystr \<Rightarrow> (nat \<times> pystr) option" where
  "json_escape s =
     (case s of
        [] \<Rightarrow> None
      | e # t \<Rightarrow>
          if e = 34 \<or> e = 92 \<or> e = 47 then Some (e, t)
          else if e = 98 then Some (8, t)
          else if e = 102 then Some (12, t)
          else if e = 110 then Some (10, t)
          else if e = 114 then Some (13, t)
          else if e = 116 then Some (9, t)
          else if e = 117 then
            (case read_hex 4 0 t of
               None \<Rightarrow> None
             | Some (v, u) \<Rightarrow>
                 (case (if 55296 \<le> v \<and> v \<le> 56319 then u_escape u else None) of
                    Some (w, r) \<Rightarrow>
                      if 56320 \<le> w \<and> w \<le> 57343 then Some (65536 + (v - 55296) * 1024 + (w - 56320), r)
                      else Some (v, u)
                  | None \<Rightarrow> Some (v, u)))
          else None)"

lemma json_escape_length: "json_escape s = Some (v, t) \<Longrightarrow> length t < length s"
proof -
  have u: "u_escape z = Some (w, r) \<Longrightarrow> length r \<le> length z" for z w r
    using read_hex_length [of 4 0] by (fastforce simp: u_escape_def split: list.splits if_splits)
  have h: "read_hex 4 0 z = Some (w, r) \<Longrightarrow> length r \<le> length z" for z w r by (rule read_hex_length)
  show "json_escape s = Some (v, t) \<Longrightarrow> length t < length s"
    by (auto simp: json_escape_def less_Suc_eq_le split: list.splits if_splits option.splits dest: u h)
      (meson h le_trans u)+
qed

text \<open>The rest of a string after its opening quote; control characters are refused.\<close>

function read_string :: "pystr \<Rightarrow> (pystr \<times> pystr) option" where
  "read_string [] = None"
| "read_string (c # s) =
     (if c = 34 then Some ([], s)
      else if c = 92 then
        (case json_escape s of
           None \<Rightarrow> None
         | Some (v, t) \<Rightarrow> map_option (\<lambda>(x, r). (v # x, r)) (read_string t))
      else if c < 32 then None
      else map_option (\<lambda>(x, r). (c # x, r)) (read_string s))"
  by pat_completeness auto
termination
  by (relation "measure length") (auto dest!: json_escape_length)

declare read_string.simps [simp del]

section \<open>Numbers\<close>

definition is_digit :: "nat \<Rightarrow> bool" where "is_digit c \<longleftrightarrow> 48 \<le> c \<and> c \<le> 57"

definition digits_of :: "pystr \<Rightarrow> pystr \<times> pystr" where
  "digits_of s = (takeWhile is_digit s, dropWhile is_digit s)"

text \<open>
  The parts of a number: the integer part (no leading zero), a fraction and an exponent, each with
  what follows.  A number with a fraction or an exponent is a float; \<open>float_text\<close> is its \<open>repr\<close>.
\<close>

definition int_part :: "pystr \<Rightarrow> (pystr \<times> pystr) option" where
  "int_part s =
     (case s of
        [] \<Rightarrow> None
      | c # t \<Rightarrow> if c = 48 then Some ([c], t) else if is_digit c then Some (digits_of s) else None)"

definition frac_part :: "pystr \<Rightarrow> pystr \<times> pystr" where
  "frac_part s =
     (case s of
        [] \<Rightarrow> ([], s)
      | c # t \<Rightarrow>
          (case digits_of t of (ds, r) \<Rightarrow> if c = 46 \<and> ds \<noteq> [] then (c # ds, r) else ([], s)))"

definition exp_part :: "pystr \<Rightarrow> pystr \<times> pystr" where
  "exp_part s =
     (case s of
        [] \<Rightarrow> ([], s)
      | c # t \<Rightarrow>
          let sign = (case t of [] \<Rightarrow> [] | d # _ \<Rightarrow> if d = 43 \<or> d = 45 then [d] else [])
          in case digits_of (drop (length sign) t) of
               (ds, r) \<Rightarrow> if (c = 101 \<or> c = 69) \<and> ds \<noteq> [] then (c # sign @ ds, r) else ([], s))"

definition read_number :: "(pystr \<Rightarrow> pystr) \<Rightarrow> pystr \<Rightarrow> (json \<times> pystr) option" where
  "read_number float_text s =
     (let neg = (case s of [] \<Rightarrow> False | c # _ \<Rightarrow> c = 45)
      in case int_part (if neg then tl s else s) of
           None \<Rightarrow> None
         | Some (ds, r) \<Rightarrow>
             (case frac_part r of (fs, r1) \<Rightarrow>
              case exp_part r1 of (es, r2) \<Rightarrow>
                Some (if fs = [] \<and> es = []
                      then JInt (if neg then - int (dec_value ds) else int (dec_value ds))
                      else JFloat (float_text ((if neg then [45] else []) @ ds @ fs @ es)), r2)))"

section \<open>Values\<close>

definition skip_ws :: "pystr \<Rightarrow> pystr" where
  "skip_ws s = dropWhile (\<lambda>c. c = 32 \<or> c = 9 \<or> c = 10 \<or> c = 13) s"

definition literals :: "(pystr \<times> json) list" where
  "literals =
     [(lit ''null'', JNull), (lit ''true'', JBool True), (lit ''false'', JBool False),
      (lit ''NaN'', JFloat (lit ''nan'')), (lit ''Infinity'', JFloat (lit ''inf'')),
      (lit ''-Infinity'', JFloat (lit ''-inf''))]"

fun read_literals :: "(pystr \<times> json) list \<Rightarrow> pystr \<Rightarrow> (json \<times> pystr) option" where
  "read_literals [] s = None"
| "read_literals ((l, v) # ls) s =
     (if take (length l) s = l then Some (v, drop (length l) s) else read_literals ls s)"

definition expect :: "nat \<Rightarrow> pystr \<Rightarrow> pystr option" where
  "expect c s = (case s of [] \<Rightarrow> None | d # t \<Rightarrow> if d = c then Some t else None)"

definition make_dict :: "(pystr \<times> json) list \<Rightarrow> jobj" where
  "make_dict items = fold (\<lambda>(k, v) d. dict_set k v d) items []"

text \<open>The fuel bounds the calls; twice the document's length is enough for any document.\<close>

fun read_value :: "(pystr \<Rightarrow> pystr) \<Rightarrow> nat \<Rightarrow> pystr \<Rightarrow> (json \<times> pystr) option"
and read_items :: "(pystr \<Rightarrow> pystr) \<Rightarrow> nat \<Rightarrow> pystr \<Rightarrow> (json list \<times> pystr) option"
and read_members :: "(pystr \<Rightarrow> pystr) \<Rightarrow> nat \<Rightarrow> pystr \<Rightarrow> ((pystr \<times> json) list \<times> pystr) option" where
  "read_value ft 0 s = None"
| "read_value ft (Suc n) s =
     (case s of
        [] \<Rightarrow> None
      | c # t \<Rightarrow>
          if c = 34 then map_option (\<lambda>(x, r). (JStr x, r)) (read_string t)
          else if c = 91 then
            (case expect 93 (skip_ws t) of
               Some r \<Rightarrow> Some (JList [], r)
             | None \<Rightarrow> map_option (\<lambda>(xs, r). (JList xs, r)) (read_items ft n (skip_ws t)))
          else if c = 123 then
            (case expect 125 (skip_ws t) of
               Some r \<Rightarrow> Some (JDict [], r)
             | None \<Rightarrow> map_option (\<lambda>(xs, r). (JDict (make_dict xs), r)) (read_members ft n (skip_ws t)))
          else
            (case read_literals literals s of
               Some x \<Rightarrow> Some x
             | None \<Rightarrow> read_number ft s))"
| "read_items ft 0 s = None"
| "read_items ft (Suc n) s =
     (case read_value ft n s of
        None \<Rightarrow> None
      | Some (x, r) \<Rightarrow>
          (case expect 93 (skip_ws r) of
             Some r1 \<Rightarrow> Some ([x], r1)
           | None \<Rightarrow>
               (case expect 44 (skip_ws r) of
                  None \<Rightarrow> None
                | Some r1 \<Rightarrow> map_option (\<lambda>(xs, r2). (x # xs, r2)) (read_items ft n (skip_ws r1)))))"
| "read_members ft 0 s = None"
| "read_members ft (Suc n) s =
     (case Option.bind (expect 34 s) read_string of
        None \<Rightarrow> None
      | Some (k, r) \<Rightarrow>
          (case Option.bind (expect 58 (skip_ws r)) (\<lambda>r1. read_value ft n (skip_ws r1)) of
             None \<Rightarrow> None
           | Some (v, r2) \<Rightarrow>
               (case expect 125 (skip_ws r2) of
                  Some r3 \<Rightarrow> Some ([(k, v)], r3)
                | None \<Rightarrow>
                    (case expect 44 (skip_ws r2) of
                       None \<Rightarrow> None
                     | Some r3 \<Rightarrow>
                         map_option (\<lambda>(xs, r4). ((k, v) # xs, r4)) (read_members ft n (skip_ws r3))))))"

definition json_loads :: "(pystr \<Rightarrow> pystr) \<Rightarrow> pystr \<Rightarrow> json option" where
  "json_loads ft s =
     (case read_value ft (2 * length s + 2) (skip_ws s) of
        Some (j, r) \<Rightarrow> if skip_ws r = [] then Some j else None
      | None \<Rightarrow> None)"

section \<open>Reading what was written\<close>

lemma lit_json_escapes [simp]: "lit [CHR 0x5C, CHR 0x62] = [92, 98]" "lit [CHR 0x5C, CHR 0x66] = [92, 102]"
  by (simp_all add: lit_def)

lemma read_string_char:
  assumes "scalar c"
  shows "read_string (json_char True c @ s) = map_option (\<lambda>(x, r). (c # x, r)) (read_string s)"
proof -
  have r4: "read_hex 4 0 (hex_fixed 4 n @ z) = Some (n, z)" if "n < 65536" for n z
    using read_hex_fixed [of 4 0 n z] that by simp
  consider "c < 65536" "c < 32 \<or> c > 126" "c \<notin> {8, 9, 10, 12, 13}" | "65536 \<le> c"
    | "c \<in> {8, 9, 10, 12, 13, 34, 92}" | "32 \<le> c" "c \<le> 126" "c \<noteq> 34" "c \<noteq> 92"
    by force
  then show ?thesis
  proof cases
    case 1
    then have "\<not> (55296 \<le> c \<and> c \<le> 56319)" using assms by (auto simp: scalar_def surrogate_def)
    with 1 have "json_escape (117 # hex_fixed 4 c @ s) = Some (c, s)" by (auto simp: json_escape_def r4)
    moreover have "json_char True c = 92 # 117 # hex_fixed 4 c" using 1 by (auto simp: json_char_def unicode_escape_def)
    ultimately show ?thesis by (simp add: read_string.simps(2))
  next
    case 2
    define v w where "v = 55296 + (c - 65536) div 1024" and "w = 56320 + (c - 65536) mod 1024"
    have "c < 1114112" using assms by (simp add: scalar_def)
    then have "c - 65536 < 1024 * 1024" by linarith
    then have "(c - 65536) div 1024 < 1024" by (rule less_mult_imp_div_less)
    moreover have "(c - 65536) mod 1024 < 1024" by simp
    ultimately have vw: "55296 \<le> v" "v \<le> 56319" "56320 \<le> w" "w \<le> 57343" by (simp_all add: v_def w_def)
    have c: "65536 + (v - 55296) * 1024 + (w - 56320) = c" using 2 by (simp add: v_def w_def)
    have "json_escape (117 # hex_fixed 4 v @ 92 # 117 # hex_fixed 4 w @ s) = Some (c, s)"
      using vw c by (simp add: json_escape_def u_escape_def r4)
    moreover have "json_char True c = 92 # 117 # hex_fixed 4 v @ 92 # 117 # hex_fixed 4 w"
      using 2 by (simp add: json_char_def unicode_escape_def v_def w_def)
    ultimately show ?thesis by (simp add: read_string.simps(2))
  next
    case 3
    then show ?thesis
      by (elim insertE) (simp_all add: json_char_def read_string.simps(2) json_escape_def)
  next
    case 4
    then show ?thesis by (simp add: json_char_def read_string.simps(2))
  qed
qed

lemma read_string_written:
  "list_all scalar s \<Longrightarrow> read_string (concat (map (json_char True) s) @ 34 # rest) = Some (s, rest)"
  by (induction s) (simp_all add: read_string.simps(2) read_string_char)

lemma dec_digits_are: "\<forall>c \<in> set (dec_digits n). is_digit c"
proof (induction n rule: dec_digits.induct)
  case (1 n)
  then show ?case by (subst dec_digits.simps) (auto simp: is_digit_def)
qed

lemma dec_digits_head: "n \<noteq> 0 \<Longrightarrow> \<exists>d ds. dec_digits n = d # ds \<and> d \<noteq> 48 \<and> is_digit d"
proof (induction n rule: dec_digits.induct)
  case (1 n)
  show ?case
  proof (cases "n < 10")
    case True
    then show ?thesis using 1(2) by (subst dec_digits.simps) (simp add: is_digit_def)
  next
    case False
    then have "n div 10 \<noteq> 0" by simp
    with 1 False show ?thesis by (subst dec_digits.simps) auto
  qed
qed

definition ends_number :: "pystr \<Rightarrow> bool" where
  "ends_number s \<longleftrightarrow> s = [] \<or> \<not> is_digit (hd s) \<and> hd s \<notin> {46, 101, 69}"

lemma digits_of_append:
  "\<forall>c \<in> set ds. is_digit c \<Longrightarrow> ends_number r \<Longrightarrow> digits_of (ds @ r) = (ds, r)"
  by (induction ds) (auto simp: digits_of_def ends_number_def takeWhile_eq_Nil_iff dropWhile_eq_self_iff)

lemma int_part_digits: "ends_number r \<Longrightarrow> int_part (dec_digits n @ r) = Some (dec_digits n, r)"
proof (cases "n = 0")
  case True
  then show ?thesis by (simp add: int_part_def dec_digits.simps)
next
  case False
  assume r: "ends_number r"
  obtain d ds where d: "dec_digits n = d # ds" "d \<noteq> 48" "is_digit d" using dec_digits_head [OF False] by blast
  have "digits_of (dec_digits n @ r) = (dec_digits n, r)" using digits_of_append [OF dec_digits_are r] .
  with d show ?thesis by (simp add: int_part_def)
qed

lemma no_fraction: "ends_number r \<Longrightarrow> frac_part r = ([], r) \<and> exp_part r = ([], r)"
  by (cases r) (auto simp: ends_number_def frac_part_def exp_part_def digits_of_def Let_def)

lemma read_number_int:
  assumes "ends_number r"
  shows "read_number ft (int_str i @ r) = Some (JInt i, r)"
proof -
  have digits: "c \<noteq> 45" if "dec_digits n = c # cs" for n c cs
    using dec_digits_are [of n] that by (auto simp: is_digit_def)
  have ne: "dec_digits n \<noteq> []" for n by (subst dec_digits.simps) simp
  have hd: "(case dec_digits n @ r of [] \<Rightarrow> False | c # _ \<Rightarrow> c = 45) = False" for n
    using ne [of n] digits [of n] by (cases "dec_digits n") auto
  have minus: "lit ''-'' = [45]" by (simp add: lit_def)
  show ?thesis
    using int_part_digits [OF assms] no_fraction [OF assms]
    by (simp add: read_number_def int_str_def hd minus)
qed

text \<open>
  What is written and read back: no floats, strings without surrogates, dictionaries without repeated
  keys.  Reading gives the keys in the order written.
\<close>

definition compact_dump :: dump_options where
  "compact_dump = \<lparr>item_sep = lit '','', key_sep = lit '':'', sort_keys = True, ensure_ascii = True\<rparr>"

fun clean :: "json \<Rightarrow> bool" where
  "clean (JFloat s) = False"
| "clean (JStr s) = list_all scalar s"
| "clean (JList xs) = list_all clean xs"
| "clean (JDict d) = (dict_ok d \<and> list_all (\<lambda>(k, v). list_all scalar k \<and> clean v) d)"
| "clean _ = True"

fun in_order :: "json \<Rightarrow> json" where
  "in_order (JList xs) = JList (map in_order xs)"
| "in_order (JDict d) = JDict (sort_key fst (map (\<lambda>(k, v). (k, in_order v)) d))"
| "in_order j = j"

fun read_fuel :: "json \<Rightarrow> nat" where
  "read_fuel (JList xs) = Suc (sum_list (map (\<lambda>x. Suc (read_fuel x)) xs))"
| "read_fuel (JDict d) = Suc (sum_list (map (\<lambda>(k, v). Suc (read_fuel v)) d))"
| "read_fuel _ = 1"

lemma sort_key_map: "sort_key f (map g xs) = map g (sort_key (\<lambda>x. f (g x)) xs)"
proof -
  have "insort_key f (g x) (map g ys) = map g (insort_key (\<lambda>x. f (g x)) x ys)" for x ys
    by (induction ys) simp_all
  then show ?thesis by (induction xs) simp_all
qed

text \<open>
  The forms the code writes: with or without a space after the separators, ASCII only, the keys sorted
  or in the dictionary's order, which is the order they are read in.
\<close>

definition spaced :: "dump_options \<Rightarrow> bool" where
  "spaced opt \<longleftrightarrow> item_sep opt \<in> {[44], [44, 32]} \<and> key_sep opt \<in> {[58], [58, 32]} \<and> ensure_ascii opt"

definition by_key :: "dump_options \<Rightarrow> (pystr \<times> 'a) list \<Rightarrow> (pystr \<times> 'a) list" where
  "by_key opt d = (if sort_keys opt then sort_key fst d else d)"

fun arranged :: "dump_options \<Rightarrow> json \<Rightarrow> json" where
  "arranged opt (JList xs) = JList (map (arranged opt) xs)"
| "arranged opt (JDict d) = JDict (by_key opt (map (\<lambda>(k, v). (k, arranged opt v)) d))"
| "arranged opt j = j"

lemma arranged_sorted: "sort_keys opt \<Longrightarrow> arranged opt j = in_order j"
proof (induction j)
  case (JDict d)
  then have eq: "map (\<lambda>(k, v). (k, arranged opt v)) d = map (\<lambda>(k, v). (k, in_order v)) d" by fastforce
  show ?case using JDict.prems by (simp only: arranged.simps in_order.simps by_key_def eq if_True)
qed simp_all

lemma arranged_unsorted [simp]: "\<not> sort_keys opt \<Longrightarrow> arranged opt j = j"
proof (induction j)
  case (JDict d)
  then have "map (\<lambda>(k, v). (k, arranged opt v)) d = d" by (intro map_idI) fastforce
  with JDict show ?case by (simp add: by_key_def)
qed (simp_all add: map_idI)

lemma spaced_options: "spaced compact_dump" "spaced default_dump" "sort_keys compact_dump" "\<not> sort_keys default_dump"
  by (simp_all add: spaced_def compact_dump_def default_dump_def lit_def)

lemma by_key_map: "by_key opt (map (\<lambda>(k, v). (k, f v)) d) = map (\<lambda>(k, v). (k, f v)) (by_key opt d)"
  by (simp add: by_key_def) (subst sort_key_map, simp add: case_prod_unfold)

lemma by_key_simps [simp]:
  "set (by_key opt d) = set d" "distinct (map fst (by_key opt d)) = distinct (map fst d)" "by_key opt d = [] \<longleftrightarrow> d = []"
  "sum_list (map g (by_key opt d)) = sum_list (map g d)" for g :: "_ \<Rightarrow> nat"
proof -
  have m: "mset (by_key opt d) = mset d" by (simp add: by_key_def)
  then show "set (by_key opt d) = set d" by (metis set_mset_mset)
  show "distinct (map fst (by_key opt d)) = distinct (map fst d)"
    by (rule mset_eq_imp_distinct_iff) (simp add: m)
  show "by_key opt d = [] \<longleftrightarrow> d = []" using m by (metis mset_zero_iff)
  show "sum_list (map g (by_key opt d)) = sum_list (map g d)"
    using arg_cong [OF m, of "\<lambda>x. sum_mset (image_mset g x)"] by (simp add: sum_mset_sum_list flip: mset_map)
qed

definition written :: "json \<Rightarrow> pystr" where "written j = dumps compact_dump j"

definition dumped_member :: "dump_options \<Rightarrow> pystr \<times> json \<Rightarrow> pystr" where
  "dumped_member opt = (\<lambda>(k, v). json_string True k @ key_sep opt @ dumps opt v)"

lemma dumped_simps:
  assumes "spaced opt"
  shows "dumps opt (JList xs) = 91 # py_join (item_sep opt) (map (dumps opt) xs) @ [93]"
    and "dumps opt (JDict d) = 123 # py_join (item_sep opt) (map (dumped_member opt) (by_key opt d)) @ [125]"
proof -
  show "dumps opt (JList xs) = 91 # py_join (item_sep opt) (map (dumps opt) xs) @ [93]"
    by (simp add: dumps.simps lit_def)
  have "(let items = map (\<lambda>(k, v). (k, dumps opt v)) d in if sort_keys opt then sort_key fst items else items) =
      map (\<lambda>(k, v). (k, dumps opt v)) (by_key opt d)"
    by (simp only: Let_def by_key_def [symmetric] by_key_map)
  then show "dumps opt (JDict d) = 123 # py_join (item_sep opt) (map (dumped_member opt) (by_key opt d)) @ [125]"
    using assms by (simp add: dumps.simps dumped_member_def comp_def case_prod_unfold spaced_def)
qed

lemma skip_ws_id: "s = [] \<or> hd s \<notin> {32, 9, 10, 13} \<Longrightarrow> skip_ws s = s"
  by (cases s) (auto simp: skip_ws_def)

lemma separators:
  assumes "spaced opt"
  obtains t u where "item_sep opt = 44 # t" and "key_sep opt = 58 # u"
    and "\<And>s. skip_ws (t @ s) = skip_ws s" and "\<And>s. skip_ws (u @ s) = skip_ws s"
proof (rule that [of "tl (item_sep opt)" "tl (key_sep opt)"])
qed (use assms in \<open>auto simp: spaced_def skip_ws_def\<close>)

definition reads :: "dump_options \<Rightarrow> (pystr \<Rightarrow> pystr) \<Rightarrow> json \<Rightarrow> bool" where
  "reads opt ft j \<longleftrightarrow> (\<forall>n rest. read_fuel j \<le> n \<longrightarrow> ends_number rest \<longrightarrow>
     read_value ft n (dumps opt j @ rest) = Some (arranged opt j, rest))"

lemma digits_head: "\<exists>c s. dec_digits m = c # s \<and> is_digit c"
  using dec_digits_are [of m] by (cases "dec_digits m") (auto, subst (asm) dec_digits.simps, simp split: if_splits)

lemma dumped_head: "spaced opt \<Longrightarrow> clean j \<Longrightarrow> \<exists>c s. dumps opt j = c # s \<and> c \<notin> {32, 9, 10, 13, 93, 125}"
proof (cases j)
  case (JInt i)
  obtain c s where "dec_digits (nat i) = c # s" "is_digit c" using digits_head by blast
  then show ?thesis unfolding JInt by (auto simp: dumps.simps int_str_def lit_def is_digit_def)
qed (auto simp: dumped_simps dumps.simps(1,2,5) json_string_def lit_def)

lemma ends_number_simps [simp]:
  "ends_number []" "ends_number (93 # s)" "ends_number (125 # s)" "ends_number (44 # s)"
  by (simp_all add: ends_number_def is_digit_def)

lemma expect_simps [simp]: "expect c (c # s) = Some s" "d \<noteq> c \<Longrightarrow> expect c (d # s) = None"
  by (simp_all add: expect_def)

lemma read_items_dumped:
  assumes opt: "spaced opt" and "xs \<noteq> []" and "\<forall>x \<in> set xs. clean x \<and> reads opt ft x"
    and "sum_list (map (\<lambda>x. Suc (read_fuel x)) xs) \<le> n"
  shows "read_items ft n (py_join (item_sep opt) (map (dumps opt) xs) @ 93 # rest) = Some (map (arranged opt) xs, rest)"
  using assms(2-)
proof (induction xs arbitrary: n)
  case (Cons x xs)
  obtain t u where sep: "item_sep opt = 44 # t" "\<And>s. skip_ws (t @ s) = skip_ws s" using separators [OF opt] by blast
  from Cons obtain m where n: "n = Suc m" "read_fuel x \<le> m" by (cases n) auto
  have x: "read_value ft m (dumps opt x @ r) = Some (arranged opt x, r)" if "ends_number r" for r
    using Cons.prems(2) n(2) that by (simp add: reads_def)
  show ?case
  proof (cases xs)
    case Nil
    then show ?thesis using x n(1) by (simp add: skip_ws_id)
  next
    case (Cons y ys)
    let ?more = "py_join (item_sep opt) (map (dumps opt) xs) @ 93 # rest"
    have "sum_list (map (\<lambda>x. Suc (read_fuel x)) xs) \<le> m" using Cons.prems(3) n by simp
    then have IH: "read_items ft m ?more = Some (map (arranged opt) xs, rest)"
      using Cons.IH Cons.prems(2) Cons by simp
    obtain c s where "dumps opt y = c # s" "c \<notin> {32, 9, 10, 13, 93, 125}"
      using dumped_head [OF opt, of y] Cons.prems(2) Cons by auto
    then have "skip_ws ?more = ?more" unfolding Cons by (cases ys) (simp_all add: skip_ws_id)
    then show ?thesis using x n(1) IH by (simp add: Cons skip_ws_id sep)
  qed
qed simp

lemma read_members_dumped:
  assumes opt: "spaced opt" and "d \<noteq> []" and "\<forall>(k, v) \<in> set d. list_all scalar k \<and> clean v \<and> reads opt ft v"
    and "sum_list (map (\<lambda>(k, v). Suc (read_fuel v)) d) \<le> n"
  shows "read_members ft n (py_join (item_sep opt) (map (dumped_member opt) d) @ 125 # rest) =
    Some (map (\<lambda>(k, v). (k, arranged opt v)) d, rest)"
  using assms(2-)
proof (induction d arbitrary: n)
  case (Cons kv d)
  obtain t u where sep: "item_sep opt = 44 # t" "key_sep opt = 58 # u"
    "\<And>s. skip_ws (t @ s) = skip_ws s" "\<And>s. skip_ws (u @ s) = skip_ws s" using separators [OF opt] by blast
  obtain k v where kv: "kv = (k, v)" by fastforce
  from Cons obtain m where n: "n = Suc m" "read_fuel v \<le> m" by (cases n) (auto simp: kv)
  have x: "read_value ft m (skip_ws (dumps opt v @ r)) = Some (arranged opt v, r)" if "ends_number r" for r
  proof -
    obtain c s where "dumps opt v = c # s" "c \<notin> {32, 9, 10, 13, 93, 125}"
      using dumped_head [OF opt, of v] Cons.prems(2) kv by auto
    then have "skip_ws (dumps opt v @ r) = dumps opt v @ r" by (simp add: skip_ws_id)
    then show ?thesis using Cons.prems(2) n(2) that kv by (auto simp: reads_def)
  qed
  have key: "read_string (concat (map (json_char True) k) @ 34 # r) = Some (k, r)" for r
    using Cons.prems(2) kv by (intro read_string_written) auto
  show ?case
  proof (cases d)
    case Nil
    then show ?thesis using x n(1) key
      by (simp add: kv dumped_member_def json_string_def skip_ws_id sep)
  next
    case (Cons y ys)
    let ?more = "py_join (item_sep opt) (map (dumped_member opt) d) @ 125 # rest"
    have "sum_list (map (\<lambda>(k, v). Suc (read_fuel v)) d) \<le> m" using Cons.prems(3) n by (simp add: kv)
    then have IH: "read_members ft m ?more = Some (map (\<lambda>(k, v). (k, arranged opt v)) d, rest)"
      using Cons.IH Cons.prems(2) Cons by simp
    have "skip_ws ?more = ?more"
      unfolding Cons by (cases ys) (simp_all add: skip_ws_id dumped_member_def json_string_def case_prod_beta)
    then show ?thesis using x n(1) key IH
      by (simp add: kv Cons dumped_member_def json_string_def skip_ws_id sep)
  qed
qed simp

lemma fold_dict_set_new:
  assumes "distinct (map k xs)"
  shows "fold (\<lambda>x d. dict_set (k x) (v x) d) xs [] = map (\<lambda>x. (k x, v x)) xs"
proof -
  have "distinct (map fst e @ map k xs) \<Longrightarrow>
      fold (\<lambda>x d. dict_set (k x) (v x) d) xs e = e @ map (\<lambda>x. (k x, v x)) xs" for e
  proof (induction xs arbitrary: e)
    case (Cons x xs)
    have "dict_set (k x) (v x) e = e @ [(k x, v x)]" using Cons.prems by (intro dict_set_new) auto
    then show ?case using Cons.IH [of "e @ [(k x, v x)]"] Cons.prems by simp
  qed simp
  from this [of "[]"] assms show ?thesis by simp
qed

lemma make_dict_new: "distinct (map fst d) \<Longrightarrow> make_dict d = d"
  using fold_dict_set_new [of fst d snd] by (simp add: make_dict_def case_prod_unfold)

lemma keys_sort_key: "distinct (map g (sort_key f xs)) = distinct (map g xs)"
proof -
  have "mset (map g (sort_key f xs)) = mset (map g xs)" by simp
  then show ?thesis by (rule mset_eq_imp_distinct_iff)
qed

lemma read_dict_dumped:
  assumes opt: "spaced opt" and "dict_ok d" and "\<forall>(k, v) \<in> set d. list_all scalar k \<and> clean v \<and> reads opt ft v"
  shows "reads opt ft (JDict d)"
  unfolding reads_def
proof (intro allI impI)
  fix n rest
  assume n: "read_fuel (JDict d) \<le> n"
  then obtain m where m: "n = Suc m" "sum_list (map (\<lambda>(k, v). Suc (read_fuel v)) d) \<le> m" by (cases n) auto
  let ?d = "by_key opt d" and ?g = "\<lambda>(k, v). (k, arranged opt v)"
  have order: "arranged opt (JDict d) = JDict (map ?g ?d)" by (simp add: by_key_map)
  have keys: "distinct (map fst (map ?g ?d))"
    using assms(2) by (simp add: case_prod_unfold comp_def)
  show "read_value ft n (dumps opt (JDict d) @ rest) = Some (arranged opt (JDict d), rest)"
  proof (cases "d = []")
    case True
    then show ?thesis by (simp add: m(1) dumped_simps opt skip_ws_id by_key_def)
  next
    case False
    then obtain kv ds where d: "?d = kv # ds" by (metis by_key_simps(3) list.exhaust)
    have "read_members ft m (py_join (item_sep opt) (map (dumped_member opt) ?d) @ 125 # rest) = Some (map ?g ?d, rest)"
      using assms(3) m(2) False by (intro read_members_dumped opt) auto
    moreover obtain s where "py_join (item_sep opt) (map (dumped_member opt) ?d) @ 125 # rest = 34 # s"
      unfolding d by (cases ds) (simp_all add: dumped_member_def json_string_def case_prod_beta)
    ultimately show ?thesis
      using make_dict_new [OF keys] order by (simp add: m(1) dumped_simps opt skip_ws_id)
  qed
qed

lemma read_list_dumped:
  assumes opt: "spaced opt" and "\<forall>x \<in> set xs. clean x \<and> reads opt ft x"
  shows "reads opt ft (JList xs)"
  unfolding reads_def
proof (intro allI impI)
  fix n rest
  assume n: "read_fuel (JList xs) \<le> n"
  then obtain m where m: "n = Suc m" "sum_list (map (\<lambda>x. Suc (read_fuel x)) xs) \<le> m" by (cases n) auto
  show "read_value ft n (dumps opt (JList xs) @ rest) = Some (arranged opt (JList xs), rest)"
  proof (cases xs)
    case Nil
    then show ?thesis by (simp add: m(1) dumped_simps opt skip_ws_id)
  next
    case (Cons y ys)
    obtain c s where cs: "dumps opt y = c # s" "c \<notin> {32, 9, 10, 13, 93, 125}"
      using dumped_head [OF opt, of y] assms Cons by auto
    obtain t where t: "py_join (item_sep opt) (map (dumps opt) xs) @ 93 # rest = c # t"
      unfolding Cons by (cases ys) (simp_all add: cs)
    have "read_items ft m (py_join (item_sep opt) (map (dumps opt) xs) @ 93 # rest) = Some (map (arranged opt) xs, rest)"
      using assms m(2) Cons by (intro read_items_dumped) auto
    then show ?thesis unfolding m(1) using cs(2) t by (simp add: dumped_simps opt skip_ws_id)
  qed
qed

lemma read_literals_int: "read_literals literals (int_str i @ rest) = None"
proof -
  obtain c s where "dec_digits (nat (abs i)) = c # s" "is_digit c" using digits_head by blast
  then show ?thesis
    by (cases "i < 0") (auto simp: literals_def int_str_def lit_def is_digit_def)
qed

lemma read_int_dumped: "reads opt ft (JInt i)"
proof -
  obtain c s where c: "int_str i = c # s" "c \<notin> {34, 91, 123}"
    using digits_head [of "nat (abs i)"] by (cases "i < 0") (auto simp: int_str_def lit_def is_digit_def)
  show ?thesis
    unfolding reads_def
  proof (intro allI impI)
    fix n rest
    assume n: "read_fuel (JInt i) \<le> n" and r: "ends_number rest"
    obtain m where m: "n = Suc m" using n by (cases n) auto
    have "read_value ft (Suc m) ((c # s) @ rest) = Some (JInt i, rest)"
      using c(2) read_literals_int [of i rest] read_number_int [OF r, of ft i] by (simp add: c(1))
    then show "read_value ft n (dumps opt (JInt i) @ rest) = Some (arranged opt (JInt i), rest)"
      by (simp add: m dumps.simps c(1))
  qed
qed

lemma read_leaf_dumped:
  "reads opt ft JNull" "reads opt ft (JBool b)" "ensure_ascii opt \<Longrightarrow> list_all scalar s \<Longrightarrow> reads opt ft (JStr s)"
proof -
  show "reads opt ft JNull" "reads opt ft (JBool b)"
    unfolding reads_def
    by (intro allI impI; rename_tac n rest; case_tac n; simp add: dumps.simps lit_def literals_def)+
  show "ensure_ascii opt \<Longrightarrow> list_all scalar s \<Longrightarrow> reads opt ft (JStr s)"
    unfolding reads_def
    by (intro allI impI; rename_tac n rest; case_tac n; simp add: dumps.simps json_string_def read_string_written)
qed

lemma reads_clean: "spaced opt \<Longrightarrow> clean j \<Longrightarrow> reads opt ft j"
proof (induction j)
  case (JList xs)
  then show ?case by (intro read_list_dumped) (auto simp: list_all_iff)
next
  case (JDict d)
  then show ?case by (intro read_dict_dumped) (fastforce simp: list_all_iff)+
qed (simp_all add: read_int_dumped read_leaf_dumped spaced_def)

section \<open>The fuel is enough\<close>

lemma length_py_join: "length (py_join (c # t) ls) \<ge> sum_list (map length ls) + (length ls - 1)"
  by (induction "c # t" ls rule: py_join.induct) auto

lemma read_fuel_bound: "spaced opt \<Longrightarrow> clean j \<Longrightarrow> read_fuel j \<le> 2 * length (dumps opt j)"
proof (induction j)
  case (JInt i)
  have "dec_digits n \<noteq> []" for n using digits_head [of n] by auto
  then show ?case by (cases "int_str i") (auto simp: dumps.simps int_str_def lit_def split: if_splits)
next
  case (JList xs)
  obtain t u where sep: "item_sep opt = 44 # t" using separators [OF JList.prems(1)] by blast
  have "sum_list (map (\<lambda>x. Suc (read_fuel x)) xs) \<le> sum_list (map (\<lambda>x. 1 + 2 * length (dumps opt x)) xs)"
    using JList by (intro sum_list_mono) (simp add: list_all_iff)
  also have "\<dots> = length xs + 2 * sum_list (map (\<lambda>x. length (dumps opt x)) xs)"
    by (induction xs) simp_all
  finally show ?case using length_py_join [where c = 44 and t = t and ls = "map (dumps opt) xs"]
    by (cases xs) (simp_all add: dumped_simps [OF JList.prems(1)] sep comp_def)
next
  case (JDict d)
  obtain t u where sep: "item_sep opt = 44 # t" using separators [OF JDict.prems(1)] by blast
  have "sum_list (map (\<lambda>(k, v). Suc (read_fuel v)) d) \<le> sum_list (map (\<lambda>kv. 2 * length (dumped_member opt kv)) d)"
    using JDict by (intro sum_list_mono) (fastforce simp: dumped_member_def json_string_def list_all_iff)
  also have "\<dots> = 2 * sum_list (map (\<lambda>kv. length (dumped_member opt kv)) (by_key opt d))"
    by (simp only: by_key_simps(4)) (induction d, simp_all)
  finally show ?case using length_py_join [where c = 44 and t = t and ls = "map (dumped_member opt) (by_key opt d)"]
    by (simp add: dumped_simps [OF JDict.prems(1)] sep comp_def)
qed (auto simp: dumps.simps json_string_def lit_def)

lemma loads_dumped: "spaced opt \<Longrightarrow> clean j \<Longrightarrow> json_loads ft (dumps opt j) = Some (arranged opt j)"
proof -
  assume opt: "spaced opt" and c: "clean j"
  obtain h s where w: "dumps opt j = h # s" "h \<notin> {32, 9, 10, 13, 93, 125}" using dumped_head [OF opt c] by blast
  have "read_value ft (2 * length (dumps opt j) + 2) (dumps opt j @ []) = Some (arranged opt j, [])"
    using reads_clean [OF opt c, of ft] read_fuel_bound [OF opt c] unfolding reads_def
    by (metis ends_number_simps(1) le_add1 le_trans)
  then show ?thesis using w by (simp add: json_loads_def skip_ws_id)
qed

lemma loads_written: "clean j \<Longrightarrow> json_loads ft (written j) = Some (in_order j)"
  using loads_dumped [OF spaced_options(1)] arranged_sorted [OF spaced_options(3)] by (simp add: written_def)

lemma loads_default: "clean j \<Longrightarrow> json_loads ft (dumps default_dump j) = Some j"
  using loads_dumped [OF spaced_options(2)] spaced_options(4) by simp

section \<open>What is written is ASCII\<close>

lemma ascii_join: "\<forall>l \<in> set ls. \<forall>c \<in> set l. c < n \<Longrightarrow> \<forall>c \<in> set sep. c < n \<Longrightarrow> \<forall>c \<in> set (py_join sep ls). c < n"
  for n :: nat
  by (induction sep ls rule: py_join.induct) auto

lemma ascii_hex: "\<forall>c \<in> set (hex_fixed w n). c < 128"
  by (induction w arbitrary: n) (auto simp: hex_digit_def)

lemma ascii_string: "\<forall>c \<in> set (json_string True s). c < 128"
proof -
  have "\<forall>d \<in> set (json_char True c). d < 128" for c
    using ascii_hex by (auto simp: json_char_def unicode_escape_def)
  then show ?thesis by (auto simp: json_string_def)
qed

lemma ascii_dumped: "spaced opt \<Longrightarrow> clean j \<Longrightarrow> \<forall>c \<in> set (dumps opt j). c < 128"
proof (induction j)
  case (JInt i)
  have "\<forall>c \<in> set (dec_digits n). c < 128" for n using dec_digits_are [of n] by (auto simp: is_digit_def)
  then show ?case by (auto simp: dumps.simps int_str_def lit_def)
next
  case (JStr s)
  then show ?case using ascii_string by (auto simp: dumps.simps spaced_def)
next
  case (JList xs)
  have "\<forall>c \<in> set (py_join (item_sep opt) (map (dumps opt) xs)). c < 128"
    using JList by (intro ascii_join) (auto simp: list_all_iff spaced_def)
  then show ?case by (auto simp: dumped_simps JList.prems(1))
next
  case (JDict d)
  have "\<forall>c \<in> set (dumped_member opt kv). c < 128" if "kv \<in> set d" for kv
    using JDict that ascii_string by (fastforce simp: list_all_iff dumped_member_def spaced_def)
  then have "\<forall>c \<in> set (py_join (item_sep opt) (map (dumped_member opt) (by_key opt d))). c < 128"
    using JDict.prems(1) by (intro ascii_join) (auto simp: spaced_def)
  then show ?case by (auto simp: dumped_simps JDict.prems(1))
qed (auto simp: dumps.simps lit_def)

lemma ascii_written: "clean j \<Longrightarrow> \<forall>c \<in> set (written j). c < 128"
  unfolding written_def by (rule ascii_dumped [OF spaced_options(1)])

end
