(* ===== verification/Hn_Snapshot.thy ===== *)
theory Hn_Snapshot
  imports Hn_Cells Hn_Loads Hn_Notebook Hn_Runtime
begin

text \<open>
  Snapshots and diffs of a notebook (\<^verbatim>\<open>sdk.py\<close>): the fingerprint of its cells, the snapshot token and
  its decoding, the status and the diff as \<open>Notebook\<close> builds them from the cells the server sent, and
  \<open>NotebookStatus\<close> with its aggregates and compact views.  The round trip of tokens and the exactness
  of diffs are the properties.  Equality of JSON numbers is that of their type: Python's \<open>1 == 1.0\<close>
  does not arise, since execution counts are integers or null.
\<close>

section \<open>Fingerprints\<close>

text \<open>\<open>_SnapshotCell\<close>; nothing checks the fields of a decoded entry, so each may be any value.\<close>

record snapshot_cell =
  sc_id :: json
  sc_type :: json
  sc_order :: json
  sc_source_hash :: json
  sc_outputs_hash :: json
  sc_execution_count :: json

definition sha256 :: "text_env \<Rightarrow> pystr \<Rightarrow> pyexc + pystr" where
  "sha256 env s = (case encode s of Inl e \<Rightarrow> Inl e | Inr bytes \<Rightarrow> Inr (sha256_hex env bytes))"

definition sorted_dump :: dump_options where
  "sorted_dump = default_dump\<lparr>sort_keys := True\<rparr>"

text \<open>\<open>x.get(k) or {}\<close>, and then \<open>get\<close> on the result.\<close>

definition or_empty :: "json \<Rightarrow> json" where
  "or_empty j = (if truthy j then j else JDict [])"

definition cell_order :: "nat \<Rightarrow> jobj \<Rightarrow> pyexc + json" where
  "cell_order i c =
     (case py_get ''hypernote'' JNull (or_empty (opt_json (field ''metadata'' c))) of
        Inl e \<Rightarrow> Inl e
      | Inr hn \<Rightarrow> py_get ''position_key'' (position_key i) (or_empty hn))"

definition snapshot_entry :: "text_env \<Rightarrow> nat \<times> jobj \<Rightarrow> pyexc + snapshot_cell" where
  "snapshot_entry env ic =
     (case ic of (i, c) \<Rightarrow>
      case cell_order i c of Inl e \<Rightarrow> Inl e | Inr order \<Rightarrow>
      case item_of ''id'' c of Inl e \<Rightarrow> Inl e | Inr cid \<Rightarrow>
      case cell_source (printable env) c of Inl e \<Rightarrow> Inl e | Inr source \<Rightarrow>
      case sha256 env source of Inl e \<Rightarrow> Inl e | Inr source_hash \<Rightarrow>
      case sha256 env (dumps sorted_dump (get_or ''outputs'' (JList []) c)) of Inl e \<Rightarrow> Inl e | Inr outputs_hash \<Rightarrow>
        Inr \<lparr>sc_id = cid, sc_type = get_or ''cell_type'' (JStr (cell_type_value CODE)) c, sc_order = order,
             sc_source_hash = JStr source_hash, sc_outputs_hash = JStr outputs_hash,
             sc_execution_count = opt_json (field ''execution_count'' c)\<rparr>)"

definition snapshot_cells :: "text_env \<Rightarrow> jobj list \<Rightarrow> pyexc + snapshot_cell list" where
  "snapshot_cells env cells = each (snapshot_entry env) (enumerate 0 cells)"

section \<open>Tokens\<close>

definition entry_dict :: "snapshot_cell \<Rightarrow> jobj" where
  "entry_dict e =
     [(lit ''id'', sc_id e), (lit ''type'', sc_type e), (lit ''order'', sc_order e),
      (lit ''source_hash'', sc_source_hash e), (lit ''outputs_hash'', sc_outputs_hash e),
      (lit ''execution_count'', sc_execution_count e)]"

definition token_payload :: "snapshot_cell list \<Rightarrow> json" where
  "token_payload es = JDict [(lit ''cells'', JList (map (\<lambda>e. JDict (entry_dict e)) es))]"

definition encode_snapshot_token :: "text_env \<Rightarrow> jobj list \<Rightarrow> pyexc + pystr" where
  "encode_snapshot_token env cells =
     (case snapshot_cells env cells of Inl e \<Rightarrow> Inl e | Inr es \<Rightarrow>
      case encode (dumps compact_dump (token_payload es)) of Inl e \<Rightarrow> Inl e | Inr raw \<Rightarrow>
        Inr (urlsafe_b64encode raw))"

text \<open>\<open>_SnapshotCell(**entry)\<close>: a mapping with exactly the six fields.\<close>

definition entry_of :: "json \<Rightarrow> snapshot_cell option" where
  "entry_of j =
     (case j of
        JDict d \<Rightarrow>
          (case (field ''id'' d, field ''type'' d, field ''order'' d, field ''source_hash'' d,
                 field ''outputs_hash'' d, field ''execution_count'' d) of
             (Some i, Some t, Some ord, Some s, Some out, Some n) \<Rightarrow>
               if length d = 6
               then Some \<lparr>sc_id = i, sc_type = t, sc_order = ord, sc_source_hash = s, sc_outputs_hash = out,
                          sc_execution_count = n\<rparr>
               else None
           | _ \<Rightarrow> None)
      | _ \<Rightarrow> None)"

fun entries_of :: "json list \<Rightarrow> snapshot_cell list option" where
  "entries_of [] = Some []"
| "entries_of (j # js) =
     (case entry_of j of None \<Rightarrow> None | Some e \<Rightarrow> map_option ((#) e) (entries_of js))"

definition cells_of_payload :: "json \<Rightarrow> snapshot_cell list option" where
  "cells_of_payload j =
     (case j of
        JDict d \<Rightarrow>
          (case field ''cells'' d of
             None \<Rightarrow> None
           | Some cs \<Rightarrow> (case py_list cs of Inl e \<Rightarrow> None | Inr js \<Rightarrow> entries_of js))
      | _ \<Rightarrow> None)"

text \<open>Whatever goes wrong on the way is an invalid token.\<close>

definition decode_snapshot_token :: "(pystr \<Rightarrow> pystr) \<Rightarrow> pystr \<Rightarrow> pyexc + snapshot_cell list" where
  "decode_snapshot_token float_text token =
     (case Option.bind (utf8_encode token) (\<lambda>bytes.
           Option.bind (urlsafe_b64decode bytes) (\<lambda>raw.
           Option.bind (utf8_decode raw) (\<lambda>document.
           Option.bind (json_loads float_text document) cells_of_payload))) of
        None \<Rightarrow> Inl (hypernote_error (lit ''Invalid snapshot token''))
      | Some es \<Rightarrow> Inr es)"

section \<open>Status\<close>

text \<open>\<open>NotebookStatus\<close>.\<close>

record notebook_status =
  ns_path :: pystr
  ns_baseline :: "snapshot option"
  ns_current :: snapshot
  ns_runtime :: runtime_state
  ns_cells :: "cell_status list"
  ns_summary :: pystr

definition parse_runtime_status :: "(nat \<Rightarrow> bool) \<Rightarrow> json \<Rightarrow> pyexc + runtime_state" where
  "parse_runtime_status pr j =
     (case find (\<lambda>s. j = JStr (runtime_state_value s))
             [STARTING, LIVE_ATTACHED, LIVE_DETACHED, AWAITING_INPUT, STOPPING, STOPPED, FAILED] of
        Some s \<Rightarrow> Inr s
      | None \<Rightarrow> Inl (ValueError (py_repr pr j @ lit '' is not a valid RuntimeStatus'')))"

text \<open>\<open>tuple(outputs)\<close>, or the summaries of them.\<close>

definition dicts_in :: "json \<Rightarrow> pyexc + jobj list" where
  "dicts_in j =
     (case py_list j of
        Inl e \<Rightarrow> Inl e
      | Inr xs \<Rightarrow> if list_all is_dict xs then Inr (map dict_of xs) else Inl attribute_error)"

definition build_cell_status :: "(nat \<Rightarrow> bool) \<Rightarrow> bool \<Rightarrow> bool \<Rightarrow> change_kind list \<Rightarrow> jobj \<Rightarrow> pyexc + cell_status" where
  "build_cell_status pr full changed kinds cell =
     (case cell_source pr cell of Inl e \<Rightarrow> Inl e | Inr source \<Rightarrow>
      case item_of ''id'' cell of Inl e \<Rightarrow> Inl e | Inr cid \<Rightarrow>
      case cell_type_of pr (get_or ''cell_type'' (JStr (cell_type_value CODE)) cell) of Inl e \<Rightarrow> Inl e | Inr ty \<Rightarrow>
      case dicts_in (get_or ''outputs'' (JList []) cell) of Inl e \<Rightarrow> Inl e | Inr outputs \<Rightarrow>
      case (if full then Inr outputs
            else each (summarize_output pr summary_output_text_chars False False) outputs) of Inl e \<Rightarrow> Inl e | Inr shown \<Rightarrow>
        Inr \<lparr>cs_id = cid, cs_type = ty, cs_changed = changed, cs_change_kinds = kinds,
             cs_source = Some (if full then source else truncate_source source summary_source_chars),
             cs_outputs = Some shown, cs_execution_count = opt_json (field ''execution_count'' cell)\<rparr>)"

definition basename :: "pystr \<Rightarrow> pystr" where
  "basename path = rev (takeWhile (\<lambda>c. c \<noteq> 47) (rev path))"

definition count_cells :: "(jobj \<Rightarrow> bool) \<Rightarrow> jobj list \<Rightarrow> pystr" where
  "count_cells P cells = dec_digits (length (filter P cells))"

definition dot :: pystr where "dot = [32, 183, 32]"

definition build_summary :: "pystr \<Rightarrow> runtime_state \<Rightarrow> jobj list \<Rightarrow> bool \<Rightarrow> nat \<Rightarrow> pystr" where
  "build_summary path rs cells diff changed_count =
     (let of_type = (\<lambda>t c. field ''cell_type'' c = Some (JStr (cell_type_value t)));
          executed = (\<lambda>c. opt_json (field ''execution_count'' c) \<noteq> JNull);
          runtime = dot @ lit ''runtime '' @ runtime_state_value rs
      in if diff
         then basename path @ dot @ dec_digits changed_count @ lit '' changed cells'' @ runtime
         else basename path @ dot @ dec_digits (length cells) @ lit '' cells ('' @ count_cells (of_type CODE) cells
              @ lit '' code, '' @ count_cells (of_type MARKDOWN) cells @ lit '' markdown)'' @ dot
              @ count_cells executed cells @ lit '' executed'' @ runtime)"

text \<open>
  The part of \<open>status\<close> and of \<open>diff\<close> that works on the cells: the clock and the runtime status are
  looked up between its steps by the client.
\<close>

definition current_snapshot :: "text_env \<Rightarrow> pystr \<Rightarrow> jobj list \<Rightarrow> pyexc + snapshot" where
  "current_snapshot env now cells =
     (case encode_snapshot_token env cells of
        Inl e \<Rightarrow> Inl e
      | Inr token \<Rightarrow> Inr \<lparr>snap_token = token, snap_timestamp = now, snap_cell_count = length cells\<rparr>)"

definition status_cells :: "text_env \<Rightarrow> bool \<Rightarrow> jobj list \<Rightarrow> pyexc + cell_status list" where
  "status_cells env full cells = each (build_cell_status (printable env) full False []) cells"

section \<open>Diffs\<close>

fun hashable :: "json \<Rightarrow> bool" where
  "hashable (JList xs) = False"
| "hashable (JDict d) = False"
| "hashable _ = True"

text \<open>\<open>{cell.id: cell for cell in entries}\<close>.\<close>

definition by_id :: "snapshot_cell list \<Rightarrow> pyexc + (json, snapshot_cell) pydict" where
  "by_id es =
     (if list_all (\<lambda>e. hashable (sc_id e)) es then Inr (fold (\<lambda>e d. dict_set (sc_id e) e d) es [])
      else Inl type_error)"

definition change_kinds_of :: "snapshot_cell option \<Rightarrow> snapshot_cell \<Rightarrow> change_kind list" where
  "change_kinds_of baseline current =
     (case baseline of
        None \<Rightarrow> [ADDED]
      | Some b \<Rightarrow>
          (if sc_order b \<noteq> sc_order current then [MOVED] else [])
          @ (if sc_source_hash b \<noteq> sc_source_hash current then [SOURCE_EDITED] else [])
          @ (if sc_outputs_hash b \<noteq> sc_outputs_hash current then [OUTPUT_CHANGED] else [])
          @ (if sc_execution_count b \<noteq> sc_execution_count current then [EXECUTION_COUNT] else []))"

definition changed_cell ::
  "text_env \<Rightarrow> bool \<Rightarrow> (json, snapshot_cell) pydict \<Rightarrow> (json, snapshot_cell) pydict \<Rightarrow> jobj \<Rightarrow> pyexc + cell_status list" where
  "changed_cell env full baseline current cell =
     (let cid = opt_json (field ''id'' cell)
      in case dict_get current cid of
           None \<Rightarrow> Inl (key_error (py_repr (printable env) cid))
         | Some entry \<Rightarrow>
             let kinds = change_kinds_of (dict_get baseline cid) entry
             in if kinds = [] then Inr []
                else case build_cell_status (printable env) full True kinds cell of
                       Inl e \<Rightarrow> Inl e
                     | Inr c \<Rightarrow> Inr [c])"

definition deleted_cell ::
  "text_env \<Rightarrow> (json, snapshot_cell) pydict \<Rightarrow> json \<times> snapshot_cell \<Rightarrow> pyexc + cell_status list" where
  "deleted_cell env current removed =
     (if dict_get current (fst removed) \<noteq> None then Inr []
      else case cell_type_of (printable env) (sc_type (snd removed)) of
             Inl e \<Rightarrow> Inl e
           | Inr ty \<Rightarrow> Inr
               [\<lparr>cs_id = fst removed, cs_type = ty, cs_changed = True, cs_change_kinds = [DELETED],
                 cs_source = None, cs_outputs = None, cs_execution_count = sc_execution_count (snd removed)\<rparr>])"

definition diff_cells :: "text_env \<Rightarrow> (pystr \<Rightarrow> pystr) \<Rightarrow> bool \<Rightarrow> pystr \<Rightarrow> jobj list \<Rightarrow> pyexc + cell_status list" where
  "diff_cells env float_text full token cells =
     (case decode_snapshot_token float_text token of Inl e \<Rightarrow> Inl e | Inr baseline_data \<Rightarrow>
      case snapshot_cells env cells of Inl e \<Rightarrow> Inl e | Inr current_data \<Rightarrow>
      case by_id baseline_data of Inl e \<Rightarrow> Inl e | Inr baseline \<Rightarrow>
      case by_id current_data of Inl e \<Rightarrow> Inl e | Inr current \<Rightarrow>
      case each (changed_cell env full baseline current) cells of Inl e \<Rightarrow> Inl e | Inr changed \<Rightarrow>
      case each (deleted_cell env current) baseline of Inl e \<Rightarrow> Inl e | Inr deleted \<Rightarrow>
        Inr (concat changed @ concat deleted))"

section \<open>Views of a status\<close>

definition notebook_status_dict :: "notebook_status \<Rightarrow> jobj" where
  "notebook_status_dict st =
     [(lit ''notebook_path'', JStr (ns_path st)),
      (lit ''baseline'', (case ns_baseline st of None \<Rightarrow> JNull | Some s \<Rightarrow> snapshot_dict s)),
      (lit ''current'', snapshot_dict (ns_current st)),
      (lit ''runtime'', JStr (runtime_state_value (ns_runtime st))),
      (lit ''cells'', JList (map cell_status_dict (ns_cells st))),
      (lit ''summary'', JStr (ns_summary st))]"

definition how_many :: "(cell_status \<Rightarrow> bool) \<Rightarrow> notebook_status \<Rightarrow> json" where
  "how_many P st = JInt (int (length (filter P (ns_cells st))))"

definition status_aggregates :: "notebook_status \<Rightarrow> jobj" where
  "status_aggregates st =
     (let code = how_many (\<lambda>c. cs_type c = CODE) st;
          markdown = how_many (\<lambda>c. cs_type c = MARKDOWN) st;
          raw = how_many (\<lambda>c. cs_type c \<noteq> CODE \<and> cs_type c \<noteq> MARKDOWN) st;
          executed = how_many (\<lambda>c. cs_execution_count c \<noteq> JNull) st;
          failed = how_many has_error_output_of st;
          changed = how_many (\<lambda>c. cs_change_kinds c \<noteq> []) st;
          with_output = how_many (\<lambda>c. outputs_or_empty c \<noteq> []) st;
          total = JInt (int (length (ns_cells st)));
          runtime = JStr (runtime_state_value (ns_runtime st))
      in [(lit ''cells_total'', total), (lit ''code_cells'', code), (lit ''markdown_cells'', markdown),
          (lit ''raw_cells'', raw), (lit ''executed_cells'', executed), (lit ''failed_cells'', failed),
          (lit ''changed_cells'', changed), (lit ''output_cells'', with_output), (lit ''runtime_state'', runtime),
          (lit ''snapshot'', JStr (snap_token (ns_current st))),
          (lit ''summary'', JDict
            [(lit ''headline'', JStr (ns_summary st)), (lit ''cell_count'', total), (lit ''code_cells'', code),
             (lit ''markdown_cells'', markdown), (lit ''raw_cells'', raw), (lit ''executed_cells'', executed),
             (lit ''failed_cells'', failed),
             (lit ''output_count'', JInt (int (sum_list (map (\<lambda>c. length (outputs_or_empty c)) (ns_cells st))))),
             (lit ''runtime_state'', runtime)])])"

text \<open>The options of the compact views.\<close>

record compact_options =
  co_full_source :: bool
  co_include_outputs :: bool
  co_full_output :: bool
  co_failed_only :: bool
  co_query :: "pystr option"
  co_max_output_chars :: int

definition compact_entry :: "text_env \<Rightarrow> compact_options \<Rightarrow> cell_status \<Rightarrow> pyexc + jobj list" where
  "compact_entry env co c =
     (if co_failed_only co \<and> \<not> has_error_output_of c then Inr []
      else case compact_cell (printable env) (co_full_source co) (co_include_outputs co) (co_full_output co)
                  (co_max_output_chars co) c of
             Inl e \<Rightarrow> Inl e
           | Inr preview \<Rightarrow>
               (case matches_query (lower_case env) (co_query co)
                       [opt_str (cs_source c), opt_json (field ''output_preview'' preview), cs_id c] of
                  Inl e \<Rightarrow> Inl e
                | Inr matched \<Rightarrow> Inr (if matched then [preview] else [])))"

definition compact_cells :: "text_env \<Rightarrow> compact_options \<Rightarrow> notebook_status \<Rightarrow> pyexc + jobj list" where
  "compact_cells env co st =
     (case each (compact_entry env co) (ns_cells st) of Inl e \<Rightarrow> Inl e | Inr xs \<Rightarrow> Inr (concat xs))"

definition compact_status :: "text_env \<Rightarrow> compact_options \<Rightarrow> bool \<Rightarrow> notebook_status \<Rightarrow> pyexc + jobj" where
  "compact_status env co include_details st =
     (case compact_cells env co st of
        Inl e \<Rightarrow> Inl e
      | Inr cells \<Rightarrow> Inr
          (status_aggregates st
           @ [(lit ''filters'', JDict [(lit ''failed_only'', JBool (co_failed_only co)),
                                       (lit ''query'', opt_str (co_query co))]),
              (lit ''cells'', JList (map JDict cells))]
           @ (if include_details then [(lit ''details'', JDict (notebook_status_dict st))] else [])))"

definition sdk_cell_not_found :: "json \<Rightarrow> pyexc" where
  "sdk_cell_not_found j = OtherError (lit ''CellNotFoundError'') (case j of JStr s \<Rightarrow> s | _ \<Rightarrow> [])"

definition status_cell :: "notebook_status \<Rightarrow> pystr \<Rightarrow> pyexc + cell_status" where
  "status_cell st cell_id =
     (case find (\<lambda>c. cs_id c = JStr cell_id) (ns_cells st) of
        None \<Rightarrow> Inl (sdk_cell_not_found (JStr cell_id))
      | Some c \<Rightarrow> Inr c)"

definition save_status_images ::
  "text_env \<Rightarrow> 'w file_system \<Rightarrow> pystr \<Rightarrow> notebook_status \<Rightarrow> 'w \<Rightarrow> (pystr list, 'w) outcome" where
  "save_status_images env fs directory st = gather (save_image_outputs env fs directory) (ns_cells st)"

section \<open>Tokens are read back\<close>

lemma each_Cons: "each f (x # xs) = Inr ys \<longleftrightarrow> (\<exists>y zs. ys = y # zs \<and> f x = Inr y \<and> each f xs = Inr zs)"
  by (auto split: sum.splits)

lemma each_all2: "each f xs = Inr ys \<longleftrightarrow> list_all2 (\<lambda>x y. f x = Inr y) xs ys"
  by (induction xs arbitrary: ys) (auto simp: list_all2_Cons1 each_Cons simp del: each.simps(2))

lemma each_map: "each f (map g xs) = each (\<lambda>x. f (g x)) xs"
  by (induction xs) (simp_all cong: sum.case_cong)

definition plain :: "json \<Rightarrow> bool" where
  "plain j = (case j of JNull \<Rightarrow> True | JInt i \<Rightarrow> True | JStr s \<Rightarrow> list_all scalar s | _ \<Rightarrow> False)"

definition plain_entry :: "snapshot_cell \<Rightarrow> bool" where
  "plain_entry e \<longleftrightarrow> plain (sc_id e) \<and> plain (sc_type e) \<and> plain (sc_order e) \<and> plain (sc_source_hash e)
     \<and> plain (sc_outputs_hash e) \<and> plain (sc_execution_count e)"

lemma plain_clean: "plain j \<Longrightarrow> clean j \<and> in_order j = j"
  by (cases j) (simp_all add: plain_def)

lemma lit_scalar: "list_all scalar (lit s)"
proof -
  have "scalar (of_char c)" for c
  proof -
    have "(of_char c :: nat) < 256" by simp
    then show ?thesis by (simp add: scalar_def surrogate_def del: nat_of_char_less_256)
  qed
  then show ?thesis by (simp add: lit_def list_all_iff)
qed

lemma plain_position_key: "plain (position_key i)"
  using dec_digits_are [of i]
  by (auto simp: plain_def position_key_def pad_left_def list_all_iff is_digit_def scalar_def surrogate_def)

lemma sorted_dict_get: "dict_ok d \<Longrightarrow> dict_get (sort_key fst d) k = dict_get d k"
  using map_of_inject_set [of "sort_key fst d" d] keys_sort_key [of fst fst d] by simp

lemma entry_read_back: "plain_entry e \<Longrightarrow> clean (JDict (entry_dict e)) \<and> entry_of (in_order (JDict (entry_dict e))) = Some e"
proof -
  assume p: "plain_entry e"
  let ?d = "entry_dict e"
  have ok: "dict_ok ?d" by (simp add: entry_dict_def)
  have "map (\<lambda>(k, v). (k, in_order v)) ?d = ?d"
    using p by (simp add: entry_dict_def plain_entry_def plain_clean)
  then have "in_order (JDict ?d) = JDict (sort_key fst ?d)" by simp
  moreover have "entry_of (JDict (sort_key fst ?d)) = Some e"
    by (simp add: entry_of_def sorted_dict_get [OF ok]) (simp add: entry_dict_def)
  moreover have "clean (JDict ?d)"
    using p ok by (simp add: entry_dict_def plain_entry_def plain_clean lit_scalar)
  ultimately show ?thesis by simp
qed

lemma payload_read_back:
  assumes "list_all plain_entry es"
  shows "clean (token_payload es) \<and> cells_of_payload (in_order (token_payload es)) = Some es"
proof -
  have "entries_of (map (\<lambda>e. in_order (JDict (entry_dict e))) es) = Some es"
    using assms
  proof (induction es)
    case (Cons e es)
    then have "entry_of (in_order (JDict (entry_dict e))) = Some e" using entry_read_back [of e] by (simp del: in_order.simps)
    with Cons show ?case by (simp del: in_order.simps)
  qed simp
  moreover have "in_order (token_payload es) =
      JDict [(lit ''cells'', JList (map (\<lambda>e. in_order (JDict (entry_dict e))) es))]"
    by (simp add: token_payload_def comp_def)
  moreover have "list_all clean (map (\<lambda>e. JDict (entry_dict e)) es)"
    using assms entry_read_back by (auto simp: list_all_iff simp del: clean.simps in_order.simps)
  ultimately show ?thesis
    by (simp add: cells_of_payload_def py_list_def token_payload_def lit_scalar del: in_order.simps)
qed

lemma written_token:
  assumes "list_all plain_entry es"
  shows "\<exists>raw. encode (dumps compact_dump (token_payload es)) = Inr raw
    \<and> decode_snapshot_token ft (urlsafe_b64encode raw) = Inr es"
proof -
  let ?j = "token_payload es"
  note c = payload_read_back [OF assms]
  have ascii: "\<forall>x \<in> set (written ?j). x < 128" using c ascii_written by blast
  then have raw: "utf8_encode (written ?j) = Some (written ?j)" by (rule utf8_ascii)
  have bytes: "\<forall>b \<in> set (written ?j). b < 256" using ascii by auto
  have token: "utf8_encode (urlsafe_b64encode (written ?j)) = Some (urlsafe_b64encode (written ?j))"
    by (rule utf8_ascii [OF b64_ascii [OF bytes]])
  show ?thesis
    using c by (intro exI [of _ "written ?j"])
      (simp add: encode_def raw written_def [symmetric] decode_snapshot_token_def token
        b64_round_trip [OF bytes] utf8_round_trip [OF raw] loads_written)
qed

text \<open>
  C8: snapshot tokens round trip.  Whenever the cells can be fingerprinted, with identifiers, types,
  order keys and hashes that are strings without surrogates and execution counts that are integers
  or null, the token of a snapshot exists and decodes to exactly the fingerprints it was made from.
\<close>

theorem snapshot_tokens_round_trip:
  assumes "snapshot_cells env cells = Inr es" and "list_all plain_entry es"
  shows "\<exists>token. encode_snapshot_token env cells = Inr token \<and> decode_snapshot_token ft token = Inr es"
  using assms written_token [OF assms(2), of ft] by (auto simp: encode_snapshot_token_def)

abbreviation simple_cell :: "pystr \<Rightarrow> pystr \<Rightarrow> int \<Rightarrow> jobj" where
  "simple_cell a s n \<equiv> [(lit ''id'', JStr a), (lit ''source'', JStr s), (lit ''execution_count'', JInt n)]"

abbreviation plain_env :: text_env where
  "plain_env \<equiv> \<lparr>printable = (\<lambda>c. True), lower_case = (\<lambda>s. s), sha1_hex = (\<lambda>b. b), sha256_hex = (\<lambda>b. b), b64_bytes = (\<lambda>s. Inr s)\<rparr>"

lemma simple_entry:
  assumes "list_all (\<lambda>c. c < 128) s"
  shows "snapshot_entry plain_env (i, simple_cell a s n) =
    Inr \<lparr>sc_id = JStr a, sc_type = JStr (lit ''code''), sc_order = position_key i, sc_source_hash = JStr s,
      sc_outputs_hash = JStr [91, 93], sc_execution_count = JInt n\<rparr>"
proof -
  have "utf8_encode s = Some s" using assms by (intro utf8_ascii) (simp add: list_all_iff)
  moreover have "utf8_encode (dumps sorted_dump (JList [])) = Some [91, 93]"
    by (simp add: utf8_encode_def utf8_char_def scalar_def surrogate_def dumps.simps lit_def)
  ultimately show ?thesis
    by (simp add: snapshot_entry_def cell_order_def py_get_def or_empty_def cell_source_def py_str_def sha256_def
        encode_def item_of_def get_or_def opt_json_def)
qed

lemma snapshot_tokens_round_trip_witness:
  "\<exists>token es. encode_snapshot_token plain_env [simple_cell (lit ''a'') [120, 61] 7] = Inr token
     \<and> decode_snapshot_token id token = Inr es \<and> map sc_execution_count es = [JInt 7]"
proof -
  let ?e = "\<lparr>sc_id = JStr (lit ''a''), sc_type = JStr (lit ''code''), sc_order = position_key 0,
    sc_source_hash = JStr [120, 61], sc_outputs_hash = JStr [91, 93], sc_execution_count = JInt 7\<rparr>"
  have es: "snapshot_cells plain_env [simple_cell (lit ''a'') [120, 61] 7] = Inr [?e]"
    by (simp add: snapshot_cells_def simple_entry)
  have "list_all plain_entry [?e]"
    by (simp add: plain_entry_def plain_position_key) (simp add: plain_def lit_scalar scalar_def surrogate_def)
  from snapshot_tokens_round_trip [OF es this, of id] show ?thesis by fastforce
qed

section \<open>Diffs compare the notebooks themselves\<close>

text \<open>The reference: what changed between two lists of cells, with no tokens and no hashes.\<close>

definition id_of :: "jobj \<Rightarrow> json" where "id_of c = opt_json (field ''id'' c)"

definition order_of :: "nat \<times> jobj \<Rightarrow> json" where
  "order_of ic = (case cell_order (fst ic) (snd ic) of Inl e \<Rightarrow> JNull | Inr j \<Rightarrow> j)"

definition text_of :: "text_env \<Rightarrow> jobj \<Rightarrow> pystr" where
  "text_of env c = (case cell_source (printable env) c of Inl e \<Rightarrow> [] | Inr s \<Rightarrow> s)"

definition outputs_of :: "jobj \<Rightarrow> pystr" where
  "outputs_of c = dumps sorted_dump (get_or ''outputs'' (JList []) c)"

definition cell_changes :: "text_env \<Rightarrow> (nat \<times> jobj) option \<Rightarrow> nat \<times> jobj \<Rightarrow> change_kind list" where
  "cell_changes env before now =
     (case before of
        None \<Rightarrow> [ADDED]
      | Some b \<Rightarrow>
          (if order_of b \<noteq> order_of now then [MOVED] else [])
          @ (if text_of env (snd b) \<noteq> text_of env (snd now) then [SOURCE_EDITED] else [])
          @ (if outputs_of (snd b) \<noteq> outputs_of (snd now) then [OUTPUT_CHANGED] else [])
          @ (if opt_json (field ''execution_count'' (snd b)) \<noteq> opt_json (field ''execution_count'' (snd now))
             then [EXECUTION_COUNT] else []))"

definition listed :: "json \<Rightarrow> change_kind list \<Rightarrow> (json \<times> change_kind list) list" where
  "listed cid ks = (if ks = [] then [] else [(cid, ks)])"

definition notebook_diff :: "text_env \<Rightarrow> jobj list \<Rightarrow> jobj list \<Rightarrow> (json \<times> change_kind list) list" where
  "notebook_diff env old new =
     concat (map (\<lambda>now. listed (id_of (snd now))
         (cell_changes env (find (\<lambda>b. id_of (snd b) = id_of (snd now)) (enumerate 0 old)) now)) (enumerate 0 new))
     @ concat (map (\<lambda>b. if id_of b \<in> set (map id_of new) then [] else [(id_of b, [DELETED])]) old)"

text \<open>The byte strings that get hashed.\<close>

definition hashed :: "text_env \<Rightarrow> jobj list \<Rightarrow> nat list set" where
  "hashed env cells = (\<Union>c \<in> set cells. {b. encode (text_of env c) = Inr b \<or> encode (outputs_of c) = Inr b})"

lemma encode_inject: "encode s = Inr b \<Longrightarrow> encode t = Inr b \<Longrightarrow> s = t"
  by (auto simp: encode_def split: option.splits) (metis utf8_round_trip option.inject)

definition entry_for :: "text_env \<Rightarrow> nat \<times> jobj \<Rightarrow> snapshot_cell \<Rightarrow> bool" where
  "entry_for env ic e \<longleftrightarrow> sc_id e = id_of (snd ic) \<and> sc_order e = order_of ic
     \<and> (\<exists>b. encode (text_of env (snd ic)) = Inr b \<and> sc_source_hash e = JStr (sha256_hex env b))
     \<and> (\<exists>b. encode (outputs_of (snd ic)) = Inr b \<and> sc_outputs_hash e = JStr (sha256_hex env b))
     \<and> sc_execution_count e = opt_json (field ''execution_count'' (snd ic))"

lemma snapshot_entry_for: "snapshot_entry env ic = Inr e \<Longrightarrow> entry_for env ic e"
  by (cases ic) (auto simp: snapshot_entry_def entry_for_def id_of_def order_of_def text_of_def outputs_of_def
      item_of_def sha256_def opt_json_def split: sum.splits option.splits)

lemma snapshot_entries_for: "snapshot_cells env cells = Inr es \<Longrightarrow> list_all2 (entry_for env) (enumerate 0 cells) es"
  unfolding snapshot_cells_def each_all2 by (erule list_all2_mono) (rule snapshot_entry_for)

lemma entry_ids: "list_all2 (entry_for env) (enumerate 0 cells) es \<Longrightarrow> map sc_id es = map id_of cells"
proof -
  assume a: "list_all2 (entry_for env) (enumerate 0 cells) es"
  have "list_all2 (entry_for env) ics es \<Longrightarrow> map sc_id es = map id_of (map snd ics)" for ics
    by (induction rule: list_all2_induct) (simp_all add: entry_for_def)
  from this [OF a] show ?thesis by simp
qed

lemma find_all2:
  "list_all2 R xs ys \<Longrightarrow> (\<And>x y. R x y \<Longrightarrow> P x \<longleftrightarrow> Q y) \<Longrightarrow> rel_option R (find P xs) (find Q ys)"
  by (induction rule: list_all2_induct) auto

lemma find_by_id:
  "dict_get (map (\<lambda>e. (sc_id e, e)) es) i = find (\<lambda>e. sc_id e = i) es"
  by (induction es) auto

lemma find_unique: "distinct (map f es) \<Longrightarrow> e \<in> set es \<Longrightarrow> find (\<lambda>x. f x = f e) es = Some e"
  by (induction es) auto

lemma by_id_entries:
  assumes "distinct (map sc_id es)" and "by_id es = Inr d"
  shows "d = map (\<lambda>e. (sc_id e, e)) es"
  using assms fold_dict_set_new [of sc_id es "\<lambda>e. e"] by (simp add: by_id_def split: if_splits)

lemma changes_by_hash:
  assumes "rel_option (entry_for env) before b" and "entry_for env now e"
    and inj: "inj_on (sha256_hex env) (hashed env (old @ new))"
    and "\<forall>x. before = Some x \<longrightarrow> snd x \<in> set old" and "snd now \<in> set new"
  shows "change_kinds_of b e = cell_changes env before now"
proof (cases before)
  case None
  then show ?thesis using assms(1) by (simp add: change_kinds_of_def cell_changes_def)
next
  case (Some x)
  then obtain be where be: "b = Some be" "entry_for env x be" using assms(1) by (auto simp: option_rel_Some1)
  have mem: "snd x \<in> set (old @ new)" "snd now \<in> set (old @ new)" using assms(4,5) Some by auto
  have eq: "sha256_hex env p = sha256_hex env q \<longleftrightarrow> s = t"
    if "encode s = Inr p" "encode t = Inr q" "p \<in> hashed env (old @ new)" "q \<in> hashed env (old @ new)" for p q s t
    using inj_on_eq_iff [OF inj that(3,4)] encode_inject that(1,2) by auto
  have h: "encode (text_of env c) = Inr p \<Longrightarrow> p \<in> hashed env (old @ new)"
    "encode (outputs_of c) = Inr p \<Longrightarrow> p \<in> hashed env (old @ new)" if "c \<in> set (old @ new)" for c p
    using that by (auto simp: hashed_def)
  show ?thesis
    using be(2) assms(2) eq h [OF mem(1)] h [OF mem(2)]
    by (auto simp: Some be(1) change_kinds_of_def cell_changes_def entry_for_def)
qed

lemma each_listed:
  "each f xs = Inr yss \<Longrightarrow> (\<And>x ys. x \<in> set xs \<Longrightarrow> f x = Inr ys \<Longrightarrow> map g ys = h x) \<Longrightarrow> map g (concat yss) = concat (map h xs)"
  by (induction xs arbitrary: yss) (auto simp: each_Cons simp del: each.simps(2))

definition reported :: "cell_status \<Rightarrow> json \<times> change_kind list" where
  "reported c = (cs_id c, cs_change_kinds c)"

lemma built_status: "build_cell_status pr full changed kinds cell = Inr c \<Longrightarrow> reported c = (id_of cell, kinds)"
  by (auto simp: build_cell_status_def reported_def id_of_def item_of_def opt_json_def split: sum.splits option.splits)

lemma changed_cells_listed:
  assumes es: "list_all2 (entry_for env) (enumerate 0 new) es" and bs: "list_all2 (entry_for env) (enumerate 0 old) bs"
    and ids: "distinct (map id_of new)"
    and inj: "inj_on (sha256_hex env) (hashed env (old @ new))"
    and chs: "each (changed_cell env full (map (\<lambda>e. (sc_id e, e)) bs) (map (\<lambda>e. (sc_id e, e)) es)) new = Inr chs"
  shows "map reported (concat chs) = concat (map (\<lambda>now. listed (id_of (snd now))
    (cell_changes env (find (\<lambda>b. id_of (snd b) = id_of (snd now)) (enumerate 0 old)) now)) (enumerate 0 new))"
proof -
  let ?f = "changed_cell env full (map (\<lambda>e. (sc_id e, e)) bs) (map (\<lambda>e. (sc_id e, e)) es)"
  let ?before = "\<lambda>now. find (\<lambda>b. id_of (snd b) = id_of (snd now)) (enumerate 0 old)"
  have "each (\<lambda>now. ?f (snd now)) (enumerate 0 new) = Inr chs" using chs each_map [of ?f snd "enumerate 0 new"] by simp
  moreover have "map reported ys = listed (id_of (snd now)) (cell_changes env (?before now) now)"
    if mem: "now \<in> set (enumerate 0 new)" and f: "?f (snd now) = Inr ys" for now ys
  proof -
    obtain e where e: "e \<in> set es" "entry_for env now e"
    proof -
      obtain n where "n < length (enumerate 0 new)" "now = enumerate 0 new ! n"
        using mem unfolding in_set_conv_nth by blast
      with list_all2_nthD [OF es] list_all2_lengthD [OF es] show ?thesis using that nth_mem by metis
    qed
    have i: "sc_id e = id_of (snd now)" using e(2) by (simp add: entry_for_def)
    have "find (\<lambda>x. sc_id x = id_of (snd now)) es = Some e"
      using find_unique [of sc_id es e] ids entry_ids [OF es] e(1) i by simp
    then have current: "dict_get (map (\<lambda>e. (sc_id e, e)) es) (id_of (snd now)) = Some e" by (simp only: find_by_id)
    have "rel_option (entry_for env) (?before now) (find (\<lambda>x. sc_id x = id_of (snd now)) bs)"
      by (rule find_all2 [OF bs]) (simp add: entry_for_def)
    moreover have "\<forall>x. ?before now = Some x \<longrightarrow> snd x \<in> set old"
      by (auto simp: find_Some_iff in_set_conv_nth nth_enumerate_eq)
    moreover have "snd now \<in> set new" using mem by (metis imageI list.set_map map_snd_enumerate)
    ultimately have "change_kinds_of (find (\<lambda>x. sc_id x = id_of (snd now)) bs) e = cell_changes env (?before now) now"
      by (intro changes_by_hash [OF _ e(2) inj]) auto
    then show ?thesis
      using f current built_status
      by (auto simp: changed_cell_def id_of_def [symmetric] find_by_id listed_def Let_def split: if_splits sum.splits)
  qed
  ultimately show ?thesis by (rule each_listed)
qed

lemma deleted_cells_listed:
  assumes bs: "map sc_id bs = map id_of old"
    and dels: "each (deleted_cell env (map (\<lambda>e. (sc_id e, e)) es)) (map (\<lambda>e. (sc_id e, e)) bs) = Inr dels"
    and es: "map sc_id es = map id_of new"
  shows "map reported (concat dels) =
    concat (map (\<lambda>b. if id_of b \<in> set (map id_of new) then [] else [(id_of b, [DELETED])]) old)"
proof -
  let ?h = "\<lambda>i. if i \<in> set (map id_of new) then [] else [(i, [DELETED])]"
  have "(dict_get (map (\<lambda>e. (sc_id e, e)) es) i = None) = (i \<notin> set (map id_of new))" for i
    unfolding es [symmetric] by (simp add: map_of_eq_None_iff image_image)
  then have "map reported (concat dels) = concat (map (\<lambda>x. ?h (fst x)) (map (\<lambda>e. (sc_id e, e)) bs))"
    by (intro each_listed [OF dels]) (auto simp: deleted_cell_def reported_def split: if_splits sum.splits)
  also have "\<dots> = concat (map ?h (map sc_id bs))" by (simp add: comp_def cong: if_cong)
  finally show ?thesis unfolding bs by (simp add: comp_def)
qed

text \<open>
  C11: diffs compare the notebooks themselves.  When the hash has no collision on the sources and
  outputs of the two notebooks, and identifiers are unique in each, the diff against the token of
  the old notebook reports exactly what a direct comparison of the two finds: each cell of the new
  one that is new, has another order key, source, outputs or execution count, with those kinds in
  this order, then each deleted cell; and every other cell is left out.
\<close>

theorem diffs_compare_the_notebooks:
  assumes old: "snapshot_cells env old = Inr bs" "list_all plain_entry bs" "distinct (map id_of old)"
    and new: "distinct (map id_of new)"
    and inj: "inj_on (sha256_hex env) (hashed env (old @ new))"
    and token: "encode_snapshot_token env old = Inr token"
    and ds: "diff_cells env ft full token new = Inr ds"
  shows "map reported ds = notebook_diff env old new"
proof -
  have decoded: "decode_snapshot_token ft token = Inr bs"
    using token written_token [OF old(2), of ft] by (auto simp: encode_snapshot_token_def old(1))
  obtain es d1 d2 chs dels where *: "snapshot_cells env new = Inr es" "by_id bs = Inr d1" "by_id es = Inr d2"
    "each (changed_cell env full d1 d2) new = Inr chs" "each (deleted_cell env d2) d1 = Inr dels"
    "ds = concat chs @ concat dels"
    using ds by (auto simp: diff_cells_def decoded split: sum.splits)
  note bs = snapshot_entries_for [OF old(1)] and es = snapshot_entries_for [OF *(1)]
  have d: "d1 = map (\<lambda>e. (sc_id e, e)) bs" "d2 = map (\<lambda>e. (sc_id e, e)) es"
    using by_id_entries *(2,3) old(3) new entry_ids [OF bs] entry_ids [OF es] by simp_all
  show ?thesis
    using changed_cells_listed [OF es bs new inj *(4) [unfolded d]]
      deleted_cells_listed [OF entry_ids [OF bs] *(5) [unfolded d] entry_ids [OF es]]
    by (simp add: *(6) notebook_diff_def)
qed

lemma diffs_compare_the_notebooks_witness:
  "\<exists>token ds. encode_snapshot_token plain_env [simple_cell (lit ''a'') [120] 1] = Inr token
    \<and> diff_cells plain_env id True token [simple_cell (lit ''b'') [] 0, simple_cell (lit ''a'') [121] 1] = Inr ds
    \<and> map reported ds = [(JStr (lit ''b''), [ADDED]), (JStr (lit ''a''), [MOVED, SOURCE_EDITED])]"
proof -
  let ?old = "[simple_cell (lit ''a'') [120] 1]" and ?new = "[simple_cell (lit ''b'') [] 0, simple_cell (lit ''a'') [121] 1]"
  let ?e = "\<lambda>a i s n. \<lparr>sc_id = JStr (lit a), sc_type = JStr (lit ''code''), sc_order = position_key i,
    sc_source_hash = JStr s, sc_outputs_hash = JStr [91, 93], sc_execution_count = JInt n\<rparr>"
  have bs: "snapshot_cells plain_env ?old = Inr [?e ''a'' 0 [120] 1]"
    and es: "snapshot_cells plain_env ?new = Inr [?e ''b'' 0 [] 0, ?e ''a'' 1 [121] 1]"
    by (simp_all add: snapshot_cells_def simple_entry)
  have p: "list_all plain_entry [?e ''a'' 0 [120] 1]"
    by (simp add: plain_entry_def plain_position_key) (simp add: plain_def lit_scalar scalar_def surrogate_def)
  obtain token where token: "encode_snapshot_token plain_env ?old = Inr token"
    "decode_snapshot_token id token = Inr [?e ''a'' 0 [120] 1]"
    using written_token [OF p, of id] by (auto simp: encode_snapshot_token_def bs)
  have keys: "position_key 0 \<noteq> position_key (Suc 0)"
    by (simp add: position_key_def pad_left_def) (simp add: dec_digits.simps)
  have built: "build_cell_status (\<lambda>c. True) True b ks (simple_cell a s n) = Inr \<lparr>cs_id = JStr a, cs_type = CODE, cs_changed = b,
      cs_change_kinds = ks, cs_source = Some s, cs_outputs = Some [], cs_execution_count = JInt n\<rparr>" for b ks a s n
    by (simp add: build_cell_status_def cell_source_def item_of_def get_or_def py_str_def cell_type_of_def
        dicts_in_def py_list_def opt_json_def)
  have "\<exists>ds. diff_cells plain_env id True token ?new = Inr ds"
    by (simp add: diff_cells_def token(2) es by_id_def changed_cell_def deleted_cell_def opt_json_def
        change_kinds_of_def keys keys [symmetric] built Let_def)
  then obtain ds where ds: "diff_cells plain_env id True token ?new = Inr ds" by blast
  have "map reported ds = notebook_diff plain_env ?old ?new"
    using diffs_compare_the_notebooks [OF bs p _ _ _ token(1) ds] by (simp add: id_of_def opt_json_def)
  also have "\<dots> = [(JStr (lit ''b''), [ADDED]), (JStr (lit ''a''), [MOVED, SOURCE_EDITED])]"
    by (simp add: notebook_diff_def id_of_def opt_json_def cell_changes_def order_of_def cell_order_def py_get_def
        or_empty_def text_of_def cell_source_def py_str_def outputs_of_def get_or_def listed_def keys)
  finally show ?thesis using token(1) ds by (intro exI conjI)
qed

end
