(* ===== verification/Hn_Url.thy ===== *)
theory Hn_Url
  imports Hn_Codec
begin

text \<open>
  Percent encoding as the SDK writes it (\<open>urllib.parse.quote\<close> with no safe characters) and the
  server's handlers read it (\<open>urllib.parse.unquote\<close>).
\<close>

section \<open>Quoting\<close>

definition always_safe :: "nat \<Rightarrow> bool" where
  "always_safe c \<longleftrightarrow> 65 \<le> c \<and> c \<le> 90 \<or> 97 \<le> c \<and> c \<le> 122 \<or> 48 \<le> c \<and> c \<le> 57 \<or> c \<in> {95, 46, 45, 126}"

definition upper_hex :: "nat \<Rightarrow> nat" where
  "upper_hex d = (if d < 10 then 48 + d else 55 + d)"

definition quote_byte :: "nat \<Rightarrow> pystr" where
  "quote_byte b = (if always_safe b then [b] else [37, upper_hex (b div 16), upper_hex (b mod 16)])"

definition quote_bytes :: "nat list \<Rightarrow> pystr" where
  "quote_bytes bs = concat (map quote_byte bs)"

section \<open>Unquoting\<close>

definition escape_at :: "nat \<Rightarrow> pystr \<Rightarrow> nat option" where
  "escape_at c s =
     (if c \<noteq> 37 then None
      else case s of
             d # e # _ \<Rightarrow> (case (hex_val d, hex_val e) of (Some x, Some y) \<Rightarrow> Some (16 * x + y) | _ \<Rightarrow> None)
           | _ \<Rightarrow> None)"

function pct_decode :: "pystr \<Rightarrow> nat list" where
  "pct_decode [] = []"
| "pct_decode (c # s) =
     (case escape_at c s of Some b \<Rightarrow> b # pct_decode (drop 2 s) | None \<Rightarrow> c # pct_decode s)"
  by pat_completeness auto
termination
  by (relation "measure length") auto

declare pct_decode.simps(2) [simp del]

text \<open>Whether a string holds an escape: a percent sign and two hexadecimal digits.\<close>

fun has_escape :: "pystr \<Rightarrow> bool" where
  "has_escape [] = False"
| "has_escape (c # s) \<longleftrightarrow> escape_at c s \<noteq> None \<or> has_escape s"

text \<open>
  \<open>bytes.decode("utf-8", "replace")\<close>: each maximal part of an ill-formed sequence becomes one
  replacement character.
\<close>

definition second_ok :: "nat \<Rightarrow> nat \<Rightarrow> bool" where
  "second_ok b c \<longleftrightarrow>
     (if b = 224 then 160 \<le> c \<and> c < 192
      else if b = 237 then 128 \<le> c \<and> c < 160
      else if b = 240 then 144 \<le> c \<and> c < 192
      else if b = 244 then 128 \<le> c \<and> c < 144
      else cont c)"

definition bad_length :: "nat list \<Rightarrow> nat" where
  "bad_length bs =
     (case bs of
        b # c # d \<Rightarrow>
          if 224 \<le> b \<and> b \<le> 239 then (if second_ok b c then 2 else 1)
          else if 240 \<le> b \<and> b \<le> 244 \<and> second_ok b c
          then (case d of e # _ \<Rightarrow> if cont e then 3 else 2 | [] \<Rightarrow> 2)
          else 1
      | _ \<Rightarrow> 1)"

function decode_replace :: "nat list \<Rightarrow> pystr" where
  "decode_replace bs =
     (if bs = [] then []
      else case utf8_head bs of
             Some (c, n) \<Rightarrow> c # decode_replace (drop n bs)
           | None \<Rightarrow> 65533 # decode_replace (drop (bad_length bs) bs))"
  by pat_completeness auto
termination
proof (relation "measure length")
  have "0 < bad_length bs" for bs
    by (auto simp: bad_length_def split: list.split)
  then show "bs \<noteq> [] \<Longrightarrow> (drop (bad_length bs) bs, bs) \<in> measure length" for bs
    by (simp add: diff_less)
qed (auto dest: utf8_head_length)

declare decode_replace.simps [simp del]

function unquote_runs :: "pystr \<Rightarrow> pystr" where
  "unquote_runs [] = []"
| "unquote_runs (c # s) =
     (if c < 128
      then decode_replace (pct_decode (takeWhile (\<lambda>x. x < 128) (c # s))) @ unquote_runs (dropWhile (\<lambda>x. x < 128) s)
      else c # unquote_runs s)"
  by pat_completeness auto
termination
  by (relation "measure length") (auto simp: less_Suc_eq_le length_dropWhile_le)

declare unquote_runs.simps(2) [simp del]

definition decode_notebook_id :: "pystr \<Rightarrow> pystr" where
  "decode_notebook_id s = (if 37 \<in> set s then unquote_runs s else s)"

definition url_quote :: "pystr \<Rightarrow> pyexc + pystr" where
  "url_quote s = (case encode s of Inl e \<Rightarrow> Inl e | Inr bytes \<Rightarrow> Inr (quote_bytes bytes))"

section \<open>What survives a round trip\<close>

lemma hex_val_upper: "d < 16 \<Longrightarrow> hex_val (upper_hex d) = Some d"
  by (auto simp: hex_val_def upper_hex_def)

lemma pct_decode_quote_byte:
  assumes "b < 256" shows "pct_decode (quote_byte b @ s) = b # pct_decode s"
proof (cases "always_safe b")
  case True
  then have "b \<noteq> 37" by (auto simp: always_safe_def)
  with True show ?thesis by (simp add: quote_byte_def pct_decode.simps(2) escape_at_def)
next
  case False
  have "b div 16 < 16" "b mod 16 < 16" using assms by auto
  then show ?thesis using False
    by (simp add: quote_byte_def hex_val_upper pct_decode.simps(2) escape_at_def numeral_2_eq_2)
qed

lemma pct_decode_quote: "\<forall>b \<in> set bs. b < 256 \<Longrightarrow> pct_decode (quote_bytes bs) = bs"
  unfolding quote_bytes_def by (induction bs) (simp_all add: pct_decode_quote_byte)

lemma quote_bytes_segment:
  "\<forall>b \<in> set bs. b < 256 \<Longrightarrow> \<forall>c \<in> set (quote_bytes bs). c < 128 \<and> c \<noteq> 47 \<and> c \<noteq> 10"
proof -
  have "upper_hex d < 128 \<and> upper_hex d \<noteq> 47 \<and> upper_hex d \<noteq> 10" if "d < 16" for d
    using that by (simp add: upper_hex_def)
  then have "\<forall>c \<in> set (quote_byte b). c < 128 \<and> c \<noteq> 47 \<and> c \<noteq> 10" if "b < 256" for b
    using that by (auto simp: quote_byte_def always_safe_def)
  then show "\<forall>b \<in> set bs. b < 256 \<Longrightarrow> ?thesis" by (auto simp: quote_bytes_def)
qed

lemma utf8_bytes: "utf8_encode s = Some bs \<Longrightarrow> \<forall>b \<in> set bs. b < 256"
proof -
  have "\<forall>b \<in> set (utf8_char c). b < 256" if "scalar c" for c
    using that by (auto simp: utf8_char_def scalar_def split: if_splits)
  then show "utf8_encode s = Some bs \<Longrightarrow> ?thesis"
    by (fastforce simp: utf8_encode_def list_all_iff split: if_splits)
qed

lemma decode_replace_valid: "utf8_decode bs = Some s \<Longrightarrow> decode_replace bs = s"
proof (induction bs arbitrary: s rule: utf8_decode.induct)
  case (1 bs)
  then show ?case
    by (subst decode_replace.simps) (subst (asm) utf8_decode.simps, auto split: option.splits if_splits)
qed

lemma decode_replace_length: "length (decode_replace bs) \<le> length bs"
proof (induction bs rule: decode_replace.induct)
  case (1 bs)
  consider "bs = []" | c n where "bs \<noteq> []" "utf8_head bs = Some (c, n)" | "bs \<noteq> []" "utf8_head bs = None"
    by fastforce
  then show ?case
  proof cases
    case 2
    have "0 < n \<and> n \<le> length bs" using utf8_head_length 2(2) .
    with 1(2) [OF 2(1) 2(2) refl] have "Suc (length (decode_replace (drop n bs))) \<le> length bs" by simp linarith
    with 2 show ?thesis by (subst decode_replace.simps) simp
  next
    case 3
    have "0 < bad_length bs" by (auto simp: bad_length_def split: list.split)
    with 1(1) [OF 3] have "length (decode_replace (drop (bad_length bs) bs)) < length bs"
      using 3(1) by (metis diff_less length_drop length_greater_0_conv order_le_less_trans)
    with 3 show ?thesis by (subst decode_replace.simps) simp
  qed (simp add: decode_replace.simps)
qed

lemma escape_at_append: "escape_at c s \<noteq> None \<Longrightarrow> escape_at c (s @ t) = escape_at c s"
  by (auto simp: escape_at_def split: if_splits list.splits)

lemma has_escape_append: "has_escape xs \<or> has_escape ys \<Longrightarrow> has_escape (xs @ ys)"
  by (induction xs) (auto simp: escape_at_append)

lemma pct_decode_id: "\<not> has_escape s \<Longrightarrow> pct_decode s = s"
  by (induction s) (simp_all add: pct_decode.simps(2))

lemma pct_decode_length: "length (pct_decode s) \<le> length s"
proof (induction s rule: pct_decode.induct)
  case (2 c s)
  then show ?case by (cases "escape_at c s") (fastforce simp: pct_decode.simps(2))+
qed simp

lemma pct_decode_shorter: "has_escape s \<Longrightarrow> length (pct_decode s) < length s"
proof (induction s)
  case (Cons c s)
  show ?case
  proof (cases "escape_at c s")
    case None
    with Cons show ?thesis by (simp add: pct_decode.simps(2))
  next
    case (Some b)
    then have "2 \<le> length s" by (auto simp: escape_at_def split: if_splits list.splits)
    then show ?thesis using Some pct_decode_length [of "drop 2 s"] by (simp add: pct_decode.simps(2))
  qed
qed simp

lemma decode_replace_ascii: "\<forall>c \<in> set s. c < 128 \<Longrightarrow> decode_replace s = s"
  by (rule decode_replace_valid [OF utf8_round_trip [OF utf8_ascii]])

text \<open>An escape lies within a run of ASCII characters.\<close>

lemma escape_at_run: "escape_at c (takeWhile (\<lambda>x. x < 128) s) = escape_at c s"
  by (cases s; cases "tl s") (auto simp: escape_at_def hex_val_def)

lemma has_escape_run:
  "has_escape s \<longleftrightarrow> has_escape (takeWhile (\<lambda>x. x < 128) s) \<or> has_escape (dropWhile (\<lambda>x. x < 128) s)"
  by (induction s) (auto simp: escape_at_run)

lemma unquote_id: "\<not> has_escape s \<Longrightarrow> unquote_runs s = s"
proof (induction s rule: unquote_runs.induct)
  case (2 c s)
  let ?run = "takeWhile (\<lambda>x. x < 128) (c # s)"
  show ?case
  proof (cases "c < 128")
    case True
    have "\<not> has_escape ?run" "\<not> has_escape (dropWhile (\<lambda>x. x < 128) s)"
      using has_escape_run [of "c # s"] 2(3) True by auto
    then have "decode_replace (pct_decode ?run) = ?run" "unquote_runs (dropWhile (\<lambda>x. x < 128) s) = dropWhile (\<lambda>x. x < 128) s"
      using 2(1) [OF True] set_takeWhileD pct_decode_id by (metis decode_replace_ascii, blast)
    then have "unquote_runs (c # s) = ?run @ dropWhile (\<lambda>x. x < 128) s"
      using True by (simp only: unquote_runs.simps(2) if_True)
    with True show ?thesis by simp
  next
    case False
    with 2 show ?thesis by (simp add: unquote_runs.simps(2))
  qed
qed simp

lemma unquote_length:
  "length (unquote_runs s) \<le> length s \<and> (has_escape s \<longrightarrow> length (unquote_runs s) < length s)"
proof (induction s rule: unquote_runs.induct)
  case (2 c s)
  let ?P = "\<lambda>x :: nat. x < 128"
  show ?case
  proof (cases "c < 128")
    case True
    define run where "run = takeWhile ?P (c # s)"
    define rest where "rest = dropWhile ?P s"
    have s: "c # s = run @ rest" using True by (simp add: run_def rest_def)
    have "length (decode_replace (pct_decode run)) \<le> length run"
      "has_escape run \<Longrightarrow> length (decode_replace (pct_decode run)) < length run"
      using decode_replace_length [of "pct_decode run"] pct_decode_length [of run] pct_decode_shorter [of run]
      by linarith+
    moreover have "length (unquote_runs rest) \<le> length rest" "has_escape rest \<Longrightarrow> length (unquote_runs rest) < length rest"
      using 2(1) [OF True] by (simp_all add: rest_def)
    moreover have "has_escape (c # s) \<longleftrightarrow> has_escape run \<or> has_escape rest"
      using has_escape_run [of "c # s"] True by (simp add: run_def rest_def)
    moreover have "unquote_runs (c # s) = decode_replace (pct_decode run) @ unquote_runs rest"
      using True by (simp add: unquote_runs.simps(2) run_def rest_def)
    ultimately show ?thesis unfolding s by fastforce
  next
    case False
    with 2 show ?thesis by (simp add: unquote_runs.simps(2) escape_at_def)
  qed
qed simp

lemma decode_notebook_id_eq: "decode_notebook_id s = s \<longleftrightarrow> \<not> has_escape s"
proof -
  have no_percent: "\<not> has_escape s" if "37 \<notin> set s" using that by (induction s) (auto simp: escape_at_def)
  show ?thesis
  proof (cases "37 \<in> set s")
    case True
    have "unquote_runs s = s \<longleftrightarrow> \<not> has_escape s"
      using unquote_id [of s] unquote_length [of s] by auto
    with True show ?thesis by (simp add: decode_notebook_id_def)
  qed (use no_percent in \<open>simp add: decode_notebook_id_def\<close>)
qed

lemma quoted: "url_quote p = Inr q \<Longrightarrow> \<exists>bs. utf8_encode p = Some bs \<and> q = quote_bytes bs"
  by (auto simp: url_quote_def encode_def split: option.splits)

text \<open>
  C30: notebook identifiers are unquoted twice.  The SDK percent-encodes a path once into a single
  URL segment; the web server unquotes the captured segment and the handler unquotes it again.  So
  the handler works on the path itself exactly when the path holds no escape of its own: a file
  named \<open>50%25.ipynb\<close> is served as \<open>50%.ipynb\<close>.
\<close>

theorem notebook_ids_survive_unless_escaped:
  assumes "\<And>s t. utf8_decode (pct_decode s) = Some t \<Longrightarrow> capture s = t" and "url_quote p = Inr q"
  shows "(\<forall>c \<in> set q. c \<noteq> 47 \<and> c \<noteq> 10)
    \<and> decode_notebook_id (capture q) = decode_notebook_id p
    \<and> (decode_notebook_id (capture q) = p \<longleftrightarrow> \<not> has_escape p)"
proof -
  obtain bs where bs: "utf8_encode p = Some bs" "q = quote_bytes bs" using quoted [OF assms(2)] by blast
  note b = utf8_bytes [OF bs(1)]
  have "capture q = p" by (rule assms(1)) (simp add: bs(2) pct_decode_quote [OF b] utf8_round_trip [OF bs(1)])
  then show ?thesis using quote_bytes_segment [OF b] decode_notebook_id_eq [of p] by (simp add: bs(2))
qed

lemma notebook_ids_survive_unless_escaped_witness:
  "\<exists>q. url_quote [53, 48, 37, 50, 53] = Inr q
    \<and> decode_notebook_id ((\<lambda>s. case utf8_decode (pct_decode s) of None \<Rightarrow> [] | Some t \<Rightarrow> t) q) = [53, 48, 37]"
proof -
  let ?capture = "\<lambda>s. case utf8_decode (pct_decode s) of None \<Rightarrow> [] | Some t \<Rightarrow> t"
  let ?p = "[53, 48, 37, 50, 53] :: pystr"
  have "utf8_encode ?p = Some ?p" by (rule utf8_ascii) simp
  then obtain q where q: "url_quote ?p = Inr q" by (simp add: url_quote_def encode_def)
  have "decode_notebook_id (?capture q) = decode_notebook_id ?p"
    using notebook_ids_survive_unless_escaped [of ?capture, OF _ q] by simp
  also have "\<dots> = [53, 48, 37]"
    using decode_replace_ascii [of "[53, 48, 37]"]
    by (simp add: decode_notebook_id_def unquote_runs.simps(2) pct_decode.simps(2) escape_at_def hex_val_def
        numeral_2_eq_2)
  finally show ?thesis using q by blast
qed

end
