(* ===== verification/Hn_Client.thy ===== *)
theory Hn_Client
  imports Hn_Snapshot Hn_Url Hn_Ledger
begin

text \<open>
  The SDK (\<^verbatim>\<open>sdk.py\<close>) as a client of the server: every operation is the sequence of HTTP requests the
  code sends and what it makes of the answers.  The world \<open>'w\<close> holds the server, the clock and the
  files; \<open>client_env\<close> gives the operations on it that are not the SDK's own: sending a request, reading
  the clocks, sleeping.  Identifiers and paths are strings.
\<close>

section \<open>Requests and responses\<close>

text \<open>\<open>_Config\<close>; the transport is part of the environment.\<close>

record config =
  cfg_server :: pystr
  cfg_token :: "pystr option"
  cfg_actor_id :: pystr
  cfg_actor_type :: pystr
  cfg_timeout :: time

record http_request =
  rq_base_url :: pystr
  rq_method :: pystr
  rq_path :: pystr
  rq_headers :: "(pystr \<times> pystr) list"
  rq_timeout :: time
  rq_json :: "json option"
  rq_params :: "jobj option"

record http_response =
  rs_status :: nat
  rs_text :: pystr

record 'w client_env =
  send_http :: "http_request \<Rightarrow> 'w \<Rightarrow> (http_response, 'w) outcome"
  monotonic :: "'w \<Rightarrow> time \<times> 'w"
  wall_clock :: "'w \<Rightarrow> pystr \<times> 'w"
  pause :: "'w \<Rightarrow> 'w"
  time_ns :: "'w \<Rightarrow> nat \<times> 'w"
  text_ops :: text_env
  float_text :: "pystr \<Rightarrow> pystr"

text \<open>The exceptions of \<^verbatim>\<open>errors.py\<close>: \<open>HypernoteError\<close> and its subclasses, with \<open>str(exc)\<close>.\<close>

definition notebook_not_found :: "pystr \<Rightarrow> pyexc" where
  "notebook_not_found path = OtherError (lit ''NotebookNotFoundError'') path"

definition runtime_unavailable :: "pystr \<Rightarrow> pyexc" where
  "runtime_unavailable m = OtherError (lit ''RuntimeUnavailableError'') m"

definition execution_timeout :: "pystr \<Rightarrow> pyexc" where
  "execution_timeout m = OtherError (lit ''ExecutionTimeoutError'') m"

definition input_not_expected :: "pystr \<Rightarrow> pyexc" where
  "input_not_expected m = OtherError (lit ''InputNotExpectedError'') m"

definition hypernote_errors :: "string list" where
  "hypernote_errors = [''HypernoteError'', ''NotebookNotFoundError'', ''CellNotFoundError'',
     ''RuntimeUnavailableError'', ''ExecutionTimeoutError'', ''InputNotExpectedError'']"

definition is_hypernote_error :: "pyexc \<Rightarrow> bool" where
  "is_hypernote_error e =
     (case e of OtherError name _ \<Rightarrow> list_ex (\<lambda>s. name = lit s) hypernote_errors | _ \<Rightarrow> False)"

text \<open>\<open>str(exc)\<close>; a \<open>CellNotFoundError\<close> is a \<open>KeyError\<close>, which shows the \<open>repr\<close> of its argument.\<close>

definition error_message :: "(nat \<Rightarrow> bool) \<Rightarrow> pyexc \<Rightarrow> pystr" where
  "error_message pr e =
     (case e of
        OtherError name m \<Rightarrow> if name = lit ''CellNotFoundError'' then repr_str pr m else m
      | ValueError m \<Rightarrow> m
      | RuntimeError m \<Rightarrow> m
      | KernelMismatch nb active requested \<Rightarrow> []
      | HTTPError code reason \<Rightarrow> reason)"

definition is_success :: "http_response \<Rightarrow> bool" where
  "is_success r \<longleftrightarrow> 200 \<le> rs_status r \<and> rs_status r \<le> 299"

definition raise_response :: "http_response \<Rightarrow> pyexc + unit" where
  "raise_response r =
     (if is_success r then Inr ()
      else if rs_status r = 404 then Inl (hypernote_error (lit ''Resource not found''))
      else if rs_status r = 400
      then Inl (hypernote_error (if rs_text r = [] then lit ''Bad request'' else rs_text r))
      else Inl (hypernote_error (dec_digits (rs_status r) @ lit '': '' @ rs_text r)))"

definition raise_notebook_response :: "pystr \<Rightarrow> http_response \<Rightarrow> pyexc + unit" where
  "raise_notebook_response path r =
     (if is_success r then Inr ()
      else if rs_status r = 404 then Inl (notebook_not_found path)
      else raise_response r)"

text \<open>\<open>response.json()\<close>.\<close>

definition response_json :: "'w client_env \<Rightarrow> http_response \<Rightarrow> pyexc + json" where
  "response_json env r =
     (case json_loads (float_text env) (rs_text r) of
        None \<Rightarrow> Inl (OtherError (lit ''JSONDecodeError'') [])
      | Some j \<Rightarrow> Inr j)"

definition checked_json :: "'w client_env \<Rightarrow> pyexc + unit \<Rightarrow> http_response \<Rightarrow> pyexc + json" where
  "checked_json env check r = (case check of Inl e \<Rightarrow> Inl e | Inr _ \<Rightarrow> response_json env r)"

definition jupyter_headers :: "config \<Rightarrow> (pystr \<times> pystr) list" where
  "jupyter_headers cfg =
     (case cfg_token cfg of
        None \<Rightarrow> []
      | Some t \<Rightarrow> if t = [] then [] else [(lit ''Authorization'', lit ''token '' @ t)])"

definition hypernote_headers :: "config \<Rightarrow> (pystr \<times> pystr) list" where
  "hypernote_headers cfg =
     jupyter_headers cfg @ [(lit ''X-Hypernote-Actor-Id'', cfg_actor_id cfg),
                            (lit ''X-Hypernote-Actor-Type'', cfg_actor_type cfg)]"

definition send_request ::
  "'w client_env \<Rightarrow> config \<Rightarrow> string \<Rightarrow> pystr \<Rightarrow> bool \<Rightarrow> json option \<Rightarrow> jobj option \<Rightarrow> 'w \<Rightarrow> (http_response, 'w) outcome" where
  "send_request env cfg method path hypernote body params =
     send_http env \<lparr>rq_base_url = cfg_server cfg, rq_method = lit method, rq_path = path,
       rq_headers = (if hypernote then hypernote_headers cfg else jupyter_headers cfg),
       rq_timeout = cfg_timeout cfg, rq_json = body, rq_params = params\<rparr>"

text \<open>A request under a notebook's URL, and under that of one of its cells.\<close>

definition notebook_request ::
  "'w client_env \<Rightarrow> config \<Rightarrow> string \<Rightarrow> pystr \<Rightarrow> string \<Rightarrow> json option \<Rightarrow> jobj option \<Rightarrow> 'w \<Rightarrow> (http_response, 'w) outcome" where
  "notebook_request env cfg method path suffix body params =
     mbind (of_result (url_quote path)) (\<lambda>q.
       send_request env cfg method (lit ''/hypernote/api/notebooks/'' @ q @ lit suffix) True body params)"

definition cell_request ::
  "'w client_env \<Rightarrow> config \<Rightarrow> string \<Rightarrow> pystr \<Rightarrow> pystr \<Rightarrow> string \<Rightarrow> json option \<Rightarrow> 'w \<Rightarrow> (http_response, 'w) outcome" where
  "cell_request env cfg method path cell_id suffix body =
     mbind (of_result (url_quote cell_id)) (\<lambda>c.
     mbind (of_result (url_quote path)) (\<lambda>q.
       send_request env cfg method
         (lit ''/hypernote/api/notebooks/'' @ q @ lit ''/cells/'' @ c @ lit suffix) True body None))"

text \<open>\<open>x[k]\<close> and \<open>x.get(k, dflt)\<close> on a decoded body; a string out of it.\<close>

definition subscript :: "string \<Rightarrow> json \<Rightarrow> pyexc + json" where
  "subscript k j = (case j of JDict d \<Rightarrow> item_of k d | _ \<Rightarrow> Inl type_error)"

definition str_value :: "json \<Rightarrow> pyexc + pystr" where
  "str_value j = (case j of JStr s \<Rightarrow> Inr s | _ \<Rightarrow> Inl type_error)"

definition bind_result :: "pyexc + 'a \<Rightarrow> ('a \<Rightarrow> pyexc + 'b) \<Rightarrow> pyexc + 'b" where
  "bind_result r f = (case r of Inl e \<Rightarrow> Inl e | Inr x \<Rightarrow> f x)"

lemma bind_result_simps [simp]: "bind_result (Inr x) f = f x" "bind_result (Inl e) f = Inl e"
  by (simp_all add: bind_result_def)

section \<open>Jobs\<close>

definition sdk_job_status :: "(nat \<Rightarrow> bool) \<Rightarrow> json \<Rightarrow> pyexc + job_status" where
  "sdk_job_status pr j =
     (case find (\<lambda>s. j = JStr (job_status_value s))
             [QUEUED, RUNNING, job_status.AWAITING_INPUT, SUCCEEDED, job_status.FAILED, INTERRUPTED] of
        Some s \<Rightarrow> Inr s
      | None \<Rightarrow> Inl (ValueError (py_repr pr j @ lit '' is not a valid JobStatus'')))"

record job_handle =
  jb_config :: config
  jb_id :: pystr
  jb_status :: job_status
  jb_cell_ids :: "json list"
  jb_path :: pystr

text \<open>\<open>tuple(json.loads(x))\<close>.\<close>

definition loaded_list :: "'w client_env \<Rightarrow> json \<Rightarrow> pyexc + json list" where
  "loaded_list env j =
     bind_result (str_value j) (\<lambda>s.
       case json_loads (float_text env) s of
         None \<Rightarrow> Inl (OtherError (lit ''JSONDecodeError'') [])
       | Some v \<Rightarrow> py_list v)"

definition job_from_payload :: "'w client_env \<Rightarrow> config \<Rightarrow> json \<Rightarrow> pyexc + job_handle" where
  "job_from_payload env cfg payload =
     bind_result (py_get ''target_cells'' JNull payload) (\<lambda>target.
     bind_result (if truthy target then loaded_list env target else Inr []) (\<lambda>cells.
     bind_result (bind_result (subscript ''notebook_id'' payload) str_value) (\<lambda>path.
     bind_result (bind_result (subscript ''job_id'' payload) str_value) (\<lambda>i.
     bind_result (bind_result (subscript ''status'' payload) (sdk_job_status (printable (text_ops env)))) (\<lambda>st.
       Inr \<lparr>jb_config = cfg, jb_id = i, jb_status = st, jb_cell_ids = cells, jb_path = path\<rparr>)))))"

definition job_dict :: "job_handle \<Rightarrow> json" where
  "job_dict job = JDict
     [(lit ''id'', JStr (jb_id job)), (lit ''status'', JStr (job_status_value (jb_status job))),
      (lit ''cell_ids'', JList (jb_cell_ids job)), (lit ''notebook_path'', JStr (jb_path job))]"

text \<open>
  \<open>Job.refresh\<close> changes the job in place; here the changed job is the answer.  No caller looks at a
  job whose refresh raised.
\<close>

definition refreshed :: "'w client_env \<Rightarrow> job_handle \<Rightarrow> json \<Rightarrow> pyexc + job_handle" where
  "refreshed env job payload =
     bind_result (bind_result (subscript ''status'' payload) (sdk_job_status (printable (text_ops env)))) (\<lambda>st.
     bind_result (py_get ''target_cells'' JNull payload) (\<lambda>target.
     bind_result (if truthy target then loaded_list env target else Inr (jb_cell_ids job)) (\<lambda>cells.
       Inr (job\<lparr>jb_status := st, jb_cell_ids := cells\<rparr>))))"

definition job_refresh :: "'w client_env \<Rightarrow> job_handle \<Rightarrow> 'w \<Rightarrow> (job_handle, 'w) outcome" where
  "job_refresh env job =
     mbind (send_request env (jb_config job) ''GET'' (lit ''/hypernote/api/jobs/'' @ jb_id job) True None None) (\<lambda>r.
       of_result (bind_result (checked_json env (raise_response r) r) (refreshed env job)))"

definition shlex_safe :: "nat \<Rightarrow> bool" where
  "shlex_safe c \<longleftrightarrow> 65 \<le> c \<and> c \<le> 90 \<or> 97 \<le> c \<and> c \<le> 122 \<or> 48 \<le> c \<and> c \<le> 57
     \<or> c \<in> {95, 64, 37, 43, 61, 58, 44, 46, 47, 45}"

definition shlex_quote :: "pystr \<Rightarrow> pystr" where
  "shlex_quote s =
     (if s = [] then [39, 39]
      else if list_all shlex_safe s then s
      else [39] @ concat (map (\<lambda>c. if c = 39 then [39, 34, 39, 34, 39] else [c]) s) @ [39])"

definition job_timeout_message :: "job_handle \<Rightarrow> pystr" where
  "job_timeout_message job =
     lit ''Timed out waiting for job '' @ jb_id job @ lit '' (last status: '' @ job_status_value (jb_status job)
     @ lit ''). Check `hypernote job get '' @ shlex_quote (jb_id job) @ lit ''` or `hypernote cat ''
     @ shlex_quote (jb_path job) @ lit '' --no-outputs` for current state.''"

text \<open>
  The polling loop of \<open>Job.wait\<close> and of the CLI's watcher: one turn of \<open>body\<close> answers the new job and
  whether the loop is done; then the deadline is looked at, and a quarter of a second slept.  \<open>None\<close>
  says that the fuel was not enough.
\<close>

fun poll ::
  "'w client_env \<Rightarrow> ('a \<Rightarrow> 'w \<Rightarrow> ('a \<times> bool, 'w) outcome) \<Rightarrow> ('a \<Rightarrow> job_handle) \<Rightarrow> time option \<Rightarrow> nat \<Rightarrow> 'a
   \<Rightarrow> 'w \<Rightarrow> ('a, 'w) outcome option" where
  "poll env body job_of deadline 0 x w = None"
| "poll env body job_of deadline (Suc n) x w =
     (case body x w of
        (Inl e, w1) \<Rightarrow> Some (Inl e, w1)
      | (Inr (y, finished), w1) \<Rightarrow>
          if finished then Some (Inr y, w1)
          else
            (case deadline of
               None \<Rightarrow> poll env body job_of deadline n y (pause env w1)
             | Some limit \<Rightarrow>
                 (case monotonic env w1 of
                    (t, w2) \<Rightarrow>
                      if limit \<le> t then Some (Inl (execution_timeout (job_timeout_message (job_of y))), w2)
                      else poll env body job_of deadline n y (pause env w2))))"

definition settled_status :: "job_status \<Rightarrow> bool" where
  "settled_status st \<longleftrightarrow> st \<in> {SUCCEEDED, job_status.FAILED, INTERRUPTED, job_status.AWAITING_INPUT}"

definition deadline_of :: "'w client_env \<Rightarrow> time option \<Rightarrow> 'w \<Rightarrow> time option \<times> 'w" where
  "deadline_of env timeout w =
     (case timeout of
        None \<Rightarrow> (None, w)
      | Some t \<Rightarrow> (case monotonic env w of (now, w1) \<Rightarrow> (Some (now + t), w1)))"

definition job_wait :: "'w client_env \<Rightarrow> time option \<Rightarrow> nat \<Rightarrow> job_handle \<Rightarrow> 'w \<Rightarrow> (job_handle, 'w) outcome option" where
  "job_wait env timeout fuel job w =
     (case deadline_of env timeout w of
        (deadline, w1) \<Rightarrow>
          poll env (\<lambda>job. mbind (job_refresh env job) (\<lambda>j. mret (j, settled_status (jb_status j))))
            id deadline fuel job w1)"

definition send_stdin_request :: "'w client_env \<Rightarrow> config \<Rightarrow> pystr \<Rightarrow> pystr \<Rightarrow> 'w \<Rightarrow> (http_response, 'w) outcome" where
  "send_stdin_request env cfg i answer =
     mbind (send_request env cfg ''POST'' (lit ''/hypernote/api/jobs/'' @ i @ lit ''/stdin'') True
              (Some (JDict [(lit ''value'', JStr answer)])) None) (\<lambda>r.
       case raise_response r of
         Inr _ \<Rightarrow> mret r
       | Inl e \<Rightarrow> mraise (if rs_status r = 400
                         then input_not_expected (error_message (printable (text_ops env)) e) else e))"

definition job_send_stdin :: "'w client_env \<Rightarrow> job_handle \<Rightarrow> pystr \<Rightarrow> 'w \<Rightarrow> (unit, 'w) outcome" where
  "job_send_stdin env job answer =
     mbind (send_stdin_request env (jb_config job) (jb_id job) answer) (\<lambda>_. mret ())"

section \<open>The control plane\<close>

text \<open>\<open>_ControlPlane\<close>: low-level requests of the CLI.\<close>

definition get_checked ::
  "'w client_env \<Rightarrow> config \<Rightarrow> pystr \<Rightarrow> bool \<Rightarrow> jobj option \<Rightarrow> (http_response \<Rightarrow> pyexc + unit) \<Rightarrow> 'w \<Rightarrow> (json, 'w) outcome" where
  "get_checked env cfg path hypernote params check =
     mbind (send_request env cfg ''GET'' path hypernote None params) (\<lambda>r. of_result (checked_json env (check r) r))"

definition get_job_payload :: "'w client_env \<Rightarrow> config \<Rightarrow> pystr \<Rightarrow> 'w \<Rightarrow> (json, 'w) outcome" where
  "get_job_payload env cfg i = get_checked env cfg (lit ''/hypernote/api/jobs/'' @ i) True None raise_response"

definition control_get_job :: "'w client_env \<Rightarrow> config \<Rightarrow> pystr \<Rightarrow> 'w \<Rightarrow> (job_handle, 'w) outcome" where
  "control_get_job env cfg i = mbind (get_job_payload env cfg i) (\<lambda>p. of_result (job_from_payload env cfg p))"

definition given :: "string \<Rightarrow> pystr option \<Rightarrow> jobj" where
  "given k v = (case v of None \<Rightarrow> [] | Some s \<Rightarrow> if s = [] then [] else [(lit k, JStr s)])"

definition control_list_jobs :: "'w client_env \<Rightarrow> config \<Rightarrow> pystr option \<Rightarrow> pystr option \<Rightarrow> 'w \<Rightarrow> (json, 'w) outcome" where
  "control_list_jobs env cfg nb st =
     (let params = given ''notebook_id'' nb @ given ''status'' st
      in get_checked env cfg (lit ''/hypernote/api/jobs'') True (if params = [] then None else Some params) raise_response)"

definition control_document :: "'w client_env \<Rightarrow> config \<Rightarrow> pystr \<Rightarrow> bool \<Rightarrow> 'w \<Rightarrow> (json, 'w) outcome" where
  "control_document env cfg path content =
     mbind (notebook_request env cfg ''GET'' path ''/document'' None
              (Some [(lit ''content'', JInt (if content then 1 else 0))])) (\<lambda>r.
       of_result (checked_json env (raise_notebook_response path r) r))"

definition control_runtime_status :: "'w client_env \<Rightarrow> config \<Rightarrow> pystr \<Rightarrow> 'w \<Rightarrow> (json, 'w) outcome" where
  "control_runtime_status env cfg path =
     mbind (notebook_request env cfg ''GET'' path ''/runtime'' None None) (\<lambda>r.
       of_result (checked_json env (raise_notebook_response path r) r))"

definition control_kernelspec :: "'w client_env \<Rightarrow> config \<Rightarrow> pystr \<Rightarrow> 'w \<Rightarrow> (json, 'w) outcome" where
  "control_kernelspec env cfg name =
     mbind (of_result (url_quote name)) (\<lambda>q.
       get_checked env cfg (lit ''/api/kernelspecs/'' @ q) False None raise_response)"

definition control_lab_extensions :: "'w client_env \<Rightarrow> config \<Rightarrow> 'w \<Rightarrow> (json list, 'w) outcome" where
  "control_lab_extensions env cfg =
     mbind (get_checked env cfg (lit ''/lab/api/extensions'') False None raise_response) (\<lambda>j. mret (list_of j))"

definition control_diagnostics :: "'w client_env \<Rightarrow> config \<Rightarrow> 'w \<Rightarrow> (jobj, 'w) outcome" where
  "control_diagnostics env cfg =
     mbind (get_checked env cfg (lit ''/hypernote/api/diagnostics'') True None raise_response) (\<lambda>j. mret (dict_of j))"

definition control_send_stdin :: "'w client_env \<Rightarrow> config \<Rightarrow> pystr \<Rightarrow> pystr \<Rightarrow> 'w \<Rightarrow> (json, 'w) outcome" where
  "control_send_stdin env cfg i answer =
     mbind (send_stdin_request env cfg i answer) (\<lambda>r. of_result (response_json env r))"

section \<open>Notebooks\<close>

definition new_notebook_model :: json where
  "new_notebook_model = JDict
     [(lit ''type'', JStr (lit ''notebook'')), (lit ''format'', JStr (lit ''json'')),
      (lit ''content'', JDict
        [(lit ''cells'', JList []),
         (lit ''metadata'', JDict
           [(lit ''kernelspec'', JDict [(lit ''display_name'', JStr (lit ''Python 3'')), (lit ''name'', JStr (lit ''python3''))]),
            (lit ''language_info'', JDict [(lit ''name'', JStr (lit ''python''))])]),
         (lit ''nbformat'', JInt 4), (lit ''nbformat_minor'', JInt 5)])]"

text \<open>\<open>_ensure_exists\<close> answers whether the notebook was created.\<close>

definition ensure_exists :: "'w client_env \<Rightarrow> config \<Rightarrow> pystr \<Rightarrow> bool \<Rightarrow> 'w \<Rightarrow> (bool, 'w) outcome" where
  "ensure_exists env cfg path create =
     mbind (notebook_request env cfg ''GET'' path ''/document'' None (Some [(lit ''content'', JInt 0)])) (\<lambda>r.
       if rs_status r = 404 \<and> create
       then mbind (notebook_request env cfg ''PUT'' path ''/document'' (Some new_notebook_model) None) (\<lambda>created.
            mbind (of_result (raise_notebook_response path created)) (\<lambda>_. mret True))
       else mbind (of_result (raise_notebook_response path r)) (\<lambda>_. mret False))"

text \<open>The configuration \<open>connect\<close> makes; \<open>environ\<close> is the process environment.\<close>

definition strip_slashes :: "pystr \<Rightarrow> pystr" where
  "strip_slashes s = rev (dropWhile (\<lambda>c. c = 47) (rev s))"

definition py_or :: "pystr option \<Rightarrow> pystr option \<Rightarrow> pystr option" where
  "py_or a b = (case a of Some s \<Rightarrow> if s \<noteq> [] then a else b | None \<Rightarrow> b)"

definition default_server :: pystr where "default_server = lit ''http://127.0.0.1:8888''"

definition make_config ::
  "(pystr \<Rightarrow> pystr option) \<Rightarrow> pystr option \<Rightarrow> pystr option \<Rightarrow> pystr \<Rightarrow> pystr \<Rightarrow> time \<Rightarrow> config" where
  "make_config environ server tok actor_id actor_type timeout =
     (let from_env = (case environ (lit ''HYPERNOTE_SERVER'') of None \<Rightarrow> default_server | Some s \<Rightarrow> s);
          chosen = (case py_or server (Some from_env) of None \<Rightarrow> [] | Some s \<Rightarrow> s)
      in \<lparr>cfg_server = strip_slashes chosen, cfg_token = py_or tok (environ (lit ''HYPERNOTE_TOKEN'')),
          cfg_actor_id = actor_id, cfg_actor_type = actor_type, cfg_timeout = timeout\<rparr>)"

definition connect ::
  "'w client_env \<Rightarrow> (pystr \<Rightarrow> pystr option) \<Rightarrow> pystr \<Rightarrow> bool \<Rightarrow> pystr option \<Rightarrow> pystr option \<Rightarrow> pystr \<Rightarrow> pystr \<Rightarrow> time
   \<Rightarrow> 'w \<Rightarrow> (config \<times> bool, 'w) outcome" where
  "connect env environ path create server tok actor_id actor_type timeout =
     (let cfg = make_config environ server tok actor_id actor_type timeout
      in mbind (ensure_exists env cfg path create) (\<lambda>created. mret (cfg, created)))"

definition get_model :: "'w client_env \<Rightarrow> config \<Rightarrow> pystr \<Rightarrow> bool \<Rightarrow> 'w \<Rightarrow> (json, 'w) outcome" where
  "get_model env cfg path content =
     mbind (notebook_request env cfg ''GET'' path ''/document'' None
              (Some [(lit ''content'', JInt (if content then 1 else 0))])) (\<lambda>r.
       of_result (checked_json env (raise_notebook_response path r) r))"

definition save_model :: "'w client_env \<Rightarrow> config \<Rightarrow> pystr \<Rightarrow> json \<Rightarrow> 'w \<Rightarrow> (json, 'w) outcome" where
  "save_model env cfg path model =
     mbind (notebook_request env cfg ''PUT'' path ''/document'' (Some model) None) (\<lambda>r.
       of_result (checked_json env (raise_notebook_response path r) r))"

definition cell_model :: "'w client_env \<Rightarrow> config \<Rightarrow> pystr \<Rightarrow> pystr \<Rightarrow> 'w \<Rightarrow> (jobj, 'w) outcome" where
  "cell_model env cfg path cid =
     mbind (cell_request env cfg ''GET'' path cid [] None) (\<lambda>r.
       if rs_status r = 404 then mraise (sdk_cell_not_found (JStr cid))
       else of_result (bind_result (checked_json env (raise_response r) r) (\<lambda>j.
              bind_result (subscript ''cell'' j) (\<lambda>c. case c of JDict d \<Rightarrow> Inr d | _ \<Rightarrow> Inl attribute_error))))"

definition cell_list :: "'w client_env \<Rightarrow> config \<Rightarrow> pystr \<Rightarrow> 'w \<Rightarrow> (jobj list, 'w) outcome" where
  "cell_list env cfg path =
     mbind (get_model env cfg path True) (\<lambda>model.
       of_result (bind_result (subscript ''content'' model) (\<lambda>content.
                  bind_result (py_get ''cells'' (JList []) content) dicts_in)))"

definition sdk_kernelspec_name :: "'w client_env \<Rightarrow> config \<Rightarrow> pystr \<Rightarrow> 'w \<Rightarrow> (json, 'w) outcome" where
  "sdk_kernelspec_name env cfg path =
     mbind (get_model env cfg path True) (\<lambda>model.
       of_result (bind_result (subscript ''content'' model) (\<lambda>content.
                  bind_result (py_get ''metadata'' (JDict []) content) (\<lambda>metadata.
                  bind_result (py_get ''kernelspec'' (JDict []) metadata) (\<lambda>spec.
                    py_get ''name'' (JStr (lit ''python3'')) spec)))))"

definition run_cells :: "'w client_env \<Rightarrow> config \<Rightarrow> pystr \<Rightarrow> json list \<Rightarrow> 'w \<Rightarrow> (job_handle, 'w) outcome" where
  "run_cells env cfg path ids =
     (if ids = [] then mraise (hypernote_error (lit ''No code cells to run''))
      else mbind (notebook_request env cfg ''POST'' path ''/execute'' (Some (JDict [(lit ''cell_ids'', JList ids)])) None) (\<lambda>r.
        of_result (bind_result (checked_json env (raise_response r) r) (\<lambda>payload.
                   bind_result (bind_result (subscript ''job_id'' payload) str_value) (\<lambda>i.
                   bind_result (bind_result (subscript ''status'' payload) (sdk_job_status (printable (text_ops env)))) (\<lambda>st.
                     Inr \<lparr>jb_config = cfg, jb_id = i, jb_status = st, jb_cell_ids = ids, jb_path = path\<rparr>))))))"

text \<open>\<open>Notebook.run\<close>: an argument that is a list stands for its elements, as strings.\<close>

definition run_arguments :: "(nat \<Rightarrow> bool) \<Rightarrow> json list \<Rightarrow> json list" where
  "run_arguments pr args =
     concat (map (\<lambda>a. case a of JList xs \<Rightarrow> map (\<lambda>x. JStr (py_str pr x)) xs | _ \<Rightarrow> [JStr (py_str pr a)]) args)"

definition notebook_run :: "'w client_env \<Rightarrow> config \<Rightarrow> pystr \<Rightarrow> json list \<Rightarrow> 'w \<Rightarrow> (job_handle, 'w) outcome" where
  "notebook_run env cfg path args = run_cells env cfg path (run_arguments (printable (text_ops env)) args)"

definition code_ids :: "jobj list \<Rightarrow> pyexc + json list" where
  "code_ids cells = each (item_of ''id'') (filter (\<lambda>c. field ''cell_type'' c = Some (JStr (cell_type_value CODE))) cells)"

definition run_all :: "'w client_env \<Rightarrow> config \<Rightarrow> pystr \<Rightarrow> 'w \<Rightarrow> (job_handle, 'w) outcome" where
  "run_all env cfg path =
     mbind (cell_list env cfg path) (\<lambda>cells.
     mbind (of_result (code_ids cells)) (run_cells env cfg path))"

definition sdk_interrupt :: "'w client_env \<Rightarrow> config \<Rightarrow> pystr \<Rightarrow> 'w \<Rightarrow> (unit, 'w) outcome" where
  "sdk_interrupt env cfg path =
     mbind (notebook_request env cfg ''POST'' path ''/interrupt'' (Some (JDict [])) None) (\<lambda>r.
       of_result (raise_response r))"

section \<open>The runtime\<close>

definition runtime_payload :: "'w client_env \<Rightarrow> config \<Rightarrow> pystr \<Rightarrow> 'w \<Rightarrow> (json, 'w) outcome" where
  "runtime_payload env cfg path =
     mbind (notebook_request env cfg ''GET'' path ''/runtime'' None None) (\<lambda>r.
       of_result (checked_json env (raise_response r) r))"

definition sdk_runtime_status :: "'w client_env \<Rightarrow> config \<Rightarrow> pystr \<Rightarrow> 'w \<Rightarrow> (runtime_state, 'w) outcome" where
  "sdk_runtime_status env cfg path =
     mbind (runtime_payload env cfg path) (\<lambda>p.
       of_result (bind_result (subscript ''state'' p) (parse_runtime_status (printable (text_ops env)))))"

text \<open>The properties \<open>session_id\<close>, \<open>kernel_id\<close>, \<open>kernel_name\<close>, each with a request of its own.\<close>

definition runtime_field :: "'w client_env \<Rightarrow> string \<Rightarrow> config \<Rightarrow> pystr \<Rightarrow> 'w \<Rightarrow> (json, 'w) outcome" where
  "runtime_field env k cfg path = mbind (runtime_payload env cfg path) (\<lambda>p. of_result (py_get k JNull p))"

definition runtime_recoverable :: "'w client_env \<Rightarrow> config \<Rightarrow> pystr \<Rightarrow> 'w \<Rightarrow> (bool, 'w) outcome" where
  "runtime_recoverable env cfg path =
     mbind (runtime_payload env cfg path) (\<lambda>p.
     mbind (of_result (py_get ''recoverable'' (JBool False) p)) (\<lambda>j. mret (truthy j)))"

text \<open>The answer to opening or stopping a runtime: a 400 has an exception of its own.\<close>

definition runtime_check :: "http_response \<Rightarrow> pyexc + unit" where
  "runtime_check r =
     (if rs_status r = 400
      then Inl (runtime_unavailable (if rs_text r = [] then lit ''Runtime unavailable'' else rs_text r))
      else raise_response r)"

definition runtime_ensure :: "'w client_env \<Rightarrow> config \<Rightarrow> pystr \<Rightarrow> 'w \<Rightarrow> (unit, 'w) outcome" where
  "runtime_ensure env cfg path =
     mbind (of_result (url_quote path)) (\<lambda>_.
     mbind (sdk_kernelspec_name env cfg path) (\<lambda>k.
     mbind (notebook_request env cfg ''POST'' path ''/runtime/open''
              (Some (JDict [(lit ''client_id'', JStr (cfg_actor_id cfg)), (lit ''kernel_name'', k)])) None) (\<lambda>r.
       of_result (runtime_check r))))"

definition runtime_stop :: "'w client_env \<Rightarrow> config \<Rightarrow> pystr \<Rightarrow> 'w \<Rightarrow> (unit, 'w) outcome" where
  "runtime_stop env cfg path =
     mbind (notebook_request env cfg ''POST'' path ''/runtime/stop'' (Some (JDict [])) None) (\<lambda>r.
       if rs_status r = 404 then mret () else of_result (runtime_check r))"

definition runtime_dict :: "'w client_env \<Rightarrow> config \<Rightarrow> pystr \<Rightarrow> 'w \<Rightarrow> (json, 'w) outcome" where
  "runtime_dict env cfg path =
     mbind (runtime_payload env cfg path) (\<lambda>p.
       of_result (bind_result (subscript ''state'' p) (\<lambda>st.
         Inr (JDict (set_field ''status'' st (dict_pop (lit ''state'') (dict_of p)))))))"

definition sdk_restart :: "'w client_env \<Rightarrow> config \<Rightarrow> pystr \<Rightarrow> 'w \<Rightarrow> (unit, 'w) outcome" where
  "sdk_restart env cfg path = mbind (runtime_stop env cfg path) (\<lambda>_. runtime_ensure env cfg path)"

section \<open>Snapshots, status and diff\<close>

definition wall_time :: "'w client_env \<Rightarrow> 'w \<Rightarrow> (pystr, 'w) outcome" where
  "wall_time env w = (case wall_clock env w of (t, w1) \<Rightarrow> (Inr t, w1))"

text \<open>A \<open>Snapshot\<close> of cells: the token first, then the clock.\<close>

definition taken_snapshot :: "'w client_env \<Rightarrow> jobj list \<Rightarrow> 'w \<Rightarrow> (snapshot, 'w) outcome" where
  "taken_snapshot env cells =
     mbind (of_result (encode_snapshot_token (text_ops env) cells)) (\<lambda>_.
     mbind (wall_time env) (\<lambda>now. of_result (current_snapshot (text_ops env) now cells)))"

definition sdk_snapshot :: "'w client_env \<Rightarrow> config \<Rightarrow> pystr \<Rightarrow> 'w \<Rightarrow> (snapshot, 'w) outcome" where
  "sdk_snapshot env cfg path = mbind (cell_list env cfg path) (taken_snapshot env)"

definition sdk_status :: "'w client_env \<Rightarrow> config \<Rightarrow> bool \<Rightarrow> pystr \<Rightarrow> 'w \<Rightarrow> (notebook_status, 'w) outcome" where
  "sdk_status env cfg full path =
     mbind (cell_list env cfg path) (\<lambda>cells.
     mbind (taken_snapshot env cells) (\<lambda>current.
     mbind (sdk_runtime_status env cfg path) (\<lambda>rs.
     mbind (of_result (status_cells (text_ops env) full cells)) (\<lambda>statuses.
       mret \<lparr>ns_path = path, ns_baseline = None, ns_current = current, ns_runtime = rs, ns_cells = statuses,
             ns_summary = build_summary path rs cells False 0\<rparr>))))"

definition sdk_diff :: "'w client_env \<Rightarrow> config \<Rightarrow> snapshot \<Rightarrow> bool \<Rightarrow> pystr \<Rightarrow> 'w \<Rightarrow> (notebook_status, 'w) outcome" where
  "sdk_diff env cfg baseline full path =
     mbind (cell_list env cfg path) (\<lambda>cells.
     mbind (taken_snapshot env cells) (\<lambda>current.
     mbind (of_result (diff_cells (text_ops env) (float_text env) full (snap_token baseline) cells)) (\<lambda>changed.
     mbind (sdk_runtime_status env cfg path) (\<lambda>rs.
       mret \<lparr>ns_path = path, ns_baseline = Some baseline, ns_current = current, ns_runtime = rs, ns_cells = changed,
             ns_summary = build_summary path rs cells True (length changed)\<rparr>))))"

definition notebook_dict :: "'w client_env \<Rightarrow> config \<Rightarrow> pystr \<Rightarrow> 'w \<Rightarrow> (jobj, 'w) outcome" where
  "notebook_dict env cfg path = mbind (sdk_status env cfg True path) (\<lambda>st. mret (notebook_status_dict st))"

section \<open>Cells\<close>

text \<open>\<open>CellCollection\<close>: a handle is the cell's identifier; indexing checks that the cell is there.\<close>

definition cell_at :: "'w client_env \<Rightarrow> config \<Rightarrow> pystr \<Rightarrow> pystr \<Rightarrow> 'w \<Rightarrow> (pystr, 'w) outcome" where
  "cell_at env cfg path cid = mbind (cell_model env cfg path cid) (\<lambda>_. mret cid)"

definition cell_handles :: "'w client_env \<Rightarrow> config \<Rightarrow> pystr \<Rightarrow> 'w \<Rightarrow> (pystr list, 'w) outcome" where
  "cell_handles env cfg path =
     mbind (cell_list env cfg path) (\<lambda>cells.
       of_result (each (\<lambda>c. bind_result (item_of ''id'' c) str_value) cells))"

definition cell_count :: "'w client_env \<Rightarrow> config \<Rightarrow> pystr \<Rightarrow> 'w \<Rightarrow> (nat, 'w) outcome" where
  "cell_count env cfg path = mbind (cell_list env cfg path) (\<lambda>cells. mret (length cells))"

definition has_cell :: "'w client_env \<Rightarrow> config \<Rightarrow> pystr \<Rightarrow> pystr \<Rightarrow> 'w \<Rightarrow> (bool, 'w) outcome" where
  "has_cell env cfg path cid w =
     (case cell_model env cfg path cid w of
        (Inr _, w1) \<Rightarrow> (Inr True, w1)
      | (Inl e, w1) \<Rightarrow>
          (case e of
             OtherError name _ \<Rightarrow> if name = lit ''CellNotFoundError'' then (Inr False, w1) else (Inl e, w1)
           | _ \<Rightarrow> (Inl e, w1)))"

definition check_position :: "pystr option \<Rightarrow> pystr option \<Rightarrow> pyexc + unit" where
  "check_position before after =
     (if before \<noteq> None \<and> after \<noteq> None
      then Inl (hypernote_error (lit ''Specify only one of before= or after='')) else Inr ())"

text \<open>\<open>id or _generated_cell_id()\<close>: twelve digits of a hash of the clock.\<close>

definition chosen_cell_id :: "'w client_env \<Rightarrow> pystr option \<Rightarrow> 'w \<Rightarrow> (pystr, 'w) outcome" where
  "chosen_cell_id env cid w =
     (case py_or cid None of
        Some i \<Rightarrow> (Inr i, w)
      | None \<Rightarrow> (case time_ns env w of (t, w1) \<Rightarrow> (Inr (take 12 (sha1_hex (text_ops env) (dec_digits t))), w1)))"

definition insert_new_cell ::
  "'w client_env \<Rightarrow> config \<Rightarrow> pystr \<Rightarrow> cell_type \<Rightarrow> pystr \<Rightarrow> pystr option \<Rightarrow> pystr option \<Rightarrow> pystr option
   \<Rightarrow> 'w \<Rightarrow> (pystr, 'w) outcome" where
  "insert_new_cell env cfg path ty source cid before after =
     mbind (of_result (check_position before after)) (\<lambda>_.
     mbind (chosen_cell_id env cid) (\<lambda>i.
     mbind (notebook_request env cfg ''POST'' path ''/cells''
              (Some (JDict [(lit ''id'', JStr i), (lit ''cell_type'', JStr (cell_type_value ty)),
                            (lit ''source'', JStr source), (lit ''before'', opt_str before),
                            (lit ''after'', opt_str after)])) None) (\<lambda>r.
     mbind (of_result (raise_response r)) (\<lambda>_. mret i))))"

definition insert_code ::
  "'w client_env \<Rightarrow> config \<Rightarrow> pystr \<Rightarrow> pystr \<Rightarrow> pystr option \<Rightarrow> pystr option \<Rightarrow> pystr option \<Rightarrow> 'w \<Rightarrow> (pystr, 'w) outcome" where
  "insert_code env cfg path = insert_new_cell env cfg path CODE"

definition insert_markdown ::
  "'w client_env \<Rightarrow> config \<Rightarrow> pystr \<Rightarrow> pystr \<Rightarrow> pystr option \<Rightarrow> pystr option \<Rightarrow> pystr option \<Rightarrow> 'w \<Rightarrow> (pystr, 'w) outcome" where
  "insert_markdown env cfg path = insert_new_cell env cfg path MARKDOWN"

text \<open>\<open>CellHandle\<close>: every property asks the server for the cell again.\<close>

definition handle_type :: "'w client_env \<Rightarrow> config \<Rightarrow> pystr \<Rightarrow> pystr \<Rightarrow> 'w \<Rightarrow> (cell_type, 'w) outcome" where
  "handle_type env cfg path cid =
     mbind (cell_model env cfg path cid) (\<lambda>c.
       of_result (cell_type_of (printable (text_ops env)) (get_or ''cell_type'' (JStr (cell_type_value CODE)) c)))"

definition handle_source :: "'w client_env \<Rightarrow> config \<Rightarrow> pystr \<Rightarrow> pystr \<Rightarrow> 'w \<Rightarrow> (pystr, 'w) outcome" where
  "handle_source env cfg path cid =
     mbind (cell_model env cfg path cid) (\<lambda>c. of_result (cell_source (printable (text_ops env)) c))"

definition handle_outputs :: "'w client_env \<Rightarrow> config \<Rightarrow> pystr \<Rightarrow> pystr \<Rightarrow> 'w \<Rightarrow> (jobj list, 'w) outcome" where
  "handle_outputs env cfg path cid =
     mbind (cell_model env cfg path cid) (\<lambda>c. of_result (dicts_in (get_or ''outputs'' (JList []) c)))"

definition handle_execution_count :: "'w client_env \<Rightarrow> config \<Rightarrow> pystr \<Rightarrow> pystr \<Rightarrow> 'w \<Rightarrow> (json, 'w) outcome" where
  "handle_execution_count env cfg path cid =
     mbind (cell_model env cfg path cid) (\<lambda>c. mret (opt_json (field ''execution_count'' c)))"

definition handle_replace :: "'w client_env \<Rightarrow> config \<Rightarrow> pystr \<Rightarrow> pystr \<Rightarrow> pystr \<Rightarrow> 'w \<Rightarrow> (unit, 'w) outcome" where
  "handle_replace env cfg path cid source =
     mbind (cell_request env cfg ''PATCH'' path cid [] (Some (JDict [(lit ''source'', JStr source)]))) (\<lambda>r.
       of_result (raise_response r))"

definition handle_delete :: "'w client_env \<Rightarrow> config \<Rightarrow> pystr \<Rightarrow> pystr \<Rightarrow> 'w \<Rightarrow> (unit, 'w) outcome" where
  "handle_delete env cfg path cid =
     mbind (cell_request env cfg ''DELETE'' path cid [] None) (\<lambda>r. of_result (raise_response r))"

definition handle_move ::
  "'w client_env \<Rightarrow> config \<Rightarrow> pystr \<Rightarrow> pystr \<Rightarrow> pystr option \<Rightarrow> pystr option \<Rightarrow> 'w \<Rightarrow> (unit, 'w) outcome" where
  "handle_move env cfg path cid before after =
     mbind (of_result (check_position before after)) (\<lambda>_.
     mbind (cell_request env cfg ''POST'' path cid ''/move''
              (Some (JDict [(lit ''before'', opt_str before), (lit ''after'', opt_str after)]))) (\<lambda>r.
       of_result (raise_response r)))"

definition handle_clear_outputs :: "'w client_env \<Rightarrow> config \<Rightarrow> pystr \<Rightarrow> pystr \<Rightarrow> 'w \<Rightarrow> (unit, 'w) outcome" where
  "handle_clear_outputs env cfg path cid =
     mbind (cell_request env cfg ''POST'' path cid ''/clear-outputs'' (Some (JDict []))) (\<lambda>r.
       of_result (raise_response r))"

text \<open>\<open>CellHandle.run\<close> asks for the type once more to name it in the error.\<close>

definition handle_run :: "'w client_env \<Rightarrow> config \<Rightarrow> pystr \<Rightarrow> pystr \<Rightarrow> 'w \<Rightarrow> (job_handle, 'w) outcome" where
  "handle_run env cfg path cid =
     mbind (handle_type env cfg path cid) (\<lambda>ty.
       if ty \<noteq> CODE
       then mbind (handle_type env cfg path cid) (\<lambda>again.
              mraise (hypernote_error (lit ''Cell '' @ cid @ lit '' is '' @ cell_type_value again @ lit '', not code'')))
       else run_cells env cfg path [JStr cid])"

definition handle_dict :: "'w client_env \<Rightarrow> config \<Rightarrow> pystr \<Rightarrow> pystr \<Rightarrow> 'w \<Rightarrow> (json, 'w) outcome" where
  "handle_dict env cfg path cid =
     mbind (handle_type env cfg path cid) (\<lambda>ty.
     mbind (handle_source env cfg path cid) (\<lambda>source.
     mbind (handle_outputs env cfg path cid) (\<lambda>outputs.
     mbind (handle_execution_count env cfg path cid) (\<lambda>count.
       mret (JDict [(lit ''id'', JStr cid), (lit ''type'', JStr (cell_type_value ty)), (lit ''source'', JStr source),
                    (lit ''outputs'', JList (map JDict outputs)), (lit ''execution_count'', count)])))))"

text \<open>\<open>CellStatus.from_handle\<close>.\<close>

definition status_from_handle ::
  "'w client_env \<Rightarrow> config \<Rightarrow> bool \<Rightarrow> bool \<Rightarrow> pystr \<Rightarrow> pystr \<Rightarrow> 'w \<Rightarrow> (cell_status, 'w) outcome" where
  "status_from_handle env cfg include_outputs include_count path cid =
     mbind (handle_type env cfg path cid) (\<lambda>ty.
     mbind (handle_source env cfg path cid) (\<lambda>source.
     mbind (if include_outputs then handle_outputs env cfg path cid else mret []) (\<lambda>outputs.
     mbind (if include_count then handle_execution_count env cfg path cid else mret JNull) (\<lambda>count.
       mret \<lparr>cs_id = JStr cid, cs_type = ty, cs_changed = False, cs_change_kinds = [], cs_source = Some source,
             cs_outputs = Some outputs, cs_execution_count = count\<rparr>))))"

section \<open>Waiting for a job\<close>

lemma poll_cases:
  "poll env body job_of deadline n x w = Some (r, w') \<Longrightarrow>
     (\<forall>y. r = Inr y \<longrightarrow> (\<exists>x0 w0. body x0 w0 = (Inr (y, True), w')))
     \<and> (\<forall>e. r = Inl e \<longrightarrow> (\<exists>x0 w0. body x0 w0 = (Inl e, w'))
          \<or> (\<exists>limit y w0 t. deadline = Some limit \<and> limit \<le> t \<and> monotonic env w0 = (t, w')
               \<and> e = execution_timeout (job_timeout_message (job_of y))))"
proof (induction n arbitrary: x w)
  case (Suc n)
  obtain v w1 where b: "body x w = (v, w1)" by fastforce
  show ?case
  proof (cases v)
    case (Inl e)
    with Suc.prems b show ?thesis by auto
  next
    case (Inr yf)
    obtain y finished where yf: "yf = (y, finished)" by fastforce
    show ?thesis
    proof (cases finished)
      case True
      with Suc.prems b Inr yf show ?thesis by auto
    next
      case False
      with Suc.prems b Inr yf Suc.IH show ?thesis
        by (cases deadline) ((auto split: prod.splits if_splits)[1], (auto split: prod.splits if_splits, blast)[1])
    qed
  qed
qed simp

text \<open>A clock that does not run backwards and that a pause moves by at least one tick.\<close>

definition clock_of :: "'w client_env \<Rightarrow> ('w \<Rightarrow> time) \<Rightarrow> bool" where
  "clock_of env clock \<longleftrightarrow>
     (\<forall>w. fst (monotonic env w) = clock w \<and> clock w \<le> clock (snd (monotonic env w)))
     \<and> (\<forall>w. clock w < clock (pause env w))"

lemma poll_terminates:
  assumes clock: "clock_of env clock"
    and body: "\<And>x w. clock w \<le> clock (snd (body x w))"
  shows "limit - clock w < int n \<Longrightarrow> 0 < n \<Longrightarrow> poll env body job_of (Some limit) n x w \<noteq> None"
proof (induction n arbitrary: x w)
  case (Suc n)
  obtain v w1 where b: "body x w = (v, w1)" by fastforce
  obtain t w2 where m: "monotonic env w1 = (t, w2)" by fastforce
  have t: "t = clock w1" "clock w1 \<le> clock w2" "clock w2 < clock (pause env w2)"
    using clock m by (auto simp: clock_of_def) (metis fst_conv, metis snd_conv)
  have w1: "clock w \<le> clock w1" using body [of w x] b by simp
  show ?case
  proof (cases "limit \<le> t")
    case True
    with b m show ?thesis by (auto split: sum.split prod.split)
  next
    case False
    then have "limit - clock (pause env w2) < int n" "0 < n" using Suc.prems(1) t w1 by linarith+
    then have "poll env body job_of (Some limit) n y (pause env w2) \<noteq> None" for y by (rule Suc.IH)
    with b m False show ?thesis by (auto split: sum.split prod.split)
  qed
qed simp

lemma refresh_clock:
  assumes "\<And>q w. clock w \<le> clock (snd (send_http env q w))"
  shows "clock w \<le> clock (snd (job_refresh env job w))"
  using assms by (auto simp: job_refresh_def send_request_def mbind_def of_result_def split: sum.split prod.split)
    (metis snd_conv)+

text \<open>
  C12: waiting with a timeout ends.  When the clock does not run backwards and a pause moves it, and
  the fuel exceeds the timeout in ticks, \<open>wait\<close> answers whatever the server says: with a job that
  succeeded, failed, was interrupted or awaits input, with the exception of the request that failed,
  or with a timeout that is raised only at or after the deadline.
\<close>

theorem waiting_ends:
  assumes "clock_of env clock"
    and "\<And>q w. clock w \<le> clock (snd (send_http env q w))"
    and "timeout < int fuel" and "0 < fuel"
  shows "\<exists>r w'. job_wait env (Some timeout) fuel job w = Some (r, w')
    \<and> (\<forall>j. r = Inr j \<longrightarrow> settled_status (jb_status j))
    \<and> (\<forall>e. r = Inl e \<longrightarrow> (\<exists>j w0. job_refresh env j w0 = (Inl e, w'))
         \<or> clock w + timeout \<le> clock w' \<and> (\<exists>j. e = execution_timeout (job_timeout_message j)))"
proof -
  let ?body = "\<lambda>job. mbind (job_refresh env job) (\<lambda>j. mret (j, settled_status (jb_status j)))"
  obtain now w1 where m: "monotonic env w = (now, w1)" by fastforce
  have now: "now = clock w" "clock w \<le> clock w1"
    using assms(1) m by (auto simp: clock_of_def) (metis fst_conv, metis snd_conv)
  have wait: "job_wait env (Some timeout) fuel job w = poll env ?body id (Some (now + timeout)) fuel job w1"
    by (simp add: job_wait_def deadline_of_def m)
  have "clock w0 \<le> clock (snd (?body j w0))" for j w0
    using refresh_clock [of clock env w0 j, OF assms(2)] by (auto simp: mbind_def mret_def split: sum.split prod.split)
  moreover have "now + timeout - clock w1 < int fuel" using assms(3) now by linarith
  ultimately obtain r w' where p: "poll env ?body id (Some (now + timeout)) fuel job w1 = Some (r, w')"
    using poll_terminates [OF assms(1), of ?body "now + timeout" w1 fuel id job] assms(4) by fastforce
  note c = poll_cases [OF p]
  have "settled_status (jb_status j)" if "r = Inr j" for j
    using c that by (auto simp: mbind_eq_Inr)
  moreover have "(\<exists>j w0. job_refresh env j w0 = (Inl e, w'))
      \<or> clock w + timeout \<le> clock w' \<and> (\<exists>j. e = execution_timeout (job_timeout_message j))" if e: "r = Inl e" for e
  proof -
    consider j w0 where "?body j w0 = (Inl e, w')"
      | y w0 t where "now + timeout \<le> t" "monotonic env w0 = (t, w')" "e = execution_timeout (job_timeout_message y)"
      using c e by (auto simp: id_def)
    then show ?thesis
    proof cases
      case 1
      then show ?thesis by (auto simp: mbind_eq_Inl)
    next
      case 2
      then have "t \<le> clock w'" using assms(1) by (auto simp: clock_of_def) (metis fst_conv snd_conv)
      with 2 now show ?thesis by auto
    qed
  qed
  ultimately show ?thesis using wait p by auto
qed

text \<open>A server that answers nothing but 500, with a clock that only pauses move.\<close>

definition failing_env :: "nat client_env" where
  "failing_env =
     \<lparr>send_http = (\<lambda>q w. (Inr \<lparr>rs_status = 500, rs_text = []\<rparr>, w)), monotonic = (\<lambda>w. (int w, w)),
      wall_clock = (\<lambda>w. ([], w)), pause = Suc, time_ns = (\<lambda>w. (w, w)), text_ops = plain_env, float_text = id\<rparr>"

lemma waiting_ends_witness:
  "\<exists>r w' job. job_wait failing_env (Some 3) 5 job 0 = Some (r, w') \<and> r \<noteq> Inr job"
proof -
  let ?job = "\<lparr>jb_config = \<lparr>cfg_server = [], cfg_token = None, cfg_actor_id = [], cfg_actor_type = [], cfg_timeout = 30\<rparr>,
    jb_id = [49], jb_status = QUEUED, jb_cell_ids = [], jb_path = []\<rparr>"
  have "clock_of failing_env int" by (simp add: clock_of_def failing_env_def)
  from waiting_ends [OF this, of 3 5 ?job 0]
  obtain r w' where "job_wait failing_env (Some 3) 5 ?job 0 = Some (r, w')" "\<forall>j. r = Inr j \<longrightarrow> settled_status (jb_status j)"
    by (auto simp: failing_env_def)
  then show ?thesis by (intro exI [of _ r] exI [of _ w'] exI [of _ ?job]) (auto simp: settled_status_def)
qed

end
