(* ===== verification/Hn_Web.thy ===== *)
theory Hn_Web
  imports Hn_Api Hn_Extension Hn_Client
begin

text \<open>
  From the wire to the handlers and back: what \<open>BaseHypernoteHandler\<close> (\<^verbatim>\<open>server/handlers.py\<close>) makes of a
  request's headers, query and body, how each handler class takes its arguments out of them, and the
  response it writes.  Putting this server behind the SDK's transport composes the two halves of the
  program: every operation of the SDK on a cell is the server's operation on that cell.
\<close>

section \<open>Bodies and responses\<close>

text \<open>
  The parts that are Tornado's, Jupyter's and httpx's: \<open>headers.get(name)\<close>, \<open>get_argument(name, None)\<close>,
  unquoting a captured segment, the text of a JSON body, the token check, the body of an error page,
  requests outside Hypernote's routes, and arguments of types the SDK does not send.
\<close>

record 'x web_env =
  web_http :: "'x http_env"
  web_header :: "string \<Rightarrow> (pystr \<times> pystr) list \<Rightarrow> pystr option"
  web_argument :: "string \<Rightarrow> jobj option \<Rightarrow> pystr option"
  web_capture :: "pystr \<Rightarrow> pystr"
  web_wire :: "json \<Rightarrow> pystr"
  web_float :: "pystr \<Rightarrow> pystr"
  web_authorized :: "(pystr \<times> pystr) list \<Rightarrow> bool"
  web_error_text :: "pyexc \<Rightarrow> pystr"
  web_diagnostics :: "'x server \<Rightarrow> json"
  web_new_id :: "'x server \<Rightarrow> pystr"
  web_other :: "http_request \<Rightarrow> 'x server \<Rightarrow> http_response \<times> 'x server"

text \<open>\<open>get_json_body\<close>: an empty body, or one that is not JSON, is an empty object.\<close>

definition get_json_body :: "(pystr \<Rightarrow> pystr) \<Rightarrow> pystr \<Rightarrow> json" where
  "get_json_body ft body =
     (if body = [] then JDict []
      else case json_loads ft body of None \<Rightarrow> JDict [] | Some j \<Rightarrow> j)"

text \<open>\<open>write_json\<close>: the status and the text of the response.\<close>

definition write_json :: "nat \<Rightarrow> json \<Rightarrow> http_response" where
  "write_json n j = \<lparr>rs_status = n, rs_text = dumps default_dump j\<rparr>"

section \<open>What each handler takes from its request\<close>

text \<open>
  A request to Hypernote, an exception while taking the arguments, or something the model of the
  handlers does not describe.
\<close>

datatype decoded = Asks request | Fails pyexc | Diagnoses | Other

text \<open>A string or \<open>null\<close>, as the SDK sends positions and kernel names.\<close>

definition optional_text :: "string \<Rightarrow> jobj \<Rightarrow> pystr option option" where
  "optional_text k d =
     (case field k d of
        None \<Rightarrow> Some None
      | Some JNull \<Rightarrow> Some None
      | Some (JStr s) \<Rightarrow> Some (Some s)
      | Some _ \<Rightarrow> None)"

primrec all_texts :: "json list \<Rightarrow> pystr list option" where
  "all_texts [] = Some []"
| "all_texts (j # js) =
     (case j of JStr s \<Rightarrow> map_option ((#) s) (all_texts js) | _ \<Rightarrow> None)"

definition with_position :: "(pystr option \<Rightarrow> pystr option \<Rightarrow> request) \<Rightarrow> jobj \<Rightarrow> decoded" where
  "with_position f d =
     (case (optional_text ''before'' d, optional_text ''after'' d) of
        (Some before, Some after) \<Rightarrow> Asks (f before after)
      | _ \<Rightarrow> Other)"

definition with_object :: "(jobj \<Rightarrow> decoded) \<Rightarrow> json \<Rightarrow> decoded" where
  "with_object f j = (case j of JDict d \<Rightarrow> f d | _ \<Rightarrow> Fails attribute_error)"

definition execute_request :: "pystr \<Rightarrow> jobj \<Rightarrow> decoded" where
  "execute_request nb d =
     (let ids = get_or ''cell_ids'' (JList []) d
      in if \<not> truthy ids then Asks (Execute nb [] None)
         else case (ids, optional_text ''kernel_name'' d) of
                (JList js, Some k) \<Rightarrow> (case all_texts js of Some cs \<Rightarrow> Asks (Execute nb cs k) | None \<Rightarrow> Other)
              | _ \<Rightarrow> Other)"

definition open_request :: "pystr \<Rightarrow> jobj \<Rightarrow> decoded" where
  "open_request nb d =
     (case (field ''client_id'' d, optional_text ''kernel_name'' d) of
        (None, Some k) \<Rightarrow> Asks (RuntimeOpen nb None k)
      | (Some (JStr c), Some k) \<Rightarrow> Asks (RuntimeOpen nb (Some c) k)
      | _ \<Rightarrow> Other)"

definition not_allowed :: pyexc where "not_allowed = HTTPError 405 (lit ''Method Not Allowed'')"

text \<open>\<open>arg\<close> reads the query, \<open>body\<close> is the decoded body; captures come unquoted.\<close>

fun decode_request ::
  "handler_class \<Rightarrow> pystr \<Rightarrow> pystr list \<Rightarrow> (string \<Rightarrow> pystr option) \<Rightarrow> json \<Rightarrow> decoded" where
  "decode_request ServerDiagnosticsHandler meth caps arg body =
     (if meth = lit ''GET'' then Diagnoses else Fails not_allowed)"
| "decode_request NotebookDocumentHandler meth [nb] arg body =
     (if meth = lit ''GET'' then Asks (DocumentGet nb (case arg ''content'' of None \<Rightarrow> lit ''1'' | Some s \<Rightarrow> s))
      else if meth = lit ''PUT'' then Asks (DocumentPut nb body)
      else Fails not_allowed)"
| "decode_request NotebookCellsHandler meth [nb] arg body =
     (if meth = lit ''GET'' then Asks (CellsGet nb)
      else if meth = lit ''POST'' then with_object (\<lambda>d. with_position (CellsPost nb d) d) body
      else Fails not_allowed)"
| "decode_request NotebookCellHandler meth [nb, c] arg body =
     (if meth = lit ''GET'' then Asks (CellGet nb c)
      else if meth = lit ''PATCH'' then (case body of JDict d \<Rightarrow> Asks (CellPatch nb c d) | _ \<Rightarrow> Other)
      else if meth = lit ''DELETE'' then Asks (CellDelete nb c)
      else Fails not_allowed)"
| "decode_request NotebookCellMoveHandler meth [nb, c] arg body =
     (if meth = lit ''POST'' then with_object (with_position (CellMove nb c)) body else Fails not_allowed)"
| "decode_request NotebookCellClearOutputsHandler meth [nb, c] arg body =
     (if meth = lit ''POST'' then Asks (CellClearOutputs nb c) else Fails not_allowed)"
| "decode_request ExecuteHandler meth [nb] arg body =
     (if meth = lit ''POST'' then with_object (execute_request nb) body else Fails not_allowed)"
| "decode_request JobsHandler meth [] arg body =
     (if meth = lit ''GET'' then Asks (JobsList (arg ''notebook_id'') (arg ''status'')) else Fails not_allowed)"
| "decode_request JobHandler meth [i] arg body =
     (if meth = lit ''GET'' then Asks (JobGet i) else Fails not_allowed)"
| "decode_request SendStdinHandler meth [i] arg body =
     (if meth = lit ''POST'' then with_object (\<lambda>d. Asks (JobStdin i (get_or ''value'' (JStr []) d))) body
      else Fails not_allowed)"
| "decode_request RuntimeStatusHandler meth [nb] arg body =
     (if meth = lit ''GET'' then Asks (RuntimeStatus nb) else Fails not_allowed)"
| "decode_request RuntimeOpenHandler meth [nb] arg body =
     (if meth = lit ''POST'' then with_object (open_request nb) body else Fails not_allowed)"
| "decode_request RuntimeStopHandler meth [nb] arg body =
     (if meth = lit ''POST'' then Asks (RuntimeStop nb) else Fails not_allowed)"
| "decode_request InterruptHandler meth [nb] arg body =
     (if meth = lit ''POST'' then Asks (Interrupt nb) else Fails not_allowed)"
| "decode_request CellAttributionHandler meth [nb, c] arg body =
     (if meth = lit ''GET'' then Asks (Attribution nb c) else Fails not_allowed)"
| "decode_request _ meth caps arg body = Other"

section \<open>The server behind the transport\<close>

text \<open>The identifiers in the captures are unquoted by the handlers (\<open>decode_notebook_id\<close>).\<close>

definition web_handlers :: "'x web_env \<Rightarrow> 'x http_env" where
  "web_handlers we = (web_http we)\<lparr>unquote := decode_notebook_id\<rparr>"

definition web_answer :: "'x web_env \<Rightarrow> (response, 'x server) outcome \<Rightarrow> (http_response, 'x server) outcome" where
  "web_answer we rs =
     (case rs of
        (Inr (JsonResponse n j), s) \<Rightarrow> (Inr (write_json n j), s)
      | (Inr (EmptyResponse n), s) \<Rightarrow> (Inr \<lparr>rs_status = n, rs_text = []\<rparr>, s)
      | (Inl e, s) \<Rightarrow> (Inr \<lparr>rs_status = http_status (Inl e), rs_text = web_error_text we e\<rparr>, s))"

definition web_serve :: "'x web_env \<Rightarrow> http_request \<Rightarrow> 'x server \<Rightarrow> (http_response, 'x server) outcome" where
  "web_serve we q s =
     (case dispatch routes (rq_path q) of
        None \<Rightarrow> (case web_other we q s of (r, s1) \<Rightarrow> (Inr r, s1))
      | Some (cls, caps) \<Rightarrow>
          if \<not> web_authorized we (rq_headers q)
          then web_answer we (Inl (HTTPError 403 (lit ''Forbidden'')), s)
          else
            case decode_request cls (rq_method q) (map (web_capture we) caps)
                   (\<lambda>k. web_argument we k (rq_params q))
                   (get_json_body (web_float we) (case rq_json q of None \<Rightarrow> [] | Some j \<Rightarrow> web_wire we j)) of
              Asks req \<Rightarrow>
                web_answer we (serve (web_handlers we) (web_new_id we s)
                  (web_header we ''X-Hypernote-Actor-Id'' (rq_headers q),
                   web_header we ''X-Hypernote-Actor-Type'' (rq_headers q)) req s)
            | Fails e \<Rightarrow> web_answer we (Inl e, s)
            | Diagnoses \<Rightarrow> (Inr (write_json 200 (web_diagnostics we s)), s)
            | Other \<Rightarrow> (case web_other we q s of (r, s1) \<Rightarrow> (Inr r, s1)))"

text \<open>The SDK with this server as its transport.\<close>

definition over_http :: "'x web_env \<Rightarrow> 'x server client_env \<Rightarrow> 'x server client_env" where
  "over_http we base = base\<lparr>send_http := web_serve we\<rparr>"

section \<open>What the two halves rely on\<close>

text \<open>
  Documented behaviour of the transport: a captured segment is percent-decoded as UTF-8, a JSON value
  arrives as text that reads back as that value, headers arrive, and the configuration's token is
  accepted.
\<close>

definition faithful_wire :: "'x web_env \<Rightarrow> config \<Rightarrow> bool" where
  "faithful_wire we cfg \<longleftrightarrow>
     (\<forall>s t. utf8_decode (pct_decode s) = Some t \<longrightarrow> web_capture we s = t)
     \<and> (\<forall>j. clean j \<longrightarrow> web_wire we j \<noteq> [] \<and> json_loads (web_float we) (web_wire we j) = Some j)
     \<and> web_header we ''X-Hypernote-Actor-Id'' (hypernote_headers cfg) = Some (cfg_actor_id cfg)
     \<and> web_header we ''X-Hypernote-Actor-Type'' (hypernote_headers cfg) = Some (cfg_actor_type cfg)
     \<and> web_authorized we (hypernote_headers cfg)"

text \<open>Identifiers of Unicode scalar values; a notebook's, not read as another one by the second unquoting.\<close>

definition names_notebook :: "pystr \<Rightarrow> bool" where
  "names_notebook path \<longleftrightarrow> path \<noteq> [] \<and> list_all scalar path \<and> \<not> has_escape path"

definition names_cell :: "pystr \<Rightarrow> bool" where
  "names_cell cid \<longleftrightarrow> cid \<noteq> [] \<and> list_all scalar cid \<and> cid \<notin> {lit ''document'', lit ''cells''}"

lemma quote_byte_nonempty [simp]: "quote_byte b \<noteq> []"
  by (simp add: quote_byte_def)

lemma quoted_segment:
  assumes "s \<noteq> []" and "list_all scalar s"
  obtains bs where "utf8_encode s = Some bs" "url_quote s = Inr (quote_bytes bs)" "segment (quote_bytes bs)"
    "utf8_decode (pct_decode (quote_bytes bs)) = Some s"
proof -
  obtain bs where bs: "utf8_encode s = Some bs" using assms(2) by (simp add: utf8_encode_def)
  note b = utf8_bytes [OF bs]
  have "bs \<noteq> []" using bs assms(1) utf8_round_trip [OF bs] by (auto simp: utf8_decode.simps)
  then have "quote_bytes bs \<noteq> []" by (auto simp: quote_bytes_def)
  then have "segment (quote_bytes bs)" using quote_bytes_segment [OF b] by (auto simp: segment_def list_all_iff)
  with bs that show ?thesis
    by (simp add: url_quote_def encode_def pct_decode_quote [OF b] utf8_round_trip [OF bs])
qed

text \<open>The quoted form of an identifier is the identifier only when it holds nothing to quote.\<close>

lemma quoted_word:
  assumes "list_all always_safe w" and "\<forall>c \<in> set w. c < 128" and "utf8_encode s = Some bs"
  shows "quote_bytes bs = w \<longleftrightarrow> s = w"
proof -
  have w: "utf8_encode w = Some w" by (rule utf8_ascii) (use assms(2) in blast)
  have q: "quote_bytes w = w" using assms(1) by (induction w) (simp_all add: quote_bytes_def quote_byte_def)
  show ?thesis
  proof
    assume "quote_bytes bs = w"
    then have "quote_bytes bs = quote_bytes w" using q by simp
    then have "bs = w" using pct_decode_quote [OF utf8_bytes [OF assms(3)]] pct_decode_quote [OF utf8_bytes [OF w]] by metis
    then show "s = w" using utf8_round_trip [OF assms(3)] utf8_round_trip [OF w] by simp
  next
    assume "s = w"
    then show "quote_bytes bs = w" using assms(3) w q by simp
  qed
qed

section \<open>Requests of the SDK at the server\<close>

text \<open>The answer to a request of the route table that a client with this configuration makes.\<close>

definition asked :: "'x web_env \<Rightarrow> config \<Rightarrow> request \<Rightarrow> 'x server \<Rightarrow> (http_response, 'x server) outcome" where
  "asked we cfg req s =
     web_answer we (serve (web_handlers we) (web_new_id we s) (Some (cfg_actor_id cfg), Some (cfg_actor_type cfg)) req s)"

definition body_of :: "json option \<Rightarrow> json" where
  "body_of b = (case b of None \<Rightarrow> JDict [] | Some j \<Rightarrow> j)"

lemma body_arrives:
  assumes "faithful_wire we cfg" and "\<And>j. b = Some j \<Longrightarrow> clean j"
  shows "get_json_body (web_float we) (case b of None \<Rightarrow> [] | Some j \<Rightarrow> web_wire we j) = body_of b"
  using assms by (auto simp: get_json_body_def body_of_def faithful_wire_def split: option.split)

lemma request_served:
  assumes "faithful_wire we cfg" and "\<And>j. b = Some j \<Longrightarrow> clean j"
    and "dispatch routes path = Some (cls, caps)"
    and "decode_request cls (lit meth) (map (web_capture we) caps) (\<lambda>k. web_argument we k params) (body_of b) = Asks req"
  shows "send_request (over_http we base) cfg meth path True b params s = asked we cfg req s"
proof -
  have h: "web_authorized we (hypernote_headers cfg)"
    "web_header we ''X-Hypernote-Actor-Id'' (hypernote_headers cfg) = Some (cfg_actor_id cfg)"
    "web_header we ''X-Hypernote-Actor-Type'' (hypernote_headers cfg) = Some (cfg_actor_type cfg)"
    using assms(1) by (simp_all add: faithful_wire_def)
  show ?thesis
    by (simp add: send_request_def over_http_def web_serve_def asked_def body_arrives [OF assms(1,2)] assms(3,4) h)
qed

lemma capture_quoted:
  "faithful_wire we cfg \<Longrightarrow> utf8_decode (pct_decode q) = Some s \<Longrightarrow> web_capture we q = s"
  by (simp add: faithful_wire_def)

text \<open>A request under a notebook's URL, and one under a cell's.\<close>

lemma notebook_served:
  assumes "faithful_wire we cfg" and "names_notebook path" and "\<And>j. b = Some j \<Longrightarrow> clean j"
    and "\<And>nb. segment nb \<Longrightarrow> dispatch routes (notebooks_url @ nb @ lit suffix) = Some (cls, [nb])"
    and "decode_request cls (lit meth) [path] (\<lambda>k. web_argument we k params) (body_of b) = Asks req"
  shows "notebook_request (over_http we base) cfg meth path suffix b params s = asked we cfg req s"
proof -
  have p: "path \<noteq> []" "list_all scalar path" using assms(2) by (simp_all add: names_notebook_def)
  then obtain bs where q: "url_quote path = Inr (quote_bytes bs)" "segment (quote_bytes bs)"
    "utf8_decode (pct_decode (quote_bytes bs)) = Some path" using quoted_segment by blast
  have "send_request (over_http we base) cfg meth (notebooks_url @ quote_bytes bs @ lit suffix) True b params s
      = asked we cfg req s"
    by (rule request_served [OF assms(1,3,4)])
      (use assms(5) q(2) capture_quoted [OF assms(1) q(3)] in simp_all)
  with q(1) show ?thesis by (simp add: notebook_request_def notebooks_url_def mbind_def of_result_def)
qed

lemma cell_served:
  assumes "faithful_wire we cfg" and "names_notebook path" and "names_cell cid" and "\<And>j. b = Some j \<Longrightarrow> clean j"
    and "\<And>nb c. segment nb \<Longrightarrow> segment c \<Longrightarrow> c \<noteq> lit ''document'' \<Longrightarrow> c \<noteq> lit ''cells'' \<Longrightarrow>
      dispatch routes (notebooks_url @ nb @ lit ''/cells/'' @ c @ lit suffix) = Some (cls, [nb, c])"
    and "decode_request cls (lit meth) [path, cid] (\<lambda>k. web_argument we k None) (body_of b) = Asks req"
  shows "cell_request (over_http we base) cfg meth path cid suffix b s = asked we cfg req s"
proof -
  have "path \<noteq> []" "list_all scalar path" using assms(2) by (simp_all add: names_notebook_def)
  then obtain bs where q: "url_quote path = Inr (quote_bytes bs)" "segment (quote_bytes bs)"
    "utf8_decode (pct_decode (quote_bytes bs)) = Some path" using quoted_segment by blast
  have "cid \<noteq> []" "list_all scalar cid" using assms(3) by (simp_all add: names_cell_def)
  then obtain cs where c: "utf8_encode cid = Some cs" "url_quote cid = Inr (quote_bytes cs)" "segment (quote_bytes cs)"
    "utf8_decode (pct_decode (quote_bytes cs)) = Some cid" using quoted_segment by blast
  have other: "quote_bytes cs \<noteq> lit ''document''" "quote_bytes cs \<noteq> lit ''cells''"
    using assms(3) quoted_word [OF _ _ c(1)] by (simp_all add: names_cell_def lit_def always_safe_def)
  have "send_request (over_http we base) cfg meth
      (notebooks_url @ quote_bytes bs @ lit ''/cells/'' @ quote_bytes cs @ lit suffix) True b None s = asked we cfg req s"
    by (rule request_served [OF assms(1,4,5)])
      (use assms(6) q(2) c(3) other capture_quoted [OF assms(1) q(3)] capture_quoted [OF assms(1) c(4)] in simp_all)
  with q(1) c(2) show ?thesis by (simp add: cell_request_def notebooks_url_def mbind_def of_result_def)
qed

text \<open>An operation of the SDK that asks once and looks at the status only.\<close>

definition asked_once :: "'x web_env \<Rightarrow> config \<Rightarrow> request \<Rightarrow> 'x server \<Rightarrow> (unit, 'x server) outcome" where
  "asked_once we cfg req = mbind (asked we cfg req) (\<lambda>r. of_result (raise_response r))"

lemma mbind_eq: "m s = m' s \<Longrightarrow> mbind m f s = mbind m' f s"
  by (simp add: mbind_def)

lemma clean_simps [simp]:
  "list_all scalar s \<Longrightarrow> clean (JStr s)" "clean (JDict [])"
  by simp_all

lemma clean_one: "clean v \<Longrightarrow> clean (JDict [(lit ''source'', v)])"
  by (simp add: lit_scalar)

lemma clean_opt_str: "(\<And>x. p = Some x \<Longrightarrow> list_all scalar x) \<Longrightarrow> clean (opt_str p)"
  by (cases p) (simp_all add: opt_str_def)

lemma clean_position:
  "clean (opt_str b) \<Longrightarrow> clean (opt_str a) \<Longrightarrow> clean (JDict [(lit ''before'', opt_str b), (lit ''after'', opt_str a)])"
  by (simp add: lit_scalar)

lemma optional_text_opt_str [simp]:
  "k' \<noteq> k \<Longrightarrow> optional_text k ((lit k', v) # d) = optional_text k d"
  "optional_text k ((lit k, opt_str p) # d) = Some p"
  by (auto simp: optional_text_def opt_str_def split: option.split)

lemma replace_served:
  assumes "faithful_wire we cfg" and "names_notebook path" and "names_cell cid" and "list_all scalar source"
  shows "handle_replace (over_http we base) cfg path cid source s
    = asked_once we cfg (CellPatch path cid [(lit ''source'', JStr source)]) s"
  unfolding handle_replace_def asked_once_def
  by (rule mbind_eq, rule cell_served [OF assms(1-3), where cls = NotebookCellHandler])
    (use assms(4) in \<open>simp_all add: dispatch_cell body_of_def clean_one del: clean.simps\<close>)

lemma delete_served:
  assumes "faithful_wire we cfg" and "names_notebook path" and "names_cell cid"
  shows "handle_delete (over_http we base) cfg path cid s = asked_once we cfg (CellDelete path cid) s"
  unfolding handle_delete_def asked_once_def
  by (rule mbind_eq, rule cell_served [OF assms, where cls = NotebookCellHandler])
    (simp_all add: dispatch_cell)

lemma clear_outputs_served:
  assumes "faithful_wire we cfg" and "names_notebook path" and "names_cell cid"
  shows "handle_clear_outputs (over_http we base) cfg path cid s = asked_once we cfg (CellClearOutputs path cid) s"
  unfolding handle_clear_outputs_def asked_once_def
  by (rule mbind_eq, rule cell_served [OF assms, where cls = NotebookCellClearOutputsHandler])
    (simp_all add: dispatch_cell_action)

lemma move_served:
  assumes "faithful_wire we cfg" and "names_notebook path" and "names_cell cid"
    and "clean (opt_str before)" and "clean (opt_str after)" and "before = None \<or> after = None"
  shows "handle_move (over_http we base) cfg path cid before after s = asked_once we cfg (CellMove path cid before after) s"
proof -
  have "cell_request (over_http we base) cfg ''POST'' path cid ''/move''
      (Some (JDict [(lit ''before'', opt_str before), (lit ''after'', opt_str after)])) s
      = asked we cfg (CellMove path cid before after) s"
    by (rule cell_served [OF assms(1-3), where cls = NotebookCellMoveHandler])
      (use assms(4,5) in \<open>simp_all add: dispatch_cell_action body_of_def clean_position with_object_def with_position_def
        del: clean.simps\<close>)
  then show ?thesis
    using assms(6) by (auto simp: handle_move_def asked_once_def check_position_def mbind_def of_result_def)
qed

text \<open>The body of a new cell, and the request it makes.\<close>

definition new_cell_body :: "pystr \<Rightarrow> cell_type \<Rightarrow> pystr \<Rightarrow> pystr option \<Rightarrow> pystr option \<Rightarrow> jobj" where
  "new_cell_body i ty source before after =
     [(lit ''id'', JStr i), (lit ''cell_type'', JStr (cell_type_value ty)), (lit ''source'', JStr source),
      (lit ''before'', opt_str before), (lit ''after'', opt_str after)]"

lemma cell_type_scalar: "list_all scalar (cell_type_value ty)"
  by (cases ty) (simp_all add: lit_scalar)

lemma clean_new_cell:
  "list_all scalar i \<Longrightarrow> list_all scalar source \<Longrightarrow> clean (opt_str before) \<Longrightarrow> clean (opt_str after) \<Longrightarrow>
     clean (JDict (new_cell_body i ty source before after))"
  by (simp add: new_cell_body_def lit_scalar cell_type_scalar)

lemma insert_served:
  assumes "faithful_wire we cfg" and "names_notebook path" and "i \<noteq> []" and "list_all scalar i" and "list_all scalar source"
    and "clean (opt_str before)" and "clean (opt_str after)" and "before = None \<or> after = None"
  shows "insert_new_cell (over_http we base) cfg path ty source (Some i) before after s
    = mbind (asked_once we cfg (CellsPost path (new_cell_body i ty source before after) before after)) (\<lambda>_. mret i) s"
proof -
  have "notebook_request (over_http we base) cfg ''POST'' path ''/cells''
      (Some (JDict (new_cell_body i ty source before after))) None s
      = asked we cfg (CellsPost path (new_cell_body i ty source before after) before after) s"
    by (rule notebook_served [OF assms(1,2), where cls = NotebookCellsHandler])
      (use assms(4-7) in \<open>simp_all add: dispatch_one body_of_def clean_new_cell with_object_def with_position_def
        del: clean.simps\<close>, simp add: new_cell_body_def)
  then show ?thesis
    using assms(3,8)
    by (auto simp: insert_new_cell_def new_cell_body_def asked_once_def check_position_def chosen_cell_id_def py_or_def
        mbind_def of_result_def split: prod.split sum.split)
qed

section \<open>Exceptions become error responses\<close>

text \<open>
  An exception the server answers with an error status, and operations that raise no other.  Only an
  \<open>HTTPError\<close> carries a status of its own; the accessor raises none, so it is enough that the
  libraries it calls do not raise one with a status below 400.
\<close>

definition failure :: "pyexc \<Rightarrow> bool" where
  "failure e \<longleftrightarrow> (case e of HTTPError n _ \<Rightarrow> 400 \<le> n | _ \<Rightarrow> True)"

definition raises_failures :: "('s \<Rightarrow> ('a, 's) outcome) \<Rightarrow> bool" where
  "raises_failures m \<longleftrightarrow> (\<forall>s e s'. m s = (Inl e, s') \<longrightarrow> failure e)"

definition fails_well :: "pyexc + 'a \<Rightarrow> bool" where
  "fails_well r \<longleftrightarrow> (case r of Inl e \<Rightarrow> failure e | Inr _ \<Rightarrow> True)"

definition library_failures :: "'w notebook_env \<Rightarrow> bool" where
  "library_failures env \<longleftrightarrow>
     (\<forall>nb. raises_failures (contents_get env nb)) \<and> (\<forall>rid. raises_failures (room_start env rid))
     \<and> (\<forall>rid d. raises_failures (room_initialize env rid d)) \<and> (\<forall>rid d. raises_failures (room_save env rid d))
     \<and> (\<forall>c. raises_failures (create_ycell env c)) \<and> (\<forall>v d. raises_failures (doc_aset env v d))"

named_theorems failing

lemma failure_simps [simp]:
  "failure (ValueError m)" "failure (RuntimeError m)" "failure (KernelMismatch n a r)" "failure (OtherError k m)"
  "failure (HTTPError code m) \<longleftrightarrow> 400 \<le> code"
  by (simp_all add: failure_def)

lemma failure_named [simp]: "failure type_error" "failure attribute_error" "failure (key_error k)" "failure (cell_not_found c)"
    "failure (cell_not_found_in c nb)"
  by (simp_all add: type_error_def attribute_error_def key_error_def cell_not_found_def cell_not_found_in_def)

lemma fails_well_simps [simp]: "fails_well (Inr x)" "fails_well (Inl e) \<longleftrightarrow> failure e"
  by (simp_all add: fails_well_def)

lemma raises_failuresD: "raises_failures m \<Longrightarrow> m s = (Inl e, s') \<Longrightarrow> failure e"
  unfolding raises_failures_def by blast

lemma failing_base [failing]:
  "raises_failures (mret x)" "raises_failures (read_doc rid)" "raises_failures (put_doc rid d)"
  "raises_failures start_server" "raises_failures (update_ycells rid f)"
  by (simp_all add: raises_failures_def start_server_def update_ycells_def)

lemma failing_result [failing]: "fails_well r \<Longrightarrow> raises_failures (of_result r)"
  by (auto simp: raises_failures_def)

lemma failing_raise [failing]: "failure e \<Longrightarrow> raises_failures (mraise e)"
  by (simp add: raises_failures_def)

lemma failing_bind [failing]:
  "raises_failures m \<Longrightarrow> (\<And>x. raises_failures (f x)) \<Longrightarrow> raises_failures (mbind m f)"
  unfolding raises_failures_def mbind_eq_Inl by blast

lemma failing_world [failing]: "raises_failures f \<Longrightarrow> raises_failures (on_world f)"
  by (auto simp: raises_failures_def on_world_def split: prod.splits)

lemma failing_on_notebook [failing]: "raises_failures f \<Longrightarrow> raises_failures (on_notebook f)"
  by (auto simp: raises_failures_def on_notebook_def split: prod.splits)

lemma failing_catching [failing]: "raises_failures m \<Longrightarrow> 400 \<le> code \<Longrightarrow> raises_failures (catching (value_error_to code) m)"
proof -
  have "failure (value_error_to code e)" if "failure e" "400 \<le> code" for e using that by (cases e) simp_all
  then show "raises_failures m \<Longrightarrow> 400 \<le> code \<Longrightarrow> ?thesis"
    by (fastforce simp: raises_failures_def catching_def split: prod.splits sum.splits)
qed

text \<open>The pure parts of the accessor.\<close>

lemma fails_well_bind: "fails_well r \<Longrightarrow> (\<And>x. fails_well (f x)) \<Longrightarrow> fails_well (case r of Inl e \<Rightarrow> Inl e | Inr x \<Rightarrow> f x)"
  by (cases r) simp_all

lemma fails_well_json [simp]:
  "fails_well (item_of k d)" "fails_well (py_get k v j)" "fails_well (as_dict j)" "fails_well (py_list j)"
  by (auto simp: fails_well_def item_of_def py_get_def as_dict_def py_list_def split: option.split json.split)

lemma fails_well_find [simp]:
  "fails_well (find_cell_index cs c)" "fails_well (find_ycell_index cs c)" "fails_well (find_cell js j)"
proof -
  show "fails_well (find_cell_index cs c)" by (induction cs) (auto intro: fails_well_bind)
  show "fails_well (find_ycell_index cs c)" by (induction cs) (auto intro: fails_well_bind split: option.split)
  show "fails_well (find_cell js j)" by (induction js j rule: find_cell.induct) simp_all
qed

lemma fails_well_position [simp]:
  "fails_well (validate_position b a)" "fails_well (resolve_insert_index cs b a)"
  by (auto simp: validate_position_def resolve_insert_index_def intro: fails_well_bind split: option.split)

lemma fails_well_keys: "fails_well (assign_position_keys_from i cs)"
  by (induction cs arbitrary: i) (auto simp: key_cell_def intro!: fails_well_bind)

lemma fails_well_moved [simp]: "fails_well (moved_cells cs c b a)" "fails_well (notebook_value d cs)"
  by (auto simp: moved_cells_def notebook_value_def Let_def assign_position_keys_def intro!: fails_well_bind fails_well_keys)

lemma failing_keys [failing]: "raises_failures (assign_position_keys_ycells rid)"
proof -
  have "fails_well (fst (assign_position_keys_ycells_from i cs))" for i cs
  proof (induction cs arbitrary: i)
    case (Cons c cs)
    have "fails_well (fst (key_ycell i c))"
      by (auto simp: key_ycell_def Let_def as_dict_def split: json.split)
    then show ?case using Cons [of "Suc i"]
      by (cases "key_ycell i c"; cases "assign_position_keys_ycells_from (Suc i) cs")
        (auto simp: fails_well_def split: sum.splits)
  qed simp
  then show ?thesis
    by (auto simp: raises_failures_def assign_position_keys_ycells_def fails_well_def split: prod.splits sum.splits)
      (metis fst_conv old.sum.simps(5))
qed

lemma library_failuresD [failing]:
  assumes "library_failures env"
  shows "raises_failures (contents_get env nb)" "raises_failures (room_start env rid)"
    "raises_failures (room_initialize env rid d)" "raises_failures (room_save env rid d)"
    "raises_failures (create_ycell env c)" "raises_failures (doc_aset env v d)"
  using assms by (simp_all add: library_failures_def)

lemma failing_room [failing]:
  assumes "library_failures env"
  shows "raises_failures (get_document_room env nb)" and "raises_failures (save_room env rid)"
proof -
  have i: "raises_failures (initialize_room env rid)" for rid
    unfolding initialize_room_def by (intro failing assms)
  have f: "raises_failures (on_world (\<lambda>w. case file_index env nb w of (fid, w1) \<Rightarrow> (Inr (room_of_file env fid), w1)))"
    by (auto simp: raises_failures_def on_world_def split: prod.splits)
  have n: "raises_failures (mbind (on_world (room_start env rid)) (\<lambda>_. mbind (put_doc rid empty_doc) (\<lambda>_. initialize_room env rid)))"
    for rid by (intro failing i assms)
  have "raises_failures (\<lambda>s. case doc_rooms s rid of
         Some (DocumentRoom d) \<Rightarrow> initialize_room env rid s
       | Some OtherRoom \<Rightarrow> mraise (RuntimeError m) s
       | None \<Rightarrow> mbind (on_world (room_start env rid)) (\<lambda>_. mbind (put_doc rid empty_doc) (\<lambda>_. initialize_room env rid)) s)"
    for rid m
    using raises_failuresD [OF i] raises_failuresD [OF n]
    by (auto simp: raises_failures_def split: option.splits doc_room.splits)
  then show "raises_failures (get_document_room env nb)"
    unfolding get_document_room_def by (intro failing f assms)
  show "raises_failures (save_room env rid)"
    unfolding save_room_def by (intro failing assms)
qed

lemma failing_get_cell [failing]:
  assumes "library_failures env"
  shows "raises_failures (get_cell env nb c)"
proof -
  have "raises_failures (get_notebook_model env nb True)"
    unfolding get_notebook_model_def by simp (intro failing assms)
  then show ?thesis
    unfolding get_cell_def model_cells_def
    by (intro failing_bind failing_result fails_well_bind) (simp_all split: option.split)
qed

lemma failing_edits [failing]:
  assumes "library_failures env"
  shows "raises_failures (replace_cell_source env nb c source)" and "raises_failures (clear_outputs env nb c)"
    and "raises_failures (move_cell env nb c b a)" and "raises_failures (delete_cell env nb c)"
    and "raises_failures (insert_cell env nb cell b a)"
proof -
  have "raises_failures (rewrite_cell env nb c f)" for f
    unfolding rewrite_cell_def set_cell_def by (intro failing assms) simp_all
  then show "raises_failures (replace_cell_source env nb c source)" "raises_failures (clear_outputs env nb c)"
    by (simp_all add: replace_cell_source_def clear_outputs_def)
  show "raises_failures (move_cell env nb c b a)" unfolding move_cell_def by (intro failing assms) simp_all
  show "raises_failures (delete_cell env nb c)" unfolding delete_cell_def by (intro failing assms) simp_all
  show "raises_failures (insert_cell env nb cell b a)" unfolding insert_cell_def by (intro failing assms) simp_all
qed

section \<open>Edits of the SDK\<close>

text \<open>The edits of a cell in place: the operation of the SDK, and the request it stands for.\<close>

datatype cell_edit = Replace pystr | Move "pystr option" "pystr option" | ClearOutputs

primrec sdk_edit :: "'w client_env \<Rightarrow> config \<Rightarrow> pystr \<Rightarrow> pystr \<Rightarrow> cell_edit \<Rightarrow> 'w \<Rightarrow> (unit, 'w) outcome" where
  "sdk_edit env cfg path cid (Replace source) = handle_replace env cfg path cid source"
| "sdk_edit env cfg path cid (Move before after) = handle_move env cfg path cid before after"
| "sdk_edit env cfg path cid ClearOutputs = handle_clear_outputs env cfg path cid"

primrec edit_request :: "pystr \<Rightarrow> pystr \<Rightarrow> cell_edit \<Rightarrow> request" where
  "edit_request path cid (Replace source) = CellPatch path cid [(lit ''source'', JStr source)]"
| "edit_request path cid (Move before after) = CellMove path cid before after"
| "edit_request path cid ClearOutputs = CellClearOutputs path cid"

primrec edit_sendable :: "cell_edit \<Rightarrow> bool" where
  "edit_sendable (Replace source) \<longleftrightarrow> list_all scalar source"
| "edit_sendable (Move before after) \<longleftrightarrow> clean (opt_str before) \<and> clean (opt_str after)"
| "edit_sendable ClearOutputs \<longleftrightarrow> True"

lemma edit_served:
  assumes "faithful_wire we cfg" and "names_notebook path" and "names_cell cid" and "edit_sendable ed"
  shows "sdk_edit (over_http we base) cfg path cid ed s = asked_once we cfg (edit_request path cid ed) s
    \<or> (\<exists>e. sdk_edit (over_http we base) cfg path cid ed s = (Inl e, s))"
proof (cases ed)
  case (Move before after)
  show ?thesis
  proof (cases "before = None \<or> after = None")
    case True
    with assms Move show ?thesis by (simp add: move_served)
  qed (use Move in \<open>simp add: handle_move_def check_position_def mraise_def\<close>)
qed (use assms in \<open>simp_all add: replace_served clear_outputs_served\<close>)

lemma raise_response_error: "400 \<le> rs_status r \<Longrightarrow> \<exists>e. raise_response r = Inl e"
  by (simp add: raise_response_def is_success_def)

lemma raise_response_success: "rs_status r = 200 \<or> rs_status r = 201 \<Longrightarrow> raise_response r = Inr ()"
  by (auto simp: raise_response_def is_success_def)

text \<open>The caller sees an exception exactly when the handler raised one.\<close>

lemma asked_once_outcome:
  assumes "serve (web_handlers we) (web_new_id we s) (Some (cfg_actor_id cfg), Some (cfg_actor_type cfg)) req s = (r, s1)"
    and "\<And>e. r = Inl e \<Longrightarrow> failure e" and "\<And>x. r = Inr x \<Longrightarrow> http_status (Inr x) \<in> {200, 201}"
    and "asked_once we cfg req s = (r', s')"
  shows "s' = s1" and "(\<exists>e. r' = Inl e) \<longleftrightarrow> (\<exists>e. r = Inl e)"
proof -
  have a: "asked we cfg req s = web_answer we (r, s1)" by (simp add: asked_def assms(1))
  have "s' = s1 \<and> ((\<exists>e. r' = Inl e) \<longleftrightarrow> (\<exists>e. r = Inl e))"
  proof (cases r)
    case (Inl e)
    then have "400 \<le> http_status (Inl e)" using assms(2) by (cases e) (auto simp: http_status_def)
    then obtain e' where "raise_response \<lparr>rs_status = http_status (Inl e), rs_text = web_error_text we e\<rparr> = Inl e'"
      using raise_response_error by fastforce
    then have "r' = Inl e' \<and> s' = s1" using a Inl assms(4) by (auto simp: asked_once_def web_answer_def mbind_def)
    with Inl show ?thesis by blast
  next
    case (Inr x)
    then show ?thesis using assms(3) [OF Inr] assms(4) a
      by (cases x) (auto simp: asked_once_def web_answer_def mbind_def http_status_def write_json_def raise_response_success)
  qed
  then show "s' = s1" "(\<exists>e. r' = Inl e) \<longleftrightarrow> (\<exists>e. r = Inl e)" by blast+
qed

lemma failing_edited:
  "raises_failures f \<Longrightarrow> 400 \<le> code \<Longrightarrow> raises_failures (edited henv nb c actor code (on_notebook f))"
proof -
  have "raises_failures (attribute_edit henv nb c actor)"
    using attribute_edit_effect by (fastforce simp: raises_failures_def)
  then show "raises_failures f \<Longrightarrow> 400 \<le> code \<Longrightarrow> ?thesis"
    unfolding edited_def by (intro failing)
qed

lemma edit_request_outcome:
  assumes "library_failures (notebook_services (http_server henv))"
    and "serve henv new headers (edit_request path cid ed) s = (r, s1)"
  shows "case r of Inl e \<Rightarrow> failure e \<and> server_ledger s1 = server_ledger s
    | Inr x \<Rightarrow> http_status (Inr x) = 200
        \<and> attributed (unquote henv path) cid (get_actor (fst headers) (snd headers)) (server_ledger s) (server_ledger s1)"
proof -
  let ?nb = "unquote henv path" let ?who = "get_actor (fst headers) (snd headers)"
  obtain f code where f: "serve henv new headers (edit_request path cid ed) s = edited henv ?nb cid ?who code (on_notebook f) s"
    and ok: "raises_failures f" "400 \<le> code"
    using failing_edits [OF assms(1)]
    by (cases ed) (auto simp: serve_def cell_patch_def cell_move_post_def clear_outputs_post_def Let_def)
  show ?thesis
    using edited_ledger [OF assms(2) [unfolded f]] raises_failuresD [OF failing_edited [OF ok]] assms(2) [unfolded f]
    by (cases r) auto
qed

section \<open>A concrete wire\<close>

text \<open>
  The transport as the libraries are documented to behave, in front of the server of \<open>demo_http\<close>: the
  headers the SDK writes come last, JSON is written with the standard separators.
\<close>

definition demo_web :: "demo_world web_env" where
  "demo_web =
     \<lparr>web_http = demo_http, web_header = (\<lambda>k hs. map_of (rev hs) (lit k)), web_argument = (\<lambda>k ps. None),
      web_capture = (\<lambda>s. case utf8_decode (pct_decode s) of None \<Rightarrow> [] | Some t \<Rightarrow> t),
      web_wire = dumps default_dump, web_float = (\<lambda>s. s), web_authorized = (\<lambda>hs. True),
      web_error_text = (\<lambda>e. lit ''error''), web_diagnostics = (\<lambda>s. JDict []), web_new_id = (\<lambda>s. lit ''j9''),
      web_other = (\<lambda>q s. (\<lparr>rs_status = 500, rs_text = []\<rparr>, s))\<rparr>"

definition demo_client :: "demo_world server client_env" where
  "demo_client =
     \<lparr>send_http = (\<lambda>q s. (Inl (OtherError (lit ''ConnectError'') []), s)), monotonic = (\<lambda>s. (0, s)),
      wall_clock = (\<lambda>s. ([], s)), pause = (\<lambda>s. s), time_ns = (\<lambda>s. (0, s)), text_ops = plain_env, float_text = (\<lambda>s. s)\<rparr>"

definition demo_config :: config where
  "demo_config = \<lparr>cfg_server = lit ''http://127.0.0.1:8888'', cfg_token = Some (lit ''t''), cfg_actor_id = lit ''me'',
     cfg_actor_type = lit ''agent'', cfg_timeout = 5\<rparr>"

lemma demo_faithful: "faithful_wire demo_web demo_config"
proof -
  have "dumps default_dump j \<noteq> []" if "clean j" for j
    using dumped_head [OF _ that, of default_dump] by (auto simp: spaced_def default_dump_def lit_def)
  then show ?thesis
    by (auto simp: faithful_wire_def demo_web_def loads_default hypernote_headers_def demo_config_def)
qed

lemma demo_library_failures: "library_failures (notebook_services (http_server (web_http demo_web)))"
  by (simp add: library_failures_def raises_failures_def demo_web_def demo_http_def demo_env_def demo_nb_env_def)

lemma nb_a_name: "names_notebook nb_a" and demo_cell_name: "names_cell (lit ''b'')"
  by (simp_all add: names_notebook_def names_cell_def lit_scalar nb_a_def) (simp add: lit_def escape_at_def)

section \<open>Properties\<close>

text \<open>
  C9: the SDK's edits are the server's.  Over a faithful transport, each operation of the SDK that
  changes a cell is one request, and the handler it reaches runs with exactly the notebook, the cell,
  the arguments and the actor the caller gave: for every notebook whose path holds no escape, every
  cell not named \<open>document\<close> or \<open>cells\<close>, and text without lone surrogates.
\<close>

theorem sdk_edits_are_served:
  assumes "faithful_wire we cfg" and "names_notebook path" and "names_cell cid"
    and "list_all scalar source" and "clean (opt_str before)" and "clean (opt_str after)"
    and "before = None \<or> after = None"
  shows "handle_replace (over_http we base) cfg path cid source
      = asked_once we cfg (CellPatch path cid [(lit ''source'', JStr source)])
    \<and> handle_move (over_http we base) cfg path cid before after = asked_once we cfg (CellMove path cid before after)
    \<and> handle_clear_outputs (over_http we base) cfg path cid = asked_once we cfg (CellClearOutputs path cid)
    \<and> handle_delete (over_http we base) cfg path cid = asked_once we cfg (CellDelete path cid)
    \<and> insert_new_cell (over_http we base) cfg path ty source (Some cid) before after
      = mbind (asked_once we cfg (CellsPost path (new_cell_body cid ty source before after) before after)) (\<lambda>_. mret cid)"
proof -
  have "cid \<noteq> []" "list_all scalar cid" using assms(3) by (simp_all add: names_cell_def)
  then show ?thesis
    using replace_served [OF assms(1-4)] move_served [OF assms(1-3,5-7)] clear_outputs_served [OF assms(1-3)]
      delete_served [OF assms(1-3)] insert_served [OF assms(1,2) _ _ assms(4-7)]
    by (intro conjI ext) simp_all
qed

lemma sdk_edits_are_served_witness:
  "handle_delete (over_http demo_web demo_client) demo_config nb_a (lit ''b'') demo_edited
     = asked_once demo_web demo_config (CellDelete nb_a (lit ''b'')) demo_edited"
proof -
  have "clean (opt_str None)" "list_all scalar (lit ''x'')" by (simp_all add: opt_str_def lit_scalar)
  with sdk_edits_are_served [OF demo_faithful nb_a_name demo_cell_name, of "lit ''x''" None None demo_client CODE]
  show ?thesis by simp
qed

text \<open>
  C5: an edit through the SDK is attributed exactly when it returns.  If \<open>cell.replace\<close>, \<open>cell.move\<close>
  or \<open>cell.clear_outputs\<close> returns, that cell of that notebook has the caller's actor as its last
  editor, and no other attribution and no job has changed; if it raises, the server's ledger is
  exactly what it was.  The libraries behind the server may fail in any way but with a success.
\<close>

theorem sdk_edits_are_attributed:
  assumes "faithful_wire we cfg" and "names_notebook path" and "names_cell cid" and "edit_sendable ed"
    and "library_failures (notebook_services (http_server (web_http we)))"
    and "sdk_edit (over_http we base) cfg path cid ed s = (r, s')"
  shows "case r of
      Inl e \<Rightarrow> server_ledger s' = server_ledger s
    | Inr _ \<Rightarrow> attributed path cid (get_actor (Some (cfg_actor_id cfg)) (Some (cfg_actor_type cfg)))
        (server_ledger s) (server_ledger s')"
proof (cases "\<exists>e. sdk_edit (over_http we base) cfg path cid ed s = (Inl e, s)")
  case False
  then have once: "asked_once we cfg (edit_request path cid ed) s = (r, s')"
    using edit_served [OF assms(1-4)] assms(6) by metis
  have path: "unquote (web_handlers we) path = path"
    using assms(2) by (simp add: names_notebook_def web_handlers_def decode_notebook_id_eq)
  obtain r1 s1 where sv: "serve (web_handlers we) (web_new_id we s) (Some (cfg_actor_id cfg), Some (cfg_actor_type cfg))
      (edit_request path cid ed) s = (r1, s1)" by fastforce
  have "library_failures (notebook_services (http_server (web_handlers we)))"
    using assms(5) by (simp add: web_handlers_def)
  note o = edit_request_outcome [OF this sv, unfolded path]
  have "s' = s1 \<and> ((\<exists>e. r = Inl e) \<longleftrightarrow> (\<exists>e. r1 = Inl e))"
    using asked_once_outcome [OF sv _ _ once] o by fastforce
  with o show ?thesis by (cases r; cases r1) auto
qed (use assms(6) in auto)

lemma sdk_edits_are_attributed_witness:
  "\<exists>a s'. handle_replace (over_http demo_web demo_client) demo_config nb_a (lit ''b'') (lit ''x'') demo_edited = (Inr (), s')
    \<and> get_cell_attribution nb_a (lit ''b'') (server_ledger s') = Some a \<and> last_editor_id a = Some (lit ''me'')
    \<and> last_editor_type a = Some (lit ''agent'')"
proof -
  let ?r = "sdk_edit (over_http demo_web demo_client) demo_config nb_a (lit ''b'') (Replace (lit ''x'')) demo_edited"
  have x: "list_all scalar (lit ''x'')" by (rule lit_scalar)
  have "fst ?r = Inr ()"
    unfolding sdk_edit.simps replace_served [OF demo_faithful nb_a_name demo_cell_name x]
    by (simp add: asked_once_def asked_def web_handlers_def demo_web_def demo_config_def web_answer_def
        raise_response_def is_success_def write_json_def
        serve_def cell_patch_def edited_def demo_edited_def demo_http_def demo_server_simps
        demo_nb_simps on_notebook_def catching_def replace_cell_source_def attribute_edit_def
        ledger_attribute_def decode_notebook_id_def nb_a_def)
  moreover have "edit_sendable (Replace (lit ''x''))" using x by simp
  ultimately show ?thesis
    using sdk_edits_are_attributed [OF demo_faithful nb_a_name demo_cell_name _ demo_library_failures prod.collapse [symmetric],
        of "Replace (lit ''x'')" demo_client demo_edited]
    by (cases ?r) (auto simp: attributed_def get_actor_def demo_config_def)
qed

section \<open>Running cells through the SDK\<close>

lemma all_texts_JStr [simp]: "all_texts (map JStr cs) = Some cs"
  by (induction cs) simp_all

lemma execute_served:
  assumes "faithful_wire we cfg" and "names_notebook path" and "cells \<noteq> []" and "\<forall>c \<in> set cells. list_all scalar c"
  shows "notebook_request (over_http we base) cfg ''POST'' path ''/execute''
      (Some (JDict [(lit ''cell_ids'', JList (map JStr cells))])) None s
    = asked we cfg (Execute path cells None) s"
  by (rule notebook_served [OF assms(1,2), where cls = ExecuteHandler])
    (use assms(3,4) in \<open>auto simp: dispatch_one body_of_def with_object_def execute_request_def get_or_def Let_def
      optional_text_def lit_scalar [unfolded list_all_iff] list_all_iff\<close>)

lemma job_status_scalar: "list_all scalar (job_status_value st)"
  by (cases st) (simp_all add: lit_scalar)

lemma sdk_job_status_value [simp]: "sdk_job_status pr (JStr (job_status_value st)) = Inr st"
  by (cases st) (simp_all add: sdk_job_status_def)

lemma asked_execute:
  assumes "queue_execution (http_server (web_http we)) (web_new_id we s) (decode_notebook_id path) cells (cfg_actor_id cfg)
      (snd (get_actor (Some (cfg_actor_id cfg)) (Some (cfg_actor_type cfg)))) None s = (r, s1)"
    and "cells \<noteq> []"
  shows "asked we cfg (Execute path cells None) s =
    (Inr (case r of
       Inl e \<Rightarrow> \<lparr>rs_status = http_status (Inl (runtime_error_to (web_handlers we) e)),
                 rs_text = web_error_text we (runtime_error_to (web_handlers we) e)\<rparr>
     | Inr j \<Rightarrow> write_json 202 (JDict [(lit ''job_id'', JStr (job_id j)), (lit ''status'', JStr (job_status_value (job_status j))),
         (lit ''notebook_id'', JStr (decode_notebook_id path)), (lit ''request_uids'', JList (map JStr (job_request_uids j)))])), s1)"
  using assms by (cases r)
    (simp_all add: asked_def serve_def execute_post_def web_handlers_def get_actor_def catching_def web_answer_def mbind_def
      mret_def Let_def)

lemma runtime_error_refused:
  "\<exists>e'. raise_response \<lparr>rs_status = http_status (Inl (runtime_error_to henv e)), rs_text = x\<rparr> = Inl e'"
  by (rule raise_response_error) (cases e, simp_all add: runtime_error_to_def http_status_def)

text \<open>What the SDK makes of the server's answer to a run.\<close>

lemma run_after_queue:
  assumes "faithful_wire we cfg" and "names_notebook path" and "cells \<noteq> []" and "\<forall>c \<in> set cells. list_all scalar c"
    and "list_all scalar (web_new_id we s)"
    and "queue_execution (http_server (web_http we)) (web_new_id we s) path cells (cfg_actor_id cfg)
      (snd (get_actor (Some (cfg_actor_id cfg)) (Some (cfg_actor_type cfg)))) None s = (x, s1)"
  shows "x = Inl e \<Longrightarrow> \<exists>e'. run_cells (over_http we base) cfg path (map JStr cells) s = (Inl e', s1)"
    and "x = Inr j \<Longrightarrow> run_cells (over_http we base) cfg path (map JStr cells) s
      = (Inr \<lparr>jb_config = cfg, jb_id = web_new_id we s, jb_status = QUEUED, jb_cell_ids = map JStr cells, jb_path = path\<rparr>, s1)"
proof -
  have path: "decode_notebook_id path = path" using assms(2) by (simp add: names_notebook_def decode_notebook_id_eq)
  have "queue_execution (http_server (web_http we)) (web_new_id we s) (decode_notebook_id path) cells (cfg_actor_id cfg)
      (snd (get_actor (Some (cfg_actor_id cfg)) (Some (cfg_actor_type cfg)))) None s = (x, s1)"
    by (simp only: path assms(6))
  note asked = asked_execute [OF this assms(3), unfolded path]
  show "\<exists>e'. run_cells (over_http we base) cfg path (map JStr cells) s = (Inl e', s1)" if x: "x = Inl e"
    using assms(3) runtime_error_refused [of "web_handlers we" e "web_error_text we (runtime_error_to (web_handlers we) e)"]
    by (auto simp: run_cells_def mbind_def execute_served [OF assms(1-4)] asked x checked_json_def of_result_def)
  show "run_cells (over_http we base) cfg path (map JStr cells) s
      = (Inr \<lparr>jb_config = cfg, jb_id = web_new_id we s, jb_status = QUEUED, jb_cell_ids = map JStr cells, jb_path = path\<rparr>, s1)"
    if x: "x = Inr j"
  proof -
    have j: "job_id j = web_new_id we s" "job_status j = QUEUED" "job_request_uids j = []"
      using queue_execution_shape [OF assms(6)] x by (auto simp: new_job_def)
    have "clean (JDict [(lit ''job_id'', JStr (web_new_id we s)), (lit ''status'', JStr (job_status_value QUEUED)),
        (lit ''notebook_id'', JStr path), (lit ''request_uids'', JList [])])"
      using assms(2,5) job_status_scalar [of QUEUED] by (simp add: lit_scalar names_notebook_def)
    note back_again = loads_default [OF this]
    show ?thesis using assms(3) back_again
      by (auto simp: run_cells_def mbind_def execute_served [OF assms(1-4)] asked x j checked_json_def of_result_def
          write_json_def raise_response_def is_success_def response_json_def subscript_def item_of_def
          str_value_def simp del: job_status_value.simps)
  qed
qed

text \<open>
  C4: running through the SDK queues exactly one job.  If \<open>notebook.run\<close> returns, its handle names the
  new job of the server's ledger, which is queued for this notebook, these cells and the caller's
  actor, and its task waits to enter the room; asked for again, the job's cells read back as those
  given.  If it raises, no job, no task and no lock of the server has changed.
\<close>

theorem sdk_run_queues_the_job:
  assumes "faithful_wire we cfg" and "names_notebook path" and "cells \<noteq> []" and "\<forall>c \<in> set cells. list_all scalar c"
    and "server_ok s" and "fresh_job (web_new_id we s) s" and "list_all scalar (web_new_id we s)"
    and "run_cells (over_http we base) cfg path (map JStr cells) s = (r, s')"
  shows "case r of
      Inl e \<Rightarrow> server_ledger s' = server_ledger s \<and> tasks s' = tasks s \<and> job_locks s' = job_locks s
    | Inr h \<Rightarrow> jb_id h = web_new_id we s \<and> jb_status h = QUEUED \<and> jb_path h = path \<and> jb_cell_ids h = map JStr cells
        \<and> (\<exists>j x. get_job (jb_id h) (server_ledger s') = Some j \<and> job_notebook_id j = path \<and> job_status j = QUEUED
             \<and> (job_actor_id j, job_actor_type j) = get_actor (Some (cfg_actor_id cfg)) (Some (cfg_actor_type cfg))
             \<and> job_target_cells j = Some x \<and> loaded_list (over_http we base) (JStr x) = Inr (jb_cell_ids h))
        \<and> (\<exists>t. tasks s' (jb_id h) = Some t \<and> task_notebook t = path \<and> task_cells t = cells \<and> task_pc t = EnterRoom)"
proof -
  let ?new = "web_new_id we s" let ?who = "get_actor (Some (cfg_actor_id cfg)) (Some (cfg_actor_type cfg))"
  have ids: "clean (JList (map JStr cells))" using assms(4) by (simp add: list_all_iff)
  obtain x s1 where q: "queue_execution (http_server (web_http we)) ?new path cells (cfg_actor_id cfg) (snd ?who) None s = (x, s1)"
    by fastforce
  note run = run_after_queue [OF assms(1-4,7) q, of _ base]
  from queue_execution_shape [OF q] show ?thesis
  proof (elim disjE exE conjE)
    fix e assume x: "x = Inl e" and c: "core s1 = core s"
    then obtain e' where "r = Inl e' \<and> s' = s1" using run(1) [OF x] assms(8) by auto
    with core_eqD [OF c] show ?thesis by simp
  next
    fix now rt
    let ?tg = "Some (dumps default_dump (JList (map JStr cells)))"
    let ?t = "\<lparr>task_notebook = path, task_actor = cfg_actor_id cfg, task_actor_type = snd ?who, task_cells = cells,
      task_pc = EnterRoom\<rparr>"
    assume x: "x = Inr (new_job ?new now path (cfg_actor_id cfg) (snd ?who) EXECUTE ?tg (Some rt))"
      and c: "core s1 = ((tasks s)(?new := Some ?t), job_locks s,
        snd (create_job ?new now path (cfg_actor_id cfg) (snd ?who) EXECUTE ?tg (Some rt) (server_ledger s)))"
    have h: "r = Inr \<lparr>jb_config = cfg, jb_id = ?new, jb_status = QUEUED, jb_cell_ids = map JStr cells, jb_path = path\<rparr>"
      and s': "s' = s1" using run(2) [OF x] assms(8) by simp_all
    have "get_job ?new (server_ledger s1) = Some (new_job ?new now path (cfg_actor_id cfg) (snd ?who) EXECUTE ?tg (Some rt))"
      using c memory_ledger.create_lookup assms(5,6) by (simp add: core_def server_ok_def jobs_ok_def fresh_job_def)
    moreover have "tasks s1 ?new = Some ?t" using c by (simp add: core_def)
    moreover have "loaded_list (over_http we base) (JStr (dumps default_dump (JList (map JStr cells)))) = Inr (map JStr cells)"
      by (simp add: loaded_list_def str_value_def loads_default [OF ids] py_list_def)
    ultimately show ?thesis using h s' by (simp add: new_job_def get_actor_def)
  qed
qed

lemma sdk_run_queues_the_job_witness:
  "\<exists>h s' j. run_cells (over_http demo_web demo_client) demo_config nb_a [JStr (lit ''b'')] demo_edited = (Inr h, s')
    \<and> get_job (jb_id h) (server_ledger s') = Some j \<and> job_status j = QUEUED \<and> job_actor_type j = AGENT"
proof -
  let ?r = "run_cells (over_http demo_web demo_client) demo_config nb_a (map JStr [lit ''b'']) demo_edited"
  have c: "[lit ''b''] \<noteq> []" "\<forall>c \<in> set [lit ''b'']. list_all scalar c" by (simp_all add: lit_scalar)
  have same: "tasks demo_edited = tasks demo_start" "server_ledger demo_edited = server_ledger demo_start"
    "job_locks demo_edited = job_locks demo_start"
    by (simp_all add: demo_edited_def server_ledger_def)
  have ok: "server_ok demo_edited"
    using reachable_ok [OF demo_start_reachable] same by (simp add: server_ok_def)
  have new: "web_new_id demo_web demo_edited = lit ''j9''" by (simp add: demo_web_def)
  have fresh: "fresh_job (web_new_id demo_web demo_edited) demo_edited"
    using demo_fresh(2) [of "''j9''"] same by (simp add: fresh_job_def new)
  have "\<exists>j. fst (queue_execution (http_server (web_http demo_web)) (web_new_id demo_web demo_edited) nb_a [lit ''b'']
      (cfg_actor_id demo_config) (snd (get_actor (Some (cfg_actor_id demo_config)) (Some (cfg_actor_type demo_config)))) None
      demo_edited) = Inr j"
    by (simp add: demo_web_def demo_http_def demo_config_def demo_edited_def demo_server_simps on_notebook_def
        get_kernelspec_name_def kernelspec_name_def demo_nb_simps)
  then obtain j where j: "fst (queue_execution (http_server (web_http demo_web)) (web_new_id demo_web demo_edited) nb_a [lit ''b'']
      (cfg_actor_id demo_config) (snd (get_actor (Some (cfg_actor_id demo_config)) (Some (cfg_actor_type demo_config)))) None
      demo_edited) = Inr j" by blast
  have id: "list_all scalar (web_new_id demo_web demo_edited)" by (simp add: new lit_scalar)
  have "\<exists>h. fst ?r = Inr h"
    using run_after_queue(2) [OF demo_faithful nb_a_name c id prod.collapse [symmetric] j, of demo_client] by simp
  then obtain h where "fst ?r = Inr h" by blast
  then show ?thesis
    using sdk_run_queues_the_job [OF demo_faithful nb_a_name c ok fresh _ prod.collapse [symmetric], of demo_client]
    by (cases ?r) (auto simp: new lit_scalar get_actor_def demo_config_def)
qed

end
