(* ===== verification/Hn_EndToEnd.thy ===== *)
theory Hn_EndToEnd
  imports Hn_Web
begin

text \<open>
  What a user of the SDK sees end to end: through the transport, the route table, the handlers, the
  shared document and back.  A cell read through the SDK is the cell of the document, and what was
  written to a cell is what is read from it.
\<close>

section \<open>Writing and reading a cell of an open document\<close>

text \<open>
  Documented behaviour of \<^verbatim>\<open>jupyter_ydoc\<close>: the source of a cell survives the conversion to a Y cell and
  back.
\<close>

definition text_laws :: "'w notebook_env \<Rightarrow> bool" where
  "text_laws env \<longleftrightarrow>
     (\<forall>c w yc w' v. create_ycell env c w = (Inr yc, w') \<and> field ''source'' c = Some (JStr v) \<longrightarrow>
        field ''source'' yc = Some (JStr v))
     \<and> (\<forall>yc v. field ''source'' yc = Some (JStr v) \<longrightarrow> field ''source'' (read_ycell env yc) = Some (JStr v))"

definition contents_answer :: "'w notebook_env \<Rightarrow> pystr \<Rightarrow> bool" where
  "contents_answer env nb \<longleftrightarrow> (\<forall>w. \<exists>m w'. contents_get env nb w = (Inr m, w'))"

lemma find_cell_nth:
  "i < length cs \<Longrightarrow> field ''id'' (cs ! i) = Some (JStr cid) \<Longrightarrow> (\<forall>j < i. field ''id'' (cs ! j) \<noteq> Some (JStr cid)) \<Longrightarrow>
     find_cell (map JDict cs) (JStr cid) = Inr (Some (cs ! i))"
proof (induction cs arbitrary: i)
  case (Cons c cs)
  show ?case
  proof (cases i)
    case 0
    with Cons.prems show ?thesis by simp
  next
    case (Suc n)
    then have "field ''id'' c \<noteq> Some (JStr cid)" "\<forall>j < n. field ''id'' (cs ! j) \<noteq> Some (JStr cid)"
      using Cons.prems(3) by fastforce+
    with Cons.IH [of n] Cons.prems Suc show ?thesis by simp
  qed
qed simp

definition cell_is_at :: "jobj list \<Rightarrow> pystr \<Rightarrow> nat \<Rightarrow> bool" where
  "cell_is_at cs cid i \<longleftrightarrow> i < length cs \<and> field ''id'' (cs ! i) = Some (JStr cid)
     \<and> (\<forall>j < i. field ''id'' (cs ! j) \<noteq> Some (JStr cid))"

lemma get_cell_at:
  assumes laws: "ydoc_laws env room" and o: "opened room nb d s" and c: "contents_answer env nb"
    and i: "cell_is_at (ycells d) cid i"
  shows "\<exists>s'. get_cell env nb (JStr cid) s = (Inr (read_ycell env (ycells d ! i)), s') \<and> doc_rooms s' = doc_rooms s"
proof -
  obtain m w where g: "contents_get env nb (nb_world s) = (Inr m, w)" using c unfolding contents_answer_def by blast
  have "opened room nb d (s\<lparr>nb_world := w\<rparr>)" using o by simp
  then obtain s1 where r: "get_document_room env nb (s\<lparr>nb_world := w\<rparr>) = (Inr (room nb), s1)" "doc_rooms s1 = doc_rooms s"
    using get_document_room_again [OF laws] by fastforce
  have "doc_of s1 (room nb) = d" using r(2) o by (intro opened_doc_of) (simp add: opened_def)
  then have m: "model_cells env nb s = (Inr (map JDict (map (read_ycell env) (ycells d))), s1)"
    by (simp add: model_cells_def get_notebook_model_def mbind_def on_world_def g r read_doc_def mret_def of_result_def
        item_of_def py_get_def get_or_def py_list_def ydoc_lawsD(6) [OF laws] comp_def)
  have "find_cell (map JDict (map (read_ycell env) (ycells d))) (JStr cid) = Inr (Some (read_ycell env (ycells d ! i)))"
    using find_cell_nth [of i "map (read_ycell env) (ycells d)" cid] i
    by (simp add: cell_is_at_def ydoc_lawsD(5) [OF laws])
  with m r(2) show ?thesis by (simp add: get_cell_def mbind_def of_result_def)
qed

lemma replaced_cell:
  assumes laws: "ydoc_laws env room" and tl: "text_laws env" and o: "opened room nb d s"
    and rp: "replace_cell_source env nb cid (JStr source) s = (Inr c, s')"
  obtains i d' where "opened room nb d' s'" "cell_is_at (ycells d') cid i" "cell_is_at (ycells d) cid i"
    and "field ''source'' (ycells d' ! i) = Some (JStr source)" and "length (ycells d') = length (ycells d)"
    and "\<And>k j. k \<noteq> ''metadata'' \<Longrightarrow> j < length (ycells d) \<Longrightarrow> j \<noteq> i \<Longrightarrow> field k (ycells d' ! j) = field k (ycells d ! j)"
proof -
  obtain s1 where g: "get_document_room env nb s = (Inr (room nb), s1)" "doc_rooms s1 = doc_rooms s"
    using get_document_room_again [OF laws o] by blast
  have o1: "opened room nb d s1" using o opened_cong [OF g(2)] by blast
  obtain i yc w s2 s3 s4 u where i: "find_ycell_index (ycells d) cid = Inr i"
    and yc: "create_ycell env (set_field ''source'' (JStr source) (read_ycell env (ycells d ! i))) (nb_world s1) = (Inr yc, w)"
    and up: "update_ycells (room nb) (\<lambda>cs. cs[i := yc]) (s1\<lparr>nb_world := w\<rparr>) = (Inr (), s2)"
    and rk: "assign_position_keys_ycells (room nb) s2 = (Inr u, s3)"
    and sv: "save_room env (room nb) s3 = (Inr (), s4)" and gc: "get_cell env nb (JStr cid) s4 = (Inr c, s')"
    using rp by (auto simp: replace_cell_source_def rewrite_cell_def set_cell_def mbind_eq_Inr g(1) on_world_eq opened_doc_of [OF o1])
  note idx = find_ycell_index_Inr [OF i]
  have y: "field ''id'' yc = Some (JStr cid)" "field ''source'' yc = Some (JStr source)"
  proof -
    have "field ''id'' (set_field ''source'' (JStr source) (read_ycell env (ycells d ! i))) = Some (JStr cid)"
      using idx by (simp add: ydoc_lawsD(5) [OF laws])
    then show "field ''id'' yc = Some (JStr cid)" by (rule ydoc_lawsD(4) [OF laws yc])
    have "field ''source'' (set_field ''source'' (JStr source) (read_ycell env (ycells d ! i))) = Some (JStr source)" by simp
    then show "field ''source'' yc = Some (JStr source)" using tl yc unfolding text_laws_def by blast
  qed
  have "opened room nb (d\<lparr>ycells := (ycells d)[i := yc]\<rparr>) s2"
    using update_ycells_opened [of room nb d, OF _ up] o1 by simp
  then obtain d' where o3: "opened room nb d' s3" and len: "length (ycells d') = length (ycells d)"
    and fields: "\<And>k. k \<noteq> ''metadata'' \<Longrightarrow> map (field k) (ycells d') = (map (field k) (ycells d))[i := field k yc]"
    using rk by (rule rekeyed) (auto simp: map_update)
  have o': "opened room nb d' s'"
    using o3 save_room_rooms [OF sv] get_cell_opened(1) [OF laws _ gc, of d'] opened_cong by blast
  have at: "field k (ycells d' ! j) = (if j = i then field k yc else field k (ycells d ! j))"
    if "k \<noteq> ''metadata''" "j < length (ycells d)" for k j
    using arg_cong [OF fields [OF that(1)], of "\<lambda>xs. xs ! j"] that(2) len by (simp add: nth_list_update)
  show thesis
  proof (rule that [OF o'])
    show "cell_is_at (ycells d') cid i" using idx y(1) len at [of "''id''"] by (auto simp: cell_is_at_def)
    show "cell_is_at (ycells d) cid i" using idx by (simp add: cell_is_at_def)
    show "field ''source'' (ycells d' ! i) = Some (JStr source)" using at [of "''source''" i] idx y(2) by simp
  qed (use len at in auto)
qed

section \<open>The server's documents\<close>

definition server_notebooks :: "'x server \<Rightarrow> 'x notebooks" where
  "server_notebooks s = \<lparr>nb_world = ext (world (manager s)), doc_rooms = docs s, server_started = docs_started s\<rparr>"

lemma on_notebook_result:
  "on_notebook f s = (r, s') \<Longrightarrow> \<exists>n. f (server_notebooks s) = (r, n) \<and> docs s' = doc_rooms n"
  by (auto simp: on_notebook_def server_notebooks_def on_ext_def on_manager_def split: prod.splits)

lemma attribute_edit_docs: "attribute_edit henv nb c actor s = (r, s') \<Longrightarrow> docs s' = docs s"
  by (auto simp: attribute_edit_def ledger_attribute_def on_ext_def on_manager_def set_ledger_def split: prod.splits)

lemma opened_server: "opened room nb d (server_notebooks s) \<longleftrightarrow> docs s (room nb) = Some (DocumentRoom d) \<and> doc_ready d"
  by (simp add: opened_def server_notebooks_def)

lemma opened_docs: "docs s' = doc_rooms n \<Longrightarrow> opened room nb d (server_notebooks s') \<longleftrightarrow> opened room nb d n"
  by (simp add: opened_def server_notebooks_def)

section \<open>Reading through the SDK\<close>

lemma cell_get_served:
  assumes "faithful_wire we cfg" and "names_notebook path" and "names_cell cid"
  shows "cell_request (over_http we base) cfg ''GET'' path cid [] None s = asked we cfg (CellGet path cid) s"
  by (rule cell_served [OF assms, where cls = NotebookCellHandler]) (simp_all add: dispatch_cell)

lemma clean_cell_answer: "clean (JDict c) \<Longrightarrow> clean (JDict [(lit ''cell'', JDict c)])"
  by (simp add: lit_scalar)

lemma cell_model_read:
  assumes w: "faithful_wire we cfg" "names_notebook path" "names_cell cid"
    and g: "get_cell (notebook_services (http_server (web_http we))) path (JStr cid) (server_notebooks s) = (Inr c, n)"
    and c: "clean (JDict c)"
  shows "\<exists>s'. cell_model (over_http we base) cfg path cid s = (Inr c, s') \<and> docs s' = doc_rooms n"
proof -
  have path: "decode_notebook_id path = path" using w(2) by (simp add: names_notebook_def decode_notebook_id_eq)
  obtain r s1 where on: "on_notebook (get_cell (notebook_services (http_server (web_http we))) path (JStr cid)) s = (r, s1)"
    by fastforce
  with g on_notebook_result [OF on] have r: "r = Inr c" "docs s1 = doc_rooms n" by auto
  have "asked we cfg (CellGet path cid) s = (Inr (write_json 200 (JDict [(lit ''cell'', JDict c)])), s1)"
    using on r(1)
    by (simp add: asked_def serve_def cell_get_def web_handlers_def path mbind_def catching_def mret_def web_answer_def)
  then have "cell_model (over_http we base) cfg path cid s = (Inr c, s1)"
    using loads_default [OF clean_cell_answer [OF c]]
    by (simp add: cell_model_def mbind_def cell_get_served [OF w] write_json_def checked_json_def raise_response_def
        is_success_def response_json_def subscript_def item_of_def of_result_def del: clean.simps)
  with r(2) show ?thesis by blast
qed

lemma source_read:
  assumes "faithful_wire we cfg" "names_notebook path" "names_cell cid"
    and "get_cell (notebook_services (http_server (web_http we))) path (JStr cid) (server_notebooks s) = (Inr c, n)"
    and "clean (JDict c)" and "field ''source'' c = Some (JStr source)"
  shows "\<exists>s'. handle_source (over_http we base) cfg path cid s = (Inr source, s') \<and> docs s' = doc_rooms n"
  using cell_model_read [OF assms(1-5), of base] assms(6)
  by (auto simp: handle_source_def mbind_def of_result_def cell_source_def get_or_def py_str_def)

section \<open>Writing through the SDK\<close>

lemma replace_returned:
  assumes w: "faithful_wire we cfg" "names_notebook path" "names_cell cid" "list_all scalar source"
    and lib: "library_failures (notebook_services (http_server (web_http we)))"
    and h: "handle_replace (over_http we base) cfg path cid source s = (Inr (), s1)"
  shows "\<exists>c n. replace_cell_source (notebook_services (http_server (web_http we))) path cid (JStr source) (server_notebooks s)
    = (Inr c, n) \<and> docs s1 = doc_rooms n"
proof -
  let ?env = "notebook_services (http_server (web_http we))"
  have path: "decode_notebook_id path = path" using w(2) by (simp add: names_notebook_def decode_notebook_id_eq)
  let ?req = "edit_request path cid (Replace source)"
  obtain r s2 where sv: "serve (web_handlers we) (web_new_id we s) (Some (cfg_actor_id cfg), Some (cfg_actor_type cfg)) ?req s = (r, s2)"
    by fastforce
  have "library_failures (notebook_services (http_server (web_handlers we)))" using lib by (simp add: web_handlers_def)
  note o = edit_request_outcome [OF this sv]
  have once: "asked_once we cfg ?req s = (Inr (), s1)" using h replace_served [OF w] by simp
  have r: "s1 = s2" "\<exists>x. r = Inr x"
    using asked_once_outcome [OF sv _ _ once] o by (cases r; fastforce)+
  obtain x s3 where on: "on_notebook (replace_cell_source ?env path cid (JStr source)) s = (x, s3)" by fastforce
  obtain c where x: "x = Inr c"
    using sv r(2) on
    by (cases x) (auto simp: serve_def cell_patch_def edited_def web_handlers_def path mbind_def catching_def)
  have "docs s2 = docs s3"
    using sv on x attribute_edit_docs
    by (auto simp: serve_def cell_patch_def edited_def web_handlers_def path mbind_def catching_def mret_def Let_def
        split: prod.splits sum.splits dest!: attribute_edit_docs)
  with on_notebook_result [OF on] x r(1) show ?thesis by auto
qed

section \<open>Properties\<close>

text \<open>
  C6: what the SDK wrote is what it reads.  If \<open>cell.replace(source)\<close> returns on a notebook with an
  open document, then reading \<open>cell.source\<close> afterwards returns exactly that source; the document has as
  many cells as before, the cell keeps its place, and nothing of the other cells has changed but
  their metadata (their position keys).  The cells must hold no floats, and the contents manager must
  answer for the notebook.
\<close>

theorem sdk_reads_what_it_wrote:
  assumes "faithful_wire we cfg" and "names_notebook path" and "names_cell cid" and "list_all scalar source"
    and "library_failures (notebook_services (http_server (web_http we)))"
    and "ydoc_laws (notebook_services (http_server (web_http we))) room"
    and "text_laws (notebook_services (http_server (web_http we)))"
    and "contents_answer (notebook_services (http_server (web_http we))) path"
    and "opened room path d (server_notebooks s)"
    and "handle_replace (over_http we base) cfg path cid source s = (Inr (), s1)"
    and "\<And>d' c. opened room path d' (server_notebooks s1) \<Longrightarrow> c \<in> set (ycells d') \<Longrightarrow>
      clean (JDict (read_ycell (notebook_services (http_server (web_http we))) c))"
  shows "\<exists>i d' s2. handle_source (over_http we base) cfg path cid s1 = (Inr source, s2)
    \<and> opened room path d' (server_notebooks s1) \<and> opened room path d' (server_notebooks s2)
    \<and> cell_is_at (ycells d) cid i \<and> cell_is_at (ycells d') cid i \<and> length (ycells d') = length (ycells d)
    \<and> (\<forall>k j. k \<noteq> ''metadata'' \<and> j < length (ycells d) \<and> j \<noteq> i \<longrightarrow> field k (ycells d' ! j) = field k (ycells d ! j))"
proof -
  let ?env = "notebook_services (http_server (web_http we))"
  obtain c n where rp: "replace_cell_source ?env path cid (JStr source) (server_notebooks s) = (Inr c, n)"
    and n: "docs s1 = doc_rooms n"
    using replace_returned [OF assms(1-5,10)] by blast
  obtain i d' where d': "opened room path d' n" "cell_is_at (ycells d') cid i" "cell_is_at (ycells d) cid i"
    "field ''source'' (ycells d' ! i) = Some (JStr source)" "length (ycells d') = length (ycells d)"
    and frame: "\<And>k j. k \<noteq> ''metadata'' \<Longrightarrow> j < length (ycells d) \<Longrightarrow> j \<noteq> i \<Longrightarrow> field k (ycells d' ! j) = field k (ycells d ! j)"
    using replaced_cell [OF assms(6,7,9) rp] by metis
  have o1: "opened room path d' (server_notebooks s1)" using d'(1) opened_docs [OF n] by simp
  obtain n2 where g: "get_cell ?env path (JStr cid) (server_notebooks s1) = (Inr (read_ycell ?env (ycells d' ! i)), n2)"
    and n2: "doc_rooms n2 = doc_rooms (server_notebooks s1)"
    using get_cell_at [OF assms(6) o1 assms(8) d'(2)] by blast
  have cl: "clean (JDict (read_ycell ?env (ycells d' ! i)))"
    using assms(11) [OF o1] d'(2) by (simp add: cell_is_at_def)
  have src: "field ''source'' (read_ycell ?env (ycells d' ! i)) = Some (JStr source)"
    using assms(7) d'(4) unfolding text_laws_def by blast
  obtain s2 where "handle_source (over_http we base) cfg path cid s1 = (Inr source, s2)" "docs s2 = doc_rooms n2"
    using source_read [OF assms(1-3) g cl src] by blast
  moreover have "opened room path d' n2" using o1 opened_cong [OF n2] by blast
  then have "opened room path d' (server_notebooks s2)" using opened_docs [OF calculation(2)] by simp
  ultimately show ?thesis using d'(2,3,5) frame o1 by blast
qed

lemma demo_text_laws: "text_laws (notebook_services (http_server (web_http demo_web)))"
    "contents_answer (notebook_services (http_server (web_http demo_web))) nb"
    "ydoc_laws (notebook_services (http_server (web_http demo_web))) (\<lambda>nb. nb)"
  using demo_nb_laws
  by (simp_all add: text_laws_def contents_answer_def demo_web_def demo_http_def demo_env_def demo_nb_env_def)

lemma key_scalar: "list_all scalar (pad_left 9 (dec_digits k))"
  using digit_string_dec [of k] by (auto simp: digit_string_def pad_left_def list_all_iff scalar_def surrogate_def dest!: bspec)

lemma sdk_reads_what_it_wrote_witness:
  "\<exists>s1 s2. handle_replace (over_http demo_web demo_client) demo_config nb_a (lit ''b'') (lit ''x'') demo_edited = (Inr (), s1)
    \<and> handle_source (over_http demo_web demo_client) demo_config nb_a (lit ''b'') s1 = (Inr (lit ''x''), s2)"
proof -
  let ?env = "notebook_services (http_server (web_http demo_web))"
  have x: "list_all scalar (lit ''x'')" by (rule lit_scalar)
  let ?r = "handle_replace (over_http demo_web demo_client) demo_config nb_a (lit ''b'') (lit ''x'') demo_edited"
  let ?d = "\<lparr>ycells = [demo_cell ''a'', demo_cell ''b''], ymeta = [], doc_ready = True\<rparr>"
  have "fst ?r = Inr ()"
    unfolding replace_served [OF demo_faithful nb_a_name demo_cell_name x]
    by (simp add: asked_once_def asked_def web_handlers_def demo_web_def demo_config_def web_answer_def
        raise_response_def is_success_def write_json_def
        serve_def cell_patch_def edited_def demo_edited_def demo_http_def demo_server_simps
        demo_nb_simps on_notebook_def catching_def replace_cell_source_def attribute_edit_def
        ledger_attribute_def decode_notebook_id_def nb_a_def)
  then have r: "?r = (Inr (), snd ?r)" by (simp add: prod_eq_iff)
  have o: "opened (\<lambda>nb. nb) nb_a ?d (server_notebooks demo_edited)"
    by (simp add: opened_server demo_edited_def)
  obtain c n where rp: "replace_cell_source ?env nb_a (lit ''b'') (JStr (lit ''x'')) (server_notebooks demo_edited) = (Inr c, n)"
    and n: "docs (snd ?r) = doc_rooms n"
    using replace_returned [OF demo_faithful nb_a_name demo_cell_name x demo_library_failures r] by blast
  have "\<forall>y \<in> set (ycells d'). clean (JDict (read_ycell ?env y))" if "opened (\<lambda>nb. nb) nb_a d' (server_notebooks (snd ?r))" for d'
  proof -
    have "doc_rooms n nb_a = Some (DocumentRoom d')" using that n by (simp add: opened_server)
    with rp show ?thesis
      by (auto simp: replace_cell_source_def demo_nb_simps demo_web_def demo_http_def demo_env_def server_notebooks_def
          demo_edited_def lit_scalar key_scalar)
  qed
  with sdk_reads_what_it_wrote [OF demo_faithful nb_a_name demo_cell_name x demo_library_failures demo_text_laws(3,1,2) o r]
  show ?thesis using r by blast
qed

end
