(* ===== verification/Hn_Schema.thy ===== *)
theory Hn_Schema
  imports Hn_Api
begin

text \<open>
  The types of the REST interface: which status and which fields the answer to each request has
  (\<^verbatim>\<open>server/handlers.py\<close>).  These are what \<^verbatim>\<open>sdk.py\<close> and \<^verbatim>\<open>cli/main.py\<close> subscript without a default.
\<close>

section \<open>The types of the answers\<close>

definition job_fields :: "string list" where
  "job_fields = [''job_id'', ''notebook_id'', ''actor_id'', ''actor_type'', ''action'', ''status'', ''target_cells'',
     ''request_uids'', ''created_at'', ''started_at'', ''completed_at'', ''runtime_id'']"

definition runtime_fields :: "string list" where
  "runtime_fields = [''state'', ''room_id'', ''session_id'', ''kernel_id'', ''kernel_name'', ''attached_clients'',
     ''active_jobs'', ''last_activity'', ''recoverable'', ''jobs'']"

definition attribution_fields :: "string list" where
  "attribution_fields =
     [''last_editor_id'', ''last_editor_type'', ''last_executor_id'', ''last_executor_type'', ''updated_at'']"

text \<open>
  The status of a success and the fields its object may have; \<open>None\<close> for the answers that are another
  program's document: the contents manager's notebooks and Jupyter's kernel models.
\<close>

fun response_type :: "request \<Rightarrow> (nat \<times> string list list) option" where
  "response_type (Execute _ _ _) = Some (202, [[''job_id'', ''status'', ''notebook_id'', ''request_uids'']])"
| "response_type (DocumentGet _ _) = None"
| "response_type (DocumentPut _ _) = None"
| "response_type (CellsGet _) = Some (200, [[''cells'']])"
| "response_type (CellsPost _ _ _ _) = Some (201, [[''cell'']])"
| "response_type (CellMove _ _ _ _) = Some (200, [[''cell'']])"
| "response_type (CellClearOutputs _ _) = Some (200, [[''cell'']])"
| "response_type (CellGet _ _) = Some (200, [[''cell'']])"
| "response_type (CellPatch _ _ _) = Some (200, [[''cell'']])"
| "response_type (CellDelete _ _) = Some (200, [[''deleted'']])"
| "response_type (Interrupt _) = Some (200, [[''interrupted'']])"
| "response_type (JobsList _ _) = Some (200, [[''jobs'']])"
| "response_type (JobGet _) = Some (200, [job_fields])"
| "response_type (JobStdin _ _) = Some (200, [[''sent'']])"
| "response_type (RuntimeStatus _) = Some (200, [runtime_fields])"
| "response_type (RuntimeOpen _ _ _) =
     Some (200, [[''room_id'', ''state'', ''session_id'', ''kernel_id'', ''kernel_name'', ''attached_clients'']])"
| "response_type (RuntimeStop _) = Some (200, [[''room_id'', ''state'']])"
| "response_type (Attribution _ _) = Some (200, [[], attribution_fields])"
| "response_type (KernelInterrupt _) = None"
| "response_type (KernelRestart _) = None"

definition has_type :: "response \<Rightarrow> nat \<times> string list list \<Rightarrow> bool" where
  "has_type x ty \<longleftrightarrow>
     (\<exists>d. x = JsonResponse (fst ty) (JDict d) \<and> map fst d \<in> set (map (map lit) (snd ty)) \<and> distinct (map fst d))"

lemma has_type_intro:
  "map fst d = map lit ks \<Longrightarrow> ks \<in> set kss \<Longrightarrow> distinct ks \<Longrightarrow> has_type (JsonResponse n (JDict d)) (n, kss)"
proof -
  assume keys: "map fst d = map lit ks" and "ks \<in> set kss" and "distinct ks"
  moreover have "distinct (map fst d)" unfolding keys using \<open>distinct ks\<close> by (simp add: distinct_map inj_on_def)
  ultimately show "has_type (JsonResponse n (JDict d)) (n, kss)" by (auto simp: has_type_def)
qed

lemma typed_edit:
  "edited henv nb c actor code m s = (Inr x, s') \<Longrightarrow> has_type x (200, [[''cell'']])"
  by (auto simp: edited_def mbind_eq_Inr has_type_def)

lemma typed_job: "has_type (JsonResponse 200 (job_payload henv j)) (200, [job_fields])"
  unfolding job_payload_def by (rule has_type_intro [where ks = job_fields]) (simp_all add: job_fields_def)

lemma typed_status:
  "has_type (JsonResponse 200 (JDict (set_field ''jobs'' v (status_payload henv st)))) (200, [runtime_fields])"
  by (rule has_type_intro [where ks = runtime_fields]) (simp_all add: runtime_fields_def status_payload_def)

section \<open>Properties\<close>

text \<open>
  C35: the answers are typed.  Whatever its arguments, its actor and the server's state, a request that
  is answered is answered with the status of its type and an object that has exactly the fields of its
  type, each once.
\<close>

theorem answers_have_their_type:
  assumes "serve henv new headers req s = (Inr x, s')" and "response_type req = Some ty"
  shows "has_type x ty"
proof (cases req)
  case (Execute path cells k)
  then show ?thesis using assms
    by (auto simp: serve_def execute_post_def Let_def mbind_eq_Inr has_type_def split: if_splits)
next
  case (CellsPost path body b a)
  then show ?thesis using assms
    by (auto simp: serve_def cells_post_def Let_def mbind_eq_Inr has_type_def)
next
  case (CellPatch path c body)
  then show ?thesis using assms
    by (auto simp: serve_def cell_patch_def Let_def typed_edit split: option.splits)
next
  case (JobsList nb st)
  then show ?thesis using assms
    by (auto simp: serve_def jobs_get_def Let_def has_type_def split: option.splits if_splits)
next
  case (JobGet i)
  then show ?thesis using assms by (auto simp: serve_def job_get_def Let_def typed_job split: option.splits)
next
  case (RuntimeStatus path)
  then show ?thesis using assms
    by (auto simp: serve_def runtime_status_get_def Let_def mbind_eq_Inr typed_status)
next
  case (RuntimeOpen path c k)
  then show ?thesis using assms
    by (auto simp: serve_def runtime_open_post_def Let_def mbind_eq_Inr has_type_def)
next
  case (RuntimeStop path)
  then show ?thesis using assms
    by (auto simp: serve_def runtime_stop_post_def Let_def mbind_eq_Inr has_type_def split: option.splits)
next
  case (Attribution path c)
  then show ?thesis using assms
    by (auto simp: serve_def attribution_get_def Let_def attribution_fields_def split: option.splits
        simp: has_type_def)
next
  case (CellMove path c b a)
  then show ?thesis using assms by (auto simp: serve_def cell_move_post_def Let_def intro: typed_edit)
next
  case (CellClearOutputs path c)
  then show ?thesis using assms by (auto simp: serve_def clear_outputs_post_def Let_def intro: typed_edit)
qed (use assms in \<open>auto simp: serve_def cells_get_def cell_get_def
      cell_delete_def interrupt_post_def stdin_post_def Let_def mbind_eq_Inr has_type_def\<close>)

lemma answers_have_their_type_witness:
  "\<exists>x. fst (serve demo_http [] (None, None) (JobsList None None) demo_edited) = Inr x \<and> has_type x (200, [[''jobs'']])"
proof -
  obtain x where x: "fst (serve demo_http [] (None, None) (JobsList None None) demo_edited) = Inr x"
    by (simp add: serve_def jobs_get_def)
  then have "serve demo_http [] (None, None) (JobsList None None) demo_edited
      = (Inr x, snd (serve demo_http [] (None, None) (JobsList None None) demo_edited))" by (simp add: prod_eq_iff)
  with answers_have_their_type [OF this] x show ?thesis by auto
qed

end
