(* ===== verification/Hn_Rooms.thy ===== *)
theory Hn_Rooms
  imports Hn_Runtime
begin

text \<open>
  The runtime manager under concurrency.  Each of its operations is cut at its awaits, and the parts
  run in any order, with the outside world changing in between; \<open>set_runtime_state\<close> is called with any
  state on any room, as the orchestrator does after its own awaits.  The order of the parts is not
  restricted to what the calls in progress could produce, so every interleaving of the program's
  calls is among the runs.  A notebook may then have two live rooms; what is shown is how, and only how,
  a live room can come to be one that its notebook's lookup does not return.
\<close>

section \<open>The parts of the operations\<close>

text \<open>
  \<open>ensure_room\<close> once \<open>_load_or_refresh_room\<close> has returned a room, up to its await or its end; and the
  client of \<open>open_runtime\<close>, which is attached in the same breath.
\<close>

definition settle_room ::
  "'w services \<Rightarrow> pystr \<Rightarrow> pystr option \<Rightarrow> pystr option \<Rightarrow> pystr \<Rightarrow> 'w rtm \<Rightarrow> 'w rtm" where
  "settle_room env nb kname client r s =
     (if \<not> is_live (heap s r) then snd (open_begin env nb s)
      else case (kname, kernel_name (heap s r)) of
             (Some requested, Some active) \<Rightarrow>
               if active \<noteq> requested then s
               else (case client of None \<Rightarrow> touch_activity env r s | Some c \<Rightarrow> attach env r c (touch_activity env r s))
           | _ \<Rightarrow> (case client of None \<Rightarrow> touch_activity env r s | Some c \<Rightarrow> attach env r c (touch_activity env r s)))"

text \<open>\<open>ensure_room\<close> and \<open>open_runtime\<close> up to their first await: a registered room needs no lookup.\<close>

definition ensure_begins :: "'w services \<Rightarrow> pystr \<Rightarrow> pystr option \<Rightarrow> pystr option \<Rightarrow> 'w rtm \<Rightarrow> 'w rtm" where
  "ensure_begins env nb kname client s =
     (case get_room_for_notebook nb s of
        None \<Rightarrow> s
      | Some r \<Rightarrow> settle_room env nb kname client r (refresh_room env r s))"

definition status_begins :: "'w services \<Rightarrow> pystr \<Rightarrow> 'w rtm \<Rightarrow> 'w rtm" where
  "status_begins env nb s =
     (case get_room_for_notebook nb s of None \<Rightarrow> s | Some r \<Rightarrow> refresh_room env r s)"

text \<open>From the answer of \<open>get_session\<close> on; \<open>caller\<close> is \<open>None\<close> for \<open>get_runtime_status\<close>.\<close>

definition lookup_answered ::
  "'w services \<Rightarrow> pystr \<Rightarrow> pyexc + session \<Rightarrow> (pystr option \<times> pystr option) option \<Rightarrow> 'w rtm \<Rightarrow> 'w rtm" where
  "lookup_answered env nb answer caller s =
     (case answer of
        Inl (HTTPError code reason) \<Rightarrow> (case caller of None \<Rightarrow> s | Some _ \<Rightarrow> snd (open_begin env nb s))
      | Inl e \<Rightarrow> s
      | Inr sess \<Rightarrow>
          (case adopt_session env nb sess s of (r, s1) \<Rightarrow>
             (case caller of None \<Rightarrow> s1 | Some (kname, client) \<Rightarrow> settle_room env nb kname client r s1)))"

text \<open>From the answer of \<open>create_session\<close> on.\<close>

definition session_answered ::
  "'w services \<Rightarrow> pystr \<Rightarrow> pyexc + session \<Rightarrow> pystr option \<Rightarrow> 'w rtm \<Rightarrow> 'w rtm" where
  "session_answered env r answer client s =
     (case open_finish env r answer s of
        (Inl e, s1) \<Rightarrow> s1
      | (Inr _, s1) \<Rightarrow> (case client of None \<Rightarrow> s1 | Some c \<Rightarrow> attach env r c s1))"

definition stop_begins :: "'w services \<Rightarrow> pystr \<Rightarrow> 'w rtm \<Rightarrow> 'w rtm" where
  "stop_begins env r s =
     (if r \<notin> set (rooms s) \<or> room_state (heap s r) \<in> {STOPPED, STOPPING} then s else stop_begin env r s)"

definition stop_ends :: "'w services \<Rightarrow> pystr \<Rightarrow> 'w rtm \<Rightarrow> 'w rtm" where
  "stop_ends env r s =
     (let s1 = stop_finish env r s in notify_notebook_stopped env (room_notebook_id (heap s1 r)) s1)"

section \<open>Runs\<close>

text \<open>A sweep stops the rooms it has chosen; what an awaited service did is an \<open>Outside\<close>.\<close>

datatype 'w room_event =
    EnsureBegins pystr "pystr option" "pystr option"
  | StatusBegins pystr
  | LookupAnswered pystr "pyexc + session" "(pystr option \<times> pystr option) option"
  | SessionAnswered pystr "pyexc + session" "pystr option"
  | AttachClient pystr pystr
  | DetachClient pystr pystr
  | StopBegins pystr
  | StopEnds pystr
  | Interrupted pystr
  | SetRuntimeState pystr runtime_state
  | TouchActivity pystr
  | MarkJobStarted pystr pystr
  | MarkJobFinished pystr pystr
  | Outside 'w

fun room_step :: "'w services \<Rightarrow> 'w room_event \<Rightarrow> 'w rtm \<Rightarrow> 'w rtm" where
  "room_step env (EnsureBegins nb k c) s = ensure_begins env nb k c s"
| "room_step env (StatusBegins nb) s = status_begins env nb s"
| "room_step env (LookupAnswered nb a q) s = lookup_answered env nb a q s"
| "room_step env (SessionAnswered r a c) s = session_answered env r a c s"
| "room_step env (AttachClient r c) s = snd (attach_client env r c s)"
| "room_step env (DetachClient r c) s = snd (detach_client env r c s)"
| "room_step env (StopBegins r) s = stop_begins env r s"
| "room_step env (StopEnds r) s = stop_ends env r s"
| "room_step env (Interrupted r) s = mark_activity env r s"
| "room_step env (SetRuntimeState r st) s = snd (set_runtime_state env r st s)"
| "room_step env (TouchActivity r) s = touch_activity env r s"
| "room_step env (MarkJobStarted nb j) s = mark_job_started env nb j s"
| "room_step env (MarkJobFinished nb j) s = mark_job_finished env nb j s"
| "room_step env (Outside w) s = s\<lparr>world := w\<rparr>"

abbreviation room_run :: "'w services \<Rightarrow> 'w room_event list \<Rightarrow> 'w rtm \<Rightarrow> 'w rtm" where
  "room_run env es s \<equiv> fold (room_step env) es s"

text \<open>The operations, run to their end without interruption, are such runs.\<close>

definition performs :: "'w services \<Rightarrow> ('w rtm \<Rightarrow> 'a \<times> 'w rtm) \<Rightarrow> bool" where
  "performs env f \<longleftrightarrow> (\<forall>s. \<exists>es. snd (f s) = room_run env es s)"

definition opened_for :: "'w services \<Rightarrow> pystr \<Rightarrow> pystr option \<Rightarrow> pystr option \<Rightarrow> 'w rtm \<Rightarrow> (pystr, 'w rtm) outcome" where
  "opened_for env nb kname client =
     (case client of None \<Rightarrow> ensure_room env nb kname | Some c \<Rightarrow> open_runtime env nb c kname)"

lemma new_room_run:
  "\<exists>es. snd (case open_new_room env nb d s of (Inl e, s1) \<Rightarrow> (Inl e, s1)
      | (Inr r, s1) \<Rightarrow> (Inr r, case client of None \<Rightarrow> s1 | Some c \<Rightarrow> attach env r c s1))
    = room_run env es (snd (open_begin env nb s))"
proof -
  obtain r s1 where b: "open_begin env nb s = (r, s1)" by fastforce
  obtain a w where c: "create_session env nb (py_basename nb) d (world s1) = (a, w)" by fastforce
  show ?thesis
    by (rule exI [of _ "[Outside w, SessionAnswered r a client]"])
      (simp add: open_new_room_def b c session_answered_def open_finish_def split: sum.split)
qed

lemma settled_run:
  assumes "s1 = settle_room env nb kname client r s"
  shows "\<exists>es. snd (case (if is_live (heap s r)
        then (case (kname, kernel_name (heap s r)) of
                (Some requested, Some active) \<Rightarrow>
                  if active \<noteq> requested then (Inl (KernelMismatch nb (Some active) requested), s)
                  else (Inr r, touch_activity env r s)
              | _ \<Rightarrow> (Inr r, touch_activity env r s))
        else open_new_room env nb d s) of (Inl e, s2) \<Rightarrow> (Inl e, s2)
      | (Inr r, s2) \<Rightarrow> (Inr r, case client of None \<Rightarrow> s2 | Some c \<Rightarrow> attach env r c s2))
    = room_run env es s1"
proof (cases "is_live (heap s r)")
  case True
  then show ?thesis
    by (intro exI [of _ "[]"]) (auto simp: assms settle_room_def split: option.split)
next
  case False
  then have "s1 = snd (open_begin env nb s)" by (simp add: assms settle_room_def)
  with False new_room_run [where env = env and nb = nb and d = d and s = s and client = client] show ?thesis by simp
qed

lemma opened_for_unfold:
  "opened_for env nb kname client s =
     (case ensure_room env nb kname s of (Inl e, s1) \<Rightarrow> (Inl e, s1)
      | (Inr r, s1) \<Rightarrow> (Inr r, case client of None \<Rightarrow> s1 | Some c \<Rightarrow> attach env r c s1))"
  by (auto simp: opened_for_def open_runtime_def split: option.split prod.split sum.split)

lemma opened_for_run: "performs env (opened_for env nb kname client)"
  unfolding performs_def
proof
  fix s
  let ?d = "case kname of None \<Rightarrow> lit ''python3'' | Some k \<Rightarrow> if k = [] then lit ''python3'' else k"
  obtain res s1 where l: "load_or_refresh_room env nb s = (res, s1)" by fastforce
  show "\<exists>es. snd (opened_for env nb kname client s) = room_run env es s"
    using l
  proof (cases rule: load_cases)
    case (known r)
    obtain es where "snd (opened_for env nb kname client s)
        = room_run env es (settle_room env nb kname client r (refresh_room env r s))"
      using settled_run [OF refl, where env = env and nb = nb and kname = kname and r = r and d = ?d and client = client
          and s = "refresh_room env r s"] l known
      by (auto simp: opened_for_unfold ensure_room_def Let_def)
    moreover have "settle_room env nb kname client r (refresh_room env r s) = room_step env (EnsureBegins nb kname client) s"
      by (simp add: ensure_begins_def known)
    ultimately show ?thesis by (intro exI [of _ "EnsureBegins nb kname client # es"]) simp
  next
    case (absent code reason w)
    obtain es where "snd (opened_for env nb kname client s) = room_run env es (snd (open_begin env nb (s\<lparr>world := w\<rparr>)))"
      using new_room_run [where env = env and nb = nb and d = ?d and s = "s\<lparr>world := w\<rparr>" and client = client] l absent
      by (auto simp: opened_for_unfold ensure_room_def Let_def)
    then show ?thesis
      by (intro exI [of _ "Outside w # LookupAnswered nb (Inl (HTTPError code reason)) (Some (kname, client)) # es"])
        (simp add: lookup_answered_def)
  next
    case (broken e w)
    with l show ?thesis
      by (intro exI [of _ "[Outside w]"]) (simp add: opened_for_unfold ensure_room_def Let_def)
  next
    case (adopted r sess w)
    obtain es where "snd (opened_for env nb kname client s) = room_run env es (settle_room env nb kname client r s1)"
      using settled_run [OF refl, where env = env and nb = nb and kname = kname and r = r and d = ?d and client = client and s = s1] l adopted
      by (auto simp: opened_for_unfold ensure_room_def Let_def)
    then show ?thesis using adopted
      by (intro exI [of _ "Outside w # LookupAnswered nb (Inr sess) (Some (kname, client)) # es"])
        (simp add: lookup_answered_def)
  qed
qed

lemma stop_runtime_run: "performs env (stop_runtime env r)"
  unfolding performs_def
proof
  fix s
  show "\<exists>es. snd (stop_runtime env r s) = room_run env es s"
  proof (cases "r \<in> set (rooms s) \<and> room_state (heap s r) \<notin> {STOPPED, STOPPING}")
    case True
    then show ?thesis
      by (intro exI [of _ "[StopBegins r, Outside (world (stop_release env r (stop_begin env r s))), StopEnds r]"])
        (simp add: stop_runtime_def Let_def stop_begins_def stop_ends_def stop_release_def)
  next
    case False
    then have "snd (stop_runtime env r s) = s" by (auto simp: stop_runtime_def)
    then show ?thesis by (intro exI [of _ "[]"]) simp
  qed
qed

lemma status_run: "performs env (get_runtime_status env nb)"
  unfolding performs_def
proof
  fix s
  obtain res s1 where l: "load_or_refresh_room env nb s = (res, s1)" by fastforce
  then show "\<exists>es. snd (get_runtime_status env nb s) = room_run env es s"
  proof (cases rule: load_cases)
    case (known r)
    with l show ?thesis
      by (intro exI [of _ "[StatusBegins nb]"]) (simp add: get_runtime_status_state status_begins_def)
  next
    case (absent code reason w)
    with l show ?thesis by (intro exI [of _ "[Outside w]"]) (simp add: get_runtime_status_state)
  next
    case (broken e w)
    with l show ?thesis by (intro exI [of _ "[Outside w]"]) (simp add: get_runtime_status_state)
  next
    case (adopted r sess w)
    with l show ?thesis
      by (intro exI [of _ "[Outside w, LookupAnswered nb (Inr sess) None]"])
        (simp add: get_runtime_status_state lookup_answered_def)
  qed
qed

section \<open>Rooms that their notebook's entry does not name\<close>

definition stray :: "pystr \<Rightarrow> 'w rtm \<Rightarrow> bool" where
  "stray r s \<longleftrightarrow> r \<in> set (rooms s) \<and> is_live (heap s r) \<and> notebook_to_room s (room_notebook_id (heap s r)) \<noteq> Some r"

text \<open>
  The four ways in which one part of an operation may make a room stray.  A live state is set on a room that
  has died and been replaced; a session arrives for a room that has been replaced meanwhile; the
  stop of another room of the notebook ends and takes the entry away; or a lookup that was under way
  when the room was made enters another room for the notebook.
\<close>

fun makes_stray :: "'w room_event \<Rightarrow> pystr \<Rightarrow> 'w rtm \<Rightarrow> bool" where
  "makes_stray (SetRuntimeState r' st) r s \<longleftrightarrow>
     r' = r \<and> st \<in> {LIVE_ATTACHED, LIVE_DETACHED, AWAITING_INPUT} \<and> \<not> is_live (heap s r)
     \<and> notebook_to_room s (room_notebook_id (heap s r)) \<noteq> Some r"
| "makes_stray (SessionAnswered r' answer client) r s \<longleftrightarrow>
     r' = r \<and> (\<exists>sess. answer = Inr sess) \<and> \<not> is_live (heap s r)
     \<and> notebook_to_room s (room_notebook_id (heap s r)) \<noteq> Some r"
| "makes_stray (StopEnds r') r s \<longleftrightarrow>
     r' \<noteq> r \<and> room_notebook_id (heap s r') = room_notebook_id (heap s r)
     \<and> notebook_to_room s (room_notebook_id (heap s r)) = Some r \<and> is_live (heap s r)"
| "makes_stray (LookupAnswered nb answer caller) r s \<longleftrightarrow>
     room_notebook_id (heap s r) = nb \<and> notebook_to_room s nb = Some r \<and> is_live (heap s r)"
| "makes_stray _ r s \<longleftrightarrow> False"

text \<open>Changes of one room that make nothing stray.\<close>

lemma stray_same: "rooms s' = rooms s \<Longrightarrow> notebook_to_room s' = notebook_to_room s \<Longrightarrow> heap s' = heap s \<Longrightarrow> stray r s' = stray r s"
  by (simp add: stray_def)

lemma stray_update:
  assumes "rooms s' = rooms s" and "notebook_to_room s' = notebook_to_room s"
    and "heap s' = (heap s)(r' := f (heap s r'))"
    and "room_notebook_id (f (heap s r')) = room_notebook_id (heap s r')"
    and "is_live (f (heap s r')) \<Longrightarrow> is_live (heap s r')"
  shows "stray r s' \<Longrightarrow> stray r s"
  using assms by (cases "r = r'") (auto simp: stray_def)

lemma stray_modify:
  "room_notebook_id (f (heap s r')) = room_notebook_id (heap s r') \<Longrightarrow> (is_live (f (heap s r')) \<Longrightarrow> is_live (heap s r')) \<Longrightarrow>
     stray r (modify_room r' f s) \<Longrightarrow> stray r s"
  by (rule stray_update [where r' = r' and f = f]) simp_all

lemma stray_activity [simp]: "stray r (mark_activity env r' s) = stray r s"
  by (simp add: stray_def)

lemma stray_touch [simp]: "stray r (touch_activity env r' s) = stray r s"
  by (simp add: touch_activity_def)

lemma stray_world [simp]: "stray r (s\<lparr>world := w\<rparr>) = stray r s"
  by (simp add: stray_def)

lemma stray_refresh: "stray r (refresh_room env r' s) \<Longrightarrow> stray r s"
  by (rule stray_update [where r' = r' and f = "\<lambda>m. if (case kernel_id m of None \<Rightarrow> False
        | Some k \<Rightarrow> k \<noteq> [] \<and> has_kernel env k (world s)) \<or> room_state m \<in> {STOPPED, FAILED}
      then m else m\<lparr>room_state := STOPPED\<rparr>"])
    (auto simp: refresh_room_def Let_def split: if_splits)

lemma stray_attach: "is_live (heap s r') \<Longrightarrow> stray r (attach env r' c s) \<Longrightarrow> stray r s"
  unfolding attach_def by simp (rule stray_modify, auto)

lemma touch_activity_live: "is_live (heap (touch_activity env r' s) r) = is_live (heap s r)"
  by (simp add: touch_activity_def)


text \<open>A room that is entered for a notebook may displace a live one.\<close>

definition displaced :: "pystr \<Rightarrow> pystr \<Rightarrow> 'w rtm \<Rightarrow> bool" where
  "displaced nb r s \<longleftrightarrow>
     is_live (heap s r) \<and> room_notebook_id (heap s r) = nb \<and> notebook_to_room s nb = Some r"

lemma stray_register:
  assumes "register_room env nb f s = (r', s1)" and "\<And>c a. room_notebook_id (f (new_room r' nb c a)) = nb"
    and "stray r s1" and "\<not> stray r s"
  shows "displaced nb r s"
proof -
  obtain c a where eff: "heap s1 = (heap s)(r' := f (new_room r' nb c a))"
    "rooms s1 = (if r' \<in> set (rooms s) then rooms s else rooms s @ [r'])"
    "notebook_to_room s1 = (notebook_to_room s)(nb := Some r')"
    by (rule register_room_effect [OF assms(1)]) blast
  with assms(2-4) show ?thesis
    by (cases "r = r'") (auto simp: stray_def displaced_def split: if_splits)
qed

lemma stray_open: "stray r (snd (open_begin env nb s)) \<Longrightarrow> \<not> stray r s \<Longrightarrow> displaced nb r s"
  unfolding open_begin_def by (rule stray_register [OF prod.collapse [symmetric]]) simp_all

lemma stray_adopt:
  "adopt_session env nb sess s = (r', s1) \<Longrightarrow> stray r s1 \<Longrightarrow> \<not> stray r s \<Longrightarrow> displaced nb r s"
  unfolding adopt_session_def by (erule stray_register) (auto simp: new_room_def)

lemma stray_settle:
  assumes "stray r (settle_room env nb kname client r' s)" and "\<not> stray r s"
  shows "displaced nb r s \<and> \<not> is_live (heap s r')"
proof (cases "is_live (heap s r')")
  case True
  have "\<not> stray r (attach env r' c (touch_activity env r' s))" for c
    using stray_attach [of "touch_activity env r' s" r' r env c] True assms(2) touch_activity_live [of env r' s r'] by auto
  with True assms show ?thesis by (auto simp: settle_room_def split: option.splits if_splits)
next
  case False
  with assms stray_open show ?thesis by (auto simp: settle_room_def)
qed

lemma adopted_entry:
  "adopt_session env nb sess s = (r', s1) \<Longrightarrow> notebook_to_room s1 nb = Some r' \<and> is_live (heap s1 r')"
  by (auto simp: adopt_session_def is_live_def elim!: register_room_effect)

lemma refresh_live: "is_live (heap (refresh_room env r' s) r) \<Longrightarrow> is_live (heap s r)"
  by (cases "r = r'") (auto simp: refresh_room_def Let_def split: if_splits)

lemma stray_ensure: "stray r (ensure_begins env nb kname client s) \<Longrightarrow> stray r s"
proof (rule ccontr)
  assume st: "stray r (ensure_begins env nb kname client s)" and not: "\<not> stray r s"
  then obtain r' where r': "get_room_for_notebook nb s = Some r'"
    and "stray r (settle_room env nb kname client r' (refresh_room env r' s))"
    by (auto simp: ensure_begins_def split: option.splits)
  with stray_settle stray_refresh not
  have "displaced nb r (refresh_room env r' s)" "\<not> is_live (heap (refresh_room env r' s) r')" by blast+
  with r' show False by (auto simp: displaced_def get_room_for_notebook_def split: option.splits if_splits)
qed

lemma stray_lookup:
  assumes "stray r (lookup_answered env nb answer caller s)" and "\<not> stray r s"
  shows "displaced nb r s"
proof (cases answer)
  case (Inl e)
  with assms stray_open show ?thesis
    by (auto simp: lookup_answered_def split: pyexc.splits option.splits)
next
  case (Inr sess)
  obtain r' s1 where a: "adopt_session env nb sess s = (r', s1)" by fastforce
  have "stray r s1"
  proof (rule ccontr)
    assume n: "\<not> stray r s1"
    with assms Inr a obtain kname client where "stray r (settle_room env nb kname client r' s1)"
      by (auto simp: lookup_answered_def split: option.splits)
    with stray_settle n adopted_entry [OF a] show False by blast
  qed
  with stray_adopt [OF a _ assms(2)] show ?thesis by blast
qed

lemma stray_answer:
  assumes "stray r (session_answered env r' answer client s)" and "\<not> stray r s"
  shows "makes_stray (SessionAnswered r' answer client) r s"
proof (cases answer)
  case (Inl e)
  have "stray r (modify_room r' (\<lambda>m. m\<lparr>room_state := FAILED\<rparr>) s) \<Longrightarrow> stray r s"
    by (rule stray_modify) simp_all
  with assms Inl show ?thesis by (simp add: session_answered_def open_finish_def)
next
  case (Inr sess)
  let ?s = "session_answered env r' answer client s"
  have eff: "rooms ?s = rooms s" "notebook_to_room ?s = notebook_to_room s" "r \<noteq> r' \<Longrightarrow> heap ?s r = heap s r"
    "room_notebook_id (heap ?s r') = room_notebook_id (heap s r')"
    by (simp_all add: session_answered_def open_finish_def Inr attach_def split: option.split)
  show ?thesis
  proof (cases "r = r'")
    case True
    with assms eff Inr show ?thesis by (auto simp: stray_def)
  next
    case False
    with assms eff show ?thesis by (simp add: stray_def)
  qed
qed

lemma stray_stop_begin: "stray r (stop_begins env r' s) \<Longrightarrow> stray r s"
proof -
  have "stray r (modify_room r' (\<lambda>m. m\<lparr>room_state := STOPPING\<rparr>) s) \<Longrightarrow> stray r s"
    by (rule stray_modify) simp_all
  then show "stray r (stop_begins env r' s) \<Longrightarrow> stray r s" by (auto simp: stop_begins_def stop_begin_def split: if_splits)
qed

lemma stray_notify [simp]: "stray r (notify_notebook_stopped env nb s) = stray r s"
  by (simp add: notify_notebook_stopped_def split: option.split)

lemma stray_stop_end:
  assumes "stray r (stop_ends env r' s)" and "\<not> stray r s"
  shows "makes_stray (StopEnds r') r s"
proof -
  have "stray r (stop_finish env r' s)" using assms(1) by (simp add: stop_ends_def Let_def)
  with assms(2) show ?thesis
    by (cases "r = r'") (auto simp: Let_def stop_finish_def stray_def split: if_splits)
qed

lemma stray_set_state:
  assumes "stray r (snd (set_runtime_state env r' st s))" and "\<not> stray r s"
  shows "makes_stray (SetRuntimeState r' st) r s"
  using assms by (cases "r = r'") (auto simp: set_runtime_state_def stray_def split: if_splits)

lemma stray_clients:
  "stray r (snd (attach_client env r' c s)) \<Longrightarrow> stray r s"
  "stray r (snd (detach_client env r' c s)) \<Longrightarrow> stray r s"
proof -
  show "stray r (snd (attach_client env r' c s)) \<Longrightarrow> stray r s"
    using stray_attach by (auto simp: attach_client_def split: if_splits)
  let ?f = "\<lambda>m. m\<lparr>attached_clients := attached_clients m - {c}\<rparr>"
  have "stray r (modify_room r' ?f s) \<Longrightarrow> stray r s"
    by (rule stray_modify) simp_all
  moreover have "room_state (heap (modify_room r' ?f s) r') = LIVE_ATTACHED \<Longrightarrow>
      stray r (modify_room r' (\<lambda>m. m\<lparr>room_state := LIVE_DETACHED\<rparr>) (modify_room r' ?f s)) \<Longrightarrow> stray r (modify_room r' ?f s)"
    by (rule stray_modify) (simp_all add: is_live_def)
  ultimately show "stray r (snd (detach_client env r' c s)) \<Longrightarrow> stray r s"
    by (auto simp: detach_client_def Let_def split: if_splits)
qed

lemma stray_jobs:
  "stray r (mark_job_started env nb j s) = stray r s" "stray r (mark_job_finished env nb j s) = stray r s"
proof -
  have "stray r (modify_room r' (\<lambda>m. m\<lparr>active_jobs := g (active_jobs m)\<rparr>) s) = stray r s" for g r'
    by (cases "r = r'") (simp_all add: stray_def)
  note this [of _ "insert j"] this [of _ "\<lambda>js. js - {j}"]
  then show "stray r (mark_job_started env nb j s) = stray r s" "stray r (mark_job_finished env nb j s) = stray r s"
    by (simp_all add: mark_job_started_def mark_job_finished_def split: option.split)
qed

lemma step_makes_stray: "stray r (room_step env e s) \<Longrightarrow> \<not> stray r s \<Longrightarrow> makes_stray e r s"
proof (cases e)
  case (StatusBegins nb)
  then show "stray r (room_step env e s) \<Longrightarrow> \<not> stray r s \<Longrightarrow> makes_stray e r s"
    using stray_refresh by (auto simp: status_begins_def split: option.splits)
next
  case (LookupAnswered nb a q)
  then show "stray r (room_step env e s) \<Longrightarrow> \<not> stray r s \<Longrightarrow> makes_stray e r s"
    using stray_lookup by (fastforce simp: displaced_def)
next
  case (SetRuntimeState r' st)
  then show "stray r (room_step env e s) \<Longrightarrow> \<not> stray r s \<Longrightarrow> makes_stray e r s"
    using stray_set_state by simp
next
  case (StopEnds r')
  then show "stray r (room_step env e s) \<Longrightarrow> \<not> stray r s \<Longrightarrow> makes_stray e r s"
    using stray_stop_end by simp
next
  case (SessionAnswered r' a c)
  then show "stray r (room_step env e s) \<Longrightarrow> \<not> stray r s \<Longrightarrow> makes_stray e r s"
    using stray_answer by simp
qed (auto simp: stray_jobs dest: stray_ensure stray_clients stray_stop_begin)

lemma stray_has_cause:
  assumes "stray r (room_run env es s0)" and "\<not> stray r s0"
  shows "\<exists>es1 e es2. es = es1 @ e # es2 \<and> makes_stray e r (room_run env es1 s0)"
  using assms(1)
proof (induction es rule: rev_induct)
  case Nil
  with assms(2) show ?case by simp
next
  case (snoc e es)
  show ?case
  proof (cases "stray r (room_run env es s0)")
    case True
    from snoc.IH [OF True] show ?thesis by (metis append_Cons append_assoc)
  next
    case False
    have "makes_stray e r (room_run env es s0)"
      using step_makes_stray [OF _ False] snoc.prems by simp
    then show ?thesis by blast
  qed
qed

section \<open>Properties\<close>

text \<open>
  C1: second live rooms are accounted for.  After any interleaving of the manager's operations, from an
  empty manager, a registered live room is the one its notebook's lookup returns, unless earlier in the
  run one of four things happened to that very room: a live state was set on it after it had died and
  been replaced, its session arrived after it had been replaced, the stop of another room of the notebook
  ended and took its entry away, or a lookup that was under way entered another room.  So of two live
  rooms of one notebook at least one has such a cause; in a run without these four, there is one.
\<close>

theorem second_live_rooms_are_accounted_for:
  assumes "s = room_run env es (new_rtm ttl w)" and "r \<in> set (rooms s)" and "is_live (heap s r)"
  shows "(get_room_for_notebook (room_notebook_id (heap s r)) s = Some r
      \<or> (\<exists>es1 e es2. es = es1 @ e # es2 \<and> makes_stray e r (room_run env es1 (new_rtm ttl w))))
    \<and> (\<forall>r' \<in> set (rooms s). is_live (heap s r') \<and> room_notebook_id (heap s r') = room_notebook_id (heap s r) \<and> r' \<noteq> r \<longrightarrow>
      (\<exists>x \<in> {r, r'}. \<exists>es1 e es2. es = es1 @ e # es2 \<and> makes_stray e x (room_run env es1 (new_rtm ttl w))))"
proof (intro conjI ballI impI)
  have "\<not> stray x (new_rtm ttl w)" for x :: pystr by (simp add: stray_def new_rtm_def)
  then have cause: "\<exists>es1 e es2. es = es1 @ e # es2 \<and> makes_stray e x (room_run env es1 (new_rtm ttl w))" if "stray x s" for x
    using stray_has_cause that assms(1) by blast
  have "get_room_for_notebook (room_notebook_id (heap s r)) s = Some r" if "\<not> stray r s"
    using that assms(2,3) by (simp add: stray_def get_room_for_notebook_def)
  with cause show "get_room_for_notebook (room_notebook_id (heap s r)) s = Some r
      \<or> (\<exists>es1 e es2. es = es1 @ e # es2 \<and> makes_stray e r (room_run env es1 (new_rtm ttl w)))"
    by blast
  fix r' assume "r' \<in> set (rooms s)"
    and "is_live (heap s r') \<and> room_notebook_id (heap s r') = room_notebook_id (heap s r) \<and> r' \<noteq> r"
  then have "stray r s \<or> stray r' s" using assms(2,3) by (auto simp: stray_def)
  with cause show "\<exists>x \<in> {r, r'}. \<exists>es1 e es2. es = es1 @ e # es2 \<and> makes_stray e x (room_run env es1 (new_rtm ttl w))"
    by blast
qed

text \<open>
  A kernel dies while its cell runs: a status request finds the room dead, the next client gets a new
  room, and then the poll of the running request sets the old room to \<open>AWAITING_INPUT\<close>.
\<close>

definition demo_revival :: "demo_world room_event list" where
  "demo_revival =
     [LookupAnswered nb_a (Inl (HTTPError 404 [])) (Some (None, None)),
      SessionAnswered [0] (Inr \<lparr>sess_id = lit ''s1'', sess_kernel_id = lit ''k'', sess_kernel_name = None\<rparr>) None,
      StatusBegins nb_a, Outside (10, {nb_a}), EnsureBegins nb_a None None,
      SessionAnswered [10] (Inr \<lparr>sess_id = lit ''s2'', sess_kernel_id = lit ''k'', sess_kernel_name = None\<rparr>) None]"

lemma second_live_rooms_are_accounted_for_witness:
  "let s = room_run demo_services (demo_revival @ [SetRuntimeState [0] AWAITING_INPUT]) (new_rtm 5 (0, {}))
   in is_live (heap s [0]) \<and> is_live (heap s [10]) \<and> get_room_for_notebook nb_a s = Some [10]
     \<and> (\<exists>es1 e es2. demo_revival @ [SetRuntimeState [0] AWAITING_INPUT] = es1 @ e # es2
         \<and> makes_stray e [0] (room_run demo_services es1 (new_rtm 5 (0, {}))))"
proof -
  let ?es = "demo_revival @ [SetRuntimeState [0] AWAITING_INPUT]"
  let ?s = "room_run demo_services ?es (new_rtm 5 (0, {}))"
  have s: "[0] \<in> set (rooms ?s)" "is_live (heap ?s [0])" "is_live (heap ?s [10])" "room_notebook_id (heap ?s [0]) = nb_a"
      "get_room_for_notebook nb_a ?s = Some [10]"
    by (simp_all add: demo_revival_def lookup_answered_def session_answered_def status_begins_def ensure_begins_def
        settle_room_def set_runtime_state_def demo_simps)
  from second_live_rooms_are_accounted_for [OF refl s(1,2)] s show ?thesis by (simp add: Let_def)
qed

end
