(* ===== verification/Hn_GcLoop.thy ===== *)
theory Hn_GcLoop
  imports Hn_Runtime
begin

text \<open>
  The garbage collection task of the runtime manager (\<open>start_gc_loop\<close>, \<open>stop_gc_loop\<close>,
  \<^verbatim>\<open>runtime_manager.py\<close>) as a state machine: it sleeps, sweeps, and gives way to the manager's other
  operations whenever a stop awaits the session manager.  Undisturbed, a sweep stops the idle rooms one by one;
  disturbed, it stops rooms that clients have taken back, and a runtime opened while its predecessor is
  being stopped is lost.
\<close>

section \<open>The task\<close>

text \<open>
  \<open>GcStopping r rs\<close>: the task awaits the release of \<open>r\<close>, and \<open>rs\<close> are the rooms it will stop after it.
\<close>

datatype gc_phase = GcNone | GcAsleep | GcStopping pystr "pystr list" | GcEnded

record 'w collector =
  gc_manager :: "'w rtm"
  gc_phase :: gc_phase

definition start_gc_loop :: "'w collector \<Rightarrow> 'w collector" where
  "start_gc_loop g = (if gc_phase g \<in> {GcNone, GcEnded} then g\<lparr>gc_phase := GcAsleep\<rparr> else g)"

text \<open>The sweep up to its next await: rooms that are gone or already stopping take no await.\<close>

fun gc_next :: "'w services \<Rightarrow> pystr list \<Rightarrow> 'w rtm \<Rightarrow> gc_phase \<times> 'w rtm" where
  "gc_next env [] s = (GcAsleep, s)"
| "gc_next env (r # rs) s =
     (if r \<notin> set (rooms s) \<or> room_state (heap s r) \<in> {STOPPED, STOPPING} then gc_next env rs s
      else (GcStopping r rs, stop_begin env r s))"

definition gc_go :: "'w services \<Rightarrow> pystr list \<Rightarrow> 'w rtm \<Rightarrow> 'w collector" where
  "gc_go env rs s = (case gc_next env rs s of (p, s1) \<Rightarrow> \<lparr>gc_manager = s1, gc_phase = p\<rparr>)"

text \<open>The interval has passed.\<close>

definition gc_wake :: "'w services \<Rightarrow> 'w collector \<Rightarrow> 'w collector" where
  "gc_wake env g =
     (if gc_phase g \<noteq> GcAsleep then g
      else case read_clock env (gc_manager g) of (now, s) \<Rightarrow>
        gc_go env (filter (\<lambda>r. gc_idle (idle_ttl s) now (heap s r)) (rooms s)) s)"

text \<open>The session manager has answered; the rest of \<open>stop_runtime\<close> and of the sweep.\<close>

definition gc_resume :: "'w services \<Rightarrow> 'w collector \<Rightarrow> 'w collector" where
  "gc_resume env g =
     (case gc_phase g of
        GcStopping r rs \<Rightarrow>
          let s1 = stop_finish env r (stop_release env r (gc_manager g))
          in gc_go env rs (notify_notebook_stopped env (room_notebook_id (heap s1 r)) s1)
      | _ \<Rightarrow> g)"

text \<open>
  Cancelling the task at its await: the \<open>finally\<close> block of a stop under way still runs, the
  notification does not.  \<open>released\<close> says whether the session manager had already let go.
\<close>

definition stop_gc_loop :: "'w services \<Rightarrow> bool \<Rightarrow> 'w collector \<Rightarrow> 'w collector" where
  "stop_gc_loop env released g =
     (case gc_phase g of
        GcAsleep \<Rightarrow> g\<lparr>gc_phase := GcEnded\<rparr>
      | GcStopping r rs \<Rightarrow>
          g\<lparr>gc_manager := stop_finish env r ((if released then stop_release env r else id) (gc_manager g)),
            gc_phase := GcEnded\<rparr>
      | _ \<Rightarrow> g)"

section \<open>A sweep by itself\<close>

lemma stop_runtime_phases:
  assumes "r \<in> set (rooms s)" and "room_state (heap s r) \<notin> {STOPPED, STOPPING}"
  shows "snd (stop_runtime env r s) =
    (let s1 = stop_finish env r (stop_release env r (stop_begin env r s))
     in notify_notebook_stopped env (room_notebook_id (heap s1 r)) s1)"
  using assms by (simp add: stop_runtime_def Let_def)

text \<open>Rooms that a sweep may stop, and one turn of it.\<close>

definition stoppable :: "pystr list \<Rightarrow> 'w rtm \<Rightarrow> bool" where
  "stoppable rs s \<longleftrightarrow> rtm_ok s \<and> distinct rs \<and> set rs \<subseteq> set (rooms s)
     \<and> (\<forall>r \<in> set rs. room_state (heap s r) = LIVE_DETACHED)"

lemma gc_go_turn:
  assumes "stoppable (r # rs) s"
  obtains s1 where "gc_phase (gc_go env (r # rs) s) = GcStopping r rs"
    and "gc_resume env (gc_go env (r # rs) s) = gc_go env rs s1" and "stop_runtime env r s = (Inr r, s1)"
    and "stoppable rs s1"
proof -
  have r: "rtm_ok s" "r \<in> set (rooms s)" "room_state (heap s r) = LIVE_DETACHED" "r \<notin> set rs"
    using assms by (simp_all add: stoppable_def)
  then have live: "is_live (heap s r)" and busy: "room_state (heap s r) \<notin> {STOPPED, STOPPING}" by (simp_all add: is_live_def)
  obtain s1 t where st: "stop_runtime env r s = (Inr r, s1)" "rooms s1 = filter (\<lambda>r'. r' \<noteq> r) (rooms s)"
    "heap s1 = (heap s)(r := (heap s r)\<lparr>room_state := STOPPED, attached_clients := {}, active_jobs := {}, last_activity := t\<rparr>)"
    using stop_runtime_effect [OF r(2) busy, of env] by blast
  have "rtm_ok s1"
    using stop_runtime_ok [of s r env] rtm_okD(3) [OF r(1,2) live] r(1) st(1) by simp
  then have "stoppable rs s1" using assms r st(2,3) by (auto simp: stoppable_def)
  moreover have "gc_resume env (gc_go env (r # rs) s) = gc_go env rs s1"
    using stop_runtime_phases [OF r(2) busy, of env] r st(1) by (simp add: gc_resume_def gc_go_def Let_def)
  moreover have "gc_phase (gc_go env (r # rs) s) = GcStopping r rs" using r busy by (simp add: gc_go_def)
  ultimately show ?thesis using that st(1) by blast
qed

lemma gc_go_run:
  "stoppable rs s \<Longrightarrow>
   (gc_resume env ^^ length rs) (gc_go env rs s) = \<lparr>gc_manager = snd (gc_stop env rs s), gc_phase = GcAsleep\<rparr>"
proof (induction rs arbitrary: s)
  case Nil
  then show ?case by (simp add: gc_go_def)
next
  case (Cons r rs)
  obtain s1 where "gc_resume env (gc_go env (r # rs) s) = gc_go env rs s1" "stop_runtime env r s = (Inr r, s1)"
    "stoppable rs s1"
    using gc_go_turn [OF Cons.prems, of env] by blast
  with Cons.IH show ?case by (simp add: funpow_swap1 split: prod.split)
qed

lemma gc_go_phases:
  "stoppable rs s \<Longrightarrow> n < length rs \<Longrightarrow>
   gc_phase ((gc_resume env ^^ n) (gc_go env rs s)) = GcStopping (rs ! n) (drop (Suc n) rs)"
proof (induction rs arbitrary: s n)
  case (Cons r rs)
  obtain s1 where "gc_phase (gc_go env (r # rs) s) = GcStopping r rs"
    "gc_resume env (gc_go env (r # rs) s) = gc_go env rs s1" "stoppable rs s1"
    using gc_go_turn [OF Cons.prems(1), of env] by blast
  with Cons.IH Cons.prems(2) show ?case by (cases n) (simp_all add: funpow_swap1)
qed simp

lemma gc_wake_asleep: "gc_phase g = GcAsleep \<Longrightarrow> gc_wake env g = gc_go env (idle_rooms env (gc_manager g)) (snd (read_clock env (gc_manager g)))"
  by (auto simp: gc_wake_def idle_rooms_def read_clock_def split: prod.split)

text \<open>However it is disturbed, a sweep ends: every answer leaves fewer rooms to stop.\<close>

definition gc_left :: "gc_phase \<Rightarrow> nat" where
  "gc_left p = (case p of GcStopping r rs \<Rightarrow> Suc (length rs) | _ \<Rightarrow> 0)"

lemma gc_next_left: "gc_left (fst (gc_next env rs s)) \<le> length rs"
  by (induction rs) (auto simp: gc_left_def)

lemma gc_resume_left:
  "gc_phase g = GcStopping r rs \<Longrightarrow> gc_left (gc_phase (gc_resume env g)) < gc_left (gc_phase g)"
  using gc_next_left [of env rs] by (auto simp: gc_resume_def gc_go_def Let_def gc_left_def less_Suc_eq_le split: prod.split)
    (metis fst_conv gc_left_def)

section \<open>Properties\<close>

text \<open>
  C37: an undisturbed sweep of the task collects the idle rooms.  When nothing else runs, the task, woken,
  awaits the release of each room that is detached and has been inactive for longer than the limit, one
  after the other in the order of their registration, and no other room's; after as many answers as there
  are such rooms it sleeps again.  They are then stopped and no longer registered, every other room is
  registered and as it was, and the manager is in exactly the state the atomic \<open>gc_sweep\<close> leaves.
\<close>

theorem undisturbed_sweep_collects_idle:
  assumes "rtm_ok s" and "g = \<lparr>gc_manager = s, gc_phase = GcAsleep\<rparr>"
    and "idle = filter (\<lambda>r. room_state (heap s r) = LIVE_DETACHED
      \<and> fst (time_now env (world s)) - last_activity (heap s r) > idle_ttl s) (rooms s)"
    and "swept = (gc_resume env ^^ length idle) (gc_wake env g)"
  shows "(\<forall>n < length idle. gc_phase ((gc_resume env ^^ n) (gc_wake env g)) = GcStopping (idle ! n) (drop (Suc n) idle))
    \<and> swept = \<lparr>gc_manager = snd (gc_sweep env s), gc_phase = GcAsleep\<rparr>
    \<and> rooms (gc_manager swept) = filter (\<lambda>r. r \<notin> set idle) (rooms s)
    \<and> (\<forall>r \<in> set idle. room_state (heap (gc_manager swept) r) = STOPPED)
    \<and> (\<forall>r. r \<notin> set idle \<longrightarrow> heap (gc_manager swept) r = heap s r)"
proof -
  let ?s = "snd (read_clock env s)"
  have idle: "idle_rooms env s = idle"
    unfolding assms(3) by (auto simp: idle_rooms_def gc_idle_def intro!: filter_cong)
  have "rtm_ok ?s" using assms(1) by (subst rtm_ok_same_heap [of _ s]) simp_all
  then have ok: "stoppable idle ?s"
    using idle_rooms_props(1) [OF assms(1), of env] idle_rooms_props(2,3) [where env = env and s = s]
    unfolding stoppable_def idle by auto
  have wake: "gc_wake env g = gc_go env idle ?s" using gc_wake_asleep [of g env] by (simp add: assms(2) idle)
  have swept: "swept = \<lparr>gc_manager = snd (gc_sweep env s), gc_phase = GcAsleep\<rparr>"
    using gc_go_run [OF ok, of env] by (simp add: assms(4) wake gc_sweep_unfold idle)
  obtain s' where "gc_sweep env s = (idle, s')" "rooms s' = filter (\<lambda>r. r \<notin> set idle) (rooms s)"
    "\<forall>r. r \<notin> set idle \<longrightarrow> heap s' r = heap s r" "\<forall>r \<in> set idle. room_state (heap s' r) = STOPPED"
    using gc_sweep_effect [OF assms(1), of env] unfolding idle by blast
  then show ?thesis using gc_go_phases [OF ok, of _ env] by (simp add: swept wake)
qed

text \<open>Two notebooks opened and left by their client, idle for longer than the limit of five.\<close>

definition nb_b :: pystr where "nb_b = lit ''b.ipynb''"

definition demo_opened :: "pystr \<Rightarrow> pystr \<Rightarrow> demo_world rtm \<Rightarrow> demo_world rtm" where
  "demo_opened nb r s =
     snd (detach_client demo_services r (lit ''cli'') (snd (open_runtime demo_services nb (lit ''cli'') None s)))"

definition demo_idle :: "demo_world rtm" where
  "demo_idle = (demo_opened nb_b [6] (demo_opened nb_a [0] demo_rtm))\<lparr>world := (50, {nb_a, nb_b})\<rparr>"

lemma demo_idle_state:
  "rooms demo_idle = [[0], [6]]" "room_state (heap demo_idle [0]) = LIVE_DETACHED" "rtm_ok demo_idle"
  "idle_rooms demo_services demo_idle = [[0], [6]]"
proof -
  show "rooms demo_idle = [[0], [6]]" "room_state (heap demo_idle [0]) = LIVE_DETACHED"
    "idle_rooms demo_services demo_idle = [[0], [6]]"
    by (simp_all add: demo_idle_def demo_opened_def nb_b_def idle_rooms_def gc_idle_def demo_simps)
  have opened: "rtm_ok (demo_opened nb r s)" if "rtm_ok s" "ensure_uuid demo_services nb s \<notin> set (rooms s)" for nb r s
    unfolding demo_opened_def by (intro detach_client_ok open_runtime_ok that)
  have "rtm_ok (demo_opened nb_b [6] (demo_opened nb_a [0] demo_rtm))"
    by (intro opened) (simp_all add: demo_rtm_def, simp_all add: demo_opened_def nb_b_def demo_simps)
  then show "rtm_ok demo_idle" by (simp add: demo_idle_def)
qed

lemma undisturbed_sweep_collects_idle_witness:
  "let g = gc_wake demo_services \<lparr>gc_manager = demo_idle, gc_phase = GcAsleep\<rparr>;
       swept = (gc_resume demo_services ^^ 2) g
   in gc_phase g = GcStopping [0] [[6]] \<and> rooms (gc_manager swept) = []
      \<and> room_state (heap (gc_manager swept) [6]) = STOPPED"
proof -
  have "[[0], [6]] = filter (\<lambda>r. room_state (heap demo_idle r) = LIVE_DETACHED
      \<and> fst (time_now demo_services (world demo_idle)) - last_activity (heap demo_idle r) > idle_ttl demo_idle) (rooms demo_idle)"
    by (simp add: demo_idle_def demo_opened_def nb_b_def demo_simps)
  from undisturbed_sweep_collects_idle [OF demo_idle_state(3) refl this refl]
  show ?thesis by (auto simp: demo_idle_state(1) numeral_2_eq_2 Let_def)
qed

text \<open>
  C39: the sweep stops rooms that were taken back.  The rooms to stop are chosen before the first
  await.  While the release of one room is awaited, a client may open the runtime of a notebook
  further down the list and be given its room; the sweep then goes on to stop that very room, with
  the client attached to it.
\<close>

theorem sweep_stops_rooms_taken_back:
  assumes "gc_phase g = GcStopping r (r' # rs)" and "r' \<noteq> r"
    and "open_runtime env nb c kname (gc_manager g) = (Inr r', s1)" and "r' \<in> set (rooms s1)"
    and "g' = gc_resume env (g\<lparr>gc_manager := s1\<rparr>)"
  shows "gc_phase g' = GcStopping r' rs \<and> room_state (heap (gc_manager g') r') = STOPPING
    \<and> c \<in> attached_clients (heap (gc_manager g') r')"
proof -
  let ?s2 = "stop_finish env r (stop_release env r s1)"
  let ?s3 = "notify_notebook_stopped env (room_notebook_id (heap ?s2 r)) ?s2"
  have s1: "room_state (heap s1 r') = LIVE_ATTACHED" "c \<in> attached_clients (heap s1 r')"
    using assms(3) by (auto simp: open_runtime_def attach_def split: sum.splits prod.splits)
  have other: "heap ?s3 r' = heap s1 r' \<and> r' \<in> set (rooms ?s3)"
    using assms(2,4) by (simp add: notify_notebook_stopped_def stop_finish_def stop_release_def Let_def split: option.split)
  then have "gc_next env (r' # rs) ?s3 = (GcStopping r' rs, stop_begin env r' ?s3)" using s1 by simp
  then have "g' = \<lparr>gc_manager = stop_begin env r' ?s3, gc_phase = GcStopping r' rs\<rparr>"
    using assms(1,5) by (simp add: gc_resume_def Let_def gc_go_def)
  with other s1 show ?thesis by (simp add: stop_begin_def)
qed

lemma sweep_stops_rooms_taken_back_witness:
  "let g = gc_wake demo_services \<lparr>gc_manager = demo_idle, gc_phase = GcAsleep\<rparr>;
       s1 = snd (open_runtime demo_services nb_b (lit ''lab'') None (gc_manager g));
       g' = gc_resume demo_services (g\<lparr>gc_manager := s1\<rparr>)
   in room_state (heap (gc_manager g') [6]) = STOPPING \<and> lit ''lab'' \<in> attached_clients (heap (gc_manager g') [6])"
proof -
  let ?g = "gc_wake demo_services \<lparr>gc_manager = demo_idle, gc_phase = GcAsleep\<rparr>"
  have g: "?g = \<lparr>gc_manager = stop_begin demo_services [0] (snd (read_clock demo_services demo_idle)),
      gc_phase = GcStopping [0] [[6]]\<rparr>"
    by (simp add: gc_wake_asleep demo_idle_state gc_go_def)
  let ?o = "open_runtime demo_services nb_b (lit ''lab'') None (gc_manager ?g)"
  have o: "fst ?o = Inr [6]" "[6] \<in> set (rooms (snd ?o))"
    unfolding g by (simp_all add: stop_begin_def demo_idle_def demo_opened_def nb_b_def demo_simps)
  have p: "gc_phase ?g = GcStopping [0] [[6]]" by (simp add: g)
  have "?o = (Inr [6], snd ?o)" using o(1) by (simp add: prod_eq_iff)
  from sweep_stops_rooms_taken_back [OF p _ this o(2) refl] show ?thesis by (simp add: Let_def)
qed

text \<open>
  C38: a runtime opened while its predecessor is being stopped is lost.  While a stop awaits the
  session manager, a client that opens the notebook gets a new live room; when the stop ends it removes
  the notebook's entry, which by then names the new room.  The client's room stays registered and
  live, with a session and a kernel, but no lookup finds it and the next open makes another one.
\<close>

theorem runtime_opened_while_stopping_is_lost:
  assumes "rtm_ok s" and "r \<in> set (rooms s)" and "is_live (heap s r)" and "nb = room_notebook_id (heap s r)"
    and "s1 = (stop_begin env r s)\<lparr>world := w1\<rparr>" and "drawn_uuid env s1 \<notin> set (rooms s1)"
    and "open_runtime env nb c kname s1 = (Inr r2, s2)"
    and "s3 = stop_finish env r (stop_release env r s2)"
  shows "r2 \<noteq> r \<and> r2 \<in> set (rooms s3) \<and> is_live (heap s3 r2) \<and> c \<in> attached_clients (heap s3 r2)
    \<and> room_notebook_id (heap s3 r2) = nb \<and> kernel_id (heap s3 r2) \<noteq> None
    \<and> get_room_for_notebook nb s3 = None"
proof -
  let ?s = "refresh_room env r s1"
  have s1: "r \<in> set (rooms s1)" "notebook_to_room s1 nb = Some r" "room_state (heap s1 r) = STOPPING"
    "room_notebook_id (heap s1 r) = nb"
    using assms(2,4,5) rtm_okD(3) [OF assms(1-3)] by (simp_all add: stop_begin_def)
  have known: "load_or_refresh_room env nb s1 = (Inr (Some r), ?s)"
    using s1 by (simp add: load_or_refresh_room_def get_room_for_notebook_def)
  have dead: "\<not> is_live (heap ?s r)" "room_notebook_id (heap ?s r) = nb" "rooms ?s = rooms s1"
      "drawn_uuid env ?s = drawn_uuid env s1"
    using s1 by (simp_all add: refresh_room_def is_live_def drawn_uuid_def)
  obtain s2' where e: "ensure_room env nb kname s1 = (Inr r2, s2')" and s2: "s2 = attach env r2 c s2'"
    using assms(7) by (auto simp: open_runtime_def split: sum.splits prod.splits)
  obtain d where new: "open_new_room env nb d ?s = (Inr r2, s2')"
    using e dead(1) by (auto simp: ensure_room_def known Let_def)
  have eff: "r2 = drawn_uuid env ?s" "r2 \<in> set (rooms s2')" "r \<in> set (rooms s2')"
    "room_notebook_id (heap s2' r2) = nb" "kernel_id (heap s2' r2) \<noteq> None" "r \<noteq> r2 \<Longrightarrow> heap s2' r = heap ?s r"
    by (rule open_new_room_effect [OF new], simp add: s1 dead)+
  have "r2 \<noteq> r" using eff(1) assms(6) s1(1) dead by auto
  with eff dead(2) show ?thesis
    by (simp add: assms(8) s2 stop_finish_def stop_release_def attach_def Let_def get_room_for_notebook_def is_live_def)
qed

lemma runtime_opened_while_stopping_is_lost_witness:
  "get_room_for_notebook nb_a (stop_finish demo_services [0] (stop_release demo_services [0]
     (snd (open_runtime demo_services nb_a (lit ''lab'') None (stop_begin demo_services [0] demo_idle))))) = None
   \<and> is_live (heap (stop_finish demo_services [0] (stop_release demo_services [0]
     (snd (open_runtime demo_services nb_a (lit ''lab'') None (stop_begin demo_services [0] demo_idle))))) [51])"
proof -
  let ?s1 = "stop_begin demo_services [0] demo_idle"
  let ?o = "open_runtime demo_services nb_a (lit ''lab'') None ?s1"
  have f: "fst ?o = Inr [51]" "drawn_uuid demo_services ?s1 \<notin> set (rooms ?s1)" "nb_a = room_notebook_id (heap demo_idle [0])"
    by (simp_all add: stop_begin_def demo_idle_def demo_opened_def nb_b_def demo_simps)
  have o: "?o = (Inr [51], snd ?o)" using f(1) by (simp add: prod_eq_iff)
  have r: "[0] \<in> set (rooms demo_idle)" "is_live (heap demo_idle [0])" by (simp_all add: demo_idle_state is_live_def)
  have w: "?s1 = ?s1\<lparr>world := world ?s1\<rparr>" by simp
  from runtime_opened_while_stopping_is_lost [OF demo_idle_state(3) r f(3) w f(2) o refl] show ?thesis by simp
qed

end
