(* ===== verification/Hn_CliText.thy ===== *)
theory Hn_CliText
  imports Hn_Client
begin

text \<open>
  What the command line prints (\<^verbatim>\<open>cli/main.py\<close>): JSON, the choice of an output mode, the hints, the
  payloads of \<open>status\<close> and \<open>cat\<close>, and the human-readable renderings of them.  The payloads are the
  dictionaries the CLI itself builds, so a list or a dictionary is expected where the code iterates.
\<close>

section \<open>Errors\<close>

definition click_exception :: "pystr \<Rightarrow> pyexc" where
  "click_exception m = OtherError (lit ''ClickException'') m"

definition click_exit :: "nat \<Rightarrow> pyexc" where
  "click_exit n = OtherError (lit ''Exit'') (dec_digits n)"

text \<open>\<open>@_cli_errors\<close>; \<open>is_http\<close> says which exceptions are httpx's.\<close>

definition cli_error :: "(nat \<Rightarrow> bool) \<Rightarrow> (pyexc \<Rightarrow> bool) \<Rightarrow> pyexc \<Rightarrow> pyexc" where
  "cli_error pr is_http e =
     (if is_hypernote_error e \<or> is_http e then click_exception (error_message pr e) else e)"

section \<open>JSON\<close>

definition comma_colon :: dump_options where
  "comma_colon = compact_dump\<lparr>sort_keys := False\<rparr>"

definition compact_json :: "json \<Rightarrow> pystr" where
  "compact_json j = dumps comma_colon j"

text \<open>\<open>json.dumps(data, indent=2)\<close>; \<open>n\<close> is the indentation of the value's line.\<close>

definition line_break :: "nat \<Rightarrow> pystr" where
  "line_break n = 10 # replicate n 32"

fun indented :: "nat \<Rightarrow> json \<Rightarrow> pystr" where
  "indented n (JList xs) =
     (if xs = [] then lit ''[]''
      else lit ''['' @ line_break (n + 2) @ py_join (lit '','' @ line_break (n + 2)) (map (indented (n + 2)) xs)
           @ line_break n @ lit '']'')"
| "indented n (JDict d) =
     (if d = [] then [123, 125]
      else [123] @ line_break (n + 2)
           @ py_join (lit '','' @ line_break (n + 2))
               (map (\<lambda>(k, v). json_string True k @ lit '': '' @ indented (n + 2) v) d)
           @ line_break n @ [125])"
| "indented n j = dumps default_dump j"

definition pretty_json :: "json \<Rightarrow> pystr" where
  "pretty_json j = indented 0 j"

definition append_hints :: "jobj \<Rightarrow> pystr list \<Rightarrow> jobj" where
  "append_hints payload hints =
     (if hints = [] then payload else set_field ''hints'' (JList (map JStr hints)) payload)"

section \<open>Output modes\<close>

datatype out_mode = ModeJson | ModeHuman | ModePretty | ModeStreamJson | ModeWatchHuman

definition final_output_mode :: "bool \<Rightarrow> bool \<Rightarrow> bool \<Rightarrow> pyexc + out_mode" where
  "final_output_mode tty json_flag human_flag =
     (if json_flag \<and> human_flag then Inl (click_exception (lit ''Choose only one of --json or --human''))
      else if json_flag then Inr ModeJson
      else if human_flag then Inr ModeHuman
      else Inr (if tty then ModeHuman else ModeJson))"

record run_flags =
  fl_json :: bool
  fl_pretty :: bool
  fl_human :: bool
  fl_watch :: bool
  fl_stream_json :: bool
  fl_progress :: "string option"
  fl_timeout :: "time option"
  fl_brief :: bool

definition run_output_mode :: "bool \<Rightarrow> run_flags \<Rightarrow> pyexc + out_mode" where
  "run_output_mode tty f =
     (if fl_stream_json f \<and> (fl_json f \<or> fl_human f \<or> fl_watch f)
      then Inl (click_exception (lit ''--stream-json cannot be combined with --json, --human, or --watch''))
      else if fl_watch f \<and> fl_json f
      then Inl (click_exception (lit ''--watch cannot be combined with --json''))
      else if fl_json f \<and> fl_human f
      then Inl (click_exception (lit ''Choose only one of --json or --human''))
      else if fl_stream_json f then Inr ModeStreamJson
      else if fl_watch f then Inr ModeWatchHuman
      else if fl_json f then Inr ModeJson
      else if fl_human f then Inr ModeHuman
      else Inr (if tty then ModeWatchHuman else ModeJson))"

definition validate_brief_run_flags :: "run_flags \<Rightarrow> pyexc + unit" where
  "validate_brief_run_flags f =
     (if fl_brief f \<and> (fl_watch f \<or> fl_stream_json f \<or> fl_human f)
      then Inl (click_exception (lit ''--brief cannot be combined with --watch, --stream-json, or --human''))
      else Inr ())"

section \<open>Hints\<close>

definition job_hint :: "pystr \<Rightarrow> pystr" where
  "job_hint command = lit ''Run `'' @ command @ lit ''`''"

definition dedupe_hints :: "pystr option list \<Rightarrow> pystr list" where
  "dedupe_hints hints =
     fold (\<lambda>h acc. case h of None \<Rightarrow> acc | Some s \<Rightarrow> if s = [] \<or> s \<in> set acc then acc else acc @ [s]) hints []"

text \<open>The command every result suggests next: insert and run a cell.\<close>

definition ix_hint :: "pystr \<Rightarrow> pystr" where
  "ix_hint path = job_hint (lit ''hypernote ix '' @ shlex_quote path @ lit '' -s '' @ [39] @ lit ''print(42)'' @ [39])"

definition status_hints :: "pystr \<Rightarrow> pystr option \<Rightarrow> pystr list" where
  "status_hints path token =
     dedupe_hints
       ([Some (job_hint (lit ''hypernote cat '' @ shlex_quote path))]
        @ (case py_or token None of
             None \<Rightarrow> []
           | Some t \<Rightarrow> [Some (job_hint (lit ''hypernote diff '' @ shlex_quote path @ lit '' --snapshot '' @ shlex_quote t))])
        @ [Some (ix_hint path)])"

definition cat_hints :: "pystr \<Rightarrow> pystr option \<Rightarrow> pystr list" where
  "cat_hints path image_cell =
     dedupe_hints
       ((case py_or image_cell None of
           None \<Rightarrow> []
         | Some c \<Rightarrow> [Some (job_hint (lit ''hypernote cat '' @ shlex_quote path @ lit '' --output '' @ shlex_quote c
                          @ lit '' --save-images tmp/hypernote-images''))])
        @ [Some (job_hint (lit ''hypernote status '' @ shlex_quote path)), Some (ix_hint path)])"

definition image_output_cell_id :: "jobj list \<Rightarrow> json" where
  "image_output_cell_id cells =
     (case find (\<lambda>c. list_ex (\<lambda>out. list_ex (\<lambda>k. list_ex (\<lambda>me. k = JStr (fst me)) image_mime_extensions)
                   (list_of (get_or ''data_keys'' (JList []) (dict_of out))))
                 (list_of (get_or ''outputs'' (JList []) c))) cells of
        None \<Rightarrow> JNull
      | Some c \<Rightarrow> opt_json (field ''id'' c))"

text \<open>The first cell a job's hints name, and the hints by the job's status.\<close>

definition job_result_hints :: "(nat \<Rightarrow> bool) \<Rightarrow> pystr \<Rightarrow> job_handle \<Rightarrow> pystr list \<Rightarrow> pystr list" where
  "job_result_hints pr path job inserted =
     (let first = (case inserted of
                     i # _ \<Rightarrow> Some i
                   | [] \<Rightarrow> (case jb_cell_ids job of j # _ \<Rightarrow> Some (py_str pr j) | [] \<Rightarrow> None));
          q = shlex_quote path
      in if jb_status job = SUCCEEDED
         then dedupe_hints
           [Some (job_hint (lit ''hypernote cat '' @ q
              @ (case first of None \<Rightarrow> [] | Some c \<Rightarrow> lit '' --cell '' @ shlex_quote c))),
            Some (job_hint (lit ''hypernote status '' @ q)), Some (ix_hint path)]
         else if jb_status job = job_status.FAILED \<and> first \<noteq> None
         then dedupe_hints
           [Some (job_hint (lit ''hypernote cat '' @ q @ lit '' --output '' @ shlex_quote (the first))),
            Some (job_hint (lit ''hypernote edit replace '' @ q @ lit '' '' @ shlex_quote (the first)
              @ lit '' -s '' @ [39] @ lit ''...'' @ [39])),
            Some (job_hint (lit ''hypernote exec '' @ q @ lit '' '' @ shlex_quote (the first)))]
         else if jb_status job = job_status.AWAITING_INPUT
         then dedupe_hints
           [Some (job_hint (lit ''hypernote job stdin '' @ shlex_quote (jb_id job) @ lit '' --value '' @ [39]
              @ lit ''...'' @ [39])),
            Some (job_hint (lit ''hypernote job await '' @ shlex_quote (jb_id job)))]
         else dedupe_hints
           [Some (job_hint (lit ''hypernote job get '' @ shlex_quote (jb_id job))),
            Some (job_hint (lit ''hypernote job await '' @ shlex_quote (jb_id job)))])"

definition with_hints_text :: "pystr \<Rightarrow> pystr list \<Rightarrow> pystr" where
  "with_hints_text body hints =
     py_join [10] ((if body = [] then [] else [body]) @ map (\<lambda>h. lit ''hint: '' @ h) hints)"

section \<open>Payloads\<close>

definition command_of :: "string \<Rightarrow> pystr \<Rightarrow> jobj" where
  "command_of c path = [(lit ''command'', JStr (lit c)), (lit ''path'', JStr path)]"

definition update_all :: "jobj \<Rightarrow> jobj \<Rightarrow> jobj" where
  "update_all new d = fold (\<lambda>(k, v) d. dict_set k v d) new d"

definition build_status_payload :: "text_env \<Rightarrow> compact_options \<Rightarrow> pystr \<Rightarrow> notebook_status \<Rightarrow> pyexc + jobj" where
  "build_status_payload env co path st =
     (case compact_status env co (co_full_source co) st of
        Inl e \<Rightarrow> Inl e
      | Inr d \<Rightarrow> Inr (update_all d (command_of ''status'' path)))"

definition brief_status_payload :: "pystr \<Rightarrow> notebook_status \<Rightarrow> jobj" where
  "brief_status_payload path st =
     update_all (dict_pop (lit ''snapshot'') (status_aggregates st)) (command_of ''status'' path)"

definition status_summary_field :: "notebook_status \<Rightarrow> json" where
  "status_summary_field st = opt_json (field ''summary'' (status_aggregates st))"

definition cat_cell_payload :: "pystr \<Rightarrow> notebook_status \<Rightarrow> pystr \<Rightarrow> (cell_status \<Rightarrow> pyexc + jobj) \<Rightarrow> pyexc + jobj" where
  "cat_cell_payload path st cid show =
     bind_result (status_cell st cid) (\<lambda>c.
     bind_result (show c) (\<lambda>d.
       Inr (update_all d (command_of ''cat'' path
              @ [(lit ''summary'', status_summary_field st), (lit ''cell_id'', JStr cid),
                 (lit ''selected_cell_id'', JStr cid)]))))"

definition cat_output_payload :: "text_env \<Rightarrow> bool \<Rightarrow> int \<Rightarrow> bool \<Rightarrow> pystr \<Rightarrow> notebook_status \<Rightarrow> pystr \<Rightarrow> pyexc + jobj" where
  "cat_output_payload env tail max_chars full_output path st cid =
     cat_cell_payload path st cid (output_payload (printable env) max_chars full_output tail)"

definition cat_mime_payload :: "text_env \<Rightarrow> int \<Rightarrow> bool \<Rightarrow> pystr \<Rightarrow> notebook_status \<Rightarrow> pystr \<Rightarrow> pyexc + jobj" where
  "cat_mime_payload env max_chars full_output path st cid =
     cat_cell_payload path st cid (mime_bundle_payload (printable env) (if full_output then None else Some max_chars))"

text \<open>The options of \<open>cat\<close> that select cells.\<close>

record cat_options =
  ct_cell :: "pystr option"
  ct_output :: "pystr option"
  ct_tail :: "pystr option"
  ct_mime :: "pystr option"
  ct_images :: "pystr option"

definition chosen :: "pystr option \<Rightarrow> pystr option" where
  "chosen v = py_or v None"

definition cat_cells :: "text_env \<Rightarrow> compact_options \<Rightarrow> cat_options \<Rightarrow> notebook_status \<Rightarrow> pyexc + jobj list" where
  "cat_cells env co ct st =
     (case chosen (ct_cell ct) of
        None \<Rightarrow> compact_cells env co st
      | Some cid \<Rightarrow>
          bind_result (status_cell st cid) (\<lambda>c.
          bind_result (compact_cell (printable env) (co_full_source co) (co_include_outputs co) (co_full_output co)
                         (co_max_output_chars co) c) (\<lambda>d. Inr [d])))"

definition positive_int :: "json \<Rightarrow> bool" where
  "positive_int j = (case j of JInt i \<Rightarrow> 0 < i | _ \<Rightarrow> False)"

definition cat_payload :: "text_env \<Rightarrow> compact_options \<Rightarrow> cat_options \<Rightarrow> pystr \<Rightarrow> notebook_status \<Rightarrow> pyexc + jobj" where
  "cat_payload env co ct path st =
     (case chosen (ct_mime ct) of
        Some cid \<Rightarrow> cat_mime_payload env (co_max_output_chars co) (co_full_output co) path st cid
      | None \<Rightarrow>
     (case chosen (ct_output ct) of
        Some cid \<Rightarrow> cat_output_payload env False (co_max_output_chars co) (co_full_output co) path st cid
      | None \<Rightarrow>
     (case chosen (ct_tail ct) of
        Some cid \<Rightarrow> cat_output_payload env True (co_max_output_chars co) (co_full_output co) path st cid
      | None \<Rightarrow>
          bind_result (cat_cells env co ct st) (\<lambda>cells.
            Inr (command_of ''cat'' path
              @ [(lit ''summary'', status_summary_field st), (lit ''cells_total'', JInt (int (length cells))),
                 (lit ''failed_cells'',
                    JInt (int (length (filter (\<lambda>c. truthy (opt_json (field ''has_error_output'' c))) cells)))),
                 (lit ''cells_with_outputs'',
                    JInt (int (length (filter (\<lambda>c. positive_int (get_or ''output_count'' (JInt 0) c)) cells)))),
                 (lit ''cell_id'', opt_str (ct_cell ct)), (lit ''selected_cell_id'', opt_str (ct_cell ct)),
                 (lit ''cells'', JList (map JDict cells))])))))"

text \<open>The cell whose images are saved: the first of the options that was given.\<close>

definition focused_cell :: "cat_options \<Rightarrow> pystr option" where
  "focused_cell ct = py_or (ct_mime ct) (py_or (ct_output ct) (py_or (ct_tail ct) (chosen (ct_cell ct))))"

definition build_cat_payload ::
  "'w client_env \<Rightarrow> 'w file_system \<Rightarrow> config \<Rightarrow> compact_options \<Rightarrow> cat_options \<Rightarrow> pystr \<Rightarrow> 'w \<Rightarrow> (jobj, 'w) outcome" where
  "build_cat_payload env fs cfg co ct path =
     mbind (sdk_status env cfg True path) (\<lambda>st.
     mbind (case ct_images ct of
              None \<Rightarrow> mret None
            | Some directory \<Rightarrow>
                mbind (case focused_cell ct of
                         Some cid \<Rightarrow> mbind (of_result (status_cell st cid)) (save_image_outputs (text_ops env) fs directory)
                       | None \<Rightarrow> save_status_images (text_ops env) fs directory st) (\<lambda>saved. mret (Some saved))) (\<lambda>saved.
     mbind (of_result (cat_payload (text_ops env) co ct path st)) (\<lambda>payload.
       mret (case saved of
               None \<Rightarrow> payload
             | Some files \<Rightarrow> set_field ''saved_images'' (JList (map JStr files)) payload))))"

section \<open>Human-readable renderings\<close>

text \<open>\<open>Path(s).name\<close>.\<close>

primrec slash_parts :: "pystr \<Rightarrow> pystr list" where
  "slash_parts [] = [[]]"
| "slash_parts (c # s) = (if c = 47 then [] # slash_parts s else (c # hd (slash_parts s)) # tl (slash_parts s))"

definition path_name :: "pystr \<Rightarrow> pystr" where
  "path_name s =
     (case rev (filter (\<lambda>p. p \<noteq> [] \<and> p \<noteq> lit ''.'') (slash_parts s)) of [] \<Rightarrow> [] | p # _ \<Rightarrow> p)"

definition status_summary :: "notebook_status \<Rightarrow> pystr option \<Rightarrow> jobj" where
  "status_summary st runtime_text =
     (let number = (\<lambda>P. length (filter P (ns_cells st)));
          total = length (ns_cells st);
          code = number (\<lambda>c. cs_type c = CODE);
          markdown = number (\<lambda>c. cs_type c = MARKDOWN);
          executed = number (\<lambda>c. cs_execution_count c \<noteq> JNull);
          failed = number has_error_output_of;
          with_output = number (\<lambda>c. outputs_or_empty c \<noteq> []);
          outputs = sum_list (map (\<lambda>c. length (outputs_or_empty c)) (ns_cells st));
          runtime = py_or runtime_text (Some (runtime_state_value (ns_runtime st)));
          headline = py_join dot
            ([path_name (ns_path st),
              dec_digits total @ lit '' cells ('' @ dec_digits code @ lit '' code, '' @ dec_digits markdown @ lit '' markdown)'',
              dec_digits executed @ lit '' executed'', dec_digits failed @ lit '' failed'',
              dec_digits outputs @ lit '' outputs'']
             @ (case runtime of None \<Rightarrow> [] | Some r \<Rightarrow> [lit ''runtime '' @ r]))
      in [(lit ''headline'', JStr headline), (lit ''cell_count'', JInt (int total)), (lit ''code_cells'', JInt (int code)),
          (lit ''markdown_cells'', JInt (int markdown)), (lit ''executed_cells'', JInt (int executed)),
          (lit ''failed_cells'', JInt (int failed)), (lit ''cells_with_output'', JInt (int with_output)),
          (lit ''output_count'', JInt (int outputs)), (lit ''runtime'', opt_str runtime)])"

definition kinds_text :: "change_kind list \<Rightarrow> pystr" where
  "kinds_text ks = py_join (lit '', '') (map change_kind_value ks)"

definition human_diff :: "(nat \<Rightarrow> bool) \<Rightarrow> bool \<Rightarrow> notebook_status \<Rightarrow> pystr" where
  "human_diff pr full st =
     py_join [10] (ns_summary st # concat (map (\<lambda>c.
       (lit ''- '' @ py_str pr (cs_id c) @ lit '': ''
        @ (if cs_change_kinds c = [] then lit ''unchanged'' else kinds_text (cs_change_kinds c)))
       # (case cs_source c of
            None \<Rightarrow> []
          | Some s \<Rightarrow> if full \<and> s \<noteq> [] then [lit ''  '' @ s] else [])) (ns_cells st)))"

text \<open>The lines of one compact cell after its heading, shared by \<open>status\<close> and \<open>cat\<close>.\<close>

definition shown :: "(nat \<Rightarrow> bool) \<Rightarrow> string \<Rightarrow> jobj \<Rightarrow> pystr" where
  "shown pr k d = py_str pr (opt_json (field k d))"

definition truthy_field :: "string \<Rightarrow> jobj \<Rightarrow> bool" where
  "truthy_field k d = truthy (opt_json (field k d))"

definition cell_preview_lines :: "(nat \<Rightarrow> bool) \<Rightarrow> jobj \<Rightarrow> pystr list" where
  "cell_preview_lines pr c =
     (if field ''source_preview'' c \<noteq> None
      then (lit ''  '' @ shown pr ''source_preview'' c) #
           (if truthy_field ''source_truncated'' c
            then [lit ''  truncated, '' @ shown pr ''source_total_chars'' c
                  @ lit '' chars total; use --full to see complete source''] else [])
      else if field ''source'' c \<noteq> None then [lit ''  '' @ shown pr ''source'' c] else [])
     @ (if truthy_field ''output_preview'' c
        then (lit ''  out: '' @ shown pr ''output_preview'' c) #
             (if truthy_field ''output_truncated'' c
              then [lit ''  truncated, '' @ shown pr ''output_total_chars'' c
                    @ lit '' chars total; use --full-output to see complete text''] else [])
        else [])"

definition hints_of :: "(nat \<Rightarrow> bool) \<Rightarrow> jobj \<Rightarrow> pystr list" where
  "hints_of pr d = map (py_str pr) (list_of (get_or ''hints'' (JList []) d))"

definition human_status_payload :: "(nat \<Rightarrow> bool) \<Rightarrow> jobj \<Rightarrow> pystr" where
  "human_status_payload pr payload =
     (let summary = dict_of (get_or ''summary'' (JDict []) payload);
          headline = py_str pr (get_or ''headline'' (get_or ''path'' (JStr (lit ''status'')) payload) summary)
      in with_hints_text
           (py_join [10]
             ([headline]
              @ (if truthy_field ''snapshot'' payload then [lit ''snapshot: '' @ shown pr ''snapshot'' payload] else [])
              @ (if truthy_field ''empty'' payload then [lit ''0 matching cells''] else [])
              @ concat (map (\<lambda>j. let c = dict_of j in
                   (lit ''- '' @ shown pr ''id'' c @ lit '' ('' @ shown pr ''type'' c @ lit '') exec=''
                    @ shown pr ''execution_count'' c @ lit '' outputs=''
                    @ py_str pr (get_or ''output_count'' (JInt 0) c))
                   # cell_preview_lines pr c) (list_of (get_or ''cells'' (JList []) payload)))))
           (hints_of pr payload))"

text \<open>\<open>_human_cat\<close> for one cell's bundles, for one cell's outputs, and for cells.\<close>

definition cat_heading :: "(nat \<Rightarrow> bool) \<Rightarrow> jobj \<Rightarrow> pystr" where
  "cat_heading pr data =
     path_name (py_str pr (get_or ''path'' (JStr (lit ''notebook'')) data)) @ dot
     @ py_str pr (get_or ''selected_cell_id'' (opt_json (field ''cell_id'' data)) data) @ dot
     @ py_str pr (get_or ''output_count'' (JInt 0) data) @ lit '' outputs''"

definition saved_lines :: "(nat \<Rightarrow> bool) \<Rightarrow> jobj \<Rightarrow> pystr list" where
  "saved_lines pr data = map (\<lambda>s. lit ''saved: '' @ py_str pr s) (list_of (get_or ''saved_images'' (JList []) data))"

definition mime_part :: "(nat \<Rightarrow> bool) \<Rightarrow> jobj \<Rightarrow> pystr \<times> json \<Rightarrow> pystr" where
  "mime_part pr bundle mv =
     (case mv of (mime, content) \<Rightarrow>
        let total = (case dict_get (dict_of (get_or ''data_truncated'' (JDict []) bundle)) mime of
                       Some n \<Rightarrow> n
                     | None \<Rightarrow> content_length content)
        in if total = JNull then mime else mime @ lit '' ('' @ py_str pr total @ lit '' chars)'')"

definition human_mime :: "(nat \<Rightarrow> bool) \<Rightarrow> jobj \<Rightarrow> pystr" where
  "human_mime pr data =
     with_hints_text
       (py_join [10]
         ([cat_heading pr data]
          @ concat (map (\<lambda>j. let bundle = dict_of j;
                               parts = map (mime_part pr bundle) (dict_of (get_or ''data'' (JDict []) bundle));
                               joined = py_join (lit '', '') parts
                           in (lit ''- '' @ py_str pr (get_or ''output_type'' (JStr (lit ''unknown'')) bundle) @ lit '': ''
                               @ (if joined = [] then lit ''empty'' else joined))
                              # (if truthy_field ''hint'' bundle then [lit ''  '' @ shown pr ''hint'' bundle] else []))
               (list_of (get_or ''mime_bundles'' (JList []) data)))
          @ saved_lines pr data))
       (hints_of pr data)"

definition human_outputs :: "(nat \<Rightarrow> bool) \<Rightarrow> jobj \<Rightarrow> pystr" where
  "human_outputs pr data =
     with_hints_text
       (py_join [10]
         ([cat_heading pr data]
          @ (if truthy_field ''tail_output'' data then [lit ''tail: '' @ shown pr ''tail_output'' data] else [])
          @ concat (map (\<lambda>j. let out = dict_of j in
                if truthy_field ''text'' out
                then [lit ''- '' @ py_str pr (get_or ''output_type'' (JStr (lit ''unknown'')) out) @ lit '': '' @ shown pr ''text'' out]
                else []) (list_of (get_or ''outputs'' (JList []) data)))
          @ saved_lines pr data))
       (hints_of pr data)"

definition cat_cell_lines :: "(nat \<Rightarrow> bool) \<Rightarrow> jobj \<Rightarrow> pystr list" where
  "cat_cell_lines pr c =
     (let outputs = list_of (get_or ''outputs'' (JList []) c)
      in [lit ''- '' @ shown pr ''id'' c @ lit '' ('' @ shown pr ''type'' c @ lit '')'',
          lit ''  exec='' @ shown pr ''execution_count'' c @ lit '' outputs=''
            @ py_str pr (get_or ''output_count'' (JInt (int (length outputs))) c)]
         @ cell_preview_lines pr c
         @ concat (map (\<lambda>j. let out = dict_of j in
             (if truthy_field ''text'' out
              then [lit ''  output['' @ py_str pr (get_or ''output_type'' (JStr (lit ''unknown'')) out) @ lit '']: ''
                    @ shown pr ''text'' out] else [])
             @ (if truthy_field ''hint'' out then [lit ''  '' @ shown pr ''hint'' out] else [])) outputs))"

definition human_cat :: "(nat \<Rightarrow> bool) \<Rightarrow> jobj \<Rightarrow> pystr" where
  "human_cat pr data =
     (if field ''mime_bundles'' data \<noteq> None \<and> field ''cells'' data = None then human_mime pr data
      else if field ''outputs'' data \<noteq> None \<and> field ''cells'' data = None then human_outputs pr data
      else
        let cells = list_of (get_or ''cells'' (JList []) data);
            summary = dict_of (get_or ''summary'' (JDict []) data);
            headline = py_str pr (get_or ''headline''
              (JStr (path_name (shown pr ''path'' data) @ dot @ dec_digits (length cells) @ lit '' cells'')) summary)
        in with_hints_text
             (py_join [10]
               ([headline] @ (if cells = [] then [lit ''- 0 matching cells''] else [])
                @ concat (map (\<lambda>j. cat_cell_lines pr (dict_of j)) cells) @ saved_lines pr data))
             (hints_of pr data))"

end
