(* ===== verification/Hn_CliRun.thy ===== *)
theory Hn_CliRun
  imports Hn_CliText
begin

text \<open>
  Running cells from the command line (\<^verbatim>\<open>cli/main.py\<close>): the events and output deltas of a watched job,
  the watcher's loop, the output of a run and its exit code, and the commands \<open>ix\<close> (insert and run, one
  cell or a batch), \<open>exec\<close>, \<open>run-all\<close>, \<open>restart-run-all\<close> and \<open>job await\<close>.
\<close>

section \<open>The terminal\<close>

text \<open>\<open>echo t nl\<close> is \<open>click.echo\<close>; \<open>httpx_error\<close> says which exceptions are httpx's.\<close>

record 'w cli_env =
  sdk :: "'w client_env"
  echo :: "pystr \<Rightarrow> bool \<Rightarrow> 'w \<Rightarrow> 'w"
  stdout_tty :: bool
  stdin_tty :: bool
  read_stdin :: "'w \<Rightarrow> (pystr, 'w) outcome"
  read_file :: "pystr \<Rightarrow> 'w \<Rightarrow> (pystr, 'w) outcome"
  files :: "'w file_system"
  httpx_error :: "pyexc \<Rightarrow> bool"
  process_env :: "pystr \<Rightarrow> pystr option"

abbreviation shows_char :: "'w cli_env \<Rightarrow> nat \<Rightarrow> bool" where
  "shows_char env \<equiv> printable (text_ops (sdk env))"

definition say :: "'w cli_env \<Rightarrow> pystr \<Rightarrow> 'w \<Rightarrow> (unit, 'w) outcome" where
  "say env t w = (Inr (), echo env t True w)"

definition echo_json :: "'w cli_env \<Rightarrow> bool \<Rightarrow> json \<Rightarrow> 'w \<Rightarrow> (unit, 'w) outcome" where
  "echo_json env pretty j = say env (if pretty then pretty_json j else compact_json j)"

definition render_result :: "'w cli_env \<Rightarrow> out_mode \<Rightarrow> jobj \<Rightarrow> pystr \<Rightarrow> 'w \<Rightarrow> (unit, 'w) outcome" where
  "render_result env mode d human =
     (if mode = ModeJson then echo_json env False (JDict d)
      else if mode = ModeHuman then say env human
      else echo_json env True (JDict d))"

text \<open>A loop of the SDK may run out of fuel, which is \<open>None\<close>; operations compose as before.\<close>

definition obind ::
  "('w \<Rightarrow> ('a, 'w) outcome option) \<Rightarrow> ('a \<Rightarrow> 'w \<Rightarrow> ('b, 'w) outcome option) \<Rightarrow> 'w \<Rightarrow> ('b, 'w) outcome option" where
  "obind m f w =
     (case m w of
        None \<Rightarrow> None
      | Some (Inl e, w1) \<Rightarrow> Some (Inl e, w1)
      | Some (Inr x, w1) \<Rightarrow> f x w1)"

definition ended :: "('w \<Rightarrow> ('a, 'w) outcome) \<Rightarrow> 'w \<Rightarrow> ('a, 'w) outcome option" where
  "ended m w = Some (m w)"

lemma obind_eq_Some:
  "obind m f w = Some (r, w') \<longleftrightarrow>
     (\<exists>e. m w = Some (Inl e, w') \<and> r = Inl e) \<or> (\<exists>x w1. m w = Some (Inr x, w1) \<and> f x w1 = Some (r, w'))"
  by (auto simp: obind_def split: option.splits prod.splits sum.splits)

lemma obind_InrE:
  assumes "obind m f w = Some (Inr y, w')"
  obtains x w1 where "m w = Some (Inr x, w1)" and "f x w1 = Some (Inr y, w')"
  using assms by (auto simp: obind_eq_Some)

lemma ended_eq [simp]: "ended m w = Some x \<longleftrightarrow> m w = x"
  by (simp add: ended_def)

section \<open>Output deltas\<close>

text \<open>
  Python's equality of decoded JSON: the order of a dictionary's keys does not matter, and a boolean equals
  the number 0 or 1.  A float is its text, so it is compared with floats, by their texts.
\<close>

function (sequential) json_eq :: "json \<Rightarrow> json \<Rightarrow> bool" where
  "json_eq (JList xs) (JList ys) \<longleftrightarrow> length xs = length ys \<and> list_all (\<lambda>(x, y). json_eq x y) (zip xs ys)"
| "json_eq (JDict d) (JDict e) \<longleftrightarrow>
     length d = length e
     \<and> list_all (\<lambda>(k, v). case dict_get e k of None \<Rightarrow> False | Some w \<Rightarrow> json_eq v w) d"
| "json_eq (JBool b) (JInt n) \<longleftrightarrow> n = of_bool b"
| "json_eq (JInt n) (JBool b) \<longleftrightarrow> n = of_bool b"
| "json_eq i j \<longleftrightarrow> i = j"
  by pat_completeness auto
termination
proof (relation "measure (\<lambda>(i, j). size i)", goal_cases)
  case (2 xs ys z x y)
  then have "x \<in> set xs" by (auto dest: set_zip_leftD)
  then have "size x < Suc (size_list size xs)" by (simp add: less_Suc_eq_le size_list_estimation')
  then show ?case by simp
next
  case (3 d e z k v w)
  then have "(k, v) \<in> set d" by auto
  then have "size v < Suc (size_list (size_prod (\<lambda>x. 0) size) d)"
    by (induction d) (auto simp: less_Suc_eq_le)
  then show ?case by simp
qed simp

definition output_delta :: "(nat \<Rightarrow> bool) \<Rightarrow> jobj \<times> jobj \<Rightarrow> jobj list" where
  "output_delta pr pc =
     (case pc of (prev, now) \<Rightarrow>
        let changed = (if json_eq (JDict now) (JDict prev) then [] else [now])
        in if output_type_is ''stream'' prev \<and> output_type_is ''stream'' now
              \<and> json_eq (opt_json (field ''name'' prev)) (opt_json (field ''name'' now))
           then
             let old = py_str pr (get_or ''text'' (JStr []) prev);
                 new = py_str pr (get_or ''text'' (JStr []) now)
             in if take (length old) new = old \<and> new \<noteq> old
                then [[(lit ''output_type'', JStr (lit ''stream'')), (lit ''name'', opt_json (field ''name'' now)),
                       (lit ''text'', JStr (drop (length old) new))]]
                else changed
           else changed)"

definition output_deltas :: "(nat \<Rightarrow> bool) \<Rightarrow> jobj list \<Rightarrow> jobj list \<Rightarrow> jobj list" where
  "output_deltas pr previous current =
     concat (map (output_delta pr) (zip previous current)) @ drop (min (length previous) (length current)) current"

section \<open>Events\<close>

definition event :: "string \<Rightarrow> job_handle \<Rightarrow> jobj \<Rightarrow> jobj" where
  "event name job extra =
     [(lit ''event'', JStr (lit name)), (lit ''job_id'', JStr (jb_id job)),
      (lit ''notebook_path'', JStr (jb_path job))] @ extra"

definition cell_event :: "string \<Rightarrow> job_handle \<Rightarrow> pystr \<Rightarrow> jobj" where
  "cell_event name job cid = event name job [(lit ''cell_id'', JStr cid)]"

definition status_event :: "string \<Rightarrow> job_handle \<Rightarrow> jobj" where
  "status_event name job = event name job [(lit ''status'', JStr (job_status_value (jb_status job)))]"

definition delta_event :: "(nat \<Rightarrow> bool) \<Rightarrow> job_handle \<Rightarrow> pystr \<Rightarrow> jobj \<Rightarrow> jobj" where
  "delta_event pr job cid delta =
     event ''output_delta'' job
       ((lit ''cell_id'', JStr cid)
        # (if output_type_is ''stream'' delta
           then [(lit ''text'', JStr (py_str pr (get_or ''text'' (JStr []) delta)))]
           else [(lit ''output'', JDict delta)]))"

definition emit_human_event :: "'w cli_env \<Rightarrow> string \<Rightarrow> jobj \<Rightarrow> 'w \<Rightarrow> (unit, 'w) outcome" where
  "emit_human_event env progress payload =
     (let name = (\<lambda>s. field ''event'' payload = Some (JStr (lit s)));
          sh = (\<lambda>k. shown (shows_char env) k payload)
      in if progress = ''quiet'' \<and> \<not> name ''job_completed'' \<and> \<not> name ''job_failed'' \<and> \<not> name ''awaiting_input''
         then mret ()
         else if name ''cell_inserted'' then say env (lit ''Inserted '' @ sh ''cell_id'')
         else if name ''job_started'' then say env (lit ''Started job '' @ sh ''job_id'')
         else if name ''cell_started'' \<and> progress = ''full'' then say env (lit ''Running '' @ sh ''cell_id'')
         else if name ''output_delta''
         then (if truthy_field ''text'' payload then (\<lambda>w. (Inr (), echo env (sh ''text'') False w))
               else if truthy_field ''output'' payload then say env (compact_json (opt_json (field ''output'' payload)))
               else mret ())
         else if name ''awaiting_input'' then say env (lit ''Job '' @ sh ''job_id'' @ lit '' awaiting input'')
         else if name ''cell_completed'' \<and> progress = ''full'' then say env (lit ''Completed '' @ sh ''cell_id'')
         else if name ''job_completed'' \<or> name ''job_failed''
         then say env (lit ''Job '' @ sh ''job_id'' @ lit '' '' @ sh ''status'')
         else mret ())"

text \<open>An event as the watcher emits it: in a JSON stream some are left out when it is quiet.\<close>

definition emit :: "'w cli_env \<Rightarrow> out_mode \<Rightarrow> string \<Rightarrow> bool \<Rightarrow> jobj \<Rightarrow> 'w \<Rightarrow> (unit, 'w) outcome" where
  "emit env mode progress even_if_quiet payload =
     (if mode = ModeStreamJson
      then (if even_if_quiet \<or> progress \<noteq> ''quiet'' then say env (compact_json (JDict payload)) else mret ())
      else emit_human_event env progress payload)"

section \<open>Watching a job\<close>

text \<open>What the loop carries: the job, the outputs seen of each cell, the cells that were started.\<close>

record watch =
  wt_job :: job_handle
  wt_seen :: "(pystr, jobj list) pydict"
  wt_started :: "pystr list"

definition seen_outputs :: "watch \<Rightarrow> pystr \<Rightarrow> jobj list" where
  "seen_outputs x cid = (case dict_get (wt_seen x) cid of None \<Rightarrow> [] | Some os \<Rightarrow> os)"

text \<open>
  One cell in one turn.  A cell that is gone is skipped; the execution count is asked for only when
  there are no outputs.
\<close>

definition has_begun :: "'w cli_env \<Rightarrow> config \<Rightarrow> pystr \<Rightarrow> watch \<Rightarrow> pystr \<Rightarrow> jobj list \<Rightarrow> 'w \<Rightarrow> (bool, 'w) outcome" where
  "has_begun env cfg path x cid outputs =
     (if cid \<in> set (wt_started x) then mret False
      else if outputs \<noteq> [] then mret True
      else mbind (handle_execution_count (sdk env) cfg path cid) (\<lambda>count.
             mret (count \<noteq> JNull \<or> jb_status (wt_job x) = RUNNING)))"

definition watch_cell :: "'w cli_env \<Rightarrow> out_mode \<Rightarrow> string \<Rightarrow> config \<Rightarrow> pystr \<Rightarrow> watch \<Rightarrow> pystr \<Rightarrow> 'w \<Rightarrow> (watch, 'w) outcome" where
  "watch_cell env mode progress cfg path x cid =
     mbind (has_cell (sdk env) cfg path cid) (\<lambda>found.
       if \<not> found then mret x
       else
         mbind (handle_outputs (sdk env) cfg path cid) (\<lambda>outputs.
         mbind (has_begun env cfg path x cid outputs) (\<lambda>begun.
         mbind (if begun then emit env mode progress False (cell_event ''cell_started'' (wt_job x) cid) else mret ()) (\<lambda>_.
         mbind (mfor (\<lambda>d. emit env mode progress False (delta_event (shows_char env) (wt_job x) cid d))
                  (output_deltas (shows_char env) (seen_outputs x cid) outputs)) (\<lambda>_.
           mret (x\<lparr>wt_seen := dict_set cid outputs (wt_seen x),
                   wt_started := (if begun then cid # wt_started x else wt_started x)\<rparr>))))))"

primrec watch_cells ::
  "'w cli_env \<Rightarrow> out_mode \<Rightarrow> string \<Rightarrow> config \<Rightarrow> pystr \<Rightarrow> pystr list \<Rightarrow> watch \<Rightarrow> 'w \<Rightarrow> (watch, 'w) outcome" where
  "watch_cells env mode progress cfg path [] x = mret x"
| "watch_cells env mode progress cfg path (c # cs) x =
     mbind (watch_cell env mode progress cfg path x c) (watch_cells env mode progress cfg path cs)"

definition finish_events :: "'w cli_env \<Rightarrow> out_mode \<Rightarrow> string \<Rightarrow> pystr list \<Rightarrow> job_handle \<Rightarrow> 'w \<Rightarrow> (bool, 'w) outcome" where
  "finish_events env mode progress cells job =
     (if jb_status job = job_status.AWAITING_INPUT
      then mbind (emit env mode progress True (status_event ''awaiting_input'' job)) (\<lambda>_. mret True)
      else if jb_status job \<in> {SUCCEEDED, job_status.FAILED, INTERRUPTED}
      then mbind (if progress = ''full''
                  then mfor (\<lambda>c. emit env mode progress True (cell_event ''cell_completed'' job c)) cells
                  else mret ()) (\<lambda>_.
           mbind (emit env mode progress True
                    (status_event (if jb_status job = SUCCEEDED then ''job_completed'' else ''job_failed'') job)) (\<lambda>_.
             mret True))
      else mret False)"

definition watch_turn ::
  "'w cli_env \<Rightarrow> out_mode \<Rightarrow> string \<Rightarrow> config \<Rightarrow> pystr \<Rightarrow> pystr list \<Rightarrow> watch \<Rightarrow> 'w \<Rightarrow> (watch \<times> bool, 'w) outcome" where
  "watch_turn env mode progress cfg path cells x =
     mbind (job_refresh (sdk env) (wt_job x)) (\<lambda>job.
     mbind (watch_cells env mode progress cfg path cells (x\<lparr>wt_job := job\<rparr>)) (\<lambda>y.
     mbind (finish_events env mode progress cells (wt_job y)) (\<lambda>finished. mret (y, finished))))"

definition watch_job ::
  "'w cli_env \<Rightarrow> out_mode \<Rightarrow> string \<Rightarrow> config \<Rightarrow> pystr \<Rightarrow> pystr list \<Rightarrow> time option \<Rightarrow> nat \<Rightarrow> job_handle
   \<Rightarrow> 'w \<Rightarrow> (job_handle, 'w) outcome option" where
  "watch_job env mode progress cfg path inserted timeout fuel job =
     (let cells = (if jb_cell_ids job = [] then inserted else map (py_str (shows_char env)) (jb_cell_ids job))
      in obind (ended (mbind (mfor (\<lambda>c. emit env mode progress True (cell_event ''cell_inserted'' job c)) inserted)
                        (\<lambda>_. emit env mode progress False (status_event ''job_started'' job)))) (\<lambda>_ w.
           case deadline_of (sdk env) timeout w of
             (deadline, w1) \<Rightarrow>
               obind (poll (sdk env) (watch_turn env mode progress cfg path cells) wt_job deadline fuel
                        \<lparr>wt_job = job, wt_seen = map (\<lambda>c. (c, [])) cells, wt_started = []\<rparr>)
                 (\<lambda>x. ended (mret (wt_job x))) w1))"

section \<open>The output of a run\<close>

definition terminal_status :: "job_status \<Rightarrow> bool" where
  "terminal_status st \<longleftrightarrow> st \<in> {SUCCEEDED, job_status.FAILED, INTERRUPTED, job_status.AWAITING_INPUT}"

definition failed_job_status :: "job_status \<Rightarrow> bool" where
  "failed_job_status st \<longleftrightarrow> st \<in> {job_status.FAILED, INTERRUPTED}"

definition exit_if_job_failed :: "job_handle option \<Rightarrow> 'w \<Rightarrow> (unit, 'w) outcome" where
  "exit_if_job_failed job =
     (case job of
        None \<Rightarrow> mret ()
      | Some j \<Rightarrow> if failed_job_status (jb_status j) then mraise (click_exit 1) else mret ())"

text \<open>The brief payload of a cell: some fields of its compact view.\<close>

definition brief_keys :: "string list" where
  "brief_keys = [''id'', ''type'', ''execution_count'', ''output_count'', ''has_error_output'', ''output_preview'',
     ''output_truncated'', ''output_total_chars'']"

definition some_fields :: "string list \<Rightarrow> jobj \<Rightarrow> jobj" where
  "some_fields ks d = List.map_filter (\<lambda>k. map_option (Pair (lit k)) (field k d)) ks"

definition cell_brief_payload :: "'w cli_env \<Rightarrow> config \<Rightarrow> pystr \<Rightarrow> bool \<Rightarrow> pystr \<Rightarrow> 'w \<Rightarrow> (jobj, 'w) outcome" where
  "cell_brief_payload env cfg path outputs_current cid =
     mbind (status_from_handle (sdk env) cfg outputs_current outputs_current path cid) (\<lambda>c.
     mbind (of_result (compact_cell (shows_char env) False False False default_read_output_chars c)) (\<lambda>compact.
       mret (some_fields brief_keys compact
             @ (if outputs_current then [] else [(lit ''outputs_current'', JBool False)]))))"

definition cell_source_brief_payload :: "'w cli_env \<Rightarrow> config \<Rightarrow> pystr \<Rightarrow> pystr \<Rightarrow> 'w \<Rightarrow> (jobj, 'w) outcome" where
  "cell_source_brief_payload env cfg path cid =
     mbind (status_from_handle (sdk env) cfg False True path cid) (\<lambda>c.
     mbind (mret (source_preview False summary_source_chars c)) (\<lambda>preview.
     mbind (handle_type (sdk env) cfg path cid) (\<lambda>ty.
     mbind (handle_execution_count (sdk env) cfg path cid) (\<lambda>count.
     mbind (handle_outputs (sdk env) cfg path cid) (\<lambda>outputs.
       mret ([(lit ''id'', JStr cid), (lit ''type'', JStr (cell_type_value ty)), (lit ''execution_count'', count),
              (lit ''source_preview'', opt_json (field ''text'' preview)),
              (lit ''outputs_preserved'', JInt (int (length outputs)))]
             @ (if truthy_field ''truncated'' preview
                then [(lit ''source_truncated'', JBool True),
                      (lit ''source_total_chars'', opt_json (field ''total_chars'' preview))] else [])))))))"

fun mmap :: "('a \<Rightarrow> 'w \<Rightarrow> ('b, 'w) outcome) \<Rightarrow> 'a list \<Rightarrow> 'w \<Rightarrow> ('b list, 'w) outcome" where
  "mmap f [] = mret []"
| "mmap f (x # xs) = mbind (f x) (\<lambda>y. mbind (mmap f xs) (\<lambda>ys. mret (y # ys)))"

text \<open>
  \<open>_brief_job_result\<close>: the inserted cells first, then the job's other cells, each once, looked up
  before any is shown.
\<close>

fun not_seen :: "'a list \<Rightarrow> 'a list \<Rightarrow> 'a list" where
  "not_seen seen [] = []"
| "not_seen seen (x # xs) = (if x \<in> set seen then not_seen seen xs else x # not_seen (x # seen) xs)"

definition brief_job_result ::
  "'w cli_env \<Rightarrow> string \<Rightarrow> config \<Rightarrow> pystr \<Rightarrow> job_handle \<Rightarrow> pystr list \<Rightarrow> 'w \<Rightarrow> (jobj, 'w) outcome" where
  "brief_job_result env command cfg path job inserted =
     (let ids = map (py_str (shows_char env)) (jb_cell_ids job)
      in mbind (mmap (cell_at (sdk env) cfg path) (not_seen inserted ids)) (\<lambda>others.
         mbind (mmap (cell_brief_payload env cfg path (terminal_status (jb_status job))) (inserted @ others)) (\<lambda>cells.
           mret (command_of command path
             @ [(lit ''status'', JStr (job_status_value (jb_status job))), (lit ''job_id'', JStr (jb_id job)),
                (lit ''cell_ids'', JList (jb_cell_ids job)), (lit ''cells'', JList (map JDict cells))]))))"

definition job_result ::
  "'w cli_env \<Rightarrow> string \<Rightarrow> config \<Rightarrow> pystr \<Rightarrow> job_handle \<Rightarrow> pystr list \<Rightarrow> 'w \<Rightarrow> (jobj, 'w) outcome" where
  "job_result env command cfg path job inserted =
     mbind (mmap (handle_dict (sdk env) cfg path) inserted) (\<lambda>cells.
       mret (append_hints
         (command_of command path @ [(lit ''job'', job_dict job), (lit ''inserted_cells'', JList cells)])
         (job_result_hints (shows_char env) path job inserted)))"

text \<open>
  \<open>_run_command_output\<close> answers the job as it was last seen.  A job that is settled is not waited for.
\<close>

definition progress_of :: "run_flags \<Rightarrow> string" where
  "progress_of f = (case fl_progress f of None \<Rightarrow> ''events'' | Some p \<Rightarrow> if p = [] then ''events'' else p)"

definition exit_after :: "bool \<Rightarrow> job_handle \<Rightarrow> 'w \<Rightarrow> (job_handle, 'w) outcome" where
  "exit_after exits job = mbind (if exits then exit_if_job_failed (Some job) else mret ()) (\<lambda>_. mret job)"

definition watched_output ::
  "'w cli_env \<Rightarrow> nat \<Rightarrow> out_mode \<Rightarrow> config \<Rightarrow> pystr \<Rightarrow> job_handle \<Rightarrow> pystr list \<Rightarrow> run_flags \<Rightarrow> bool
   \<Rightarrow> 'w \<Rightarrow> (job_handle, 'w) outcome option" where
  "watched_output env fuel mode cfg path job inserted f exits =
     obind (watch_job env mode (progress_of f) cfg path inserted (fl_timeout f) fuel job) (\<lambda>watched.
     ended (let hints = job_result_hints (shows_char env) path watched inserted
            in mbind (if mode = ModeStreamJson \<and> hints \<noteq> []
                      then say env (compact_json (JDict [(lit ''event'', JStr (lit ''hints'')),
                                                          (lit ''hints'', JList (map JStr hints))]))
                      else mfor (\<lambda>h. say env (lit ''hint: '' @ h)) hints) (\<lambda>_. exit_after exits watched)))"

definition plain_output ::
  "'w cli_env \<Rightarrow> out_mode \<Rightarrow> string \<Rightarrow> config \<Rightarrow> pystr \<Rightarrow> job_handle \<Rightarrow> pystr list \<Rightarrow> run_flags \<Rightarrow> bool
   \<Rightarrow> 'w \<Rightarrow> (job_handle, 'w) outcome" where
  "plain_output env mode command cfg path job inserted f exits =
     mbind (if fl_brief f
            then mbind (brief_job_result env command cfg path job inserted) (\<lambda>d.
                   echo_json env (fl_pretty f) (JDict d))
            else mbind (job_result env command cfg path job inserted) (\<lambda>d.
                   if mode = ModeJson then echo_json env (fl_pretty f) (JDict d)
                   else say env (with_hints_text
                          (lit ''Job '' @ jb_id job @ lit '' '' @ job_status_value (jb_status job))
                          (hints_of (shows_char env) d)))) (\<lambda>_. exit_after exits job)"

definition run_command_output ::
  "'w cli_env \<Rightarrow> nat \<Rightarrow> string \<Rightarrow> config \<Rightarrow> pystr \<Rightarrow> job_handle \<Rightarrow> pystr list \<Rightarrow> run_flags \<Rightarrow> bool
   \<Rightarrow> 'w \<Rightarrow> (job_handle, 'w) outcome option" where
  "run_command_output env fuel command cfg path job inserted f exits =
     obind (ended (of_result (validate_brief_run_flags f))) (\<lambda>_.
     obind (ended (of_result (run_output_mode (stdout_tty env) f))) (\<lambda>mode.
       if mode = ModeWatchHuman \<or> mode = ModeStreamJson
       then watched_output env fuel mode cfg path job inserted f exits
       else
         obind (if terminal_status (jb_status job) then ended (mret job)
                else job_wait (sdk env) (fl_timeout f) fuel job) (\<lambda>waited.
           ended (plain_output env mode command cfg path waited inserted f exits))))"

section \<open>Cells from the command line\<close>

definition read_text :: "'w cli_env \<Rightarrow> pystr option \<Rightarrow> pystr option \<Rightarrow> 'w \<Rightarrow> (pystr, 'w) outcome" where
  "read_text env source source_file =
     (case (source, source_file) of
        (Some _, Some _) \<Rightarrow> mraise (click_exception (lit ''Choose only one of --source or --source-file''))
      | (None, Some file) \<Rightarrow> read_file env file
      | (Some s, None) \<Rightarrow> mret s
      | (None, None) \<Rightarrow>
          if stdin_tty env
          then mraise (click_exception (lit ''Provide --source, --source-file, or pipe content on stdin''))
          else read_stdin env)"

text \<open>
  A cell to insert: its type, source and identifier (an empty one is generated).  Identifiers in the
  payload are strings.
\<close>

record cell_spec =
  sp_type :: pystr
  sp_source :: pystr
  sp_id :: "pystr option"

definition spec_of_item :: "(nat \<Rightarrow> bool) \<Rightarrow> pystr \<Rightarrow> json \<Rightarrow> pyexc + cell_spec" where
  "spec_of_item pr default_type item =
     (case item of
        JDict d \<Rightarrow>
          let ty = (if truthy_field ''type'' d then shown pr ''type'' d
                    else if truthy_field ''cell_type'' d then shown pr ''cell_type'' d else default_type)
          in if ty \<noteq> lit ''code'' \<and> ty \<noteq> lit ''markdown''
             then Inl (click_exception (lit ''Unsupported cell type: '' @ ty))
             else Inr \<lparr>sp_type = ty, sp_source = py_str pr (get_or ''source'' (JStr []) d),
                       sp_id = (case opt_json (field ''id'' d) of JStr s \<Rightarrow> Some s | _ \<Rightarrow> None)\<rparr>
      | _ \<Rightarrow> Inl (click_exception (lit ''Each cell payload must be an object'')))"

definition read_cells_payload ::
  "'w cli_env \<Rightarrow> pystr option \<Rightarrow> pystr option \<Rightarrow> pystr option \<Rightarrow> pystr option \<Rightarrow> 'w \<Rightarrow> (cell_spec list, 'w) outcome" where
  "read_cells_payload env source source_file cells_json cells_file =
     (let batch = chosen cells_json \<noteq> None \<or> chosen cells_file \<noteq> None;
          pr = shows_char env
      in if (source \<noteq> None \<or> source_file \<noteq> None) \<and> batch
         then mraise (click_exception (lit ''Choose either --source/--source-file or --cells-json/--cells-file''))
         else if batch
         then mbind (case chosen cells_file of
                       Some file \<Rightarrow> read_file env file
                     | None \<Rightarrow> mret (case cells_json of None \<Rightarrow> [] | Some s \<Rightarrow> s)) (\<lambda>raw.
              case json_loads (float_text (sdk env)) (if raw = [] then lit ''[]'' else raw) of
                None \<Rightarrow> mraise (OtherError (lit ''JSONDecodeError'') [])
              | Some (JList items) \<Rightarrow> of_result (each (spec_of_item pr (lit ''code'')) items)
              | Some _ \<Rightarrow> mraise (click_exception (lit ''Cells payload must be a JSON array'')))
         else mbind (read_text env source source_file) (\<lambda>s.
              mret [\<lparr>sp_type = lit ''code'', sp_source = s, sp_id = None\<rparr>]))"

definition insert_cell_spec ::
  "'w cli_env \<Rightarrow> config \<Rightarrow> pystr \<Rightarrow> cell_spec \<Rightarrow> pystr option \<Rightarrow> pystr option \<Rightarrow> 'w \<Rightarrow> (pystr, 'w) outcome" where
  "insert_cell_spec env cfg path spec before after =
     insert_new_cell (sdk env) cfg path (if sp_type spec = lit ''markdown'' then MARKDOWN else CODE)
       (sp_source spec) (sp_id spec) before after"

section \<open>ix: insert and run\<close>

definition halt_reason :: "job_status \<Rightarrow> pystr option" where
  "halt_reason st =
     (if st = job_status.FAILED then Some (lit ''job_failed'')
      else if st = INTERRUPTED then Some (lit ''job_interrupted'')
      else if st = job_status.AWAITING_INPUT then Some (lit ''awaiting_input'') else None)"

record ix_state =
  ix_inserted :: "pystr list"
  ix_job :: "job_handle option"
  ix_halt :: "pystr option"

text \<open>
  The flags a cell's run is shown with: those of the command for a single cell, and JSON, without
  an exit, for a batch.
\<close>

definition cell_flags :: "bool \<Rightarrow> run_flags \<Rightarrow> run_flags" where
  "cell_flags single f =
     (if single then f
      else f\<lparr>fl_json := True, fl_human := False, fl_watch := False, fl_stream_json := False, fl_brief := False\<rparr>)"

definition run_inserted ::
  "'w cli_env \<Rightarrow> nat \<Rightarrow> config \<Rightarrow> pystr \<Rightarrow> run_flags \<Rightarrow> bool \<Rightarrow> pystr \<Rightarrow> job_handle \<Rightarrow> 'w
   \<Rightarrow> (job_handle, 'w) outcome option" where
  "run_inserted env fuel cfg path f single cid job =
     (if fl_brief f \<and> \<not> single then job_wait (sdk env) (fl_timeout f) fuel job
      else run_command_output env fuel ''ix'' cfg path job [cid] (cell_flags single f) single)"

text \<open>One turn of the loop: the new state, and whether the loop is left.\<close>

definition ix_cell ::
  "'w cli_env \<Rightarrow> nat \<Rightarrow> config \<Rightarrow> pystr \<Rightarrow> run_flags \<Rightarrow> bool \<Rightarrow> bool \<Rightarrow> bool \<Rightarrow> cell_spec \<Rightarrow> pystr option \<Rightarrow> pystr option
   \<Rightarrow> ix_state \<Rightarrow> 'w \<Rightarrow> (ix_state \<times> bool, 'w) outcome option" where
  "ix_cell env fuel cfg path f no_wait single is_last spec before after x =
     obind (ended (insert_cell_spec env cfg path spec before after)) (\<lambda>cid.
     obind (ended (handle_type (sdk env) cfg path cid)) (\<lambda>ty.
       let y = x\<lparr>ix_inserted := ix_inserted x @ [cid]\<rparr>
       in if ty \<noteq> CODE then ended (mret (y, False))
          else
            obind (ended (handle_run (sdk env) cfg path cid)) (\<lambda>job.
              if no_wait then ended (mret (y\<lparr>ix_job := Some job\<rparr>, True))
              else
                obind (run_inserted env fuel cfg path f single cid job) (\<lambda>ran.
                  let z = y\<lparr>ix_job := Some ran\<rparr>
                  in ended (mret
                       (if jb_status ran \<in> {job_status.FAILED, INTERRUPTED, job_status.AWAITING_INPUT}
                        then (z\<lparr>ix_halt := (if is_last then None else halt_reason (jb_status ran))\<rparr>, True)
                        else (z, False)))))))"

fun ix_loop ::
  "'w cli_env \<Rightarrow> nat \<Rightarrow> config \<Rightarrow> pystr \<Rightarrow> run_flags \<Rightarrow> bool \<Rightarrow> bool \<Rightarrow> cell_spec list \<Rightarrow> pystr option \<Rightarrow> pystr option
   \<Rightarrow> ix_state \<Rightarrow> 'w \<Rightarrow> (ix_state, 'w) outcome option" where
  "ix_loop env fuel cfg path f no_wait single [] before after x = ended (mret x)"
| "ix_loop env fuel cfg path f no_wait single (spec # rest) before after x =
     obind (ix_cell env fuel cfg path f no_wait single (rest = []) spec before after x) (\<lambda>(y, stop).
       if stop then ended (mret y)
       else ix_loop env fuel cfg path f no_wait single rest None (Some (last (ix_inserted y))) y)"

definition batch_result :: "'w cli_env \<Rightarrow> config \<Rightarrow> pystr \<Rightarrow> bool \<Rightarrow> pystr \<Rightarrow> 'w \<Rightarrow> (json, 'w) outcome" where
  "batch_result env cfg path brief cid =
     (if brief then mbind (cell_brief_payload env cfg path True cid) (\<lambda>d. mret (JDict d))
      else
        mbind (handle_type (sdk env) cfg path cid) (\<lambda>ty.
        mbind (handle_execution_count (sdk env) cfg path cid) (\<lambda>count.
        mbind (handle_outputs (sdk env) cfg path cid) (\<lambda>outputs.
          mret (JDict [(lit ''cell_id'', JStr cid), (lit ''cell_type'', JStr (cell_type_value ty)),
                       (lit ''execution_count'', count), (lit ''outputs'', JList (map JDict outputs))])))))"

definition batch_payload :: "pystr \<Rightarrow> nat \<Rightarrow> ix_state \<Rightarrow> json list \<Rightarrow> jobj" where
  "batch_payload path wanted x results =
     (let failed = (case ix_job x of None \<Rightarrow> False | Some j \<Rightarrow> failed_job_status (jb_status j));
          inserted = ix_inserted x
      in command_of ''ix'' path
         @ [(lit ''status'', JStr (if failed then lit ''error'' else lit ''ok'')),
            (lit ''cells_inserted'', JInt (int (length inserted))), (lit ''cells_total'', JInt (int wanted)),
            (lit ''results'', JList results)]
         @ (case ix_halt x of
              Some reason \<Rightarrow>
                if inserted = [] then []
                else [(lit ''halt_reason'', JStr reason), (lit ''last_processed_cell_id'', JStr (last inserted)),
                      (lit ''cells_remaining'', JInt (int wanted - int (length inserted)))]
            | None \<Rightarrow> []))"

definition index_error :: pyexc where
  "index_error = OtherError (lit ''IndexError'') (lit ''list index out of range'')"

definition inserted_only :: "'w cli_env \<Rightarrow> config \<Rightarrow> pystr \<Rightarrow> run_flags \<Rightarrow> pystr list \<Rightarrow> 'w \<Rightarrow> (unit, 'w) outcome" where
  "inserted_only env cfg path f inserted =
     (if fl_brief f
      then mbind (mmap (cell_brief_payload env cfg path True) inserted) (\<lambda>cells.
           echo_json env (fl_pretty f) (JDict (command_of ''ix'' path
             @ [(lit ''status'', JStr (lit ''ok'')), (lit ''cell_ids'', JList (map JStr inserted)),
                (lit ''cells'', JList (map JDict cells))])))
      else
        mbind (mmap (handle_dict (sdk env) cfg path) inserted) (\<lambda>cells.
        mbind (if fl_pretty f then mret ModePretty
               else of_result (final_output_mode (stdout_tty env) (fl_json f) (fl_human f))) (\<lambda>mode.
          if mode = ModeHuman \<and> inserted = [] then mraise index_error
          else render_result env mode
                 (command_of ''ix'' path @ [(lit ''inserted_cells'', JList cells), (lit ''status'', JStr (lit ''ok''))])
                 (lit ''Inserted '' @ hd inserted))))"

definition started_only :: "'w cli_env \<Rightarrow> string \<Rightarrow> config \<Rightarrow> pystr \<Rightarrow> run_flags \<Rightarrow> job_handle \<Rightarrow> pystr list \<Rightarrow> 'w \<Rightarrow> (unit, 'w) outcome" where
  "started_only env command cfg path f job inserted =
     mbind (if fl_brief f then brief_job_result env command cfg path job inserted
            else job_result env command cfg path job inserted) (\<lambda>d.
       echo_json env (fl_pretty f \<or> stdout_tty env) (JDict d))"

definition ix_report ::
  "'w cli_env \<Rightarrow> config \<Rightarrow> pystr \<Rightarrow> run_flags \<Rightarrow> bool \<Rightarrow> nat \<Rightarrow> ix_state \<Rightarrow> 'w \<Rightarrow> (unit, 'w) outcome" where
  "ix_report env cfg path f no_wait wanted x =
     (if 1 < wanted
      then mbind (mmap (batch_result env cfg path (fl_brief f)) (ix_inserted x)) (\<lambda>results.
           mbind (echo_json env (fl_pretty f \<or> stdout_tty env) (JDict (batch_payload path wanted x results))) (\<lambda>_.
             exit_if_job_failed (ix_job x)))
      else case ix_job x of
             None \<Rightarrow> inserted_only env cfg path f (ix_inserted x)
           | Some job \<Rightarrow> if no_wait then started_only env ''ix'' cfg path f job (ix_inserted x) else mret ())"

record ix_options =
  io_source :: "pystr option"
  io_source_file :: "pystr option"
  io_cells_json :: "pystr option"
  io_cells_file :: "pystr option"
  io_before :: "pystr option"
  io_after :: "pystr option"
  io_no_wait :: bool

text \<open>\<open>_sdk_notebook\<close>: \<open>connect\<close> with the CLI's configuration.\<close>

definition open_notebook :: "'w cli_env \<Rightarrow> config \<Rightarrow> pystr \<Rightarrow> bool \<Rightarrow> 'w \<Rightarrow> (config \<times> bool, 'w) outcome" where
  "open_notebook env cfg path create =
     connect (sdk env) (process_env env) path create (Some (cfg_server cfg)) (cfg_token cfg) (cfg_actor_id cfg)
       (cfg_actor_type cfg) (cfg_timeout cfg)"

definition with_cli_errors :: "'w cli_env \<Rightarrow> ('w \<Rightarrow> ('a, 'w) outcome option) \<Rightarrow> 'w \<Rightarrow> ('a, 'w) outcome option" where
  "with_cli_errors env m w =
     map_option (\<lambda>(r, w1). (map_sum (cli_error (shows_char env) (httpx_error env)) id r, w1)) (m w)"

definition ix_cmd ::
  "'w cli_env \<Rightarrow> nat \<Rightarrow> config \<Rightarrow> pystr \<Rightarrow> ix_options \<Rightarrow> run_flags \<Rightarrow> 'w \<Rightarrow> (unit, 'w) outcome option" where
  "ix_cmd env fuel cfg path io f =
     with_cli_errors env
       (obind (ended (of_result (validate_brief_run_flags f))) (\<lambda>_.
        obind (ended (open_notebook env cfg path False)) (\<lambda>(cfg, _).
        obind (ended (read_cells_payload env (io_source io) (io_source_file io) (io_cells_json io) (io_cells_file io))) (\<lambda>specs.
          if io_no_wait io \<and> 1 < length specs
          then ended (mraise (click_exception (lit ''batch ix does not support --no-wait'')))
          else
            obind (ix_loop env fuel cfg path f (io_no_wait io) (length specs = 1) specs (io_before io) (io_after io)
                     \<lparr>ix_inserted = [], ix_job = None, ix_halt = None\<rparr>) (\<lambda>x.
              ended (ix_report env cfg path f (io_no_wait io) (length specs) x))))))"

section \<open>exec, run-all, restart-run-all, job await\<close>

definition check_code_cell :: "'w cli_env \<Rightarrow> config \<Rightarrow> pystr \<Rightarrow> pystr \<Rightarrow> 'w \<Rightarrow> (unit, 'w) outcome" where
  "check_code_cell env cfg path cid =
     mbind (cell_at (sdk env) cfg path cid) (\<lambda>_.
     mbind (handle_type (sdk env) cfg path cid) (\<lambda>ty.
       if ty \<noteq> CODE
       then mbind (handle_type (sdk env) cfg path cid) (\<lambda>again.
              mraise (click_exception (lit ''Cell '' @ cid @ lit '' is '' @ cell_type_value again @ lit '', not code'')))
       else mret ()))"

definition exec_cmd ::
  "'w cli_env \<Rightarrow> nat \<Rightarrow> config \<Rightarrow> pystr \<Rightarrow> pystr list \<Rightarrow> bool \<Rightarrow> run_flags \<Rightarrow> 'w \<Rightarrow> (unit, 'w) outcome option" where
  "exec_cmd env fuel cfg path ids no_wait f =
     with_cli_errors env
       (obind (ended (of_result (validate_brief_run_flags f))) (\<lambda>_.
          if ids = [] then ended (mraise (click_exception (lit ''Provide at least one cell id'')))
          else
            obind (ended (open_notebook env cfg path False)) (\<lambda>(cfg, _).
            obind (ended (mfor (check_code_cell env cfg path) ids)) (\<lambda>_.
            obind (ended (notebook_run (sdk env) cfg path (map JStr ids))) (\<lambda>job.
              if no_wait then ended (started_only env ''exec'' cfg path f job [])
              else obind (run_command_output env fuel ''exec'' cfg path job [] f True) (\<lambda>_. ended (mret ())))))))"

definition run_all_cmd :: "'w cli_env \<Rightarrow> nat \<Rightarrow> config \<Rightarrow> pystr \<Rightarrow> run_flags \<Rightarrow> 'w \<Rightarrow> (unit, 'w) outcome option" where
  "run_all_cmd env fuel cfg path f =
     with_cli_errors env
       (obind (ended (open_notebook env cfg path False)) (\<lambda>(cfg, _).
        obind (ended (run_all (sdk env) cfg path)) (\<lambda>job.
        obind (run_command_output env fuel ''run-all'' cfg path job [] f True) (\<lambda>_. ended (mret ())))))"

definition restart_run_all_cmd :: "'w cli_env \<Rightarrow> nat \<Rightarrow> config \<Rightarrow> pystr \<Rightarrow> run_flags \<Rightarrow> 'w \<Rightarrow> (unit, 'w) outcome option" where
  "restart_run_all_cmd env fuel cfg path f =
     with_cli_errors env
       (obind (ended (open_notebook env cfg path False)) (\<lambda>(cfg, _).
        obind (ended (sdk_restart (sdk env) cfg path)) (\<lambda>_.
        obind (ended (run_all (sdk env) cfg path)) (\<lambda>job.
        obind (run_command_output env fuel ''restart-run-all'' cfg path job [] f True) (\<lambda>_. ended (mret ()))))))"

definition job_await_cmd :: "'w cli_env \<Rightarrow> nat \<Rightarrow> config \<Rightarrow> pystr \<Rightarrow> run_flags \<Rightarrow> 'w \<Rightarrow> (unit, 'w) outcome option" where
  "job_await_cmd env fuel cfg i f =
     with_cli_errors env
       (obind (ended (control_get_job (sdk env) cfg i)) (\<lambda>job.
        obind (run_command_output env fuel ''job.await'' (jb_config job) (jb_path job) job [] f True)
          (\<lambda>_. ended (mret ()))))"

section \<open>A watched job's output is shown once and in full\<close>

text \<open>
  What the outputs of a cell show, character by character for streams, and what the events of a stream
  show of a cell: the reference for the watcher.
\<close>

datatype piece = Character nat | Whole jobj

definition pieces_of :: "(nat \<Rightarrow> bool) \<Rightarrow> jobj \<Rightarrow> piece list" where
  "pieces_of pr out =
     (if output_type_is ''stream'' out then map Character (py_str pr (get_or ''text'' (JStr []) out)) else [Whole out])"

definition pieces :: "(nat \<Rightarrow> bool) \<Rightarrow> jobj list \<Rightarrow> piece list" where
  "pieces pr outs = concat (map (pieces_of pr) outs)"

definition shown_by :: "pystr \<Rightarrow> jobj \<Rightarrow> piece list" where
  "shown_by c ev =
     (if field ''event'' ev = Some (JStr (lit ''output_delta'')) \<and> field ''cell_id'' ev = Some (JStr c)
      then (case (field ''text'' ev, field ''output'' ev) of
              (Some (JStr t), _) \<Rightarrow> map Character t
            | (None, Some (JDict out)) \<Rightarrow> [Whole out]
            | _ \<Rightarrow> [])
      else [])"

definition shown_of :: "pystr \<Rightarrow> jobj list \<Rightarrow> piece list" where
  "shown_of c events = concat (map (shown_by c) events)"

text \<open>How a kernel adds to a cell's outputs: the last stream grows, then new outputs follow.\<close>

definition stream_grows :: "(nat \<Rightarrow> bool) \<Rightarrow> jobj \<Rightarrow> jobj \<Rightarrow> bool" where
  "stream_grows pr prev now \<longleftrightarrow>
     output_type_is ''stream'' prev \<and> output_type_is ''stream'' now
     \<and> opt_json (field ''name'' prev) = opt_json (field ''name'' now)
     \<and> (\<exists>more. more \<noteq> [] \<and> py_str pr (get_or ''text'' (JStr []) now) = py_str pr (get_or ''text'' (JStr []) prev) @ more)"

inductive grows :: "(nat \<Rightarrow> bool) \<Rightarrow> jobj list \<Rightarrow> jobj list \<Rightarrow> bool" for pr where
  grows_new: "grows pr outs (outs @ new)"
| grows_last: "stream_grows pr prev now \<Longrightarrow> grows pr (outs @ [prev]) (outs @ now # new)"

inductive_cases growsE: "grows pr prev now"

fun snapshots_grow :: "(nat \<Rightarrow> bool) \<Rightarrow> jobj list \<Rightarrow> jobj list list \<Rightarrow> bool" where
  "snapshots_grow pr prev [] \<longleftrightarrow> True"
| "snapshots_grow pr prev (s # ss) \<longleftrightarrow> grows pr prev s \<and> snapshots_grow pr s ss"

fun ok_json :: "json \<Rightarrow> bool" where
  "ok_json (JList xs) = list_all ok_json xs"
| "ok_json (JDict d) = (dict_ok d \<and> list_all (\<lambda>(k, v). ok_json v) d)"
| "ok_json j = True"

lemma json_eq_refl: "ok_json j \<Longrightarrow> json_eq j j"
proof (induction j)
  case (JList xs)
  then show ?case by (auto simp: list_all_iff zip_same_conv_map)
next
  case (JDict d)
  then show ?case by (fastforce simp: list_all_iff)
qed simp_all

lemma pieces_simps [simp]:
  "pieces pr [] = []" "pieces pr (out # outs) = pieces_of pr out @ pieces pr outs"
  "pieces pr (xs @ ys) = pieces pr xs @ pieces pr ys"
  by (simp_all add: pieces_def)

lemma delta_same: "ok_json (JDict out) \<Longrightarrow> output_delta pr (out, out) = []"
proof -
  assume "ok_json (JDict out)"
  then have "json_eq (JDict out) (JDict out)" by (rule json_eq_refl)
  then show ?thesis by (simp add: output_delta_def Let_def del: json_eq.simps)
qed

lemma delta_grown:
  assumes "stream_grows pr prev now" and "ok_json (JDict now)"
  shows "pieces_of pr now = pieces_of pr prev @ pieces pr (output_delta pr (prev, now))"
proof -
  obtain more where m: "more \<noteq> []"
    "py_str pr (get_or ''text'' (JStr []) now) = py_str pr (get_or ''text'' (JStr []) prev) @ more"
    using assms(1) by (auto simp: stream_grows_def)
  have ty: "output_type_is ''stream'' prev" "output_type_is ''stream'' now"
    and name: "opt_json (field ''name'' prev) = opt_json (field ''name'' now)"
    using assms(1) by (auto simp: stream_grows_def)
  have "ok_json (opt_json (field ''name'' now))"
    using assms(2) by (auto simp: opt_json_def list_all_iff split: option.split dest!: map_of_SomeD)
  then have "json_eq (opt_json (field ''name'' prev)) (opt_json (field ''name'' now))" by (simp add: name json_eq_refl)
  then have "output_delta pr (prev, now) = [[(lit ''output_type'', JStr (lit ''stream'')),
      (lit ''name'', opt_json (field ''name'' now)), (lit ''text'', JStr more)]]"
    using ty m by (simp add: output_delta_def Let_def)
  moreover have "pieces_of pr [(lit ''output_type'', JStr (lit ''stream'')), (lit ''name'', opt_json (field ''name'' now)),
      (lit ''text'', JStr more)] = map Character more"
    by (simp add: pieces_of_def output_type_is_def opt_json_def get_or_def py_str_def)
  ultimately show ?thesis using ty by (simp add: pieces_of_def [of pr prev] pieces_of_def [of pr now] m(2) name)
qed

lemma deltas_same: "list_all (\<lambda>out. ok_json (JDict out)) outs \<Longrightarrow> concat (map (output_delta pr) (zip outs outs)) = []"
  by (induction outs) (simp_all add: delta_same del: ok_json.simps)

lemma deltas_grown:
  assumes "grows pr prev now" and "list_all (\<lambda>out. ok_json (JDict out)) now"
  shows "pieces pr now = pieces pr prev @ pieces pr (output_deltas pr prev now)"
proof -
  consider new where "now = prev @ new"
    | p n outs new where "stream_grows pr p n" "prev = outs @ [p]" "now = outs @ n # new"
    using assms(1) by (elim growsE) blast+
  then show ?thesis
  proof cases
    case 1
    then show ?thesis
      using assms(2) deltas_same [of prev pr] zip_append [of prev prev "[]" new]
      by (simp add: output_deltas_def del: ok_json.simps concat_eq_Nil_conv)
  next
    case 2
    then show ?thesis
      using assms(2) deltas_same [of outs pr] delta_grown [of pr p n]
      by (simp add: output_deltas_def del: ok_json.simps concat_eq_Nil_conv)
  qed
qed

text \<open>
  What the server told the watcher about each cell, look by look: the watcher's loop (\<open>poll\<close>,
  \<open>watch_turn\<close>, \<open>watch_cells\<close>) followed by an observer.
\<close>

definition look :: "'w cli_env \<Rightarrow> config \<Rightarrow> pystr \<Rightarrow> pystr \<Rightarrow> 'w \<Rightarrow> (pystr \<times> jobj list) list" where
  "look env cfg path c w =
     (case has_cell (sdk env) cfg path c w of
        (Inr True, w1) \<Rightarrow>
          (case handle_outputs (sdk env) cfg path c w1 of (Inr outputs, w2) \<Rightarrow> [(c, outputs)] | _ \<Rightarrow> [])
      | _ \<Rightarrow> [])"

fun cell_looks ::
  "'w cli_env \<Rightarrow> out_mode \<Rightarrow> string \<Rightarrow> config \<Rightarrow> pystr \<Rightarrow> pystr list \<Rightarrow> watch \<Rightarrow> 'w \<Rightarrow> (pystr \<times> jobj list) list" where
  "cell_looks env mode progress cfg path [] x w = []"
| "cell_looks env mode progress cfg path (c # cs) x w =
     look env cfg path c w
     @ (case watch_cell env mode progress cfg path x c w of
          (Inr y, w1) \<Rightarrow> cell_looks env mode progress cfg path cs y w1
        | _ \<Rightarrow> [])"

fun loop_looks ::
  "'w cli_env \<Rightarrow> out_mode \<Rightarrow> string \<Rightarrow> config \<Rightarrow> pystr \<Rightarrow> pystr list \<Rightarrow> time option \<Rightarrow> nat \<Rightarrow> watch \<Rightarrow> 'w
   \<Rightarrow> (pystr \<times> jobj list) list" where
  "loop_looks env mode progress cfg path cells deadline 0 x w = []"
| "loop_looks env mode progress cfg path cells deadline (Suc n) x w =
     (case job_refresh (sdk env) (wt_job x) w of
        (Inl e, w1) \<Rightarrow> []
      | (Inr job, w1) \<Rightarrow> cell_looks env mode progress cfg path cells (x\<lparr>wt_job := job\<rparr>) w1)
     @ (case watch_turn env mode progress cfg path cells x w of
          (Inr (y, False), w1) \<Rightarrow> loop_looks env mode progress cfg path cells deadline n y
            (pause (sdk env) (if deadline = None then w1 else snd (monotonic (sdk env) w1)))
        | _ \<Rightarrow> [])"

definition job_looks ::
  "'w cli_env \<Rightarrow> out_mode \<Rightarrow> string \<Rightarrow> config \<Rightarrow> pystr \<Rightarrow> pystr list \<Rightarrow> time option \<Rightarrow> nat \<Rightarrow> job_handle
   \<Rightarrow> 'w \<Rightarrow> (pystr \<times> jobj list) list" where
  "job_looks env mode progress cfg path inserted timeout fuel job w =
     (let cells = (if jb_cell_ids job = [] then inserted else map (py_str (shows_char env)) (jb_cell_ids job));
          w1 = snd (mbind (mfor (\<lambda>c. emit env mode progress True (cell_event ''cell_inserted'' job c)) inserted)
                      (\<lambda>_. emit env mode progress False (status_event ''job_started'' job)) w)
      in case deadline_of (sdk env) timeout w1 of
           (deadline, w2) \<Rightarrow> loop_looks env mode progress cfg path cells deadline fuel
                              \<lparr>wt_job = job, wt_seen = map (\<lambda>c. (c, [])) cells, wt_started = []\<rparr> w2)"

definition looks_of :: "pystr \<Rightarrow> (pystr \<times> jobj list) list \<Rightarrow> jobj list list" where
  "looks_of c looks = map snd (filter (\<lambda>l. fst l = c) looks)"

definition looks_grow :: "(nat \<Rightarrow> bool) \<Rightarrow> jobj list \<Rightarrow> jobj list list \<Rightarrow> bool" where
  "looks_grow pr prev looks \<longleftrightarrow>
     snapshots_grow pr prev looks \<and> list_all (list_all (\<lambda>out. ok_json (JDict out))) looks"

text \<open>A terminal that keeps what is echoed, and only that: \<open>out\<close> reads it off the world.\<close>

definition terminal_keeps :: "'w cli_env \<Rightarrow> ('w \<Rightarrow> (pystr \<times> bool) list) \<Rightarrow> bool" where
  "terminal_keeps env out \<longleftrightarrow>
     (\<forall>t nl w. out (echo env t nl w) = out w @ [(t, nl)])
     \<and> (\<forall>q w. out (snd (send_http (sdk env) q w)) = out w)
     \<and> (\<forall>w. out (snd (monotonic (sdk env) w)) = out w) \<and> (\<forall>w. out (pause (sdk env) w) = out w)"

definition event_line :: "jobj \<Rightarrow> pystr \<times> bool" where
  "event_line ev = (compact_json (JDict ev), True)"

lemma snapshots_grow_append:
  "snapshots_grow pr prev (a @ b) \<longleftrightarrow> snapshots_grow pr prev a \<and> snapshots_grow pr (last (prev # a)) b"
  by (induction a arbitrary: prev) auto

lemma looks_grow_append [simp]:
  "looks_grow pr prev (a @ b) \<longleftrightarrow> looks_grow pr prev a \<and> looks_grow pr (last (prev # a)) b"
  by (auto simp: looks_grow_def snapshots_grow_append)

lemma looks_of_simps [simp]:
  "looks_of c [] = []" "looks_of c (a @ b) = looks_of c a @ looks_of c b"
  "looks_of c [(k, os)] = (if k = c then [os] else [])"
  by (simp_all add: looks_of_def)

lemma shown_of_simps [simp]: "shown_of c [] = []" "shown_of c (a @ b) = shown_of c a @ shown_of c b"
  by (simp_all add: shown_of_def)

lemma event_fields:
  "field ''event'' (event name job extra) = Some (JStr (lit name))"
  "field ''cell_id'' (event name job extra) = field ''cell_id'' extra"
  "field ''text'' (event name job extra) = field ''text'' extra"
  "field ''output'' (event name job extra) = field ''output'' extra"
  by (simp_all add: event_def)

lemma shown_by_delta:
  "shown_by c (delta_event pr job cid out) = (if c = cid then pieces_of pr out else [])"
  by (auto simp: shown_by_def delta_event_def event_fields pieces_of_def)

lemma shown_by_others:
  "name \<noteq> ''output_delta'' \<Longrightarrow> shown_by c (event name job extra) = []"
  by (simp add: shown_by_def event_fields)

text \<open>What does not write to the terminal.\<close>

definition silent :: "('w \<Rightarrow> 'o) \<Rightarrow> ('w \<Rightarrow> ('a, 'w) outcome) \<Rightarrow> bool" where
  "silent out m \<longleftrightarrow> (\<forall>w. out (snd (m w)) = out w)"

lemma silentD: "silent out m \<Longrightarrow> m w = (r, w') \<Longrightarrow> out w' = out w"
  unfolding silent_def using snd_conv by metis

lemma silent_pure [simp]: "silent out (mret x)" "silent out (mraise e)" "silent out (of_result v)"
  by (simp_all add: silent_def mret_def mraise_def of_result_def split: sum.split)

lemma silent_mbind: "silent out m \<Longrightarrow> (\<And>x. silent out (f x)) \<Longrightarrow> silent out (mbind m f)"
  by (auto simp: silent_def mbind_def split: prod.split sum.split) (metis snd_conv)+

lemma requests_silent:
  assumes "terminal_keeps env out"
  shows "silent out (job_refresh (sdk env) job)" and "silent out (has_cell (sdk env) cfg path c)"
    and "silent out (handle_outputs (sdk env) cfg path c)"
    and "silent out (handle_execution_count (sdk env) cfg path c)"
proof -
  have send: "silent out (send_request (sdk env) cfg verb url h body params)" for cfg verb url h body params
    using assms by (simp add: silent_def send_request_def terminal_keeps_def)
  have cell: "silent out (cell_model (sdk env) cfg path c)"
    unfolding cell_model_def cell_request_def by (intro silent_mbind) (simp_all add: send)
  show "silent out (job_refresh (sdk env) job)"
    unfolding job_refresh_def by (intro silent_mbind) (simp_all add: send)
  show "silent out (handle_outputs (sdk env) cfg path c)"
    unfolding handle_outputs_def by (intro silent_mbind) (simp_all add: cell)
  show "silent out (handle_execution_count (sdk env) cfg path c)"
    unfolding handle_execution_count_def by (intro silent_mbind) (simp_all add: cell)
  show "silent out (has_cell (sdk env) cfg path c)"
    using silentD [OF cell] by (auto simp: silent_def has_cell_def split: prod.split sum.split pyexc.split)
qed

lemma emit_writes:
  assumes "terminal_keeps env out" and "progress \<noteq> ''quiet''"
    and "emit env ModeStreamJson progress b ev w = (r, w')"
  shows "r = Inr () \<and> out w' = out w @ [event_line ev]"
  using assms by (auto simp: emit_def say_def terminal_keeps_def event_line_def)

lemma mfor_writes:
  assumes "terminal_keeps env out" and "progress \<noteq> ''quiet''"
    and "mfor (\<lambda>x. emit env ModeStreamJson progress b (f x)) xs w = (r, w')"
  shows "r = Inr () \<and> out w' = out w @ map event_line (map f xs)"
  using assms(3)
proof (induction xs arbitrary: w)
  case (Cons x xs)
  obtain r1 w1 where e: "emit env ModeStreamJson progress b (f x) w = (r1, w1)" by fastforce
  from emit_writes [OF assms(1,2) e] Cons.prems e Cons.IH [of w1] show ?case by (auto simp: mbind_def)
qed (simp add: mret_def)

text \<open>
  A stretch of the loop: what it wrote are the lines of events; the outputs seen of a cell are the last
  ones looked at; and when these grew, the events show what is new.
\<close>

definition told :: "'w cli_env \<Rightarrow> ('w \<Rightarrow> (pystr \<times> bool) list) \<Rightarrow> watch \<Rightarrow> 'w \<Rightarrow> (pystr \<times> jobj list) list \<Rightarrow> watch \<Rightarrow> 'w \<Rightarrow> bool" where
  "told env out x w looks y w' \<longleftrightarrow>
     (\<exists>events. out w' = out w @ map event_line events
       \<and> (\<forall>c. seen_outputs y c = last (seen_outputs x c # looks_of c looks)
            \<and> (looks_grow (shows_char env) (seen_outputs x c) (looks_of c looks) \<longrightarrow>
                 pieces (shows_char env) (seen_outputs y c)
                   = pieces (shows_char env) (seen_outputs x c) @ shown_of c events)))"

lemma told_trans:
  assumes "told env out x w looks y w1" and "told env out y w1 looks' z w2"
  shows "told env out x w (looks @ looks') z w2"
proof -
  let ?pr = "shows_char env"
  obtain evs where e: "out w1 = out w @ map event_line evs"
    "\<And>c. seen_outputs y c = last (seen_outputs x c # looks_of c looks)"
    "\<And>c. looks_grow ?pr (seen_outputs x c) (looks_of c looks) \<Longrightarrow>
       pieces ?pr (seen_outputs y c) = pieces ?pr (seen_outputs x c) @ shown_of c evs"
    using assms(1) unfolding told_def by blast
  obtain evs' where e': "out w2 = out w1 @ map event_line evs'"
    "\<And>c. seen_outputs z c = last (seen_outputs y c # looks_of c looks')"
    "\<And>c. looks_grow ?pr (seen_outputs y c) (looks_of c looks') \<Longrightarrow>
       pieces ?pr (seen_outputs z c) = pieces ?pr (seen_outputs y c) @ shown_of c evs'"
    using assms(2) unfolding told_def by blast
  show ?thesis
    unfolding told_def
  proof (intro exI [of _ "evs @ evs'"] conjI allI impI)
    show "out w2 = out w @ map event_line (evs @ evs')" by (simp add: e(1) e'(1))
    fix c
    show "seen_outputs z c = last (seen_outputs x c # looks_of c (looks @ looks'))"
      by (simp add: e'(2) e(2))
    assume "looks_grow ?pr (seen_outputs x c) (looks_of c (looks @ looks'))"
    then show "pieces ?pr (seen_outputs z c) = pieces ?pr (seen_outputs x c) @ shown_of c (evs @ evs')"
      using e(2,3) e'(3) by simp
  qed
qed

lemma told_events:
  assumes "out w' = out w @ map event_line events" and "wt_seen y = wt_seen x" and "\<And>c. shown_of c events = []"
  shows "told env out x w [] y w'"
  unfolding told_def using assms by (intro exI [of _ events]) (simp add: seen_outputs_def)

lemma told_nothing: "out w' = out w \<Longrightarrow> wt_seen y = wt_seen x \<Longrightarrow> told env out x w [] y w'"
  by (rule told_events [where events = "[]"]) simp_all

lemma told_outputs:
  assumes "out w' = out w @ map event_line (map (delta_event (shows_char env) job c)
      (output_deltas (shows_char env) (seen_outputs x c) outputs))"
    and "wt_seen y = dict_set c outputs (wt_seen x)"
  shows "told env out x w [(c, outputs)] y w'"
  unfolding told_def
proof (intro exI conjI allI impI)
  let ?pr = "shows_char env" and ?ds = "output_deltas (shows_char env) (seen_outputs x c) outputs"
  show "out w' = out w @ map event_line (map (delta_event ?pr job c) ?ds)" by (rule assms(1))
  have seen: "seen_outputs y d = (if d = c then outputs else seen_outputs x d)" for d
    by (simp add: seen_outputs_def assms(2))
  fix d
  show "seen_outputs y d = last (seen_outputs x d # looks_of d [(c, outputs)])" by (simp add: seen)
  assume g: "looks_grow ?pr (seen_outputs x d) (looks_of d [(c, outputs)])"
  have "shown_of d (map (delta_event ?pr job c) ds) = (if d = c then pieces ?pr ds else [])" for ds
    by (induction ds) (simp_all add: shown_of_def shown_by_delta)
  then show "pieces ?pr (seen_outputs y d) = pieces ?pr (seen_outputs x d) @ shown_of d (map (delta_event ?pr job c) ?ds)"
    using g deltas_grown [of ?pr "seen_outputs x d" outputs] by (auto simp: seen looks_grow_def)
qed

lemma watch_cell_told:
  assumes "terminal_keeps env out" and "progress \<noteq> ''quiet''"
    and "watch_cell env ModeStreamJson progress cfg path x c w = (Inr y, w')"
  shows "told env out x w (look env cfg path c w) y w'"
proof -
  note quiet = requests_silent [OF assms(1)]
  obtain found w1 where f: "has_cell (sdk env) cfg path c w = (Inr found, w1)"
    and rest: "(if \<not> found then mret x
       else
         mbind (handle_outputs (sdk env) cfg path c) (\<lambda>outputs.
         mbind (has_begun env cfg path x c outputs) (\<lambda>begun.
         mbind (if begun then emit env ModeStreamJson progress False (cell_event ''cell_started'' (wt_job x) c) else mret ()) (\<lambda>_.
         mbind (mfor (\<lambda>d. emit env ModeStreamJson progress False (delta_event (shows_char env) (wt_job x) c d))
                  (output_deltas (shows_char env) (seen_outputs x c) outputs)) (\<lambda>_.
           mret (x\<lparr>wt_seen := dict_set c outputs (wt_seen x),
                   wt_started := (if begun then c # wt_started x else wt_started x)\<rparr>)))))) w1 = (Inr y, w')"
    using assms(3) unfolding watch_cell_def mbind_eq_Inr by blast
  have o1: "out w1 = out w" using silentD [OF quiet(2) f] .
  show ?thesis
  proof (cases found)
    case False
    with f rest o1 show ?thesis by (auto simp: look_def mret_def intro: told_nothing)
  next
    case True
    with rest obtain outputs w2 begun w3 u w4 v w5 where
      os: "handle_outputs (sdk env) cfg path c w1 = (Inr outputs, w2)"
      and b: "has_begun env cfg path x c outputs w2 = (Inr begun, w3)"
      and st: "(if begun then emit env ModeStreamJson progress False (cell_event ''cell_started'' (wt_job x) c) else mret ()) w3 = (Inr u, w4)"
      and ds: "mfor (\<lambda>d. emit env ModeStreamJson progress False (delta_event (shows_char env) (wt_job x) c d))
                  (output_deltas (shows_char env) (seen_outputs x c) outputs) w4 = (Inr v, w5)"
      and y: "y = x\<lparr>wt_seen := dict_set c outputs (wt_seen x),
                   wt_started := (if begun then c # wt_started x else wt_started x)\<rparr>" "w' = w5"
      by (auto simp: mbind_eq_Inr mret_def)
    have "silent out (has_begun env cfg path x c outputs)"
      unfolding has_begun_def by (auto intro!: silent_mbind quiet)
    from silentD [OF this b] silentD [OF quiet(3) os] o1 have o3: "out w3 = out w" by simp
    have start: "told env out x w [] x w4"
    proof (cases begun)
      case True
      with st emit_writes [OF assms(1,2)] have "out w4 = out w @ map event_line [cell_event ''cell_started'' (wt_job x) c]"
        by (auto simp: o3)
      then show ?thesis
        by (rule told_events) (simp_all add: shown_of_def cell_event_def shown_by_others)
    next
      case False
      with st o3 show ?thesis by (auto simp: mret_def intro: told_nothing)
    qed
    have "told env out x w4 [(c, outputs)] y w'"
      by (rule told_outputs [where job = "wt_job x"]) (use mfor_writes [OF assms(1,2) ds] y in simp_all)
    from told_trans [OF start this] f os True show ?thesis by (simp add: look_def)
  qed
qed

lemma watch_cells_told:
  assumes "terminal_keeps env out" and "progress \<noteq> ''quiet''"
    and "watch_cells env ModeStreamJson progress cfg path cells x w = (Inr y, w')"
  shows "told env out x w (cell_looks env ModeStreamJson progress cfg path cells x w) y w'"
  using assms(3)
proof (induction cells arbitrary: x w)
  case Nil
  then show ?case by (simp add: mret_def told_nothing)
next
  case (Cons c cs)
  then obtain x1 w1 where c: "watch_cell env ModeStreamJson progress cfg path x c w = (Inr x1, w1)"
    and cs: "watch_cells env ModeStreamJson progress cfg path cs x1 w1 = (Inr y, w')"
    by (auto simp: mbind_eq_Inr)
  from told_trans [OF watch_cell_told [OF assms(1,2) c] Cons.IH [OF cs]] show ?case by (simp add: c)
qed

text \<open>Events about no output.\<close>

definition other_lines :: "('w \<Rightarrow> (pystr \<times> bool) list) \<Rightarrow> 'w \<Rightarrow> 'w \<Rightarrow> bool" where
  "other_lines out w w' \<longleftrightarrow>
     (\<exists>events. out w' = out w @ map event_line events \<and> (\<forall>c. shown_of c events = []))"

lemma other_lines_refl [simp]: "other_lines out w w"
  unfolding other_lines_def by (rule exI [of _ "[]"]) simp

lemma other_lines_trans: "other_lines out w w1 \<Longrightarrow> other_lines out w1 w2 \<Longrightarrow> other_lines out w w2"
  unfolding other_lines_def by (metis append_assoc map_append shown_of_simps(2) append_Nil)

lemma other_emit:
  assumes "terminal_keeps env out" and "progress \<noteq> ''quiet''"
    and "emit env ModeStreamJson progress b (event name job extra) w = (r, w')" and "name \<noteq> ''output_delta''"
  shows "other_lines out w w'"
  unfolding other_lines_def using emit_writes [OF assms(1,2,3)]
  by (intro exI [of _ "[event name job extra]"]) (simp add: shown_of_def shown_by_others [OF assms(4)])

lemma other_mfor:
  assumes "terminal_keeps env out" and "progress \<noteq> ''quiet''"
    and "mfor (\<lambda>c. emit env ModeStreamJson progress b (event name job (extra c))) xs w = (r, w')"
    and "name \<noteq> ''output_delta''"
  shows "other_lines out w w'"
  unfolding other_lines_def using mfor_writes [OF assms(1,2,3)]
  by (intro exI [of _ "map (\<lambda>c. event name job (extra c)) xs"])
    (simp add: shown_of_def shown_by_others [OF assms(4)])

lemma told_other: "other_lines out w w' \<Longrightarrow> wt_seen y = wt_seen x \<Longrightarrow> told env out x w [] y w'"
  unfolding other_lines_def by (auto intro: told_events)

lemma finish_events_lines:
  assumes "terminal_keeps env out" and "progress \<noteq> ''quiet''"
    and "finish_events env ModeStreamJson progress cells job w = (Inr ended_here, w')"
  shows "other_lines out w w'"
proof -
  note one = other_emit [OF assms(1), rotated] and many = other_mfor [OF assms(1), rotated]
  show ?thesis
    using assms(2,3) unfolding finish_events_def status_event_def cell_event_def
    by (auto simp: mbind_eq_Inr mret_def split: if_splits intro: other_lines_trans dest!: one many)
qed

lemma watch_turn_told:
  assumes "terminal_keeps env out" and "progress \<noteq> ''quiet''"
    and "watch_turn env ModeStreamJson progress cfg path cells x w = (Inr (y, ended_here), w')"
  shows "told env out x w
    (case job_refresh (sdk env) (wt_job x) w of
       (Inl e, w1) \<Rightarrow> []
     | (Inr job, w1) \<Rightarrow> cell_looks env ModeStreamJson progress cfg path cells (x\<lparr>wt_job := job\<rparr>) w1) y w'"
proof -
  obtain job w1 w2 where j: "job_refresh (sdk env) (wt_job x) w = (Inr job, w1)"
    and c: "watch_cells env ModeStreamJson progress cfg path cells (x\<lparr>wt_job := job\<rparr>) w1 = (Inr y, w2)"
    and f: "finish_events env ModeStreamJson progress cells (wt_job y) w2 = (Inr ended_here, w')"
    using assms(3) by (auto simp: watch_turn_def mbind_eq_Inr mret_def)
  have "told env out x w [] (x\<lparr>wt_job := job\<rparr>) w1"
    using silentD [OF requests_silent(1) [OF assms(1)] j] by (intro told_nothing) simp_all
  note told_trans [OF told_trans [OF this watch_cells_told [OF assms(1,2) c]]
    told_other [OF finish_events_lines [OF assms(1,2) f] refl]]
  then show ?thesis by (simp add: j)
qed

lemma loop_told:
  assumes "terminal_keeps env out" and "progress \<noteq> ''quiet''"
    and "poll (sdk env) (watch_turn env ModeStreamJson progress cfg path cells) wt_job deadline fuel x w = Some (Inr y, w')"
  shows "told env out x w (loop_looks env ModeStreamJson progress cfg path cells deadline fuel x w) y w'"
  using assms(3)
proof (induction fuel arbitrary: x w)
  case (Suc n)
  obtain x1 ended_here w1 where t: "watch_turn env ModeStreamJson progress cfg path cells x w = (Inr (x1, ended_here), w1)"
    using Suc.prems by (auto split: prod.splits sum.splits)
  note turn = watch_turn_told [OF assms(1,2) t]
  show ?case
  proof (cases ended_here)
    case True
    with Suc.prems t turn show ?thesis by simp
  next
    case False
    let ?w = "pause (sdk env) (if deadline = None then w1 else snd (monotonic (sdk env) w1))"
    from Suc.prems t False have
      "poll (sdk env) (watch_turn env ModeStreamJson progress cfg path cells) wt_job deadline n x1 ?w = Some (Inr y, w')"
      by (auto split: option.splits prod.splits if_splits)
    note rest = Suc.IH [OF this]
    have "told env out x1 w1 [] x1 ?w" by (rule told_nothing) (use assms(1) in \<open>simp_all add: terminal_keeps_def\<close>)
    from told_trans [OF turn told_trans [OF this rest]] False show ?thesis by (simp add: t)
  qed
qed simp

lemma seen_at_start: "(case dict_get (map (\<lambda>c. (c, [])) cs) c of None \<Rightarrow> [] | Some os \<Rightarrow> os) = []"
  by (induction cs) auto

text \<open>
  C31: a watcher shows everything once.  A watcher that streams events on a terminal writes lines that are
  events, one a line; and when what the server told it about a cell only grew from look to look (its last
  stream got longer, new outputs followed), then the output events of that cell show, character by
  character and output by output, exactly the outputs of its last look: nothing twice, nothing missing.
\<close>

theorem watcher_shows_everything_once:
  assumes "watch_job env ModeStreamJson progress cfg path inserted timeout fuel job w = Some (Inr j, w')"
    and "progress \<noteq> ''quiet''" and "terminal_keeps env out"
  shows "\<exists>events. out w' = out w @ map event_line events
    \<and> (\<forall>c looks. looks_of c (job_looks env ModeStreamJson progress cfg path inserted timeout fuel job w) = looks
         \<and> looks_grow (shows_char env) [] looks \<longrightarrow>
           shown_of c events = pieces (shows_char env) (last ([] # looks)))"
proof -
  let ?cells = "if jb_cell_ids job = [] then inserted else map (py_str (shows_char env)) (jb_cell_ids job)"
  let ?x = "\<lparr>wt_job = job, wt_seen = map (\<lambda>c. (c, [])) ?cells, wt_started = []\<rparr>"
  let ?start = "mbind (mfor (\<lambda>c. emit env ModeStreamJson progress True (cell_event ''cell_inserted'' job c)) inserted)
      (\<lambda>_. emit env ModeStreamJson progress False (status_event ''job_started'' job))"
  obtain u w1 deadline w2 y where st: "?start w = (Inr u, w1)" and d: "deadline_of (sdk env) timeout w1 = (deadline, w2)"
    and p: "poll (sdk env) (watch_turn env ModeStreamJson progress cfg path ?cells) wt_job deadline fuel ?x w2 = Some (Inr y, w')"
    using assms(1) unfolding watch_job_def Let_def by (auto elim!: obind_InrE simp: mret_def split: prod.splits)
  have "other_lines out w w1"
    using st unfolding status_event_def cell_event_def
    by (auto simp: mbind_eq_Inr intro: other_lines_trans
        dest!: other_emit [OF assms(3,2)] other_mfor [OF assms(3,2)])
  then have "told env out ?x w [] ?x w1" by (rule told_other) simp
  moreover have "out w2 = out w1"
    using d assms(3) by (auto simp: deadline_of_def terminal_keeps_def split: option.splits prod.splits) (metis snd_conv)
  then have "told env out ?x w1 [] ?x w2" by (rule told_nothing) simp
  ultimately have "told env out ?x w (loop_looks env ModeStreamJson progress cfg path ?cells deadline fuel ?x w2) y w'"
    using told_trans [OF told_trans loop_told [OF assms(3,2) p]] by force
  moreover have "job_looks env ModeStreamJson progress cfg path inserted timeout fuel job w
      = loop_looks env ModeStreamJson progress cfg path ?cells deadline fuel ?x w2"
    by (simp add: job_looks_def Let_def st d)
  moreover define x looks where x: "x = ?x"
    and looks: "looks = job_looks env ModeStreamJson progress cfg path inserted timeout fuel job w"
  ultimately have "told env out x w looks y w'" by simp
  then obtain events where e: "out w' = out w @ map event_line events"
    "\<And>c. seen_outputs y c = last (seen_outputs x c # looks_of c looks)"
    "\<And>c. looks_grow (shows_char env) (seen_outputs x c) (looks_of c looks) \<Longrightarrow>
       pieces (shows_char env) (seen_outputs y c) = pieces (shows_char env) (seen_outputs x c) @ shown_of c events"
    unfolding told_def by blast
  have "seen_outputs x c = []" for c by (simp add: x seen_outputs_def seen_at_start del: map_map)
  then show ?thesis using e by (auto simp: looks [symmetric])
qed

text \<open>
  A server that answers with these bodies in turn, and a terminal that keeps what is echoed: the job runs
  while its cell has printed a letter, and has succeeded when it has printed another.
\<close>

definition printed_cell :: "pystr \<Rightarrow> json" where
  "printed_cell t = JDict [(lit ''cell'', JDict [(lit ''outputs'', JList [JDict
     [(lit ''name'', JStr (lit ''stdout'')), (lit ''output_type'', JStr (lit ''stream'')), (lit ''text'', JStr t)]])])]"

definition printing_bodies :: "json list" where
  "printing_bodies =
     [JDict [(lit ''status'', JStr (lit ''running''))], printed_cell [97], printed_cell [97],
      JDict [(lit ''status'', JStr (lit ''succeeded''))], printed_cell [97, 98], printed_cell [97, 98]]"

definition printing_env :: "(nat \<times> (pystr \<times> bool) list) cli_env" where
  "printing_env =
     \<lparr>sdk = \<lparr>send_http = (\<lambda>q (n, l). (Inr \<lparr>rs_status = 200, rs_text = written (printing_bodies ! n)\<rparr>, Suc n, l)),
        monotonic = (\<lambda>w. (0, w)), wall_clock = (\<lambda>w. ([], w)), pause = id, time_ns = (\<lambda>w. (0, w)),
        text_ops = plain_env, float_text = id\<rparr>,
      echo = (\<lambda>t nl (n, l). (n, l @ [(t, nl)])), stdout_tty = False, stdin_tty = True, read_stdin = mret [],
      read_file = (\<lambda>p. mret []), files = \<lparr>make_dir = mret, write_image = (\<lambda>p c. mret ())\<rparr>,
      httpx_error = (\<lambda>e. False), process_env = (\<lambda>k. None)\<rparr>"

definition printing_job :: job_handle where
  "printing_job = \<lparr>jb_config = \<lparr>cfg_server = [], cfg_token = None, cfg_actor_id = [], cfg_actor_type = [], cfg_timeout = 30\<rparr>,
     jb_id = [49], jb_status = QUEUED, jb_cell_ids = [JStr [99]], jb_path = []\<rparr>"

definition printed_output :: "pystr \<Rightarrow> jobj" where
  "printed_output t =
     [(lit ''name'', JStr (lit ''stdout'')), (lit ''output_type'', JStr (lit ''stream'')), (lit ''text'', JStr t)]"

lemma printing_answers:
  "json_loads ft (written (JDict [(lit ''status'', JStr (lit ''running''))])) = Some (JDict [(lit ''status'', JStr (lit ''running''))])"
  "json_loads ft (written (JDict [(lit ''status'', JStr (lit ''succeeded''))])) = Some (JDict [(lit ''status'', JStr (lit ''succeeded''))])"
  "list_all scalar t \<Longrightarrow> json_loads ft (written (printed_cell t)) = Some (printed_cell t)"
proof -
  have "clean (JDict [(lit ''status'', JStr (lit ''running''))])" "clean (JDict [(lit ''status'', JStr (lit ''succeeded''))])"
    "in_order (JDict [(lit ''status'', JStr (lit ''running''))]) = JDict [(lit ''status'', JStr (lit ''running''))]"
    "in_order (JDict [(lit ''status'', JStr (lit ''succeeded''))]) = JDict [(lit ''status'', JStr (lit ''succeeded''))]"
    by (simp_all add: lit_scalar)
  then show "json_loads ft (written (JDict [(lit ''status'', JStr (lit ''running''))])) = Some (JDict [(lit ''status'', JStr (lit ''running''))])"
    "json_loads ft (written (JDict [(lit ''status'', JStr (lit ''succeeded''))])) = Some (JDict [(lit ''status'', JStr (lit ''succeeded''))])"
    using loads_written by metis+
  assume "list_all scalar t"
  then have "clean (printed_cell t)" "in_order (printed_cell t) = printed_cell t"
    by (simp_all add: printed_cell_def lit_scalar) (simp add: lit_def)
  then show "json_loads ft (written (printed_cell t)) = Some (printed_cell t)" using loads_written by metis
qed

lemma printing_looks:
  assumes "n \<in> {1, 2, 4, 5}"
  shows "cell_model (sdk printing_env) cfg [] [99] (n, l) =
    (Inr [(lit ''outputs'', JList [JDict (printed_output (if n < 3 then [97] else [97, 98]))])], Suc n, l)"
proof -
  have q: "url_quote [] = Inr []" "url_quote [99] = Inr [99]"
    using utf8_ascii [of "[99]"] by (simp_all add: url_quote_def encode_def utf8_encode_def quote_bytes_def quote_byte_def always_safe_def)
  have "printing_bodies ! n = printed_cell (if n < 3 then [97] else [97, 98])"
    using assms by (auto simp: printing_bodies_def)
  moreover have "list_all scalar (if n < 3 then [97] else [97, 98])" by (simp add: scalar_def surrogate_def)
  ultimately show ?thesis
    by (simp add: cell_model_def cell_request_def q send_request_def printing_env_def mbind_def of_result_def
        checked_json_def response_json_def raise_response_def is_success_def printing_answers(3) subscript_def item_of_def
        del: if_split) (simp add: printed_cell_def printed_output_def subscript_def item_of_def)
qed

lemma printing_cell:
  "n \<in> {1, 2, 4, 5} \<Longrightarrow> has_cell (sdk printing_env) cfg [] [99] (n, l) = (Inr True, Suc n, l)"
  "n \<in> {1, 2, 4, 5} \<Longrightarrow> handle_outputs (sdk printing_env) cfg [] [99] (n, l) =
     (Inr [printed_output (if n < 3 then [97] else [97, 98])], Suc n, l)"
  by (simp_all add: has_cell_def handle_outputs_def printing_looks mbind_def of_result_def get_or_def dicts_in_def py_list_def
      del: insert_iff)

lemma printing_refresh:
  "job_refresh (sdk printing_env) job (0, l) = (Inr (job\<lparr>jb_status := RUNNING\<rparr>), 1, l)"
  "job_refresh (sdk printing_env) job (3, l) = (Inr (job\<lparr>jb_status := SUCCEEDED\<rparr>), 4, l)"
  by (simp_all add: job_refresh_def printing_env_def printing_bodies_def send_request_def mbind_def of_result_def
      checked_json_def response_json_def raise_response_def is_success_def printing_answers(1,2))
    (simp_all add: refreshed_def subscript_def item_of_def sdk_job_status_def py_get_def get_or_def)

lemma printing_cells:
  "has_cell (sdk printing_env) cfg [] [99] (Suc 0, l) = (Inr True, 2, l)"
  "handle_outputs (sdk printing_env) cfg [] [99] (2, l) = (Inr [printed_output [97]], 3, l)"
  "has_cell (sdk printing_env) cfg [] [99] (4, l) = (Inr True, 5, l)"
  "handle_outputs (sdk printing_env) cfg [] [99] (5, l) = (Inr [printed_output [97, 98]], 6, l)"
  using printing_cell(1) [of 1] printing_cell(2) [of 2] printing_cell(1) [of 4] printing_cell(2) [of 5]
  by (simp_all add: numeral_2_eq_2 [symmetric])

lemma printing_emit:
  "emit printing_env ModeStreamJson ''full'' b ev (n, l) = (Inr (), n, l @ [event_line ev])"
  by (simp add: emit_def say_def printing_env_def event_line_def)

lemma printing_deltas:
  "output_deltas pr [] [printed_output t] = [printed_output t]"
  "output_deltas pr [printed_output [97]] [printed_output [97, 98]] =
     [[(lit ''output_type'', JStr (lit ''stream'')), (lit ''name'', JStr (lit ''stdout'')), (lit ''text'', JStr [98])]]"
  by (simp_all add: output_deltas_def output_delta_def printed_output_def output_type_is_def opt_json_def get_or_def
      py_str_def)

lemma printing_turns:
  "\<exists>l'. watch_turn printing_env ModeStreamJson ''full'' cfg [] [[99]]
      \<lparr>wt_job = job, wt_seen = [([99], [])], wt_started = []\<rparr> (0, l)
    = (Inr (\<lparr>wt_job = job\<lparr>jb_status := RUNNING\<rparr>, wt_seen = [([99], [printed_output [97]])], wt_started = [[99]]\<rparr>, False), 3, l')"
  "\<exists>l'. watch_turn printing_env ModeStreamJson ''full'' cfg [] [[99]]
      \<lparr>wt_job = job, wt_seen = [([99], [printed_output [97]])], wt_started = [[99]]\<rparr> (3, l)
    = (Inr (\<lparr>wt_job = job\<lparr>jb_status := SUCCEEDED\<rparr>, wt_seen = [([99], [printed_output [97, 98]])], wt_started = [[99]]\<rparr>, True), 6, l')"
  by (simp_all add: watch_turn_def printing_refresh mbind_def watch_cell_def printing_cells has_begun_def mret_def
      printing_emit seen_outputs_def printing_deltas finish_events_def)

lemma printing_watched:
  "\<exists>w'. watch_job printing_env ModeStreamJson ''full'' cfg [] [] None (Suc (Suc 0)) printing_job (0, []) =
     Some (Inr (printing_job\<lparr>jb_status := SUCCEEDED\<rparr>), w')"
  "job_looks printing_env ModeStreamJson ''full'' cfg [] [] None (Suc (Suc 0)) printing_job (0, []) =
     [([99], [printed_output [97]]), ([99], [printed_output [97, 98]])]"
proof -
  let ?line = "event_line (status_event ''job_started'' printing_job)"
  let ?x = "\<lparr>wt_job = printing_job, wt_seen = [([99], [])], wt_started = []\<rparr>"
  let ?job = "printing_job\<lparr>jb_status := RUNNING\<rparr>"
  let ?y = "\<lparr>wt_job = ?job, wt_seen = [([99], [printed_output [97]])], wt_started = [[99]]\<rparr>"
  let ?z = "\<lparr>wt_job = ?job\<lparr>jb_status := SUCCEEDED\<rparr>, wt_seen = [([99], [printed_output [97, 98]])], wt_started = [[99]]\<rparr>"
  obtain l1 where t1: "watch_turn printing_env ModeStreamJson ''full'' cfg [] [[99]] ?x (0, [?line]) = (Inr (?y, False), 3, l1)"
    using printing_turns(1) by blast
  obtain l2 where t2: "watch_turn printing_env ModeStreamJson ''full'' cfg [] [[99]] ?y (3, l1) = (Inr (?z, True), 6, l2)"
    using printing_turns(2) by blast
  have cells: "jb_cell_ids printing_job = [JStr [99]]" "py_str (shows_char printing_env) (JStr [99]) = [99]"
    by (simp_all add: printing_job_def py_str_def)
  have pause: "pause (sdk printing_env) w = w" for w by (simp add: printing_env_def)
  have start: "mbind (mret ()) (\<lambda>_. emit printing_env ModeStreamJson ''full'' False (status_event ''job_started'' printing_job)) (0, [])
      = (Inr (), 0, [?line])"
    by (simp add: mbind_def mret_def printing_emit)
  show "\<exists>w'. watch_job printing_env ModeStreamJson ''full'' cfg [] [] None (Suc (Suc 0)) printing_job (0, []) =
     Some (Inr (printing_job\<lparr>jb_status := SUCCEEDED\<rparr>), w')"
    by (simp add: watch_job_def Let_def cells start printing_emit obind_def ended_def deadline_of_def t1 t2 pause mret_def)
  show "job_looks printing_env ModeStreamJson ''full'' cfg [] [] None (Suc (Suc 0)) printing_job (0, []) =
     [([99], [printed_output [97]]), ([99], [printed_output [97, 98]])]"
    by (simp add: job_looks_def Let_def cells start printing_emit deadline_of_def t1 t2 pause look_def
        printing_refresh printing_cells split: prod.split sum.split)
qed

lemma watcher_shows_everything_once_witness:
  "\<exists>w' events. snd w' = map event_line events
    \<and> watch_job printing_env ModeStreamJson ''full'' (jb_config printing_job) [] [] None (Suc (Suc 0)) printing_job (0, []) =
        Some (Inr (printing_job\<lparr>jb_status := SUCCEEDED\<rparr>), w')
    \<and> shown_of [99] events = [Character 97, Character 98]"
proof -
  obtain w' where w: "watch_job printing_env ModeStreamJson ''full'' (jb_config printing_job) [] [] None (Suc (Suc 0)) printing_job (0, []) =
        Some (Inr (printing_job\<lparr>jb_status := SUCCEEDED\<rparr>), w')"
    using printing_watched(1) by blast
  have keeps: "terminal_keeps printing_env snd" by (auto simp: terminal_keeps_def printing_env_def)
  have "stream_grows pr (printed_output [97]) (printed_output [97, 98])" for pr
    by (simp add: stream_grows_def printed_output_def output_type_is_def get_or_def py_str_def)
  then have "grows pr ([] @ [printed_output [97]]) ([] @ printed_output [97, 98] # [])" for pr by (rule grows_last)
  moreover have "grows pr [] ([] @ [printed_output [97]])" for pr by (rule grows_new)
  ultimately have "looks_grow pr [] [[printed_output [97]], [printed_output [97, 98]]]" for pr
    by (simp add: looks_grow_def printed_output_def)
  then obtain events where "snd w' = map event_line events"
    "shown_of [99] events = pieces (shows_char printing_env) [printed_output [97, 98]]"
    using watcher_shows_everything_once [OF w _ keeps] printing_watched(2) [of "jb_config printing_job"]
    by (auto simp: looks_of_def)
  moreover have "pieces pr [printed_output [97, 98]] = [Character 97, Character 98]" for pr
    by (simp add: pieces_of_def printed_output_def output_type_is_def get_or_def py_str_def)
  ultimately show ?thesis using w by (intro exI [of _ w'] exI [of _ events]) simp
qed

section \<open>Exit codes\<close>

lemma exit_after_eq: "exit_after True job w = (r, w') \<Longrightarrow> r = Inr j \<Longrightarrow> j = job \<and> \<not> failed_job_status (jb_status j)"
  by (auto simp: exit_after_def exit_if_job_failed_def mbind_def mret_def mraise_def split: if_splits)

lemma watch_turn_done:
  "watch_turn env mode progress cfg path cells x w = (Inr (y, True), w') \<Longrightarrow> terminal_status (jb_status (wt_job y))"
  by (auto simp: watch_turn_def mbind_eq_Inr finish_events_def terminal_status_def split: if_splits)

lemma watched_is_terminal:
  "watch_job env mode progress cfg path inserted timeout fuel job w = Some (Inr j, w') \<Longrightarrow> terminal_status (jb_status j)"
proof -
  assume w: "watch_job env mode progress cfg path inserted timeout fuel job w = Some (Inr j, w')"
  obtain cells deadline x0 w1 y w2 where
    "poll (sdk env) (watch_turn env mode progress cfg path cells) wt_job deadline fuel x0 w1 = Some (Inr y, w2)"
    and j: "j = wt_job y"
    using w unfolding watch_job_def Let_def obind_eq_Some case_prod_beta by auto
  from poll_cases [OF this(1)] obtain x1 w3 where "watch_turn env mode progress cfg path cells x1 w3 = (Inr (y, True), w2)"
    by auto
  then show ?thesis using j watch_turn_done by simp
qed

lemma waited_is_terminal: "job_wait env timeout fuel job w = Some (Inr j, w') \<Longrightarrow> terminal_status (jb_status j)"
  by (auto simp: job_wait_def mbind_eq_Inr settled_status_def terminal_status_def split: prod.splits dest!: poll_cases)

text \<open>
  C32: exit code zero means the job is done.  When a run command returns normally after its job, that
  is with exit code zero, the job it last saw succeeded or is awaiting input: a run that failed, was
  interrupted or is not finished never exits with zero.
\<close>

theorem zero_exit_means_done:
  assumes "run_command_output env fuel command cfg path job inserted f True w = Some (Inr j, w')"
  shows "jb_status j = SUCCEEDED \<or> jb_status j = job_status.AWAITING_INPUT"
proof -
  have "terminal_status (jb_status j) \<and> \<not> failed_job_status (jb_status j)"
    using assms
    by (auto simp: run_command_output_def watched_output_def plain_output_def Let_def obind_eq_Some mbind_eq_Inr
        split: if_splits dest!: exit_after_eq [OF _ refl] dest: watched_is_terminal waited_is_terminal)
  then show ?thesis by (auto simp: terminal_status_def failed_job_status_def)
qed

definition demo_config :: config where
  "demo_config = \<lparr>cfg_server = [], cfg_token = None, cfg_actor_id = [], cfg_actor_type = [], cfg_timeout = 30\<rparr>"

definition demo_flags :: run_flags where
  "demo_flags = \<lparr>fl_json = True, fl_pretty = False, fl_human = False, fl_watch = False, fl_stream_json = False,
    fl_progress = None, fl_timeout = None, fl_brief = False\<rparr>"

lemma zero_exit_means_done_witness:
  "\<exists>env job f w'. run_command_output (env :: nat cli_env) 1 ''exec'' (jb_config job) [] job [] f True 0 = Some (Inr job, w')
    \<and> (jb_status job = SUCCEEDED \<or> jb_status job = job_status.AWAITING_INPUT)"
proof -
  let ?env = "\<lparr>sdk = failing_env, echo = (\<lambda>t nl w. Suc w), stdout_tty = False, stdin_tty = True,
    read_stdin = mret [], read_file = (\<lambda>p. mret []),
    files = \<lparr>make_dir = mret, write_image = (\<lambda>p c. mret ())\<rparr>, httpx_error = (\<lambda>e. False), process_env = (\<lambda>k. None)\<rparr>"
  let ?job = "\<lparr>jb_config = \<lparr>cfg_server = [], cfg_token = None, cfg_actor_id = [], cfg_actor_type = [], cfg_timeout = 30\<rparr>,
    jb_id = [49], jb_status = SUCCEEDED, jb_cell_ids = [], jb_path = []\<rparr>"
  let ?f = "\<lparr>fl_json = True, fl_pretty = False, fl_human = False, fl_watch = False, fl_stream_json = False,
    fl_progress = None, fl_timeout = None, fl_brief = False\<rparr>"
  have run: "run_command_output ?env 1 ''exec'' (jb_config ?job) [] ?job [] ?f True 0 = Some (Inr ?job, 1)"
    by (simp add: run_command_output_def validate_brief_run_flags_def run_output_mode_def terminal_status_def
        obind_def ended_def of_result_def mret_def mbind_def plain_output_def job_result_def echo_json_def say_def
        exit_after_def exit_if_job_failed_def failed_job_status_def)
  from zero_exit_means_done [OF run] show ?thesis using run by (intro exI conjI)
qed

section \<open>Batches\<close>

lemma ix_cell_turn:
  assumes "ix_cell env fuel cfg path f False single is_last spec before after x w = Some (Inr (y, stop), w')"
  shows "\<exists>cid. ix_inserted y = ix_inserted x @ [cid] \<and> (\<not> stop \<longrightarrow> ix_halt y = ix_halt x)
    \<and> (stop \<longrightarrow> (\<exists>job. ix_job y = Some job \<and> halt_reason (jb_status job) \<noteq> None
         \<and> ix_halt y = (if is_last then None else halt_reason (jb_status job))))"
  using assms unfolding ix_cell_def
  by (elim obind_InrE) (auto simp: Let_def halt_reason_def split: if_splits elim!: obind_InrE)

lemma ix_loop_halts:
  assumes "ix_loop env fuel cfg path f False single specs before after x w = Some (Inr y, w')" and "ix_halt x = None"
  shows "\<exists>ids. ix_inserted y = ix_inserted x @ ids \<and> length ids \<le> length specs
    \<and> (ix_halt y = None \<longleftrightarrow> length ids = length specs) \<and> (ix_halt y \<noteq> None \<longrightarrow> ids \<noteq> [])
    \<and> (\<forall>reason. ix_halt y = Some reason \<longrightarrow>
         (\<exists>job. ix_job y = Some job \<and> halt_reason (jb_status job) = Some reason))"
  using assms
proof (induction specs arbitrary: before after x w)
  case (Cons spec rest)
  obtain x1 stop w1 where turn: "ix_cell env fuel cfg path f False single (rest = []) spec before after x w = Some (Inr (x1, stop), w1)"
    and cont: "(if stop then ended (mret x1)
      else ix_loop env fuel cfg path f False single rest None (Some (last (ix_inserted x1))) x1) w1 = Some (Inr y, w')"
    using Cons.prems(1) by (auto elim!: obind_InrE)
  obtain cid where cid: "ix_inserted x1 = ix_inserted x @ [cid]" "\<not> stop \<Longrightarrow> ix_halt x1 = None"
    "stop \<Longrightarrow> \<exists>job. ix_job x1 = Some job \<and> halt_reason (jb_status job) \<noteq> None
      \<and> ix_halt x1 = (if rest = [] then None else halt_reason (jb_status job))"
    using ix_cell_turn [OF turn] Cons.prems(2) by auto
  show ?case
  proof (cases stop)
    case True
    with cont have "y = x1" by simp
    with cid(1) cid(3) [OF True] show ?thesis by (intro exI [of _ "[cid]"]) (cases rest; auto)
  next
    case False
    with cont Cons.IH [of None "Some (last (ix_inserted x1))" x1 w1] cid(2) obtain ids where
      "ix_inserted y = ix_inserted x1 @ ids" "length ids \<le> length rest"
      "ix_halt y = None \<longleftrightarrow> length ids = length rest"
      "\<forall>reason. ix_halt y = Some reason \<longrightarrow> (\<exists>job. ix_job y = Some job \<and> halt_reason (jb_status job) = Some reason)"
      by auto
    with cid(1) show ?thesis by (intro exI [of _ "cid # ids"]) simp
  qed
qed simp

text \<open>
  C33: a batch stops where it should, and says why.  A batch of \<open>ix\<close> that is not cut short by an
  exception inserts its cells in order; it leaves cells out exactly when it reports a halt reason, and
  then the reason is that of its last job: failed, interrupted, or waiting for input.
\<close>

theorem batch_halts_are_reported:
  assumes "ix_loop env fuel cfg path f False single specs before after
      \<lparr>ix_inserted = [], ix_job = None, ix_halt = None\<rparr> w = Some (Inr x, w')"
  shows "length (ix_inserted x) \<le> length specs
    \<and> (length (ix_inserted x) < length specs \<longleftrightarrow> ix_halt x \<noteq> None)
    \<and> (ix_halt x \<noteq> None \<longrightarrow>
        (\<exists>job reason. ix_job x = Some job \<and> ix_halt x = Some reason \<and> halt_reason (jb_status job) = Some reason
          \<and> field ''cells_remaining'' (batch_payload path (length specs) x results)
              = Some (JInt (int (length specs - length (ix_inserted x))))))"
proof -
  obtain ids where ids: "ix_inserted x = ids" "length ids \<le> length specs" "ix_halt x = None \<longleftrightarrow> length ids = length specs"
    "ix_halt x \<noteq> None \<Longrightarrow> ids \<noteq> []" "\<forall>reason. ix_halt x = Some reason \<longrightarrow> (\<exists>job. ix_job x = Some job \<and> halt_reason (jb_status job) = Some reason)"
    using ix_loop_halts [OF assms] by auto
  then show ?thesis
    using ids by (auto simp: batch_payload_def command_of_def Let_def of_nat_diff)
qed

text \<open>A server that answers every request with a Markdown cell.\<close>

definition markdown_body :: json where
  "markdown_body = JDict [(lit ''cell'', JDict [(lit ''cell_type'', JStr (lit ''markdown''))])]"

definition markdown_env :: "nat cli_env" where
  "markdown_env =
     \<lparr>sdk = failing_env\<lparr>send_http := (\<lambda>q w. (Inr \<lparr>rs_status = 200, rs_text = written markdown_body\<rparr>, w))\<rparr>,
      echo = (\<lambda>t nl w. Suc w), stdout_tty = False, stdin_tty = True, read_stdin = mret [], read_file = (\<lambda>p. mret []),
      files = \<lparr>make_dir = mret, write_image = (\<lambda>p c. mret ())\<rparr>, httpx_error = (\<lambda>e. False), process_env = (\<lambda>k. None)\<rparr>"

lemma markdown_answer: "json_loads ft (written markdown_body) = Some markdown_body"
proof -
  have "clean markdown_body" "in_order markdown_body = markdown_body"
    by (simp_all add: markdown_body_def lit_scalar)
  then show ?thesis using loads_written by metis
qed

lemma batch_halts_are_reported_witness:
  "\<exists>x w'. ix_loop markdown_env 0 demo_config [] demo_flags False False [\<lparr>sp_type = lit ''markdown'', sp_source = [], sp_id = Some [97]\<rparr>]
      None None \<lparr>ix_inserted = [], ix_job = None, ix_halt = None\<rparr> 0 = Some (Inr x, w')
    \<and> ix_inserted x = [[97]] \<and> ix_halt x = None"
proof -
  let ?spec = "\<lparr>sp_type = lit ''markdown'', sp_source = [], sp_id = Some [97]\<rparr>"
  have q: "url_quote [] = Inr []" "url_quote [97] = Inr [97]"
    using utf8_ascii [of "[97]"] by (simp_all add: url_quote_def encode_def utf8_encode_def quote_bytes_def quote_byte_def always_safe_def)
  have ins: "insert_cell_spec markdown_env demo_config [] ?spec None None 0 = (Inr [97], 0)"
    by (simp add: insert_cell_spec_def insert_new_cell_def check_position_def chosen_cell_id_def py_or_def mbind_def
        notebook_request_def q send_request_def markdown_env_def failing_env_def raise_response_def is_success_def
        of_result_def mret_def)
  have ty: "handle_type (sdk markdown_env) demo_config [] [97] 0 = (Inr MARKDOWN, 0)"
    by (simp add: handle_type_def cell_model_def cell_request_def q send_request_def markdown_env_def failing_env_def
        mbind_def of_result_def checked_json_def response_json_def raise_response_def is_success_def markdown_answer)
      (simp add: markdown_body_def subscript_def item_of_def cell_type_of_def get_or_def)
  have run: "ix_loop markdown_env 0 demo_config [] demo_flags False False [?spec] None None \<lparr>ix_inserted = [], ix_job = None, ix_halt = None\<rparr> 0
      = Some (Inr \<lparr>ix_inserted = [[97]], ix_job = None, ix_halt = None\<rparr>, 0)"
    by (simp add: ix_cell_def obind_def ended_def ins ty mret_def)
  have "ix_halt \<lparr>ix_inserted = [[97]], ix_job = None, ix_halt = None\<rparr> = None"
    using batch_halts_are_reported [OF run] by simp
  then show ?thesis
    by (intro exI [of _ "\<lparr>ix_inserted = [[97]], ix_job = None, ix_halt = None\<rparr>"] exI [of _ 0] conjI run) simp_all
qed

end
