(* ===== verification/Hn_CliCommands.thy ===== *)
theory Hn_CliCommands
  imports Hn_CliRun
begin

text \<open>
  The commands that do not run cells (\<^verbatim>\<open>cli/main.py\<close>): \<open>create\<close>, \<open>status\<close>, \<open>diff\<close>, \<open>cat\<close>, \<open>restart\<close>,
  \<open>interrupt\<close>, the \<open>edit\<close>, \<open>runtime\<close> and \<open>job\<close> groups, and the home view.  click's parsing of the command
  line is left out: a command takes its parsed options.
\<close>

text \<open>\<open>@_cli_errors\<close> on a command without loops.\<close>

definition cli_command :: "'w cli_env \<Rightarrow> ('w \<Rightarrow> ('a, 'w) outcome) \<Rightarrow> 'w \<Rightarrow> ('a, 'w) outcome" where
  "cli_command env m = catching (cli_error (shows_char env) (httpx_error env)) m"

text \<open>\<open>"pretty" if pretty else _final_output_mode(...)\<close>, then the result in that mode.\<close>

definition show_result :: "'w cli_env \<Rightarrow> run_flags \<Rightarrow> jobj \<Rightarrow> pystr \<Rightarrow> 'w \<Rightarrow> (unit, 'w) outcome" where
  "show_result env f payload human =
     mbind (if fl_pretty f then mret ModePretty
            else of_result (final_output_mode (stdout_tty env) (fl_json f) (fl_human f))) (\<lambda>mode.
       render_result env mode payload human)"

section \<open>create, status, diff, cat\<close>

definition create_cmd :: "'w cli_env \<Rightarrow> config \<Rightarrow> pystr \<Rightarrow> bool \<Rightarrow> run_flags \<Rightarrow> 'w \<Rightarrow> (unit, 'w) outcome" where
  "create_cmd env cfg path clear_first f =
     cli_command env
       (mbind (open_notebook env cfg path True) (\<lambda>(cfg, created).
        mbind (if clear_first \<and> created
               then mbind (cell_handles (sdk env) cfg path) (mfor (handle_delete (sdk env) cfg path))
               else mret ()) (\<lambda>_.
        mbind (sdk_status (sdk env) cfg False path) (\<lambda>st.
          if fl_brief f
          then echo_json env (fl_pretty f)
                 (JDict (command_of ''create'' path @ [(lit ''summary'', JDict (status_summary st None))]))
          else
            let hints = dedupe_hints [Some (job_hint (lit ''hypernote status '' @ shlex_quote path)), Some (ix_hint path)];
                payload = append_hints
                  (command_of ''create'' path
                   @ [(lit ''snapshot'', JStr (snap_token (ns_current st))), (lit ''summary'', JDict (status_summary st None)),
                      (lit ''status'', JDict (notebook_status_dict st))]) hints
            in show_result env f payload (with_hints_text (ns_summary st) hints)))))"

definition status_cmd :: "'w cli_env \<Rightarrow> config \<Rightarrow> pystr \<Rightarrow> compact_options \<Rightarrow> run_flags \<Rightarrow> 'w \<Rightarrow> (unit, 'w) outcome" where
  "status_cmd env cfg path co f =
     cli_command env
       (mbind (open_notebook env cfg path False) (\<lambda>(cfg, _).
        mbind (sdk_status (sdk env) cfg (\<not> fl_brief f) path) (\<lambda>st.
          if fl_brief f then echo_json env (fl_pretty f) (JDict (brief_status_payload path st))
          else
            mbind (of_result (build_status_payload (text_ops (sdk env))
                     (co\<lparr>co_include_outputs := co_full_source co\<rparr>) path st)) (\<lambda>d.
              let detailed = (if co_full_output co then set_field ''details'' (JDict (notebook_status_dict st)) d else d);
                  payload = append_hints detailed (status_hints path (Some (snap_token (ns_current st))))
              in show_result env f payload (human_status_payload (shows_char env) payload)))))"

definition diff_cmd :: "'w cli_env \<Rightarrow> config \<Rightarrow> pystr \<Rightarrow> pystr \<Rightarrow> bool \<Rightarrow> run_flags \<Rightarrow> 'w \<Rightarrow> (unit, 'w) outcome" where
  "diff_cmd env cfg path tok full f =
     cli_command env
       (mbind (open_notebook env cfg path False) (\<lambda>(cfg, _).
        mbind (sdk_diff (sdk env) cfg \<lparr>snap_token = tok, snap_timestamp = lit ''0.0'', snap_cell_count = 0\<rparr> full path) (\<lambda>st.
          show_result env f
            (command_of ''diff'' path @ [(lit ''snapshot'', JStr (snap_token (ns_current st))),
                                         (lit ''status'', JDict (notebook_status_dict st))])
            (human_diff (shows_char env) full st))))"

definition selected_modes :: "cat_options \<Rightarrow> nat" where
  "selected_modes ct = length (filter (\<lambda>v. chosen v \<noteq> None) [ct_cell ct, ct_output ct, ct_tail ct, ct_mime ct])"

definition cat_cmd :: "'w cli_env \<Rightarrow> config \<Rightarrow> pystr \<Rightarrow> compact_options \<Rightarrow> cat_options \<Rightarrow> run_flags \<Rightarrow> 'w \<Rightarrow> (unit, 'w) outcome" where
  "cat_cmd env cfg path co ct f =
     cli_command env
       (if 1 < selected_modes ct
        then mraise (click_exception (lit ''Choose only one of --cell, --output, --tail-output, or --mime''))
        else
          mbind (open_notebook env cfg path False) (\<lambda>(cfg, _).
          mbind (build_cat_payload (sdk env) (files env) cfg co ct path) (\<lambda>d.
            if fl_brief f
            then let focused = chosen (ct_output ct) \<noteq> None \<or> chosen (ct_tail ct) \<noteq> None \<or> chosen (ct_mime ct) \<noteq> None
                 in echo_json env (fl_pretty f)
                      (JDict (dict_pop (lit ''hints'') (if focused then dict_pop (lit ''summary'') d else d)))
            else
              let image = (if ct_images ct = None \<and> chosen (ct_mime ct) = None
                           then image_output_cell_id (map dict_of (list_of (get_or ''cells'' (JList []) d))) else JNull);
                  image_cell = (case image of JStr s \<Rightarrow> Some s | _ \<Rightarrow> None);
                  payload = append_hints d (cat_hints path image_cell)
              in show_result env f payload (human_cat (shows_char env) payload))))"

section \<open>restart and interrupt\<close>

definition restart_cmd :: "'w cli_env \<Rightarrow> config \<Rightarrow> pystr \<Rightarrow> run_flags \<Rightarrow> 'w \<Rightarrow> (unit, 'w) outcome" where
  "restart_cmd env cfg path f =
     cli_command env
       (mbind (open_notebook env cfg path False) (\<lambda>(cfg, _).
        mbind (sdk_restart (sdk env) cfg path) (\<lambda>_.
        mbind (runtime_dict (sdk env) cfg path) (\<lambda>r.
          show_result env f (command_of ''restart'' path @ [(lit ''runtime'', r)]) (lit ''Restarted '' @ path)))))"

definition interrupt_cmd :: "'w cli_env \<Rightarrow> config \<Rightarrow> pystr \<Rightarrow> run_flags \<Rightarrow> 'w \<Rightarrow> (unit, 'w) outcome" where
  "interrupt_cmd env cfg path f =
     cli_command env
       (mbind (open_notebook env cfg path False) (\<lambda>(cfg, _).
        mbind (sdk_interrupt (sdk env) cfg path) (\<lambda>_.
          show_result env f (command_of ''interrupt'' path @ [(lit ''sent'', JBool True)]) (lit ''Interrupted '' @ path))))"

section \<open>edit\<close>

definition edit_output :: "'w cli_env \<Rightarrow> run_flags \<Rightarrow> jobj \<Rightarrow> pystr \<Rightarrow> 'w \<Rightarrow> (unit, 'w) outcome" where
  "edit_output env f payload human =
     (if fl_brief f then echo_json env (fl_pretty f) (JDict payload) else show_result env f payload human)"

text \<open>
  The two inserting commands differ in the method of \<open>notebook.cells\<close> they call and in their name; the
  text is read after connecting.
\<close>

definition edit_insert_cmd ::
  "'w cli_env \<Rightarrow> string
   \<Rightarrow> ('w client_env \<Rightarrow> config \<Rightarrow> pystr \<Rightarrow> pystr \<Rightarrow> pystr option \<Rightarrow> pystr option \<Rightarrow> pystr option \<Rightarrow> 'w \<Rightarrow> (pystr, 'w) outcome)
   \<Rightarrow> config \<Rightarrow> pystr \<Rightarrow> ix_options \<Rightarrow> pystr option \<Rightarrow> run_flags \<Rightarrow> 'w \<Rightarrow> (unit, 'w) outcome" where
  "edit_insert_cmd env command add_cell cfg path io cid f =
     cli_command env
       (mbind (open_notebook env cfg path False) (\<lambda>(cfg, _).
        mbind (read_text env (io_source io) (io_source_file io)) (\<lambda>source.
        mbind (add_cell (sdk env) cfg path source cid (io_before io) (io_after io)) (\<lambda>i.
        mbind (handle_dict (sdk env) cfg path i) (\<lambda>d.
          edit_output env (f\<lparr>fl_brief := False\<rparr>) (command_of command path @ [(lit ''cell'', d)])
            (lit ''Inserted '' @ i))))))"

definition edit_insert_code_cmd ::
  "'w cli_env \<Rightarrow> config \<Rightarrow> pystr \<Rightarrow> ix_options \<Rightarrow> pystr option \<Rightarrow> run_flags \<Rightarrow> 'w \<Rightarrow> (unit, 'w) outcome" where
  "edit_insert_code_cmd env = edit_insert_cmd env ''edit.insert-code'' insert_code"

definition edit_insert_markdown_cmd ::
  "'w cli_env \<Rightarrow> config \<Rightarrow> pystr \<Rightarrow> ix_options \<Rightarrow> pystr option \<Rightarrow> run_flags \<Rightarrow> 'w \<Rightarrow> (unit, 'w) outcome" where
  "edit_insert_markdown_cmd env = edit_insert_cmd env ''edit.insert-markdown'' insert_markdown"

definition edit_replace_cmd ::
  "'w cli_env \<Rightarrow> config \<Rightarrow> pystr \<Rightarrow> pystr \<Rightarrow> pystr option \<Rightarrow> pystr option \<Rightarrow> run_flags \<Rightarrow> 'w \<Rightarrow> (unit, 'w) outcome" where
  "edit_replace_cmd env cfg path cid source source_file f =
     cli_command env
       (mbind (open_notebook env cfg path False) (\<lambda>(cfg, _).
        mbind (cell_at (sdk env) cfg path cid) (\<lambda>_.
        mbind (read_text env source source_file) (\<lambda>new.
        mbind (handle_replace (sdk env) cfg path cid new) (\<lambda>_.
        mbind (if fl_brief f
               then mbind (cell_source_brief_payload env cfg path cid) (\<lambda>d. mret (JDict d))
               else handle_dict (sdk env) cfg path cid) (\<lambda>d.
          edit_output env f (command_of ''edit.replace'' path @ [(lit ''cell'', d)]) (lit ''Replaced '' @ cid)))))))"

definition edit_move_cmd ::
  "'w cli_env \<Rightarrow> config \<Rightarrow> pystr \<Rightarrow> pystr \<Rightarrow> pystr option \<Rightarrow> pystr option \<Rightarrow> run_flags \<Rightarrow> 'w \<Rightarrow> (unit, 'w) outcome" where
  "edit_move_cmd env cfg path cid before after f =
     cli_command env
       (mbind (open_notebook env cfg path False) (\<lambda>(cfg, _).
        mbind (cell_at (sdk env) cfg path cid) (\<lambda>_.
        mbind (handle_move (sdk env) cfg path cid before after) (\<lambda>_.
          edit_output env (f\<lparr>fl_brief := False\<rparr>)
            (command_of ''edit.move'' path @ [(lit ''cell_id'', JStr cid), (lit ''moved'', JBool True)])
            (lit ''Moved '' @ cid)))))"

definition edit_delete_cmd :: "'w cli_env \<Rightarrow> config \<Rightarrow> pystr \<Rightarrow> pystr \<Rightarrow> run_flags \<Rightarrow> 'w \<Rightarrow> (unit, 'w) outcome" where
  "edit_delete_cmd env cfg path cid f =
     cli_command env
       (mbind (open_notebook env cfg path False) (\<lambda>(cfg, _).
        mbind (cell_at (sdk env) cfg path cid) (\<lambda>_.
        mbind (handle_delete (sdk env) cfg path cid) (\<lambda>_.
          edit_output env (f\<lparr>fl_brief := False\<rparr>)
            (command_of ''edit.delete'' path @ [(lit ''cell_id'', JStr cid), (lit ''deleted'', JBool True)])
            (lit ''Deleted '' @ cid)))))"

definition edit_clear_outputs_cmd :: "'w cli_env \<Rightarrow> config \<Rightarrow> pystr \<Rightarrow> pystr \<Rightarrow> run_flags \<Rightarrow> 'w \<Rightarrow> (unit, 'w) outcome" where
  "edit_clear_outputs_cmd env cfg path cid f =
     cli_command env
       (mbind (open_notebook env cfg path False) (\<lambda>(cfg, _).
        mbind (cell_at (sdk env) cfg path cid) (\<lambda>_.
        mbind (handle_clear_outputs (sdk env) cfg path cid) (\<lambda>_.
        mbind (handle_dict (sdk env) cfg path cid) (\<lambda>d.
          edit_output env (f\<lparr>fl_brief := False\<rparr>)
            (command_of ''edit.clear-outputs'' path @ [(lit ''cell'', d)]) (lit ''Cleared outputs for '' @ cid))))))"

section \<open>runtime and job\<close>

definition runtime_result :: "'w cli_env \<Rightarrow> config \<Rightarrow> pystr \<Rightarrow> bool \<Rightarrow> 'w \<Rightarrow> (unit, 'w) outcome" where
  "runtime_result env cfg path pretty =
     mbind (runtime_dict (sdk env) cfg path) (\<lambda>r.
       echo_json env (pretty \<or> stdout_tty env) (JDict [(lit ''runtime'', r), (lit ''path'', JStr path)]))"

definition runtime_status_cmd :: "'w cli_env \<Rightarrow> config \<Rightarrow> pystr \<Rightarrow> bool \<Rightarrow> 'w \<Rightarrow> (unit, 'w) outcome" where
  "runtime_status_cmd env cfg path pretty =
     cli_command env
       (mbind (open_notebook env cfg path False) (\<lambda>(cfg, _). runtime_result env cfg path pretty))"

definition runtime_ensure_cmd :: "'w cli_env \<Rightarrow> config \<Rightarrow> pystr \<Rightarrow> bool \<Rightarrow> 'w \<Rightarrow> (unit, 'w) outcome" where
  "runtime_ensure_cmd env cfg path pretty =
     cli_command env
       (mbind (open_notebook env cfg path False) (\<lambda>(cfg, _).
        mbind (runtime_ensure (sdk env) cfg path) (\<lambda>_. runtime_result env cfg path pretty)))"

definition runtime_stop_cmd :: "'w cli_env \<Rightarrow> config \<Rightarrow> pystr \<Rightarrow> bool \<Rightarrow> 'w \<Rightarrow> (unit, 'w) outcome" where
  "runtime_stop_cmd env cfg path pretty =
     cli_command env
       (mbind (open_notebook env cfg path False) (\<lambda>(cfg, _).
        mbind (runtime_stop (sdk env) cfg path) (\<lambda>_. runtime_result env cfg path pretty)))"

definition job_get_cmd :: "'w cli_env \<Rightarrow> config \<Rightarrow> pystr \<Rightarrow> bool \<Rightarrow> 'w \<Rightarrow> (unit, 'w) outcome" where
  "job_get_cmd env cfg i pretty =
     cli_command env (mbind (get_job_payload (sdk env) cfg i) (echo_json env (pretty \<or> stdout_tty env)))"

definition job_stdin_cmd :: "'w cli_env \<Rightarrow> config \<Rightarrow> pystr \<Rightarrow> pystr \<Rightarrow> bool \<Rightarrow> 'w \<Rightarrow> (unit, 'w) outcome" where
  "job_stdin_cmd env cfg i answer pretty =
     cli_command env (mbind (control_send_stdin (sdk env) cfg i answer) (echo_json env (pretty \<or> stdout_tty env)))"

section \<open>The home view\<close>

text \<open>
  \<open>list_ipynb\<close> is \<open>rglob("*.ipynb")\<close> below the working directory, as relative POSIX paths; \<open>None\<close> is an
  \<open>OSError\<close>.  \<open>cwd\<close> is the working directory.
\<close>

record 'w workspace =
  list_ipynb :: "'w \<Rightarrow> pystr list option"
  cwd :: pystr

definition home_notebook_limit :: nat where "home_notebook_limit = 5"

definition local_notebook_paths :: "'w workspace \<Rightarrow> 'w \<Rightarrow> nat \<times> pystr list" where
  "local_notebook_paths ws w =
     (case list_ipynb ws w of
        None \<Rightarrow> (0, [])
      | Some paths \<Rightarrow>
          let kept = sort (remdups (filter (\<lambda>p.
                       lit ''.ipynb_checkpoints'' \<notin> set (slash_parts (cwd ws) @ slash_parts p)) paths))
          in (length kept, take home_notebook_limit kept))"

definition job_target_cells :: "'w client_env \<Rightarrow> json \<Rightarrow> pystr list" where
  "job_target_cells env j =
     (let texts = map (py_str (printable (text_ops env)))
      in case j of
           JList xs \<Rightarrow> texts xs
         | JStr s \<Rightarrow> (case json_loads (float_text env) s of Some (JList xs) \<Rightarrow> texts xs | _ \<Rightarrow> [])
         | _ \<Rightarrow> [])"

text \<open>A list or a dictionary cannot be looked up in the set of finished states.\<close>

definition active_job :: "'w client_env \<Rightarrow> json \<Rightarrow> pyexc + json list" where
  "active_job env j =
     (case j of
        JDict d \<Rightarrow>
          let st = opt_json (field ''status'' d)
          in if (case st of JList _ \<Rightarrow> True | JDict _ \<Rightarrow> True | _ \<Rightarrow> False) then Inl type_error
             else Inr (if list_ex (\<lambda>s. st = JStr (job_status_value s)) [SUCCEEDED, job_status.FAILED, INTERRUPTED] then []
                  else [JDict [(lit ''job_id'', opt_json (field ''job_id'' d)), (lit ''status'', st),
                               (lit ''path'', opt_json (field ''notebook_id'' d)),
                               (lit ''target_cell_count'',
                                  JInt (int (length (job_target_cells env (opt_json (field ''target_cells'' d))))))]])
      | _ \<Rightarrow> Inl attribute_error)"

definition active_jobs_of :: "'w client_env \<Rightarrow> json \<Rightarrow> pyexc + json list" where
  "active_jobs_of env payload =
     bind_result (py_get ''jobs'' (JList []) payload) (\<lambda>jobs.
     bind_result (py_list jobs) (\<lambda>js.
     bind_result (each (active_job env) js) (\<lambda>xs. Inr (concat xs))))"

definition home_hints :: "bool \<Rightarrow> pystr option \<Rightarrow> pystr list" where
  "home_hints reachable first =
     dedupe_hints
       [if reachable then None else Some (job_hint (lit ''hypernote setup serve'')),
        Some (case first of
                Some p \<Rightarrow> job_hint (lit ''hypernote status '' @ shlex_quote p)
              | None \<Rightarrow> job_hint (lit ''hypernote create tmp/demo.ipynb --empty'')),
        Some (case first of
                Some p \<Rightarrow> ix_hint p
              | None \<Rightarrow> job_hint (lit ''hypernote ix tmp/demo.ipynb -s '' @ [39] @ lit ''print(42)'' @ [39])),
        Some (job_hint (lit ''hypernote setup doctor''))]"

definition home_payload :: "'w cli_env \<Rightarrow> 'w workspace \<Rightarrow> config \<Rightarrow> 'w \<Rightarrow> (jobj, 'w) outcome" where
  "home_payload env ws cfg w =
     (let start = [(lit ''command'', JStr (lit ''home'')), (lit ''bin'', JStr (lit ''hypernote'')),
                   (lit ''description'', JStr (lit ''Browse and manage Hypernote notebooks for the current workspace'')),
                   (lit ''server'', JStr (cfg_server cfg))]
      in case control_list_jobs (sdk env) cfg None None w of
           (listed_jobs, w1) \<Rightarrow>
             (case (case listed_jobs of
                      Inl e \<Rightarrow> Inr (False, [(lit ''server_error'', JStr (error_message (shows_char env) e)),
                                          (lit ''active_jobs'', JList []), (lit ''active_job_count'', JInt 0)])
                    | Inr payload \<Rightarrow>
                        bind_result (active_jobs_of (sdk env) payload) (\<lambda>jobs.
                          Inr (True, [(lit ''active_jobs'', JList jobs),
                                      (lit ''active_job_count'', JInt (int (length jobs)))]))) of
                Inl e \<Rightarrow> (Inl e, w1)
              | Inr (reachable, jobs_part) \<Rightarrow>
                  (case local_notebook_paths ws w1 of
                     (n, paths) \<Rightarrow>
                       (Inr (start @ [(lit ''server_reachable'', JBool reachable)] @ jobs_part
                          @ [(lit ''workspace_notebook_count'', JInt (int n)),
                             (lit ''workspace_notebooks'', JList (map JStr paths)),
                             (lit ''hints'', JList (map JStr (home_hints reachable
                                (case paths of [] \<Rightarrow> None | p # _ \<Rightarrow> Some p))))]), w1))))"

definition human_home :: "(nat \<Rightarrow> bool) \<Rightarrow> jobj \<Rightarrow> pystr" where
  "human_home pr data =
     with_hints_text
       (py_join [10]
         ([lit ''bin: '' @ shown pr ''bin'' data, lit ''description: '' @ shown pr ''description'' data,
           lit ''server: '' @ shown pr ''server'' data @ lit '' (''
             @ (if truthy_field ''server_reachable'' data then lit ''reachable'' else lit ''unreachable'') @ lit '')'',
           lit ''active jobs: '' @ py_str pr (get_or ''active_job_count'' (JInt 0) data),
           lit ''workspace notebooks: '' @ py_str pr (get_or ''workspace_notebook_count'' (JInt 0) data)]
          @ map (\<lambda>p. lit ''  '' @ py_str pr p) (list_of (get_or ''workspace_notebooks'' (JList []) data))
          @ map (\<lambda>j. lit ''  '' @ shown pr ''job_id'' (dict_of j) @ dot @ shown pr ''status'' (dict_of j) @ dot
                   @ shown pr ''path'' (dict_of j)) (list_of (get_or ''active_jobs'' (JList []) data))
          @ (if truthy_field ''server_error'' data then [lit ''server error: '' @ shown pr ''server_error'' data] else [])))
       (hints_of pr data)"

text \<open>The group without a subcommand shows the home view; the server loses its trailing slashes.\<close>

definition cli_config :: "(pystr \<Rightarrow> pystr option) \<Rightarrow> pystr option \<Rightarrow> pystr option \<Rightarrow> pystr \<Rightarrow> pystr \<Rightarrow> time \<Rightarrow> config" where
  "cli_config environ server tok actor_id actor_type timeout =
     \<lparr>cfg_server = strip_slashes (case server of
          Some s \<Rightarrow> s
        | None \<Rightarrow> (case environ (lit ''HYPERNOTE_SERVER'') of None \<Rightarrow> default_server | Some s \<Rightarrow> s)),
      cfg_token = (case tok of Some t \<Rightarrow> Some t | None \<Rightarrow> environ (lit ''HYPERNOTE_TOKEN'')),
      cfg_actor_id = actor_id, cfg_actor_type = actor_type, cfg_timeout = timeout\<rparr>"

definition home_cmd :: "'w cli_env \<Rightarrow> 'w workspace \<Rightarrow> config \<Rightarrow> 'w \<Rightarrow> (unit, 'w) outcome" where
  "home_cmd env ws cfg =
     mbind (home_payload env ws cfg) (\<lambda>payload.
       render_result env (if stdout_tty env then ModeHuman else ModeJson) payload (human_home (shows_char env) payload))"

end
