(* ===== verification/Hn_Shell.thy ===== *)
theory Hn_Shell
  imports Hn_CliText
begin

text \<open>
  The commands the CLI's results suggest next (\<open>_job_hint\<close> and its users, \<^verbatim>\<open>cli/main.py\<close>), read back as a
  POSIX shell reads them: whatever the notebook's path, the cell's and the job's identifier, the shell
  hands the suggested command exactly the arguments the program meant.
\<close>

section \<open>Words of a shell command\<close>

text \<open>
  A conservative reading of the shell: unquoted blanks separate words, single quotes keep everything,
  double quotes keep all but the characters that are special there, and the only other unquoted
  characters taken to stand for themselves are those \<open>shlex\<close> calls safe.  \<open>None\<close> is a command that is
  anything else: an operator, an expansion, a comment, an open quote.
\<close>

definition quoted_part :: "nat \<Rightarrow> pystr \<Rightarrow> (pystr \<times> pystr) option" where
  "quoted_part q s =
     (case dropWhile (\<lambda>c. c \<noteq> q) s of [] \<Rightarrow> None | _ # rest \<Rightarrow> Some (takeWhile (\<lambda>c. c \<noteq> q) s, rest))"

lemma quoted_part_length: "quoted_part q s = Some (part, rest) \<Longrightarrow> length rest < length s"
  using length_dropWhile_le [of "\<lambda>c. c \<noteq> q" s] by (auto simp: quoted_part_def split: list.splits)

definition word_so_far :: "pystr option \<Rightarrow> pystr" where
  "word_so_far w = (case w of None \<Rightarrow> [] | Some x \<Rightarrow> x)"

function words_from :: "pystr option \<Rightarrow> pystr \<Rightarrow> pystr list option" where
  "words_from w [] = Some (case w of None \<Rightarrow> [] | Some x \<Rightarrow> [x])"
| "words_from w (c # s) =
     (if c = 32
      then map_option (\<lambda>ws. case w of None \<Rightarrow> ws | Some x \<Rightarrow> x # ws) (words_from None s)
      else if c = 39 \<or> c = 34
      then (case quoted_part c s of
              None \<Rightarrow> None
            | Some (part, rest) \<Rightarrow>
                if c = 34 \<and> (\<exists>x \<in> set part. x \<in> {33, 36, 92, 96}) then None
                else words_from (Some (word_so_far w @ part)) rest)
      else if shlex_safe c then words_from (Some (word_so_far w @ [c])) s
      else None)"
  by pat_completeness auto
termination
proof (relation "measure (\<lambda>(w, s). length s)")
  fix w :: "pystr option" and c s x and part rest :: pystr
  assume "quoted_part c s = Some x" and "(part, rest) = x"
  then have "quoted_part c s = Some (part, rest)" by simp
  then have "length rest < length s" by (rule quoted_part_length)
  then show "((Some (word_so_far w @ part), rest), w, c # s) \<in> measure (\<lambda>(w, s). length s)" by simp
qed simp_all

definition shell_words :: "pystr \<Rightarrow> pystr list option" where
  "shell_words s = words_from None s"

text \<open>The command a hint shows between backticks.\<close>

definition hinted_words :: "pystr \<Rightarrow> pystr list option" where
  "hinted_words h =
     (if take 5 h = lit ''Run `'' \<and> drop (length h - 1) h = [96]
      then shell_words (drop 5 (take (length h - 1) h)) else None)"

lemma hinted_words_hint: "hinted_words (job_hint command) = shell_words command"
  by (simp add: hinted_words_def job_hint_def) (simp add: lit_def)

section \<open>Quoted arguments\<close>

declare words_from.simps(2) [simp del]

lemma words_from_safe: "shlex_safe c \<Longrightarrow> words_from w (c # s) = words_from (Some (word_so_far w @ [c])) s"
  by (auto simp: words_from.simps(2) shlex_safe_def)

lemma words_from_blank: "words_from (Some x) (32 # s) = map_option ((#) x) (words_from None s)"
  by (simp add: words_from.simps(2))

lemma word_so_far_simps [simp]: "word_so_far None = []" "word_so_far (Some x) = x"
  by (simp_all add: word_so_far_def)

lemma safe_word: "list_all shlex_safe s \<Longrightarrow> words_from (Some x) (s @ rest) = words_from (Some (x @ s)) rest"
  by (induction s arbitrary: x) (simp_all add: words_from_safe)

lemma inside_quotes: "c \<noteq> 39 \<Longrightarrow> words_from (Some x) (39 # c # s) = words_from (Some (x @ [c])) (39 # s)"
  by (cases "dropWhile (\<lambda>c. c \<noteq> 39) s")
    (simp_all add: words_from.simps(2) quoted_part_def del: dropWhile_eq_Nil_conv)

lemma escaped_quote: "words_from (Some x) (39 # 39 # 34 # 39 # 34 # s) = words_from (Some (x @ [39])) s"
  by (simp add: words_from.simps(2) quoted_part_def)

lemma single_quoted:
  "words_from (Some x) (39 # concat (map (\<lambda>c. if c = 39 then [39, 34, 39, 34, 39] else [c]) s) @ 39 # rest)
     = words_from (Some (x @ s)) rest"
proof (induction s arbitrary: x)
  case Nil
  show ?case by (simp add: words_from.simps(2) quoted_part_def)
next
  case (Cons c s)
  then show ?case by (cases "c = 39") (simp_all add: inside_quotes escaped_quote)
qed

text \<open>A word may begin with a quote: reading it from nothing is reading on an empty word.\<close>

lemma words_from_start: "c \<noteq> 32 \<Longrightarrow> words_from None (c # s) = words_from (Some []) (c # s)"
  by (simp add: words_from.simps(2) split: option.split)

lemma quoted_argument: "words_from None (shlex_quote s @ rest) = words_from (Some s) rest"
proof -
  have "\<exists>c t. shlex_quote s = c # t \<and> c \<noteq> 32"
    by (cases s) (auto simp: shlex_quote_def shlex_safe_def)
  then obtain c t where q: "shlex_quote s = c # t" "c \<noteq> 32" by blast
  have "words_from (Some []) (shlex_quote s @ rest) = words_from (Some s) rest"
    using safe_word [of s "[]" rest] single_quoted [of "[]" s rest] single_quoted [of "[]" "[]" rest]
    by (auto simp: shlex_quote_def)
  with q show ?thesis by (simp add: words_from_start)
qed

text \<open>A command word by word.\<close>

lemma shell_words_argument:
  "words_from None (shlex_quote s) = Some [s]"
  "words_from None (shlex_quote s @ 32 # rest) = map_option ((#) s) (words_from None rest)"
  using quoted_argument [of s "[]"] quoted_argument [of s "32 # rest"] by (simp_all add: words_from_blank)

lemma plain_word:
  "list_all shlex_safe x \<Longrightarrow> x \<noteq> [] \<Longrightarrow> words_from None (x @ 32 # s) = map_option ((#) x) (words_from None s)"
  by (cases x) (simp_all add: words_from_safe safe_word words_from_blank)

lemma plain_last_word: "list_all shlex_safe x \<Longrightarrow> x \<noteq> [] \<Longrightarrow> words_from None x = Some [x]"
  using safe_word [of "tl x" "[hd x]" "[]"] by (cases x) (simp_all add: words_from_safe)

lemma literal_word:
  assumes "39 \<notin> set x"
  shows "words_from None (39 # x @ [39]) = Some [x]"
proof -
  have "dropWhile (\<lambda>c. c \<noteq> 39) (x @ [39]) = [39]" "takeWhile (\<lambda>c. c \<noteq> 39) (x @ [39]) = x"
    using assms by (induction x) auto
  then show ?thesis by (simp add: words_from.simps(2) quoted_part_def)
qed

text \<open>The words of a hint that are written out in the program.\<close>

definition spelled :: "string list \<Rightarrow> pystr" where
  "spelled ws = concat (map (\<lambda>w. lit w @ [32]) ws)"

lemma spelled_words:
  "list_all (\<lambda>w. w \<noteq> [] \<and> list_all shlex_safe (lit w)) ws \<Longrightarrow>
     words_from None (spelled ws @ s) = map_option ((@) (map lit ws)) (words_from None s)"
proof (induction ws)
  case Nil
  show ?case by (cases "words_from None s") (simp_all add: spelled_def)
next
  case (Cons w ws)
  then show ?case using plain_word [of "lit w" "spelled ws @ s"]
    by (simp add: spelled_def option.map_comp comp_def)
qed

lemma hint_words:
  assumes "list_all (\<lambda>w. w \<noteq> [] \<and> list_all shlex_safe (lit w)) ws" and "words_from None s = Some rest"
  shows "hinted_words (job_hint (spelled ws @ s)) = Some (map lit ws @ rest)"
  using spelled_words [OF assms(1), of s] assms(2) by (simp add: hinted_words_hint shell_words_def)

section \<open>Suggested commands\<close>

text \<open>Hints with different words are different hints, so none is dropped.\<close>

lemma dedupe_distinct:
  assumes "map hinted_words hs = map Some ws" and "distinct ws"
  shows "dedupe_hints (map Some hs) = hs"
proof -
  have d: "distinct hs" using assms by (metis distinct_map inj_Some)
  have n: "[] \<notin> set hs"
  proof
    assume "[] \<in> set hs"
    then have "None \<in> set (map hinted_words hs)" by (force simp: hinted_words_def lit_def)
    with assms(1) show False by auto
  qed
  have "fold (\<lambda>h acc. case h of None \<Rightarrow> acc | Some s \<Rightarrow> if s = [] \<or> s \<in> set acc then acc else acc @ [s]) (map Some hs) acc
      = acc @ hs" if "distinct (acc @ hs)" for acc
    using that n by (induction hs arbitrary: acc) auto
  from this [of "[]"] d show ?thesis by (simp add: dedupe_hints_def)
qed

text \<open>The arguments of each suggested command, as the program means them.\<close>

definition argv :: "string list \<Rightarrow> pystr list \<Rightarrow> pystr list" where
  "argv ws args = map lit (''hypernote'' # ws) @ args"

definition ix_argv :: "pystr \<Rightarrow> pystr list" where
  "ix_argv path = argv [''ix''] [path, lit ''-s'', lit ''print(42)'']"

definition status_commands :: "pystr \<Rightarrow> pystr option \<Rightarrow> pystr list list" where
  "status_commands path token =
     [argv [''cat''] [path]]
     @ (case py_or token None of None \<Rightarrow> [] | Some t \<Rightarrow> [argv [''diff''] [path, lit ''--snapshot'', t]])
     @ [ix_argv path]"

definition cat_commands :: "pystr \<Rightarrow> pystr option \<Rightarrow> pystr list list" where
  "cat_commands path image_cell =
     (case py_or image_cell None of
        None \<Rightarrow> []
      | Some c \<Rightarrow> [argv [''cat''] [path, lit ''--output'', c, lit ''--save-images'', lit ''tmp/hypernote-images'']])
     @ [argv [''status''] [path], ix_argv path]"

text \<open>\<open>c\<close> is the first inserted cell, or the first cell of the job.\<close>

definition job_commands :: "pystr \<Rightarrow> job_handle \<Rightarrow> pystr option \<Rightarrow> pystr list list" where
  "job_commands path job c =
     (case (jb_status job, c) of
        (SUCCEEDED, None) \<Rightarrow> [argv [''cat''] [path], argv [''status''] [path], ix_argv path]
      | (SUCCEEDED, Some i) \<Rightarrow> [argv [''cat''] [path, lit ''--cell'', i], argv [''status''] [path], ix_argv path]
      | (job_status.FAILED, Some i) \<Rightarrow>
          [argv [''cat''] [path, lit ''--output'', i],
           argv [''edit'', ''replace''] [path, i, lit ''-s'', lit ''...''], argv [''exec''] [path, i]]
      | (job_status.AWAITING_INPUT, _) \<Rightarrow>
          [argv [''job'', ''stdin''] [jb_id job, lit ''--value'', lit ''...''], argv [''job'', ''await''] [jb_id job]]
      | _ \<Rightarrow> [argv [''job'', ''get''] [jb_id job], argv [''job'', ''await''] [jb_id job]])"

definition first_cell :: "(nat \<Rightarrow> bool) \<Rightarrow> job_handle \<Rightarrow> pystr list \<Rightarrow> pystr option" where
  "first_cell pr job inserted =
     (case inserted of
        i # _ \<Rightarrow> Some i
      | [] \<Rightarrow> (case jb_cell_ids job of j # _ \<Rightarrow> Some (py_str pr j) | [] \<Rightarrow> None))"

lemma spelled_lit: "lit w @ 32 # s = spelled [w] @ s" "spelled ws @ spelled vs = spelled (ws @ vs)"
  by (simp_all add: spelled_def)

lemma last_literal: "39 \<notin> set x \<Longrightarrow> words_from None (spelled [''-s''] @ 39 # x @ [39]) = Some [lit ''-s'', x]"
  "39 \<notin> set x \<Longrightarrow> words_from None (spelled [''--value''] @ 39 # x @ [39]) = Some [lit ''--value'', x]"
  using spelled_words [of "[''-s'']" "39 # x @ [39]"] spelled_words [of "[''--value'']" "39 # x @ [39]"] literal_word [of x]
  by (simp_all add: lit_def shlex_safe_def)

lemma flagged:
  "words_from None (spelled [''--snapshot''] @ shlex_quote x) = Some [lit ''--snapshot'', x]"
  "words_from None (spelled [''--cell''] @ shlex_quote x) = Some [lit ''--cell'', x]"
  "words_from None (spelled [''--output''] @ shlex_quote x) = Some [lit ''--output'', x]"
  "words_from None (spelled [''--output''] @ shlex_quote x @ 32 # spelled [''--save-images''] @ lit ''tmp/hypernote-images'')
     = Some [lit ''--output'', x, lit ''--save-images'', lit ''tmp/hypernote-images'']"
  using spelled_words [of "[''--snapshot'']" "shlex_quote x"] spelled_words [of "[''--cell'']" "shlex_quote x"]
    spelled_words [of "[''--output'']" "shlex_quote x"]
    spelled_words [of "[''--output'']" "shlex_quote x @ 32 # spelled [''--save-images''] @ lit ''tmp/hypernote-images''"]
    spelled_words [of "[''--save-images'']" "lit ''tmp/hypernote-images''"] plain_last_word [of "lit ''tmp/hypernote-images''"]
  by (simp_all add: shell_words_argument lit_def shlex_safe_def)

lemma hinted_argv:
  assumes "words_from None s = Some args" and "list_all (\<lambda>w. w \<noteq> [] \<and> list_all shlex_safe (lit w)) ws"
  shows "hinted_words (job_hint (spelled (''hypernote'' # ws) @ s)) = Some (argv ws args)"
  using hint_words [OF _ assms(1), of "''hypernote'' # ws"] assms(2) by (simp add: argv_def lit_def shlex_safe_def)

text \<open>Each form of hint, as its text is written in the program.\<close>

lemmas shown = spelled_def lit_def shlex_safe_def

lemma path_then: "words_from None s = Some args \<Longrightarrow> words_from None (shlex_quote p @ 32 # s) = Some (p # args)"
  by (simp add: shell_words_argument)

lemma path_hints:
  "hinted_words (job_hint (lit ''hypernote cat '' @ shlex_quote p)) = Some (argv [''cat''] [p])"
  "hinted_words (job_hint (lit ''hypernote status '' @ shlex_quote p)) = Some (argv [''status''] [p])"
  "hinted_words (job_hint (lit ''hypernote job get '' @ shlex_quote p)) = Some (argv [''job'', ''get''] [p])"
  "hinted_words (job_hint (lit ''hypernote job await '' @ shlex_quote p)) = Some (argv [''job'', ''await''] [p])"
  "hinted_words (job_hint (lit ''hypernote exec '' @ shlex_quote p @ lit '' '' @ shlex_quote c)) = Some (argv [''exec''] [p, c])"
  using hinted_argv [OF shell_words_argument(1) [of p], of "[''cat'']"]
    hinted_argv [OF shell_words_argument(1) [of p], of "[''status'']"]
    hinted_argv [OF shell_words_argument(1) [of p], of "[''job'', ''get'']"]
    hinted_argv [OF shell_words_argument(1) [of p], of "[''job'', ''await'']"]
    hinted_argv [OF path_then [OF shell_words_argument(1) [of c], of p], of "[''exec'']"]
  by (simp_all add: shown)

lemma flag_hints:
  "hinted_words (job_hint (lit ''hypernote diff '' @ shlex_quote p @ lit '' --snapshot '' @ shlex_quote x))
     = Some (argv [''diff''] [p, lit ''--snapshot'', x])"
  "hinted_words (job_hint (lit ''hypernote cat '' @ shlex_quote p @ lit '' --cell '' @ shlex_quote x))
     = Some (argv [''cat''] [p, lit ''--cell'', x])"
  "hinted_words (job_hint (lit ''hypernote cat '' @ shlex_quote p @ lit '' --output '' @ shlex_quote x))
     = Some (argv [''cat''] [p, lit ''--output'', x])"
  "hinted_words (job_hint (lit ''hypernote cat '' @ shlex_quote p @ lit '' --output '' @ shlex_quote x
       @ lit '' --save-images tmp/hypernote-images''))
     = Some (argv [''cat''] [p, lit ''--output'', x, lit ''--save-images'', lit ''tmp/hypernote-images''])"
  using hinted_argv [OF path_then [OF flagged(1) [of x], of p], of "[''diff'']"]
    hinted_argv [OF path_then [OF flagged(2) [of x], of p], of "[''cat'']"]
    hinted_argv [OF path_then [OF flagged(3) [of x], of p], of "[''cat'']"]
    hinted_argv [OF path_then [OF flagged(4) [of x], of p], of "[''cat'']"]
  by (simp_all add: shown)

lemma source_hints:
  "hinted_words (ix_hint p) = Some (ix_argv p)"
  "hinted_words (job_hint (lit ''hypernote edit replace '' @ shlex_quote p @ lit '' '' @ shlex_quote c
       @ lit '' -s '' @ [39] @ lit ''...'' @ [39]))
     = Some (argv [''edit'', ''replace''] [p, c, lit ''-s'', lit ''...''])"
  "hinted_words (job_hint (lit ''hypernote job stdin '' @ shlex_quote p @ lit '' --value '' @ [39] @ lit ''...'' @ [39]))
     = Some (argv [''job'', ''stdin''] [p, lit ''--value'', lit ''...''])"
  using hinted_argv [OF path_then [OF last_literal(1) [of "lit ''print(42)''"], of p], of "[''ix'']"]
    hinted_argv [OF path_then [OF path_then [OF last_literal(1) [of "lit ''...''"], of c], of p], of "[''edit'', ''replace'']"]
    hinted_argv [OF path_then [OF last_literal(2) [of "lit ''...''"], of p], of "[''job'', ''stdin'']"]
  by (simp_all add: ix_hint_def ix_argv_def shown)

lemma deduped_words:
  "map hinted_words hs = map Some ws \<Longrightarrow> distinct ws \<Longrightarrow> map hinted_words (dedupe_hints (map Some hs)) = map Some ws"
  by (simp only: dedupe_distinct)

lemma deduped_words':
  assumes "map hinted_words hs = map Some ws" and "distinct ws" and "gs = map Some hs"
  shows "map hinted_words (dedupe_hints gs) = map Some ws"
  using deduped_words [OF assms(1,2)] assms(3) by simp

lemma argv_differ [simp]:
  "argv (w # ws) args = argv (v # vs) args' \<longleftrightarrow> w = v \<and> map lit ws @ args = map lit vs @ args'"
  by (simp add: argv_def)

lemma status_hints_words: "map hinted_words (status_hints path token) = map Some (status_commands path token)"
proof (cases "py_or token None")
  case None
  show ?thesis unfolding status_hints_def None
    by (rule deduped_words' [where hs = "[job_hint (lit ''hypernote cat '' @ shlex_quote path), ix_hint path]"])
      (simp_all add: path_hints source_hints status_commands_def None ix_argv_def)
next
  case (Some x)
  show ?thesis unfolding status_hints_def Some
    by (rule deduped_words' [where hs = "[job_hint (lit ''hypernote cat '' @ shlex_quote path),
          job_hint (lit ''hypernote diff '' @ shlex_quote path @ lit '' --snapshot '' @ shlex_quote x), ix_hint path]"])
      (simp_all add: path_hints flag_hints source_hints status_commands_def Some ix_argv_def)
qed

lemma cat_hints_words: "map hinted_words (cat_hints path image_cell) = map Some (cat_commands path image_cell)"
proof (cases "py_or image_cell None")
  case None
  show ?thesis unfolding cat_hints_def None
    by (rule deduped_words' [where hs = "[job_hint (lit ''hypernote status '' @ shlex_quote path), ix_hint path]"])
      (simp_all add: path_hints source_hints cat_commands_def None ix_argv_def)
next
  case (Some x)
  show ?thesis unfolding cat_hints_def Some
    by (rule deduped_words' [where hs = "[job_hint (lit ''hypernote cat '' @ shlex_quote path @ lit '' --output '' @ shlex_quote x
            @ lit '' --save-images tmp/hypernote-images''),
          job_hint (lit ''hypernote status '' @ shlex_quote path), ix_hint path]"])
      (simp_all add: path_hints flag_hints source_hints cat_commands_def Some ix_argv_def)
qed

lemma job_hints_words:
  "map hinted_words (job_result_hints pr path job inserted) = map Some (job_commands path job (first_cell pr job inserted))"
proof -
  let ?c = "first_cell pr job inserted"
  have hints: "job_result_hints pr path job inserted = dedupe_hints (map Some
     (case (jb_status job, ?c) of
        (SUCCEEDED, None) \<Rightarrow> [job_hint (lit ''hypernote cat '' @ shlex_quote path),
          job_hint (lit ''hypernote status '' @ shlex_quote path), ix_hint path]
      | (SUCCEEDED, Some i) \<Rightarrow> [job_hint (lit ''hypernote cat '' @ shlex_quote path @ lit '' --cell '' @ shlex_quote i),
          job_hint (lit ''hypernote status '' @ shlex_quote path), ix_hint path]
      | (job_status.FAILED, Some i) \<Rightarrow> [job_hint (lit ''hypernote cat '' @ shlex_quote path @ lit '' --output '' @ shlex_quote i),
          job_hint (lit ''hypernote edit replace '' @ shlex_quote path @ lit '' '' @ shlex_quote i
            @ lit '' -s '' @ [39] @ lit ''...'' @ [39]),
          job_hint (lit ''hypernote exec '' @ shlex_quote path @ lit '' '' @ shlex_quote i)]
      | (job_status.AWAITING_INPUT, _) \<Rightarrow>
          [job_hint (lit ''hypernote job stdin '' @ shlex_quote (jb_id job) @ lit '' --value '' @ [39] @ lit ''...'' @ [39]),
           job_hint (lit ''hypernote job await '' @ shlex_quote (jb_id job))]
      | _ \<Rightarrow> [job_hint (lit ''hypernote job get '' @ shlex_quote (jb_id job)),
           job_hint (lit ''hypernote job await '' @ shlex_quote (jb_id job))]))"
    unfolding job_result_hints_def Let_def first_cell_def [symmetric]
    by (cases "jb_status job"; cases ?c) simp_all
  show ?thesis unfolding hints
    by (rule deduped_words; cases "jb_status job"; cases ?c)
      (simp_all add: job_commands_def path_hints flag_hints source_hints [simplified append.simps] ix_argv_def)
qed

section \<open>Properties\<close>

text \<open>
  C36: the suggested commands mean what they show.  Pasted into a shell, each command that \<open>status\<close>,
  \<open>cat\<close> and the run commands suggest splits into exactly the program, the subcommand and the arguments
  intended, whatever characters (blanks, quotes, dollar signs, newlines) the notebook's path, the
  cell's identifier, the job's identifier or the snapshot token hold; and no suggestion is dropped as
  a duplicate of another.
\<close>

theorem suggested_commands_split_back:
  "map hinted_words (status_hints path token) = map Some (status_commands path token)
   \<and> map hinted_words (cat_hints path image_cell) = map Some (cat_commands path image_cell)
   \<and> map hinted_words (job_result_hints pr path job inserted) = map Some (job_commands path job (first_cell pr job inserted))"
  using status_hints_words cat_hints_words job_hints_words by blast

end
