(* ===== verification/Hn_CliOptions.thy ===== *)
theory Hn_CliOptions
  imports Hn_CliCommands Hn_Shell
begin

text \<open>
  The interface of the command line (\<^verbatim>\<open>cli/main.py\<close>): the arguments and options every command declares
  to click, and a conservative reading of click's parser.  Every command that the program suggests is
  one that its own interface accepts.
\<close>

section \<open>Declarations\<close>

text \<open>
  \<open>type\<close> of an option; a \<open>Switch\<close> takes no value.  A default that is computed (the environment, the
  working directory) is not part of the declaration.
\<close>

datatype value_type = TextValue | IntegerValue | NumberValue | ChoiceValue "string list" | DirectoryValue | Switch

record cli_option =
  opt_names :: "string list"
  opt_off :: "string list"
  opt_target :: string
  opt_value :: value_type
  opt_needed :: bool
  opt_default :: "pystr option"

record cli_interface =
  ci_path :: "string list"
  ci_arguments :: "(string \<times> bool) list"
  ci_options :: "cli_option list"

definition valued :: "string list \<Rightarrow> string \<Rightarrow> value_type \<Rightarrow> pystr option \<Rightarrow> cli_option" where
  "valued names target ty standard =
     \<lparr>opt_names = names, opt_off = [], opt_target = target, opt_value = ty, opt_needed = False, opt_default = standard\<rparr>"

definition text_option :: "string list \<Rightarrow> string \<Rightarrow> cli_option" where
  "text_option names target = valued names target TextValue None"

definition needed_text :: "string list \<Rightarrow> string \<Rightarrow> cli_option" where
  "needed_text names target = (text_option names target)\<lparr>opt_needed := True\<rparr>"

definition switch :: "string list \<Rightarrow> string \<Rightarrow> cli_option" where
  "switch names target = valued names target Switch None"

definition toggle :: "string list \<Rightarrow> string list \<Rightarrow> string \<Rightarrow> cli_option" where
  "toggle names off target = (switch names target)\<lparr>opt_off := off, opt_default := Some (lit ''True'')\<rparr>"

text \<open>The three switches nearly every command has, and \<open>PROGRESS_CHOICES\<close>.\<close>

definition output_switches :: "cli_option list" where
  "output_switches = [switch [''--json''] ''json_flag'', switch [''--pretty''] ''pretty'', switch [''--human''] ''human_flag'']"

definition progress_choices :: "string list" where
  "progress_choices = [''quiet'', ''events'', ''full'']"

section \<open>The commands\<close>

definition group_options :: cli_interface where
  "group_options =
     \<lparr>ci_path = [], ci_arguments = [],
      ci_options =
       [text_option [''--server''] ''server'',
         text_option [''--token''] ''token'',
         valued [''--actor-id''] ''actor_id'' TextValue (Some (lit ''cli-agent'')),
         valued [''--actor-type''] ''actor_type'' (ChoiceValue [''human'', ''agent'']) (Some (lit ''agent'')),
         valued [''--timeout''] ''timeout'' NumberValue (Some (lit ''30''))]\<rparr>"

definition create_interface :: cli_interface where
  "create_interface =
     \<lparr>ci_path = [''create''], ci_arguments = [(''path'', False)],
      ci_options =
       [switch [''--empty''] ''empty'']
       @ output_switches
       @ [switch [''--brief''] ''brief'']\<rparr>"

definition status_interface :: cli_interface where
  "status_interface =
     \<lparr>ci_path = [''status''], ci_arguments = [(''path'', False)],
      ci_options =
       [switch [''--full''] ''full'',
         switch [''--failed''] ''failed_only'',
         text_option [''--query''] ''query'',
         valued [''--max-output''] ''max_output'' IntegerValue (Some (lit ''400'')),
         switch [''--full-output''] ''full_output'']
       @ output_switches
       @ [switch [''--brief''] ''brief'']\<rparr>"

definition diff_interface :: cli_interface where
  "diff_interface =
     \<lparr>ci_path = [''diff''], ci_arguments = [(''path'', False)],
      ci_options =
       [needed_text [''--snapshot''] ''snapshot_token'',
         switch [''--full''] ''full'']
       @ output_switches\<rparr>"

definition cat_interface :: cli_interface where
  "cat_interface =
     \<lparr>ci_path = [''cat''], ci_arguments = [(''path'', False)],
      ci_options =
       [text_option [''--cell''] ''cell_id'',
         text_option [''--output''] ''output_cell_id'',
         text_option [''--tail-output''] ''tail_output_cell_id'',
         text_option [''--mime''] ''mime_cell_id'',
         text_option [''--save-images''] ''save_images_dir'',
         switch [''--full''] ''full'',
         switch [''--no-outputs''] ''no_outputs'',
         valued [''--max-output''] ''max_output'' IntegerValue (Some (lit ''400'')),
         switch [''--full-output''] ''full_output'']
       @ output_switches
       @ [switch [''--brief''] ''brief'']\<rparr>"

definition ix_interface :: cli_interface where
  "ix_interface =
     \<lparr>ci_path = [''ix''], ci_arguments = [(''path'', False)],
      ci_options =
       [text_option [''-s'', ''--source''] ''source'',
         text_option [''--source-file''] ''source_file'',
         text_option [''--cells-json''] ''cells_json'',
         text_option [''--cells-file''] ''cells_file'',
         text_option [''--before''] ''before'',
         text_option [''--after''] ''after'',
         switch [''--no-wait''] ''no_wait'']
       @ output_switches
       @ [switch [''--watch''] ''watch'',
         switch [''--stream-json''] ''stream_json'',
         valued [''--progress''] ''progress'' (ChoiceValue progress_choices) None,
         valued [''--timeout''] ''timeout'' NumberValue None,
         switch [''--brief''] ''brief'']\<rparr>"

definition exec_interface :: cli_interface where
  "exec_interface =
     \<lparr>ci_path = [''exec''], ci_arguments = [(''path'', False), (''cell_ids'', True)],
      ci_options =
       [switch [''--no-wait''] ''no_wait'']
       @ output_switches
       @ [switch [''--watch''] ''watch'',
         switch [''--stream-json''] ''stream_json'',
         valued [''--progress''] ''progress'' (ChoiceValue progress_choices) None,
         valued [''--timeout''] ''timeout'' NumberValue None,
         switch [''--brief''] ''brief'']\<rparr>"

definition run_all_interface :: cli_interface where
  "run_all_interface =
     \<lparr>ci_path = [''run-all''], ci_arguments = [(''path'', False)],
      ci_options =
       output_switches
       @ [switch [''--watch''] ''watch'',
         switch [''--stream-json''] ''stream_json'',
         valued [''--progress''] ''progress'' (ChoiceValue progress_choices) None,
         valued [''--timeout''] ''timeout'' NumberValue None]\<rparr>"

definition restart_interface :: cli_interface where
  "restart_interface =
     \<lparr>ci_path = [''restart''], ci_arguments = [(''path'', False)],
      ci_options =
       output_switches\<rparr>"

definition restart_run_all_interface :: cli_interface where
  "restart_run_all_interface =
     \<lparr>ci_path = [''restart-run-all''], ci_arguments = [(''path'', False)],
      ci_options =
       output_switches
       @ [switch [''--watch''] ''watch'',
         switch [''--stream-json''] ''stream_json'',
         valued [''--progress''] ''progress'' (ChoiceValue progress_choices) None,
         valued [''--timeout''] ''timeout'' NumberValue None]\<rparr>"

definition interrupt_interface :: cli_interface where
  "interrupt_interface =
     \<lparr>ci_path = [''interrupt''], ci_arguments = [(''path'', False)],
      ci_options =
       output_switches\<rparr>"

definition edit_insert_code_interface :: cli_interface where
  "edit_insert_code_interface =
     \<lparr>ci_path = [''edit'', ''insert-code''], ci_arguments = [(''path'', False)],
      ci_options =
       [text_option [''-s'', ''--source''] ''source'',
         text_option [''--source-file''] ''source_file'',
         text_option [''--id''] ''cell_id'',
         text_option [''--before''] ''before'',
         text_option [''--after''] ''after'']
       @ output_switches\<rparr>"

definition edit_insert_markdown_interface :: cli_interface where
  "edit_insert_markdown_interface =
     \<lparr>ci_path = [''edit'', ''insert-markdown''], ci_arguments = [(''path'', False)],
      ci_options =
       [text_option [''-s'', ''--source''] ''source'',
         text_option [''--source-file''] ''source_file'',
         text_option [''--id''] ''cell_id'',
         text_option [''--before''] ''before'',
         text_option [''--after''] ''after'']
       @ output_switches\<rparr>"

definition edit_replace_interface :: cli_interface where
  "edit_replace_interface =
     \<lparr>ci_path = [''edit'', ''replace''], ci_arguments = [(''path'', False), (''cell_id'', False)],
      ci_options =
       [text_option [''-s'', ''--source''] ''source'',
         text_option [''--source-file''] ''source_file'']
       @ output_switches
       @ [switch [''--brief''] ''brief'']\<rparr>"

definition edit_move_interface :: cli_interface where
  "edit_move_interface =
     \<lparr>ci_path = [''edit'', ''move''], ci_arguments = [(''path'', False), (''cell_id'', False)],
      ci_options =
       [text_option [''--before''] ''before'',
         text_option [''--after''] ''after'']
       @ output_switches\<rparr>"

definition edit_delete_interface :: cli_interface where
  "edit_delete_interface =
     \<lparr>ci_path = [''edit'', ''delete''], ci_arguments = [(''path'', False), (''cell_id'', False)],
      ci_options =
       output_switches\<rparr>"

definition edit_clear_outputs_interface :: cli_interface where
  "edit_clear_outputs_interface =
     \<lparr>ci_path = [''edit'', ''clear-outputs''], ci_arguments = [(''path'', False), (''cell_id'', False)],
      ci_options =
       output_switches\<rparr>"

definition runtime_status_interface :: cli_interface where
  "runtime_status_interface =
     \<lparr>ci_path = [''runtime'', ''status''], ci_arguments = [(''path'', False)],
      ci_options =
       [switch [''--pretty''] ''pretty'']\<rparr>"

definition runtime_ensure_interface :: cli_interface where
  "runtime_ensure_interface =
     \<lparr>ci_path = [''runtime'', ''ensure''], ci_arguments = [(''path'', False)],
      ci_options =
       [switch [''--pretty''] ''pretty'']\<rparr>"

definition runtime_stop_interface :: cli_interface where
  "runtime_stop_interface =
     \<lparr>ci_path = [''runtime'', ''stop''], ci_arguments = [(''path'', False)],
      ci_options =
       [switch [''--pretty''] ''pretty'']\<rparr>"

definition job_get_interface :: cli_interface where
  "job_get_interface =
     \<lparr>ci_path = [''job'', ''get''], ci_arguments = [(''job_id'', False)],
      ci_options =
       [switch [''--pretty''] ''pretty'']\<rparr>"

definition job_await_interface :: cli_interface where
  "job_await_interface =
     \<lparr>ci_path = [''job'', ''await''], ci_arguments = [(''job_id'', False)],
      ci_options =
       [valued [''--timeout''] ''timeout'' NumberValue (Some (lit ''60''))]
       @ output_switches
       @ [switch [''--watch''] ''watch'',
         switch [''--stream-json''] ''stream_json'',
         valued [''--progress''] ''progress'' (ChoiceValue progress_choices) None]\<rparr>"

definition job_stdin_interface :: cli_interface where
  "job_stdin_interface =
     \<lparr>ci_path = [''job'', ''stdin''], ci_arguments = [(''job_id'', False)],
      ci_options =
       [needed_text [''--value''] ''value'',
         switch [''--pretty''] ''pretty'']\<rparr>"

definition setup_serve_interface :: cli_interface where
  "setup_serve_interface =
     \<lparr>ci_path = [''setup'', ''serve''], ci_arguments = [],
      ci_options =
       [valued [''--root''] ''root'' DirectoryValue None,
         text_option [''--host''] ''host'',
         valued [''--port''] ''port'' IntegerValue None,
         toggle [''--browser''] [''--no-browser''] ''browser'']\<rparr>"

definition setup_doctor_interface :: cli_interface where
  "setup_doctor_interface =
     \<lparr>ci_path = [''setup'', ''doctor''], ci_arguments = [],
      ci_options =
       [text_option [''--path''] ''path'']\<rparr>"

definition interfaces :: "cli_interface list" where
  "interfaces =
     [create_interface, status_interface, diff_interface,
      cat_interface, ix_interface, exec_interface,
      run_all_interface, restart_interface, restart_run_all_interface,
      interrupt_interface, edit_insert_code_interface, edit_insert_markdown_interface,
      edit_replace_interface, edit_move_interface, edit_delete_interface,
      edit_clear_outputs_interface, runtime_status_interface, runtime_ensure_interface,
      runtime_stop_interface, job_get_interface, job_await_interface,
      job_stdin_interface, setup_serve_interface, setup_doctor_interface]"

section \<open>Reading a command line\<close>

text \<open>
  What a command line must be for click to take it, read conservatively: a command's name, then words
  that are its options, each given in full and followed by a value of its type where it takes one, or
  arguments, which are not empty and do not begin with a dash.  Nothing that click would abbreviate,
  split (\<open>--name=value\<close>), complete from the environment or treat as the end of the options is read here.
  The result is the command, its arguments and the values of its options.
\<close>

definition names_of :: "cli_option \<Rightarrow> pystr list" where
  "names_of opt = map lit (opt_names opt @ opt_off opt)"

definition option_named :: "cli_option list \<Rightarrow> pystr \<Rightarrow> cli_option option" where
  "option_named opts w = List.find (\<lambda>opt. w \<in> set (names_of opt)) opts"

definition digits :: "pystr \<Rightarrow> bool" where
  "digits w = (w \<noteq> [] \<and> list_all (\<lambda>c. 48 \<le> c \<and> c \<le> 57) w)"

fun value_fits :: "value_type \<Rightarrow> pystr \<Rightarrow> bool" where
  "value_fits TextValue w = True"
| "value_fits (ChoiceValue cs) w = (w \<in> set (map lit cs))"
| "value_fits IntegerValue w = digits w"
| "value_fits NumberValue w = digits w"
| "value_fits DirectoryValue w = False"
| "value_fits Switch w = False"

definition plain_argument :: "pystr \<Rightarrow> bool" where
  "plain_argument w = (case w of [] \<Rightarrow> False | c # _ \<Rightarrow> c \<noteq> 45)"

fun read_words :: "cli_option list \<Rightarrow> pystr list \<Rightarrow> (pystr list \<times> (string \<times> pystr) list) option" where
  "read_words opts [] = Some ([], [])"
| "read_words opts (w # ws) =
     (if plain_argument w
      then map_option (\<lambda>(args, vals). (w # args, vals)) (read_words opts ws)
      else (case option_named opts w of
              None \<Rightarrow> None
            | Some opt \<Rightarrow>
                if opt_value opt = Switch
                then map_option (\<lambda>(args, vals). (args, (opt_target opt, w) # vals)) (read_words opts ws)
                else (case ws of
                        [] \<Rightarrow> None
                      | v # vs \<Rightarrow>
                          if value_fits (opt_value opt) v
                          then map_option (\<lambda>(args, vals). (args, (opt_target opt, v) # vals)) (read_words opts vs)
                          else None)))"

text \<open>One word per argument; an argument with \<open>nargs=-1\<close> takes all that are left.\<close>

fun arguments_fit :: "(string \<times> bool) list \<Rightarrow> pystr list \<Rightarrow> bool" where
  "arguments_fit [] ws = (ws = [])"
| "arguments_fit ((_, many) # rest) ws =
     (if many then rest = [] else (case ws of [] \<Rightarrow> False | _ # ws' \<Rightarrow> arguments_fit rest ws'))"

definition read_command :: "cli_interface \<Rightarrow> pystr list \<Rightarrow> (pystr list \<times> (string \<times> pystr) list) option" where
  "read_command ci ws =
     (case read_words (ci_options ci) ws of
        None \<Rightarrow> None
      | Some (args, vals) \<Rightarrow>
          if arguments_fit (ci_arguments ci) args
             \<and> list_all (\<lambda>opt. opt_needed opt \<longrightarrow> opt_target opt \<in> set (map fst vals)) (ci_options ci)
          then Some (args, vals) else None)"

definition read_command_line ::
    "pystr list \<Rightarrow> (string list \<times> pystr list \<times> (string \<times> pystr) list) option" where
  "read_command_line ws =
     (case List.find (\<lambda>ci. take (length (ci_path ci)) ws = map lit (ci_path ci)) interfaces of
        None \<Rightarrow> None
      | Some ci \<Rightarrow> map_option (Pair (ci_path ci)) (read_command ci (drop (length (ci_path ci)) ws)))"

text \<open>A hint that shows a command of this program which the command's interface takes.\<close>

definition acceptable :: "pystr list \<Rightarrow> bool" where
  "acceptable ws =
     (case ws of [] \<Rightarrow> False | p # rest \<Rightarrow> p = lit ''hypernote'' \<and> read_command_line rest \<noteq> None)"

definition accepted_hint :: "pystr \<Rightarrow> bool" where
  "accepted_hint h = (case hinted_words h of None \<Rightarrow> False | Some ws \<Rightarrow> acceptable ws)"

section \<open>Which commands are accepted\<close>

lemmas interface_defs =
  create_interface_def status_interface_def diff_interface_def cat_interface_def ix_interface_def
  exec_interface_def run_all_interface_def restart_interface_def restart_run_all_interface_def
  interrupt_interface_def edit_insert_code_interface_def edit_insert_markdown_interface_def
  edit_replace_interface_def edit_move_interface_def edit_delete_interface_def
  edit_clear_outputs_interface_def runtime_status_interface_def runtime_ensure_interface_def
  runtime_stop_interface_def job_get_interface_def job_await_interface_def job_stdin_interface_def
  setup_serve_interface_def setup_doctor_interface_def

lemmas option_defs = valued_def text_option_def needed_text_def switch_def toggle_def output_switches_def

lemma acceptable_argv: "acceptable (argv ws args) \<longleftrightarrow> read_command_line (map lit ws @ args) \<noteq> None"
  by (simp add: acceptable_def argv_def)

lemma plain_literal: "plain_argument (lit (c # w)) \<longleftrightarrow> c \<noteq> CHR ''-''"
proof -
  have "(of_char c = (45::nat)) = (of_char c = (of_char CHR ''-'' :: nat))" by simp
  also have "\<dots> = (c = CHR ''-'')" by (simp only: of_char_eq_iff)
  finally show ?thesis by (simp add: plain_argument_def lit_def)
qed

text \<open>The command a command line names.\<close>

lemma command_named:
  "read_command_line (lit ''cat'' # args) = map_option (Pair [''cat'']) (read_command cat_interface args)"
  "read_command_line (lit ''status'' # args) = map_option (Pair [''status'']) (read_command status_interface args)"
  "read_command_line (lit ''diff'' # args) = map_option (Pair [''diff'']) (read_command diff_interface args)"
  "read_command_line (lit ''ix'' # args) = map_option (Pair [''ix'']) (read_command ix_interface args)"
  "read_command_line (lit ''exec'' # args) = map_option (Pair [''exec'']) (read_command exec_interface args)"
  "read_command_line (lit ''create'' # args) = map_option (Pair [''create'']) (read_command create_interface args)"
  by (simp_all add: read_command_line_def interfaces_def interface_defs)

lemma subcommand_named:
  "read_command_line (lit ''edit'' # lit ''replace'' # args)
     = map_option (Pair [''edit'', ''replace'']) (read_command edit_replace_interface args)"
  "read_command_line (lit ''job'' # lit ''get'' # args) = map_option (Pair [''job'', ''get'']) (read_command job_get_interface args)"
  "read_command_line (lit ''job'' # lit ''await'' # args)
     = map_option (Pair [''job'', ''await'']) (read_command job_await_interface args)"
  "read_command_line (lit ''job'' # lit ''stdin'' # args)
     = map_option (Pair [''job'', ''stdin'']) (read_command job_stdin_interface args)"
  "read_command_line (lit ''setup'' # lit ''serve'' # args)
     = map_option (Pair [''setup'', ''serve'']) (read_command setup_serve_interface args)"
  "read_command_line (lit ''setup'' # lit ''doctor'' # args)
     = map_option (Pair [''setup'', ''doctor'']) (read_command setup_doctor_interface args)"
  by (simp_all add: read_command_line_def interfaces_def interface_defs)

lemmas accepts = acceptable_argv command_named subcommand_named read_command_def option_defs option_named_def
  names_of_def plain_literal

lemma path_commands:
  assumes "plain_argument p"
  shows "acceptable (argv [''cat''] [p])" and "acceptable (argv [''status''] [p])"
    and "acceptable (argv [''job'', ''get''] [p])" and "acceptable (argv [''job'', ''await''] [p])"
  using assms
  by (simp_all add: accepts cat_interface_def status_interface_def job_get_interface_def job_await_interface_def)

lemma cell_commands:
  assumes "plain_argument p" and "plain_argument c"
  shows "acceptable (argv [''exec''] [p, c])"
    and "acceptable (argv [''edit'', ''replace''] [p, c, lit ''-s'', lit ''...''])"
  using assms by (simp_all add: accepts exec_interface_def edit_replace_interface_def)

lemma value_commands:
  assumes "plain_argument p"
  shows "acceptable (argv [''diff''] [p, lit ''--snapshot'', v])"
    and "acceptable (argv [''cat''] [p, lit ''--cell'', v])"
    and "acceptable (argv [''cat''] [p, lit ''--output'', v])"
    and "acceptable (argv [''cat''] [p, lit ''--output'', v, lit ''--save-images'', lit ''tmp/hypernote-images''])"
    and "acceptable (argv [''job'', ''stdin''] [p, lit ''--value'', lit ''...''])"
    and "acceptable (ix_argv p)"
  using assms
  by (simp_all add: accepts diff_interface_def cat_interface_def job_stdin_interface_def ix_argv_def ix_interface_def)

lemma fixed_commands:
  "acceptable (argv [''setup'', ''serve''] [])" "acceptable (argv [''setup'', ''doctor''] [])"
  "acceptable (argv [''create''] [lit ''tmp/demo.ipynb'', lit ''--empty''])"
  "acceptable (ix_argv (lit ''tmp/demo.ipynb''))"
  by (simp_all add: accepts setup_serve_interface_def setup_doctor_interface_def create_interface_def ix_argv_def
      ix_interface_def)

lemmas accepted_commands = path_commands cell_commands value_commands fixed_commands

section \<open>Which hints are accepted\<close>

lemma hints_accepted:
  assumes "map hinted_words hs = map Some cs" and "list_all acceptable cs"
  shows "list_all accepted_hint hs"
  using assms by (induction hs arbitrary: cs) (auto simp: accepted_hint_def)

lemma status_commands_accepted: "plain_argument p \<Longrightarrow> list_all acceptable (status_commands p token)"
  by (simp add: status_commands_def accepted_commands split: option.split)

lemma cat_commands_accepted: "plain_argument p \<Longrightarrow> list_all acceptable (cat_commands p cell)"
  by (simp add: cat_commands_def accepted_commands split: option.split)

lemma job_commands_accepted:
  assumes "plain_argument p" and "plain_argument (jb_id job)" and "\<forall>i. c = Some i \<longrightarrow> plain_argument i"
  shows "list_all acceptable (job_commands p job c)"
  using assms by (cases "jb_status job"; cases c) (simp_all add: job_commands_def accepted_commands)

lemma dedupe_subset: "list_all (\<lambda>h. \<forall>x. h = Some x \<longrightarrow> P x) hs \<Longrightarrow> list_all P (dedupe_hints hs)"
proof -
  have "list_all (\<lambda>h. \<forall>x. h = Some x \<longrightarrow> P x) hs \<Longrightarrow> list_all P acc \<Longrightarrow>
      list_all P (fold (\<lambda>h acc. case h of None \<Rightarrow> acc
        | Some s \<Rightarrow> if s = [] \<or> s \<in> set acc then acc else acc @ [s]) hs acc)" for acc
    by (induction hs arbitrary: acc) (auto split: option.split)
  from this [of "[]"] show "list_all (\<lambda>h. \<forall>x. h = Some x \<longrightarrow> P x) hs \<Longrightarrow> list_all P (dedupe_hints hs)"
    by (simp add: dedupe_hints_def)
qed

lemma fixed_hints:
  "hinted_words (job_hint (lit ''hypernote setup serve'')) = Some (argv [''setup'', ''serve''] [])"
  "hinted_words (job_hint (lit ''hypernote setup doctor'')) = Some (argv [''setup'', ''doctor''] [])"
  "hinted_words (job_hint (lit ''hypernote create tmp/demo.ipynb --empty''))
     = Some (argv [''create''] [lit ''tmp/demo.ipynb'', lit ''--empty''])"
  "hinted_words (job_hint (lit ''hypernote ix tmp/demo.ipynb -s '' @ [39] @ lit ''print(42)'' @ [39]))
     = Some (ix_argv (lit ''tmp/demo.ipynb''))"
  using hinted_argv [OF plain_last_word [of "lit ''serve''"], of "[''setup'']"]
    hinted_argv [OF plain_last_word [of "lit ''doctor''"], of "[''setup'']"]
    hinted_argv [OF plain_last_word [of "lit ''--empty''"], of "[''create'', ''tmp/demo.ipynb'']"]
    hinted_argv [OF last_literal(1) [of "lit ''print(42)''"], of "[''ix'', ''tmp/demo.ipynb'']"]
  by (simp_all add: ix_argv_def argv_def shown)

lemma home_hints_accepted:
  assumes "\<forall>p. first = Some p \<longrightarrow> plain_argument p"
  shows "list_all accepted_hint (home_hints reachable first)"
  unfolding home_hints_def
  by (rule dedupe_subset, cases first)
    (use assms in \<open>simp_all add: accepted_hint_def fixed_hints [simplified append.simps] path_hints source_hints accepted_commands\<close>)

section \<open>Properties\<close>

text \<open>
  C40: the program suggests only commands that it takes.  Every command that \<open>status\<close>, \<open>cat\<close>, the run
  commands and the start page suggest, split by the shell, is this program with a subcommand it has,
  options that subcommand declares, a value of the declared type for each that takes one, every
  required option given and exactly the arguments the subcommand declares; for all paths, cells and
  jobs whose name does not begin with a dash (and is not empty), and any snapshot token and cell shown
  as an option's value.
\<close>

theorem suggested_commands_are_accepted:
  assumes "plain_argument path" and "plain_argument (jb_id job)"
    and "\<forall>i. first_cell pr job inserted = Some i \<longrightarrow> plain_argument i"
    and "\<forall>p. first = Some p \<longrightarrow> plain_argument p"
  shows "list_all accepted_hint (status_hints path token)
    \<and> list_all accepted_hint (cat_hints path image_cell)
    \<and> list_all accepted_hint (job_result_hints pr path job inserted)
    \<and> list_all accepted_hint (home_hints reachable first)"
  using hints_accepted [OF status_hints_words status_commands_accepted [OF assms(1)]]
    hints_accepted [OF cat_hints_words cat_commands_accepted [OF assms(1)]]
    hints_accepted [OF job_hints_words job_commands_accepted [OF assms(1-3)]]
    home_hints_accepted [OF assms(4)] by blast

theorem suggested_commands_are_accepted_witness:
  "let job = \<lparr>jb_config = \<lparr>cfg_server = [], cfg_token = None, cfg_actor_id = [], cfg_actor_type = [], cfg_timeout = 30\<rparr>,
              jb_id = lit ''j1'', jb_status = job_status.FAILED, jb_cell_ids = [JStr (lit ''c 1'')], jb_path = lit ''my nb.ipynb''\<rparr>
   in length (job_result_hints (\<lambda>_. True) (lit ''my nb.ipynb'') job []) = 3
      \<and> list_all accepted_hint (job_result_hints (\<lambda>_. True) (lit ''my nb.ipynb'') job [])
      \<and> list_all accepted_hint (status_hints (lit ''my nb.ipynb'') (Some (lit ''--token'')))
      \<and> list_all accepted_hint (home_hints False (Some (lit ''my nb.ipynb'')))"
proof -
  let ?job = "\<lparr>jb_config = \<lparr>cfg_server = [], cfg_token = None, cfg_actor_id = [], cfg_actor_type = [], cfg_timeout = 30\<rparr>,
    jb_id = lit ''j1'', jb_status = job_status.FAILED, jb_cell_ids = [JStr (lit ''c 1'')], jb_path = lit ''my nb.ipynb''\<rparr>"
  let ?hints = "job_result_hints (\<lambda>_. True) (lit ''my nb.ipynb'') ?job []"
  have c: "first_cell (\<lambda>_. True) ?job [] = Some (lit ''c 1'')" by (simp add: first_cell_def py_str_def)
  have "length (map hinted_words ?hints) = 3" by (simp only: job_hints_words c) (simp add: job_commands_def)
  then show ?thesis
    using suggested_commands_are_accepted [of "lit ''my nb.ipynb''" ?job "\<lambda>_. True" "[]" "Some (lit ''my nb.ipynb'')"
        "Some (lit ''--token'')" None False] c
    by (simp add: Let_def plain_literal)
qed

end
