(* ===== verification/Hn_CliSetup.thy ===== *)
theory Hn_CliSetup
  imports Hn_CliCommands
begin

text \<open>
  \<open>hypernote setup\<close> (\<^verbatim>\<open>cli/main.py\<close>): starting a JupyterLab server at the configured URL, and the
  diagnostics of \<open>doctor\<close>, with the parts of \<open>urllib.parse\<close> they use.
\<close>

section \<open>URLs\<close>

text \<open>
  \<open>str.partition\<close> at a character: what is before, whether it was found, what is after; \<open>rpartition\<close>'s
  last part.
\<close>

definition before_char :: "nat \<Rightarrow> pystr \<Rightarrow> pystr" where
  "before_char c s = takeWhile (\<lambda>x. x \<noteq> c) s"

definition after_char :: "nat \<Rightarrow> pystr \<Rightarrow> pystr" where
  "after_char c s = tl (dropWhile (\<lambda>x. x \<noteq> c) s)"

definition after_last :: "nat \<Rightarrow> pystr \<Rightarrow> pystr" where
  "after_last c s = rev (takeWhile (\<lambda>x. x \<noteq> c) (rev s))"

text \<open>
  Checks of the library that rest on Unicode and on the grammar of IP addresses are parameters: what
  is in brackets is an IPv6 address, and normalising the network location shows no hidden separator.
\<close>

record url_checks =
  bracketed_host_ok :: "pystr \<Rightarrow> bool"
  netloc_ok :: "pystr \<Rightarrow> bool"
  lower :: "pystr \<Rightarrow> pystr"

record parsed_url =
  url_scheme :: pystr
  url_netloc :: pystr

definition ascii_alpha :: "nat \<Rightarrow> bool" where
  "ascii_alpha c \<longleftrightarrow> 65 \<le> c \<and> c \<le> 90 \<or> 97 \<le> c \<and> c \<le> 122"

definition ascii_lower :: "nat \<Rightarrow> nat" where
  "ascii_lower c = (if 65 \<le> c \<and> c \<le> 90 then c + 32 else c)"

definition scheme_char :: "nat \<Rightarrow> bool" where
  "scheme_char c \<longleftrightarrow> ascii_alpha c \<or> is_digit c \<or> c \<in> {43, 45, 46}"

text \<open>\<open>urlsplit\<close>: surrounding controls and tabs and line ends are dropped, then scheme and network location.\<close>

definition url_text :: "pystr \<Rightarrow> pystr" where
  "url_text s = filter (\<lambda>c. c \<notin> {9, 10, 13}) (dropWhile (\<lambda>c. c \<le> 32) s)"

definition split_scheme :: "pystr \<Rightarrow> pystr \<times> pystr" where
  "split_scheme url =
     (let front = before_char 58 url
      in if 58 \<in> set url \<and> front \<noteq> [] \<and> ascii_alpha (hd front) \<and> list_all scheme_char front
         then (map ascii_lower front, after_char 58 url) else ([], url))"

definition netloc_of :: "pystr \<Rightarrow> pystr" where
  "netloc_of rest =
     (if take 2 rest = [47, 47] then takeWhile (\<lambda>c. c \<notin> {47, 63, 35}) (drop 2 rest) else [])"

definition url_parse :: "url_checks \<Rightarrow> pystr \<Rightarrow> pyexc + parsed_url" where
  "url_parse ck s =
     (case split_scheme (url_text s) of
        (scheme, rest) \<Rightarrow>
          let netloc = netloc_of rest
          in if (91 \<in> set netloc) \<noteq> (93 \<in> set netloc) then Inl (ValueError (lit ''Invalid IPv6 URL''))
             else if 91 \<in> set netloc \<and> \<not> bracketed_host_ok ck (before_char 93 (after_char 91 netloc))
             then Inl (ValueError (lit ''Invalid IPv6 URL''))
             else if \<not> list_all (\<lambda>c. c < 128) netloc \<and> \<not> netloc_ok ck netloc
             then Inl (ValueError (lit ''netloc contains invalid characters''))
             else Inr \<lparr>url_scheme = scheme, url_netloc = netloc\<rparr>)"

text \<open>The host and the port's text; \<open>.hostname\<close> and \<open>.port\<close>.\<close>

definition host_info :: "pystr \<Rightarrow> pystr \<times> pystr" where
  "host_info netloc =
     (let info = after_last 64 netloc
      in if 91 \<in> set info
         then let bracketed = after_char 91 info
              in (before_char 93 bracketed, after_char 58 (after_char 93 bracketed))
         else (before_char 58 info, after_char 58 info))"

definition url_hostname :: "url_checks \<Rightarrow> parsed_url \<Rightarrow> pystr option" where
  "url_hostname ck u =
     (let host = fst (host_info (url_netloc u))
      in if host = [] then None
         else Some (lower ck (before_char 37 host) @ dropWhile (\<lambda>c. c \<noteq> 37) host))"

definition url_port :: "url_checks \<Rightarrow> parsed_url \<Rightarrow> pyexc + nat option" where
  "url_port ck u =
     (let port = snd (host_info (url_netloc u))
      in if port = [] then Inr None
         else if \<not> list_all is_digit port
         then Inl (ValueError (lit ''Port could not be cast to integer value''))
         else if 65535 < dec_value port then Inl (ValueError (lit ''Port out of range 0-65535''))
         else Inr (Some (dec_value port)))"

definition server_host_port :: "url_checks \<Rightarrow> pystr \<Rightarrow> pyexc + (pystr \<times> nat)" where
  "server_host_port ck server =
     bind_result (url_parse ck server) (\<lambda>u.
     bind_result (url_port ck u) (\<lambda>port.
       let host = (case url_hostname ck u of None \<Rightarrow> lit ''127.0.0.1'' | Some h \<Rightarrow> h)
       in Inr (host, case port of
                       Some p \<Rightarrow> p
                     | None \<Rightarrow> if url_scheme u = lit ''https'' then 443 else 8888)))"

section \<open>serve\<close>

text \<open>The machine: installed modules, directories, subprocesses, running Jupyter servers.\<close>

record 'w machine =
  has_module :: "pystr \<Rightarrow> bool"
  python_executable :: pystr
  resolved_dir :: "pystr \<Rightarrow> pystr"
  dir_exists :: "pystr \<Rightarrow> 'w \<Rightarrow> bool"
  run_process :: "pystr list \<Rightarrow> pystr \<Rightarrow> 'w \<Rightarrow> int \<times> 'w"
  list_servers :: "'w \<Rightarrow> (json list, 'w) outcome"
  resolve_parts :: "pystr \<Rightarrow> 'w \<Rightarrow> pystr list option"
  absolute_parts :: "pystr \<Rightarrow> 'w \<Rightarrow> pystr list"
  work_dir :: pystr
  checks :: url_checks

definition required_stack :: "(pystr \<times> pystr) list" where
  "required_stack =
     [(lit ''jupyterlab'', lit ''jupyterlab''), (lit ''jupyter_collaboration'', lit ''jupyter-collaboration''),
      (lit ''jupyter_server_nbmodel'', lit ''jupyter-server-nbmodel''),
      (lit ''jupyter_server_ydoc'', lit ''jupyter-server-ydoc''), (lit ''jupyter_docprovider'', lit ''jupyter-docprovider'')]"

definition require_jupyterlab :: "'w machine \<Rightarrow> pyexc + unit" where
  "require_jupyterlab mc =
     (case find (\<lambda>(m, _). \<not> has_module mc m) required_stack of
        None \<Rightarrow> Inr ()
      | Some (_, package) \<Rightarrow>
          Inl (click_exception (package @ lit '' is not installed in this Python environment. ''
            @ lit ''Install Hypernote'' @ [39] @ lit ''s JupyterLab integration stack in the target repo env, ''
            @ lit ''then rerun `hypernote setup serve`.'')))"

definition extension_flags :: pystr where
  "extension_flags =
     [123] @ py_join (lit '', '') (map (\<lambda>s. [39] @ lit s @ [39] @ lit '': True'')
       [''hypernote'', ''jupyter_server_nbmodel'', ''jupyter_server_ydoc'']) @ [125]"

definition serve_command :: "'w machine \<Rightarrow> pystr \<Rightarrow> pystr \<Rightarrow> int \<Rightarrow> pystr \<Rightarrow> bool \<Rightarrow> pystr list" where
  "serve_command mc root host port tok no_browser =
     [python_executable mc, lit ''-m'', lit ''jupyterlab''] @ (if no_browser then [lit ''--no-browser''] else [])
     @ [lit ''--ServerApp.ip='' @ host, lit ''--ServerApp.port='' @ int_str port, lit ''--ServerApp.port_retries=0'',
        lit ''--ServerApp.token='' @ tok, lit ''--ServerApp.password='', lit ''--ServerApp.disable_check_xsrf=True'',
        lit ''--ServerApp.root_dir='' @ root, lit ''--ServerApp.jpserver_extensions='' @ extension_flags,
        lit ''--YDocExtension.ystore_class=jupyter_server_ydoc.stores.TempFileYStore'']"

definition serve_url :: "pystr \<Rightarrow> int \<Rightarrow> pystr" where
  "serve_url host port = lit ''http://'' @ host @ lit '':'' @ int_str port"

definition system_exit :: "int \<Rightarrow> pyexc" where
  "system_exit n = OtherError (lit ''SystemExit'') (int_str n)"

definition serve_address :: "pystr option \<Rightarrow> int option \<Rightarrow> pystr \<times> nat \<Rightarrow> pystr \<times> int" where
  "serve_address host port dflt =
     (case py_or host None of None \<Rightarrow> fst dflt | Some h \<Rightarrow> h,
      case port of None \<Rightarrow> int (snd dflt) | Some p \<Rightarrow> if p = 0 then int (snd dflt) else p)"

definition setup_serve_cmd ::
  "'w cli_env \<Rightarrow> 'w machine \<Rightarrow> config \<Rightarrow> pystr \<Rightarrow> pystr option \<Rightarrow> int option \<Rightarrow> bool \<Rightarrow> 'w \<Rightarrow> (unit, 'w) outcome" where
  "setup_serve_cmd env mc cfg root host port browser =
     cli_command env
       (mbind (of_result (require_jupyterlab mc)) (\<lambda>_.
        mbind (of_result (server_host_port (checks mc) (cfg_server cfg))) (\<lambda>dflt w.
          let resolved = resolved_dir mc root
          in if \<not> dir_exists mc resolved w
             then (Inl (click_exception (lit ''Root directory does not exist: '' @ resolved)), w)
             else
               case serve_address host port dflt of
                 (serve_host, serve_port) \<Rightarrow>
                   mbind (say env (lit ''Starting Hypernote JupyterLab server at '' @ serve_url serve_host serve_port)) (\<lambda>_.
                   mbind (say env (lit ''Root: '' @ resolved)) (\<lambda>_.
                   mbind (say env (lit ''Extensions: hypernote, jupyter_server_nbmodel, jupyter_server_ydoc'')) (\<lambda>_ w1.
                     case run_process mc (serve_command mc resolved serve_host serve_port
                            (case cfg_token cfg of None \<Rightarrow> [] | Some t \<Rightarrow> t) (\<not> browser)) resolved w1 of
                       (code, w2) \<Rightarrow> (if code \<noteq> 0 then Inl (system_exit code) else Inr (), w2)))) w)))"

section \<open>Other servers for the same workspace\<close>

definition normalized_host :: "pystr option \<Rightarrow> pystr" where
  "normalized_host host =
     (case host of
        None \<Rightarrow> lit ''127.0.0.1''
      | Some h \<Rightarrow> if h = [] \<or> h = lit ''localhost'' \<or> h = lit ''::1'' then lit ''127.0.0.1'' else h)"

definition hosts_match :: "pystr \<Rightarrow> pystr \<Rightarrow> bool" where
  "hosts_match configured running \<longleftrightarrow>
     configured = running
     \<or> configured = lit ''0.0.0.0'' \<or> configured = lit ''::'' \<or> running = lit ''0.0.0.0'' \<or> running = lit ''::''"

definition port_or_default :: "pystr \<Rightarrow> nat option \<Rightarrow> nat" where
  "port_or_default scheme port =
     (case port of Some p \<Rightarrow> if p = 0 then (if scheme = lit ''https'' then 443 else 8888) else p
                 | None \<Rightarrow> if scheme = lit ''https'' then 443 else 8888)"

definition server_matches_url :: "url_checks \<Rightarrow> (nat \<Rightarrow> bool) \<Rightarrow> pystr \<Rightarrow> jobj \<Rightarrow> pyexc + bool" where
  "server_matches_url ck pr server running =
     bind_result (url_parse ck server) (\<lambda>u.
     bind_result (url_parse ck (py_str pr (get_or ''url'' (JStr []) running))) (\<lambda>v.
     bind_result (url_port ck u) (\<lambda>p.
     bind_result (url_port ck v) (\<lambda>q.
       let running_port = (case q of Some n \<Rightarrow> if n = 0 then opt_json (field ''port'' running) else JInt (int n)
                                   | None \<Rightarrow> opt_json (field ''port'' running))
       in Inr (hosts_match (normalized_host (url_hostname ck u)) (normalized_host (url_hostname ck v))
               \<and> JInt (int (port_or_default (url_scheme u) p)) = running_port)))))"

text \<open>One path is the other or below it, as lists of parts.\<close>

definition is_below :: "pystr list \<Rightarrow> pystr list \<Rightarrow> bool" where
  "is_below l r \<longleftrightarrow> take (length r) l = r"

definition path_overlaps :: "'w machine \<Rightarrow> 'w \<Rightarrow> pystr \<Rightarrow> pystr \<Rightarrow> bool" where
  "path_overlaps mc w left right =
     (let overlaps = (\<lambda>l r. l = r \<or> is_below l r \<or> is_below r l)
      in case (resolve_parts mc left w, resolve_parts mc right w) of
           (Some l, Some r) \<Rightarrow> overlaps l r
         | _ \<Rightarrow> overlaps (absolute_parts mc left w) (absolute_parts mc right w))"

definition duplicate_server :: "'w machine \<Rightarrow> (nat \<Rightarrow> bool) \<Rightarrow> pystr \<Rightarrow> 'w \<Rightarrow> json \<Rightarrow> pyexc + json list" where
  "duplicate_server mc pr server w j =
     (case j of
        JDict running \<Rightarrow>
          bind_result (server_matches_url (checks mc) pr server running) (\<lambda>same.
            let root_dir = opt_json (field ''root_dir'' running);
                root = py_str pr root_dir
            in Inr (if same \<or> \<not> truthy root_dir \<or> \<not> path_overlaps mc w (work_dir mc) root then []
                    else [JDict [(lit ''url'', opt_json (field ''url'' running)), (lit ''port'', opt_json (field ''port'' running)),
                                 (lit ''root_dir'', JStr root), (lit ''pid'', opt_json (field ''pid'' running))]]))
      | _ \<Rightarrow> Inl attribute_error)"

definition duplicate_servers :: "'w machine \<Rightarrow> (nat \<Rightarrow> bool) \<Rightarrow> pystr \<Rightarrow> 'w \<Rightarrow> (json list, 'w) outcome" where
  "duplicate_servers mc pr server w =
     (case list_servers mc w of
        (servers, w1) \<Rightarrow>
          (bind_result (each (duplicate_server mc pr server w1) (case servers of Inl _ \<Rightarrow> [] | Inr js \<Rightarrow> js))
             (\<lambda>xs. Inr (concat xs)), w1))"

section \<open>doctor\<close>

text \<open>
  The report is a dictionary the command fills step by step, so an exception caught half way leaves
  what was written before it: the report and the world are the state.
\<close>

type_synonym 'w doctor = "jobj \<times> 'w"

definition put :: "string \<Rightarrow> json \<Rightarrow> 'w doctor \<Rightarrow> (unit, 'w doctor) outcome" where
  "put k v st = (case st of (d, w) \<Rightarrow> (Inr (), set_field k v d, w))"

definition ask :: "('w \<Rightarrow> ('a, 'w) outcome) \<Rightarrow> 'w doctor \<Rightarrow> ('a, 'w doctor) outcome" where
  "ask m st = (case st of (d, w) \<Rightarrow> (case m w of (r, w1) \<Rightarrow> (r, d, w1)))"

text \<open>\<open>try: x = m except Exception as exc: h(exc) else: f(x)\<close>.\<close>

definition try_else ::
  "('s \<Rightarrow> ('a, 's) outcome) \<Rightarrow> (pyexc \<Rightarrow> 's \<Rightarrow> ('b, 's) outcome) \<Rightarrow> ('a \<Rightarrow> 's \<Rightarrow> ('b, 's) outcome) \<Rightarrow> 's \<Rightarrow> ('b, 's) outcome" where
  "try_else m h f s = (case m s of (Inl e, s1) \<Rightarrow> h e s1 | (Inr x, s1) \<Rightarrow> f x s1)"

definition api_ok :: "'w doctor \<Rightarrow> bool" where
  "api_ok st \<longleftrightarrow> field ''hypernote_api'' (fst st) = Some (JStr (lit ''ok''))"

definition update_report :: "jobj \<Rightarrow> 'w doctor \<Rightarrow> (unit, 'w doctor) outcome" where
  "update_report new st = (case st of (d, w) \<Rightarrow> (Inr (), update_all new d, w))"

definition append_warning :: "pystr \<Rightarrow> 'w doctor \<Rightarrow> (unit, 'w doctor) outcome" where
  "append_warning t st =
     (case st of (d, w) \<Rightarrow>
        (Inr (), (case field ''warnings'' d of
                    None \<Rightarrow> set_field ''warnings'' (JList [JStr t]) d
                  | Some (JList ws) \<Rightarrow> set_field ''warnings'' (JList (ws @ [JStr t])) d
                  | Some _ \<Rightarrow> d), w))"

definition lab_extension_status :: "(nat \<Rightarrow> bool) \<Rightarrow> string \<Rightarrow> json list \<Rightarrow> pyexc + pystr" where
  "lab_extension_status pr name extensions =
     foldr (\<lambda>j rest. case j of
         JDict d \<Rightarrow>
           if field ''name'' d \<noteq> Some (JStr (lit name)) then rest
           else if field ''enabled'' d = Some (JBool False) then Inr (lit ''disabled'')
           else Inr (if truthy_field ''status'' d then shown pr ''status'' d else lit ''ok'')
       | _ \<Rightarrow> Inl attribute_error) extensions (Inr (lit ''missing''))"

definition kernelspec_name_from_document :: "(nat \<Rightarrow> bool) \<Rightarrow> json \<Rightarrow> pyexc + pystr" where
  "kernelspec_name_from_document pr model =
     bind_result (py_get ''content'' (JDict []) model) (\<lambda>content.
     bind_result (py_get ''metadata'' (JDict []) content) (\<lambda>metadata.
     bind_result (py_get ''kernelspec'' (JDict []) metadata) (\<lambda>kernelspec.
     bind_result (py_get ''name'' JNull kernelspec) (\<lambda>name.
       Inr (if truthy name then py_str pr name else lit ''python3'')))))"

definition kernelspec_launcher :: "(nat \<Rightarrow> bool) \<Rightarrow> json \<Rightarrow> pyexc + pystr option" where
  "kernelspec_launcher pr kernelspec =
     bind_result (py_get ''spec'' (JDict []) kernelspec) (\<lambda>spec.
     bind_result (py_get ''argv'' (JList []) spec) (\<lambda>argv.
       if \<not> truthy argv then Inr None
       else case argv of
              JList (a # _) \<Rightarrow> Inr (Some (py_str pr a))
            | JStr (c # _) \<Rightarrow> Inr (Some [c])
            | JDict _ \<Rightarrow> Inl (OtherError (lit ''KeyError'') (lit ''0''))
            | _ \<Rightarrow> Inl type_error))"

definition note_launcher :: "'w cli_env \<Rightarrow> string \<Rightarrow> json \<Rightarrow> 'w doctor \<Rightarrow> (unit, 'w doctor) outcome" where
  "note_launcher env k spec =
     mbind (of_result (kernelspec_launcher (shows_char env) spec)) (\<lambda>launcher.
       case launcher of None \<Rightarrow> mret () | Some l \<Rightarrow> put k (JStr l))"

section \<open>doctor, step by step\<close>

definition failure :: "'w cli_env \<Rightarrow> pyexc \<Rightarrow> json" where
  "failure env e = JStr (error_message (shows_char env) e)"

definition check_diagnostics :: "'w cli_env \<Rightarrow> config \<Rightarrow> 'w doctor \<Rightarrow> (unit, 'w doctor) outcome" where
  "check_diagnostics env cfg =
     try_else (ask (control_diagnostics (sdk env) cfg))
       (\<lambda>e. put ''server_diagnostics_error'' (failure env e))
       (\<lambda>d. mbind (update_report d) (\<lambda>_. put ''hypernote_api'' (JStr (lit ''ok''))))"

definition check_jobs :: "'w cli_env \<Rightarrow> config \<Rightarrow> 'w doctor \<Rightarrow> (unit, 'w doctor) outcome" where
  "check_jobs env cfg =
     try_else (ask (control_list_jobs (sdk env) cfg None None))
       (\<lambda>e st. (if api_ok st
               then mbind (put ''jobs_endpoint'' (JBool False)) (\<lambda>_. put ''jobs_error'' (failure env e))
               else put ''error'' (failure env e)) st)
       (\<lambda>_. mbind (put ''hypernote_api'' (JStr (lit ''ok''))) (\<lambda>_. put ''jobs_endpoint'' (JBool True)))"

definition check_duplicates :: "'w cli_env \<Rightarrow> 'w machine \<Rightarrow> config \<Rightarrow> 'w doctor \<Rightarrow> (unit, 'w doctor) outcome" where
  "check_duplicates env mc cfg =
     mbind (ask (duplicate_servers mc (shows_char env) (cfg_server cfg))) (\<lambda>found.
       if found = [] then mret ()
       else
         mbind (put ''duplicate_servers'' (JList found)) (\<lambda>_.
           append_warning (lit ''Detected another Jupyter server for this workspace. ''
             @ lit ''Use the Hypernote JupyterLab server URL, not a separate JupyterLab process.'')))"

definition check_lab :: "'w cli_env \<Rightarrow> config \<Rightarrow> 'w doctor \<Rightarrow> (unit, 'w doctor) outcome" where
  "check_lab env cfg =
     try_else (ask (control_lab_extensions (sdk env) cfg))
       (\<lambda>e. mbind (put ''jupyterlab'' (JStr (lit ''unreachable''))) (\<lambda>_.
            mbind (put ''jupyterlab_error'' (failure env e)) (\<lambda>_.
            mbind (put ''jupyter_collaboration'' (JStr (lit ''unknown''))) (\<lambda>_.
              put ''jupyter_docprovider'' (JStr (lit ''unknown''))))))
       (\<lambda>extensions.
          mbind (put ''jupyterlab'' (JStr (lit ''ok''))) (\<lambda>_.
          mbind (of_result (lab_extension_status (shows_char env) ''@jupyter/collaboration-extension'' extensions)) (\<lambda>c.
          mbind (put ''jupyter_collaboration'' (JStr c)) (\<lambda>_.
          mbind (of_result (lab_extension_status (shows_char env) ''@jupyter/docprovider-extension'' extensions)) (\<lambda>p.
            put ''jupyter_docprovider'' (JStr p))))))"

definition check_default_kernel :: "'w cli_env \<Rightarrow> config \<Rightarrow> 'w doctor \<Rightarrow> (unit, 'w doctor) outcome" where
  "check_default_kernel env cfg =
     try_else (mbind (ask (control_kernelspec (sdk env) cfg (lit ''python3''))) (note_launcher env ''default_kernel''))
       (\<lambda>e. put ''default_kernel_error'' (failure env e)) mret"

definition kernel_warning :: pystr where
  "kernel_warning = lit ''Live runtime kernel does not match notebook metadata. ''
     @ lit ''Stop or restart the runtime to pick up the notebook'' @ [39] @ lit ''s kernelspec.''"

definition check_kernelspec :: "'w cli_env \<Rightarrow> config \<Rightarrow> pystr \<Rightarrow> 'w doctor \<Rightarrow> (unit, 'w doctor) outcome" where
  "check_kernelspec env cfg wanted =
     try_else (ask (control_kernelspec (sdk env) cfg wanted))
       (\<lambda>e. put ''kernelspec_error'' (failure env e)) (note_launcher env ''kernelspec_launcher'')"

text \<open>What is known of the notebook: its kernelspec, its runtime, and whether they agree.\<close>

definition inspect_notebook :: "'w cli_env \<Rightarrow> config \<Rightarrow> pystr \<Rightarrow> 'w doctor \<Rightarrow> (unit, 'w doctor) outcome" where
  "inspect_notebook env cfg path =
     mbind (ask (control_document (sdk env) cfg path True)) (\<lambda>document.
     mbind (of_result (kernelspec_name_from_document (shows_char env) document)) (\<lambda>wanted.
     mbind (put ''notebook_kernelspec'' (JStr wanted)) (\<lambda>_.
     mbind (ask (control_runtime_status (sdk env) cfg path)) (\<lambda>runtime.
     mbind (of_result (py_get ''state'' JNull runtime)) (\<lambda>st.
     mbind (put ''runtime_state'' st) (\<lambda>_.
     mbind (of_result (py_get ''kernel_name'' JNull runtime)) (\<lambda>live.
     mbind (put ''runtime_kernel_name'' live) (\<lambda>_.
     mbind (check_kernelspec env cfg wanted) (\<lambda>_.
       if truthy live \<and> live \<noteq> JStr wanted then append_warning kernel_warning else mret ())))))))))"

definition check_notebook :: "'w cli_env \<Rightarrow> config \<Rightarrow> pystr \<Rightarrow> 'w doctor \<Rightarrow> (unit, 'w doctor) outcome" where
  "check_notebook env cfg path =
     mbind (put ''path'' (JStr path)) (\<lambda>_.
       try_else (inspect_notebook env cfg path) (\<lambda>e. put ''path_error'' (failure env e)) mret)"

definition when_ok :: "('w doctor \<Rightarrow> (unit, 'w doctor) outcome) \<Rightarrow> 'w doctor \<Rightarrow> (unit, 'w doctor) outcome" where
  "when_ok m st = (if api_ok st then m st else mret () st)"

definition doctor :: "'w cli_env \<Rightarrow> 'w machine \<Rightarrow> config \<Rightarrow> pystr option \<Rightarrow> 'w doctor \<Rightarrow> (unit, 'w doctor) outcome" where
  "doctor env mc cfg path =
     mbind (check_diagnostics env cfg) (\<lambda>_.
     mbind (check_jobs env cfg) (\<lambda>_.
     mbind (check_duplicates env mc cfg) (\<lambda>_.
     mbind (when_ok (mbind (check_lab env cfg) (\<lambda>_. check_default_kernel env cfg))) (\<lambda>_.
       case chosen path of None \<Rightarrow> mret () | Some p \<Rightarrow> when_ok (check_notebook env cfg p)))))"

definition setup_doctor_cmd :: "'w cli_env \<Rightarrow> 'w machine \<Rightarrow> config \<Rightarrow> pystr option \<Rightarrow> 'w \<Rightarrow> (unit, 'w) outcome" where
  "setup_doctor_cmd env mc cfg path =
     cli_command env (\<lambda>w.
       case doctor env mc cfg path ([(lit ''server'', JStr (cfg_server cfg)),
                                     (lit ''hypernote_api'', JStr (lit ''unreachable''))], w) of
         (Inl e, _, w1) \<Rightarrow> (Inl e, w1)
       | (Inr _, report, w1) \<Rightarrow> echo_json env (stdout_tty env) (JDict report) w1)"

section \<open>The server that \<open>serve\<close> starts is the configured one\<close>

definition host_char :: "nat \<Rightarrow> bool" where
  "host_char c \<longleftrightarrow> 97 \<le> c \<and> c \<le> 122 \<or> is_digit c \<or> c = 45 \<or> c = 46"

definition plain_host :: "pystr \<Rightarrow> bool" where
  "plain_host h \<longleftrightarrow> h \<noteq> [] \<and> list_all host_char h"

definition url_path :: "pystr \<Rightarrow> bool" where
  "url_path s \<longleftrightarrow> s = [] \<or> hd s = 47"

lemma dec_digits_not_Nil [simp]: "dec_digits n \<noteq> []"
  by (simp add: dec_digits.simps [of n])

lemma http_lit: "lit ''http://'' = [104, 116, 116, 112, 58, 47, 47]" "lit ''http'' = [104, 116, 116, 112]" "lit '':'' = [58]"
  by (simp_all add: lit_def)

lemma takeWhile_until: "list_all P xs \<Longrightarrow> \<not> P y \<Longrightarrow> takeWhile P (xs @ y # ys) = xs"
  by (induction xs) simp_all

lemma dropWhile_until: "list_all P xs \<Longrightarrow> \<not> P y \<Longrightarrow> dropWhile P (xs @ y # ys) = y # ys"
  by (induction xs) simp_all

lemma host_char_facts:
  assumes "host_char c"
  shows "c \<notin> {9, 10, 13}" "c \<notin> {47, 63, 35}" "c < 128" "c \<noteq> 91" "c \<noteq> 93" "c \<noteq> 64" "c \<noteq> 37" "c \<noteq> 58"
  using assms by (auto simp: host_char_def is_digit_def)

lemma digit_host_char: "is_digit c \<Longrightarrow> host_char c"
  by (simp add: host_char_def)

text \<open>A server as it is named: a scheme, a host, and a port or none.\<close>

definition named_net :: "pystr \<Rightarrow> nat option \<Rightarrow> pystr" where
  "named_net h port = h @ (case port of None \<Rightarrow> [] | Some p \<Rightarrow> 58 # dec_digits p)"

definition named_url :: "string \<Rightarrow> pystr \<Rightarrow> nat option \<Rightarrow> pystr" where
  "named_url scheme h port = lit scheme @ lit ''://'' @ named_net h port"

lemma served_named: "serve_url h (int p) = named_url ''http'' h (Some p)"
  by (simp add: serve_url_def named_url_def named_net_def int_str_def lit_def)

lemma named_chars:
  assumes "plain_host h" and "c \<in> set (named_net h port)" shows "c = 58 \<or> host_char c"
  using assms dec_digits_are digit_host_char
  by (auto simp: plain_host_def named_net_def list_all_iff split: option.splits)

lemma url_parse_named:
  assumes h: "plain_host h" and path: "url_path path" and scheme: "scheme = ''http'' \<or> scheme = ''https''"
  shows "url_parse ck (named_url scheme h port @ path) = Inr \<lparr>url_scheme = lit scheme, url_netloc = named_net h port\<rparr>"
proof -
  let ?net = "named_net h port" and ?path = "filter (\<lambda>c. c \<notin> {9, 10, 13}) path"
  have net: "c \<notin> {9, 10, 13} \<and> c \<notin> {47, 63, 35} \<and> c < 128 \<and> c \<noteq> 91 \<and> c \<noteq> 93" if "c \<in> set ?net" for c
    using named_chars [OF h that] by (auto dest: host_char_facts)
  have "filter (\<lambda>c. c \<notin> {9, 10, 13}) ?net = ?net" using net by (intro filter_True) blast
  then have text_: "url_text (named_url scheme h port @ path) = (lit scheme @ [58]) @ [47, 47] @ ?net @ ?path"
    using scheme by (auto simp: url_text_def named_url_def lit_def)
  have split: "split_scheme ((lit scheme @ [58]) @ u) = (lit scheme, u)" for u
    using scheme
    by (auto simp: split_scheme_def before_char_def after_char_def scheme_char_def ascii_alpha_def ascii_lower_def lit_def)
  have "takeWhile (\<lambda>c. c \<notin> {47, 63, 35}) (?net @ ?path) = ?net"
  proof -
    have "takeWhile (\<lambda>c. c \<notin> {47, 63, 35}) ?path = []" using path by (cases path) (auto simp: url_path_def)
    moreover have "takeWhile (\<lambda>c. c \<notin> {47, 63, 35}) (?net @ ?path) = ?net @ takeWhile (\<lambda>c. c \<notin> {47, 63, 35}) ?path"
      using net by (intro takeWhile_append2) blast
    ultimately show ?thesis by (simp only: append_Nil2)
  qed
  then have loc: "netloc_of ([47, 47] @ ?net @ ?path) = ?net" by (simp add: netloc_of_def)
  have "91 \<notin> set ?net" "93 \<notin> set ?net" "list_all (\<lambda>c. c < 128) ?net" using net unfolding list_all_iff by blast+
  then show ?thesis unfolding url_parse_def text_ split prod.case loc Let_def by (simp only: simp_thms if_False)
qed

lemma host_info_named:
  assumes "plain_host h"
  shows "host_info (named_net h port) = (h, case port of None \<Rightarrow> [] | Some p \<Rightarrow> dec_digits p)"
proof -
  let ?net = "named_net h port"
  have "c \<noteq> 64 \<and> c \<noteq> 91" if "c \<in> set ?net" for c
    using named_chars [OF assms that] by (auto dest: host_char_facts)
  then have no: "\<forall>c \<in> set ?net. c \<noteq> 64" "91 \<notin> set ?net" by blast+
  from no(1) have "takeWhile (\<lambda>c. c \<noteq> 64) (rev ?net) = rev ?net"
    by (simp only: takeWhile_eq_all_conv set_rev)
  then have "after_last 64 ?net = ?net" by (simp only: after_last_def rev_rev_ident)
  moreover note no(2)
  moreover have "list_all (\<lambda>c. c \<noteq> 58) h"
    using assms host_char_facts(8) by (auto simp: plain_host_def list_all_iff)
  moreover from this have "dropWhile (\<lambda>c. c \<noteq> 58) h = []" by (simp add: list_all_iff dropWhile_eq_Nil_conv)
  moreover from calculation(3) have "takeWhile (\<lambda>c. c \<noteq> 58) h = h" by (simp add: list_all_iff takeWhile_eq_all_conv)
  ultimately show ?thesis
    by (simp del: dropWhile_eq_Nil_conv takeWhile_eq_all_conv add: host_info_def before_char_def after_char_def takeWhile_until dropWhile_until named_net_def
        split: option.split)
qed

lemma url_fields_named:
  assumes "plain_host h" and "lower ck h = h"
  shows "url_hostname ck \<lparr>url_scheme = sc, url_netloc = named_net h port\<rparr> = Some h"
    and "(\<And>p. port = Some p \<Longrightarrow> p \<le> 65535) \<Longrightarrow>
      url_port ck \<lparr>url_scheme = sc, url_netloc = named_net h port\<rparr> = Inr port"
proof -
  have "list_all (\<lambda>c. c \<noteq> 37) h" using assms(1) host_char_facts(7) by (auto simp: plain_host_def list_all_iff)
  then have "before_char 37 h = h" "dropWhile (\<lambda>c. c \<noteq> 37) h = []"
    by (auto simp: before_char_def list_all_iff takeWhile_eq_all_conv dropWhile_eq_Nil_conv)
  then show "url_hostname ck \<lparr>url_scheme = sc, url_netloc = named_net h port\<rparr> = Some h"
    using assms by (auto simp: url_hostname_def host_info_named plain_host_def)
  show "url_port ck \<lparr>url_scheme = sc, url_netloc = named_net h port\<rparr> = Inr port"
    if "\<And>p. port = Some p \<Longrightarrow> p \<le> 65535"
    using assms that dec_digits_are
    by (auto simp: url_port_def host_info_named list_all_iff linorder_not_less split: option.split)
qed

lemma url_text_ok: "url_path []"
  by (simp add: url_path_def)

text \<open>The port \<open>serve\<close> takes for a named server.\<close>

definition named_port :: "string \<Rightarrow> nat option \<Rightarrow> nat" where
  "named_port scheme port = (case port of Some p \<Rightarrow> p | None \<Rightarrow> if scheme = ''https'' then 443 else 8888)"

lemma host_port_named:
  assumes "plain_host h" and "lower ck h = h" and "scheme = ''http'' \<or> scheme = ''https''"
    and "\<And>p. port = Some p \<Longrightarrow> p \<le> 65535"
  shows "server_host_port ck (named_url scheme h port) = Inr (h, named_port scheme port)"
  using url_parse_named [OF assms(1) url_text_ok assms(3), of ck port] url_fields_named [OF assms(1,2)] assms(3,4)
  by (auto simp: server_host_port_def named_port_def lit_def split: option.split)

text \<open>The world after the announcement, and the command that is then run.\<close>

definition announced :: "'w cli_env \<Rightarrow> pystr \<Rightarrow> pystr \<Rightarrow> int \<Rightarrow> 'w \<Rightarrow> 'w" where
  "announced env root host port w =
     echo env (lit ''Extensions: hypernote, jupyter_server_nbmodel, jupyter_server_ydoc'') True
       (echo env (lit ''Root: '' @ root) True
         (echo env (lit ''Starting Hypernote JupyterLab server at '' @ serve_url host port) True w))"

definition serve_arguments :: "'w machine \<Rightarrow> config \<Rightarrow> pystr \<Rightarrow> pystr \<Rightarrow> int \<Rightarrow> bool \<Rightarrow> pystr list" where
  "serve_arguments mc cfg root host port browser =
     serve_command mc root host port (case cfg_token cfg of None \<Rightarrow> [] | Some t \<Rightarrow> t) (\<not> browser)"

lemma serve_cmd_runs:
  assumes "require_jupyterlab mc = Inr ()" and "dir_exists mc (resolved_dir mc root) w"
    and "server_host_port (checks mc) (cfg_server cfg) = Inr (h, p)"
  shows "setup_serve_cmd env mc cfg root None None browser w =
    (case run_process mc (serve_arguments mc cfg (resolved_dir mc root) h (int p) browser) (resolved_dir mc root)
            (announced env (resolved_dir mc root) h (int p) w) of
       (code, w2) \<Rightarrow>
         (if code \<noteq> 0 then Inl (cli_error (shows_char env) (httpx_error env) (system_exit code)) else Inr (), w2))"
  using assms
  by (simp add: setup_serve_cmd_def cli_command_def catching_def of_result_def mbind_def say_def serve_address_def
      py_or_def Let_def announced_def serve_arguments_def split: prod.split)

text \<open>
  C34: the server that \<open>setup serve\<close> starts is the one the client is configured for.  When the client names
  its server by \<open>http\<close> or \<open>https\<close>, a plain host and a port or none, JupyterLab is started on exactly that
  host, and on that port or else on 443 or 8888; \<open>doctor\<close> takes a server running there, under any path,
  for the one the client names; the announced address is read back as the same host and port; and it is
  the address the client already has when that is an \<open>http\<close> address with a port.
\<close>

theorem served_address_is_recognised:
  assumes "plain_host h" and "lower (checks mc) h = h" and "scheme = ''http'' \<or> scheme = ''https''"
    and "\<And>q. port = Some q \<Longrightarrow> 0 < q \<and> q \<le> 65535"
    and "cfg_server cfg = named_url scheme h port"
    and "p = (case port of Some q \<Rightarrow> q | None \<Rightarrow> if scheme = ''https'' then 443 else 8888)"
    and "require_jupyterlab mc = Inr ()" and "dir_exists mc (resolved_dir mc root) w"
    and "field ''url'' running = Some (JStr (serve_url h (int p) @ path))" and "url_path path"
  shows "setup_serve_cmd env mc cfg root None None browser w =
      (case run_process mc (serve_arguments mc cfg (resolved_dir mc root) h (int p) browser) (resolved_dir mc root)
              (announced env (resolved_dir mc root) h (int p) w) of
         (code, w2) \<Rightarrow>
           (if code \<noteq> 0 then Inl (cli_error (shows_char env) (httpx_error env) (system_exit code)) else Inr (), w2))
    \<and> {lit ''--ServerApp.ip='' @ h, lit ''--ServerApp.port='' @ dec_digits p}
        \<subseteq> set (serve_arguments mc cfg (resolved_dir mc root) h (int p) browser)
    \<and> server_matches_url (checks mc) pr (cfg_server cfg) running = Inr True
    \<and> server_host_port (checks mc) (serve_url h (int p)) = Inr (h, p)
    \<and> (scheme = ''http'' \<and> port = Some p \<longrightarrow> serve_url h (int p) = cfg_server cfg)"
proof (intro conjI impI)
  have range: "\<And>q. port = Some q \<Longrightarrow> q \<le> 65535" using assms(4) by blast
  have p: "p = named_port scheme port" "0 < p" "p \<le> 65535"
    using assms(3,4,6) by (auto simp: named_port_def split: option.splits)
  have "server_host_port (checks mc) (cfg_server cfg) = Inr (h, p)"
    using host_port_named [OF assms(1-3) range] by (simp add: assms(5) p(1))
  then show "setup_serve_cmd env mc cfg root None None browser w =
      (case run_process mc (serve_arguments mc cfg (resolved_dir mc root) h (int p) browser) (resolved_dir mc root)
              (announced env (resolved_dir mc root) h (int p) w) of
         (code, w2) \<Rightarrow>
           (if code \<noteq> 0 then Inl (cli_error (shows_char env) (httpx_error env) (system_exit code)) else Inr (), w2))"
    by (rule serve_cmd_runs [OF assms(7,8)])
  show "{lit ''--ServerApp.ip='' @ h, lit ''--ServerApp.port='' @ dec_digits p}
      \<subseteq> set (serve_arguments mc cfg (resolved_dir mc root) h (int p) browser)"
    by (simp add: serve_arguments_def serve_command_def int_str_def)
  have named: "url_parse (checks mc) (cfg_server cfg) = Inr \<lparr>url_scheme = lit scheme, url_netloc = named_net h port\<rparr>"
    using url_parse_named [OF assms(1) url_text_ok assms(3)] by (simp add: assms(5))
  have found: "url_parse (checks mc) (serve_url h (int p) @ path) =
      Inr \<lparr>url_scheme = lit ''http'', url_netloc = named_net h (Some p)\<rparr>"
    unfolding served_named by (rule url_parse_named [OF assms(1,10)]) simp
  have ports: "url_port (checks mc) \<lparr>url_scheme = lit scheme, url_netloc = named_net h port\<rparr> = Inr port"
    "url_port (checks mc) \<lparr>url_scheme = lit ''http'', url_netloc = named_net h (Some p)\<rparr> = Inr (Some p)"
    using url_fields_named(2) [OF assms(1,2)] range p(3) by blast+
  have "port_or_default (lit scheme) port = p"
    using p assms(3) by (auto simp: port_or_default_def named_port_def lit_def split: option.split)
  then show "server_matches_url (checks mc) pr (cfg_server cfg) running = Inr True"
    using p(2) assms(9)
    by (simp add: server_matches_url_def named found ports url_fields_named(1) [OF assms(1,2)] get_or_def py_str_def
        hosts_match_def)
  show "server_host_port (checks mc) (serve_url h (int p)) = Inr (h, p)"
    using host_port_named [OF assms(1,2), of "''http''" "Some p"] p(3) by (simp add: served_named named_port_def)
  show "serve_url h (int p) = cfg_server cfg" if "scheme = ''http'' \<and> port = Some p"
    using that by (simp add: assms(5) served_named)
qed

definition demo_machine :: "nat machine" where
  "demo_machine =
     \<lparr>has_module = (\<lambda>m. True), python_executable = [], resolved_dir = (\<lambda>d. d), dir_exists = (\<lambda>d w. True),
      run_process = (\<lambda>c d w. (0, w)), list_servers = mret [], resolve_parts = (\<lambda>d w. Some []),
      absolute_parts = (\<lambda>d w. []), work_dir = [],
      checks = \<lparr>bracketed_host_ok = (\<lambda>h. True), netloc_ok = (\<lambda>n. True), lower = (\<lambda>s. s)\<rparr>\<rparr>"

lemma served_address_is_recognised_witness:
  "setup_serve_cmd markdown_env demo_machine (demo_config\<lparr>cfg_server := lit ''http://localhost:8889''\<rparr>) [] None None True 0
     = (Inr (), 3)"
proof -
  let ?h = "lit ''localhost''" and ?cfg = "demo_config\<lparr>cfg_server := lit ''http://localhost:8889''\<rparr>"
  have h: "plain_host ?h" by (simp add: plain_host_def host_char_def is_digit_def lit_def)
  have "dec_digits 8889 = lit ''8889''" by (simp add: dec_digits.simps lit_def)
  then have url: "cfg_server ?cfg = named_url ''http'' ?h (Some 8889)"
    by (simp add: named_url_def named_net_def lit_def)
  have jl: "require_jupyterlab demo_machine = Inr ()" by (simp add: require_jupyterlab_def demo_machine_def required_stack_def)
  have low: "lower (checks demo_machine) ?h = ?h" by (simp add: demo_machine_def)
  have dir: "dir_exists demo_machine (resolved_dir demo_machine []) 0" by (simp add: demo_machine_def)
  have run: "field ''url'' [(lit ''url'', JStr (serve_url ?h (int 8889) @ lit ''/''))] = Some (JStr (serve_url ?h (int 8889) @ lit ''/''))"
    by simp
  have path: "url_path (lit ''/'')" by (simp add: url_path_def lit_def)
  have "0 < q \<and> q \<le> 65535" if "Some 8889 = Some q" for q :: nat using that by simp
  from served_address_is_recognised [OF h low _ this url _ jl dir run path, of markdown_env True "\<lambda>c. True"]
  show ?thesis by (simp add: demo_machine_def announced_def markdown_env_def demo_config_def)
qed

text \<open>
  An IPv6 host loses its brackets in the announced address, so the client that is given this address
  refuses it: what follows the first colon is taken for the port.
\<close>

lemma served_ipv6_address_is_unreadable:
  assumes "bracketed_host_ok ck (lit ''::1'')"
  shows "server_host_port ck (lit ''http://[::1]:8888'') = Inr (lower ck (lit ''::1''), 8888)"
    and "server_host_port ck (serve_url (lit ''::1'') 8888) = Inl (ValueError (lit ''Port could not be cast to integer value''))"
proof -
  have digits: "dec_digits 8888 = lit ''8888''" by (simp add: dec_digits.simps lit_def)
  note eval = server_host_port_def url_parse_def url_text_def split_scheme_def netloc_of_def before_char_def after_char_def
    after_last_def host_info_def url_hostname_def url_port_def scheme_char_def ascii_alpha_def ascii_lower_def is_digit_def
    dec_value.simps lit_def
  show "server_host_port ck (lit ''http://[::1]:8888'') = Inr (lower ck (lit ''::1''), 8888)"
    using assms by (simp add: eval)
  show "server_host_port ck (serve_url (lit ''::1'') 8888) = Inl (ValueError (lit ''Port could not be cast to integer value''))"
    by (simp add: serve_url_def int_str_def digits) (simp add: eval)
qed

section \<open>What \<open>doctor\<close> reports about the server\<close>

text \<open>Steps that leave the verdict on the server alone.\<close>

definition keeps_verdict :: "('w doctor \<Rightarrow> ('a, 'w doctor) outcome) \<Rightarrow> bool" where
  "keeps_verdict m \<longleftrightarrow> (\<forall>st. field ''hypernote_api'' (fst (snd (m st))) = field ''hypernote_api'' (fst st))"

named_theorems verdict_intros

lemma keeps_pure [verdict_intros]: "keeps_verdict (mret x)" "keeps_verdict (mraise e)" "keeps_verdict (of_result r)"
  by (simp_all add: keeps_verdict_def mret_def mraise_def of_result_def)

lemma keeps_ask [verdict_intros]: "keeps_verdict (ask m)"
  by (simp add: keeps_verdict_def ask_def split: prod.split)

lemma keeps_put [verdict_intros]: "k \<noteq> ''hypernote_api'' \<Longrightarrow> keeps_verdict (put k v)"
  by (simp add: keeps_verdict_def put_def split: prod.split)

lemma keeps_append_warning [verdict_intros]: "keeps_verdict (append_warning t)"
  by (auto simp: keeps_verdict_def append_warning_def split: prod.split option.split json.split)

lemma keeps_mbind [verdict_intros]: "keeps_verdict m \<Longrightarrow> (\<And>x. keeps_verdict (f x)) \<Longrightarrow> keeps_verdict (mbind m f)"
  unfolding keeps_verdict_def
proof
  fix st assume m: "\<forall>st. field ''hypernote_api'' (fst (snd (m st))) = field ''hypernote_api'' (fst st)"
    and f: "\<And>x. \<forall>st. field ''hypernote_api'' (fst (snd (f x st))) = field ''hypernote_api'' (fst st)"
  show "field ''hypernote_api'' (fst (snd (mbind m f st))) = field ''hypernote_api'' (fst st)"
    using m [rule_format, of st] f by (cases "m st"; cases "fst (m st)") (simp_all add: mbind_def)
qed

lemma keeps_try_else [verdict_intros]:
  "keeps_verdict m \<Longrightarrow> (\<And>e. keeps_verdict (h e)) \<Longrightarrow> (\<And>x. keeps_verdict (f x)) \<Longrightarrow> keeps_verdict (try_else m h f)"
  unfolding keeps_verdict_def
proof
  fix st assume m: "\<forall>st. field ''hypernote_api'' (fst (snd (m st))) = field ''hypernote_api'' (fst st)"
    and h: "\<And>e. \<forall>st. field ''hypernote_api'' (fst (snd (h e st))) = field ''hypernote_api'' (fst st)"
    and f: "\<And>x. \<forall>st. field ''hypernote_api'' (fst (snd (f x st))) = field ''hypernote_api'' (fst st)"
  show "field ''hypernote_api'' (fst (snd (try_else m h f st))) = field ''hypernote_api'' (fst st)"
    using m [rule_format, of st] h f by (cases "m st"; cases "fst (m st)") (simp_all add: try_else_def)
qed

lemma keeps_when_ok [verdict_intros]: "keeps_verdict m \<Longrightarrow> keeps_verdict (when_ok m)"
  by (auto simp: keeps_verdict_def when_ok_def mret_def)

lemma keeps_if [verdict_intros]: "keeps_verdict m \<Longrightarrow> keeps_verdict m' \<Longrightarrow> keeps_verdict (if b then m else m')"
  by simp

lemma keeps_launcher [verdict_intros]: "k \<noteq> ''hypernote_api'' \<Longrightarrow> keeps_verdict (note_launcher env k spec)"
  unfolding note_launcher_def by (intro verdict_intros) (auto intro: verdict_intros split: option.split)

lemma keeps_duplicates [verdict_intros]: "keeps_verdict (check_duplicates env mc cfg)"
  unfolding check_duplicates_def by (intro verdict_intros) simp_all

lemma keeps_lab [verdict_intros]: "keeps_verdict (check_lab env cfg)"
  unfolding check_lab_def by (intro verdict_intros) simp_all

lemma keeps_default_kernel [verdict_intros]: "keeps_verdict (check_default_kernel env cfg)"
  unfolding check_default_kernel_def by (intro verdict_intros) simp_all

lemma keeps_notebook [verdict_intros]: "keeps_verdict (check_notebook env cfg path)"
  unfolding check_notebook_def inspect_notebook_def check_kernelspec_def by (intro verdict_intros) simp_all

definition inspections :: "'w cli_env \<Rightarrow> 'w machine \<Rightarrow> config \<Rightarrow> pystr option \<Rightarrow> 'w doctor \<Rightarrow> (unit, 'w doctor) outcome" where
  "inspections env mc cfg path =
     mbind (check_duplicates env mc cfg) (\<lambda>_.
     mbind (when_ok (mbind (check_lab env cfg) (\<lambda>_. check_default_kernel env cfg))) (\<lambda>_.
       case chosen path of None \<Rightarrow> mret () | Some p \<Rightarrow> when_ok (check_notebook env cfg p)))"

lemma keeps_inspections: "keeps_verdict (inspections env mc cfg path)"
proof -
  have "keeps_verdict (case chosen path of None \<Rightarrow> mret () | Some p \<Rightarrow> when_ok (check_notebook env cfg p))"
    by (cases "chosen path") (auto intro: verdict_intros)
  then show ?thesis unfolding inspections_def by (intro verdict_intros)
qed

lemma doctor_phases:
  "doctor env mc cfg path =
     mbind (check_diagnostics env cfg) (\<lambda>_. mbind (check_jobs env cfg) (\<lambda>_. inspections env mc cfg path))"
  by (simp add: doctor_def inspections_def)

lemma put_world: "snd (snd (put k v st)) = snd st" "fst (put k v st) = Inr ()"
  by (simp_all add: put_def split: prod.split)

lemma append_warning_world: "snd (snd (append_warning t st)) = snd st"
  by (simp add: append_warning_def split: prod.split)

lemma duplicates_world:
  "snd (snd (check_duplicates env mc cfg st)) = snd (list_servers mc (snd st))"
proof -
  let ?dups = "duplicate_servers mc (shows_char env) (cfg_server cfg) (snd st)"
  have asked: "ask (duplicate_servers mc (shows_char env) (cfg_server cfg)) st = (fst ?dups, fst st, snd ?dups)"
    by (simp add: ask_def split: prod.split)
  have world: "snd ?dups = snd (list_servers mc (snd st))" by (simp add: duplicate_servers_def split: prod.split)
  have put: "snd (snd (mbind (put k v) (\<lambda>_. append_warning t) st')) = snd st'" for k v t and st' :: "'a doctor"
    using put_world [of k v st'] by (cases "put k v st'") (simp add: mbind_def append_warning_world)
  show ?thesis
    unfolding check_duplicates_def mbind_def [of "ask _"] asked
    by (cases "fst ?dups") (simp_all add: world mret_def put)
qed

lemma unreachable_inspections:
  assumes "\<not> api_ok st"
  shows "snd (snd (inspections env mc cfg path st)) = snd (list_servers mc (snd st))"
proof -
  obtain r st1 where run: "check_duplicates env mc cfg st = (r, st1)" by (rule prod.exhaust)
  then have "snd st1 = snd (list_servers mc (snd st))" using duplicates_world [of env mc cfg st] by simp
  moreover have "\<not> api_ok st1"
    using keeps_duplicates [of env mc cfg, unfolded keeps_verdict_def, rule_format, of st] run assms
    by (simp add: api_ok_def)
  ultimately show ?thesis
    using run by (cases r) (auto simp: inspections_def mbind_def when_ok_def mret_def split: option.split)
qed

text \<open>
  The \<open>doctor\<close> tells whether the server answers.  Whatever the diagnostics hold and whatever fails
  later, the report says \<open>ok\<close> exactly when the diagnostics or the list of jobs could be read, and
  \<open>unreachable\<close> otherwise; and then no further request is sent.
\<close>

theorem doctor_tells_whether_the_server_answers:
  assumes "control_diagnostics (sdk env) cfg w = (r1, w1)" and "control_list_jobs (sdk env) cfg None None w1 = (r2, w2)"
    and "doctor env mc cfg path ([(lit ''server'', JStr (cfg_server cfg)),
           (lit ''hypernote_api'', JStr (lit ''unreachable''))], w) = (r, report, w')"
  shows "field ''hypernote_api'' report = Some (JStr (if isl r1 \<and> isl r2 then lit ''unreachable'' else lit ''ok''))
    \<and> (isl r1 \<and> isl r2 \<longrightarrow> w' = snd (list_servers mc w2))"
proof -
  let ?start = "([(lit ''server'', JStr (cfg_server cfg)), (lit ''hypernote_api'', JStr (lit ''unreachable''))], w)"
  have one: "\<exists>d1. check_diagnostics env cfg ?start = (Inr (), d1, w1)
      \<and> field ''hypernote_api'' d1 = Some (JStr (if isl r1 then lit ''unreachable'' else lit ''ok''))"
    using assms(1) by (cases r1) (simp_all add: check_diagnostics_def try_else_def ask_def put_def update_report_def mbind_def)
  then obtain d1 where d1: "check_diagnostics env cfg ?start = (Inr (), d1, w1)"
    "field ''hypernote_api'' d1 = Some (JStr (if isl r1 then lit ''unreachable'' else lit ''ok''))" by blast
  have "\<exists>d2. check_jobs env cfg (d1, w1) = (Inr (), d2, w2)
      \<and> field ''hypernote_api'' d2 = Some (JStr (if isl r1 \<and> isl r2 then lit ''unreachable'' else lit ''ok''))"
    using assms(2) d1(2) by (cases r2) (auto simp: check_jobs_def try_else_def ask_def put_def mbind_def api_ok_def)
  then obtain d2 where d2: "check_jobs env cfg (d1, w1) = (Inr (), d2, w2)"
    "field ''hypernote_api'' d2 = Some (JStr (if isl r1 \<and> isl r2 then lit ''unreachable'' else lit ''ok''))" by blast
  have rest: "inspections env mc cfg path (d2, w2) = (r, report, w')"
    using assms(3) d1(1) d2(1) by (simp add: doctor_phases mbind_def)
  have "field ''hypernote_api'' report = field ''hypernote_api'' d2"
    using keeps_inspections [of env mc cfg path, unfolded keeps_verdict_def, rule_format, of "(d2, w2)"] rest by simp
  moreover have "w' = snd (list_servers mc w2)" if "isl r1 \<and> isl r2"
    using unreachable_inspections [of "(d2, w2)" env mc cfg path] rest d2(2) that by (simp add: api_ok_def)
  ultimately show ?thesis using d2(2) by simp
qed

lemma doctor_tells_whether_the_server_answers_witness:
  "field ''hypernote_api'' (fst (snd (doctor (markdown_env\<lparr>sdk := failing_env\<rparr>) demo_machine demo_config None
     ([(lit ''server'', JStr (cfg_server demo_config)), (lit ''hypernote_api'', JStr (lit ''unreachable''))], 0))))
   = Some (JStr (lit ''unreachable''))"
proof -
  let ?env = "markdown_env\<lparr>sdk := failing_env\<rparr>"
  obtain r1 w1 r2 w2 r report w' where run: "control_diagnostics (sdk ?env) demo_config 0 = (r1, w1)"
    "control_list_jobs (sdk ?env) demo_config None None w1 = (r2, w2)"
    "doctor ?env demo_machine demo_config None ([(lit ''server'', JStr (cfg_server demo_config)),
       (lit ''hypernote_api'', JStr (lit ''unreachable''))], 0) = (r, report, w')"
    by (metis surj_pair)
  then have "isl r1 \<and> isl r2"
    by (auto simp: control_diagnostics_def control_list_jobs_def get_checked_def send_request_def failing_env_def
        mbind_def given_def mraise_def of_result_def checked_json_def raise_response_def is_success_def Let_def)
  with doctor_tells_whether_the_server_answers [OF run] run(3) show ?thesis by simp
qed

end
