(* ===== verification/Hn_Unused.thy ===== *)
theory Hn_Unused
  imports Hn_CliCommands
begin

text \<open>
  Functions of the program that nothing calls: the orchestrator's own \<open>create_notebook\<close> and
  \<open>open_notebook\<close>, the SDK's copies of the accessor's position helpers, and an earlier start page and
  status view of the command line.  The lemmas relate each copy to the function in use.
\<close>

section \<open>Orchestrator\<close>

definition orchestrator_create_notebook :: "'w notebook_env \<Rightarrow> pystr \<Rightarrow> 'w notebooks \<Rightarrow> (pystr, 'w notebooks) outcome" where
  "orchestrator_create_notebook env path =
     (let dir = posix_parent path
      in mbind (on_world (contents_new_untitled env (if dir = lit ''.'' then [] else dir))) (\<lambda>created.
         if created \<noteq> path then on_world (contents_rename env created path) else mret created))"

definition orchestrator_open_notebook :: "'w notebook_env \<Rightarrow> pystr \<Rightarrow> 'w notebooks \<Rightarrow> (json, 'w notebooks) outcome" where
  "orchestrator_open_notebook env path =
     mbind (on_world (contents_get env path)) (\<lambda>model.
     of_result (case model of JDict d \<Rightarrow> (case field ''path'' d of None \<Rightarrow> Inl (key_error (lit ''path'')) | Some p \<Rightarrow> Inr p)
                | _ \<Rightarrow> Inl type_error))"

text \<open>The accessor's \<open>create_notebook\<close> begins with exactly these requests, and then saves and opens the document.\<close>

lemma create_notebook_begins:
  "create_notebook env nb model =
     mbind (orchestrator_create_notebook env nb) (\<lambda>_.
     mbind (on_world (contents_save env model nb)) (\<lambda>_.
     mbind (get_document_room env nb) (\<lambda>rid.
     mbind (initialize_room env rid) (\<lambda>_.
     mbind (save_room env rid) (\<lambda>_.
     get_notebook_model env nb True)))))"
  by (rule ext) (simp add: create_notebook_def orchestrator_create_notebook_def mbind_def Let_def split: prod.split sum.split)

section \<open>The SDK's position helpers\<close>

fun sdk_find_cell_index :: "jobj list \<Rightarrow> pystr \<Rightarrow> pyexc + nat" where
  "sdk_find_cell_index [] cid = Inl (sdk_cell_not_found (JStr cid))"
| "sdk_find_cell_index (c # cs) cid =
     (if opt_json (field ''id'' c) = JStr cid then Inr 0
      else case sdk_find_cell_index cs cid of Inl e \<Rightarrow> Inl e | Inr i \<Rightarrow> Inr (Suc i))"

definition sdk_resolve_insert_index :: "jobj list \<Rightarrow> pystr option \<Rightarrow> pystr option \<Rightarrow> pyexc + nat" where
  "sdk_resolve_insert_index cells before after =
     (case before of
        Some b \<Rightarrow> sdk_find_cell_index cells b
      | None \<Rightarrow>
          (case after of
             None \<Rightarrow> Inr (length cells)
           | Some a \<Rightarrow> (case sdk_find_cell_index cells a of Inl e \<Rightarrow> Inl e | Inr i \<Rightarrow> Inr (i + 1))))"

text \<open>In place: the cells before the one that raises keep their new keys.\<close>

fun sdk_position_keys_from :: "nat \<Rightarrow> jobj list \<Rightarrow> (unit, jobj list) outcome" where
  "sdk_position_keys_from i [] = (Inr (), [])"
| "sdk_position_keys_from i (c # cs) =
     (case key_cell i c of
        Inl e \<Rightarrow> (Inl e, c # cs)
      | Inr c' \<Rightarrow> (case sdk_position_keys_from (Suc i) cs of (r, cs') \<Rightarrow> (r, c' # cs')))"

definition sdk_assign_position_keys :: "jobj list \<Rightarrow> (unit, jobj list) outcome" where
  "sdk_assign_position_keys cells = sdk_position_keys_from 0 cells"

text \<open>They find what the accessor's find, and fail when it fails, with an exception of their own.\<close>

definition found :: "pyexc + 'a \<Rightarrow> 'a option" where
  "found r = (case r of Inl e \<Rightarrow> None | Inr x \<Rightarrow> Some x)"

lemma found_simps [simp]: "found (Inl e) = None" "found (Inr x) = Some x"
  by (simp_all add: found_def)

lemma found_map: "found (case r of Inl e \<Rightarrow> Inl e | Inr x \<Rightarrow> Inr (f x)) = map_option f (found r)"
  by (cases r) simp_all

lemma sdk_find_same: "found (sdk_find_cell_index cells cid) = found (find_cell_index cells cid)"
  by (induction cells) (simp_all add: found_map)

lemma sdk_resolve_same:
  "found (sdk_resolve_insert_index cells before after) = found (resolve_insert_index cells before after)"
  by (simp add: sdk_resolve_insert_index_def resolve_insert_index_def found_map sdk_find_same split: option.split)

lemma sdk_position_keys_same:
  "(case sdk_position_keys_from i cells of (Inl e, _) \<Rightarrow> Inl e | (Inr _, cs) \<Rightarrow> Inr cs) = assign_position_keys_from i cells"
proof (induction cells arbitrary: i)
  case (Cons c cells)
  show ?case by (simp add: Cons [of "Suc i", symmetric] split: sum.split prod.split)
qed simp

section \<open>The command line's earlier views\<close>

definition human_status :: "(nat \<Rightarrow> bool) \<Rightarrow> bool \<Rightarrow> notebook_status \<Rightarrow> pystr" where
  "human_status pr full st =
     py_join [10]
       (py_str pr (get_or ''headline'' (JStr (ns_summary st)) (status_summary st None))
        # (if full
           then concat (map (\<lambda>c.
                  (lit ''- '' @ py_str pr (cs_id c) @ lit '' ('' @ cell_type_value (cs_type c) @ lit '') exec=''
                   @ py_str pr (cs_execution_count c)
                   @ (if cs_change_kinds c = [] then [] else lit '' ['' @ kinds_text (cs_change_kinds c) @ lit '']''))
                  # (case cs_source c of None \<Rightarrow> [] | Some s \<Rightarrow> if s = [] then [] else [lit ''  '' @ s]))
                (ns_cells st))
           else []))"

definition hinted_result :: "jobj \<Rightarrow> pystr option list \<Rightarrow> jobj" where
  "hinted_result data hints =
     (let kept = List.map_filter (\<lambda>h. case h of None \<Rightarrow> None | Some s \<Rightarrow> if s = [] then None else Some s) hints
      in if kept = [] then data else set_field ''hints'' (JList (map JStr kept)) data)"

text \<open>The notebooks of the working directory and of its \<^verbatim>\<open>tmp\<close>, as paths relative to it.\<close>

record 'w old_workspace =
  glob_here :: "'w \<Rightarrow> pystr list"
  glob_tmp :: "'w \<Rightarrow> pystr list option"
  here :: pystr
  program_path :: pystr

definition home_notebooks :: "'w old_workspace \<Rightarrow> 'w \<Rightarrow> pystr list" where
  "home_notebooks ws w =
     sort (remdups (glob_here ws w @ (case glob_tmp ws w of None \<Rightarrow> [] | Some ps \<Rightarrow> ps)))"

definition old_home_hints :: "pystr option \<Rightarrow> pystr option list" where
  "old_home_hints first =
     [Some (case py_or first None of
              Some p \<Rightarrow> lit ''Run `hypernote status '' @ p @ lit ''` to inspect notebook state''
            | None \<Rightarrow> lit ''Run `hypernote create tmp/demo.ipynb --empty` to start a new notebook''),
      Some (case py_or first None of
              Some p \<Rightarrow> lit ''Run `hypernote ix '' @ p @ lit '' -s '' @ [39] @ lit ''print(42)'' @ [39]
                @ lit ''` to insert and run a code cell''
            | None \<Rightarrow> lit ''Run `hypernote ix tmp/demo.ipynb -s '' @ [39] @ lit ''print(42)'' @ [39]
                @ lit ''` after creating a notebook''),
      Some (lit ''Run `hypernote setup doctor` to verify server and kernelspec health'')]"

definition build_home_payload :: "'w cli_env \<Rightarrow> 'w old_workspace \<Rightarrow> config \<Rightarrow> 'w \<Rightarrow> jobj \<times> 'w" where
  "build_home_payload env ws cfg w =
     (case control_list_jobs (sdk env) cfg None None w of
        (listing, w1) \<Rightarrow>
          (let answered = (case listing of Inl _ \<Rightarrow> False | Inr _ \<Rightarrow> True);
               jobs = bind_result listing (\<lambda>payload. bind_result (py_get ''jobs'' (JList []) payload) py_list);
               notebooks = home_notebooks ws w1;
               shown_paths = take home_notebook_limit notebooks
           in (hinted_result
                 ([(lit ''command'', JStr (lit ''home'')), (lit ''bin'', JStr (path_name (program_path ws))),
                   (lit ''server'', JStr (cfg_server cfg)), (lit ''cwd'', JStr (here ws)),
                   (lit ''server_reachable'', JBool answered),
                   (lit ''jobs_count'', JInt (case jobs of Inl _ \<Rightarrow> 0 | Inr js \<Rightarrow> int (length js))),
                   (lit ''notebooks_count'', JInt (int (length notebooks))),
                   (lit ''notebooks'', JList (map JStr shown_paths))]
                  @ (case jobs of Inl e \<Rightarrow> [(lit ''server_error'', JStr (error_message (shows_char env) e))] | Inr _ \<Rightarrow> []))
                 (old_home_hints (case shown_paths of [] \<Rightarrow> None | p # _ \<Rightarrow> Some p)), w1)))"

lemma home_notebooks_sorted: "sorted (home_notebooks ws w)" "distinct (home_notebooks ws w)"
  by (simp_all add: home_notebooks_def)

text \<open>The page is made whatever the server answers, and its only request is the one for the jobs.\<close>

lemma old_home_requests: "snd (build_home_payload env ws cfg w) = snd (control_list_jobs (sdk env) cfg None None w)"
  by (simp add: build_home_payload_def Let_def split: prod.split)

end
