(* ===== verification/Spec2Isabelle.thy ===== *)
theory Spec2Isabelle
  imports Hn_EndToEnd Hn_Schema Hn_Rooms Hn_GcLoop Hn_CliOptions Hn_CliSetup Hn_Unused
begin

text \<open>
  Hypernote (\<^verbatim>\<open>src/src/hypernote\<close>): a Jupyter server extension that runs notebook cells for humans and
  agents over shared notebooks, the Python SDK that talks to it, and the command line on top of the SDK.

  \<^bold>\<open>The program.\<close>  The server keeps three kinds of state: the job ledger (\<^verbatim>\<open>actor_ledger.py\<close>: jobs and
  the attribution of cells to actors, in memory), the runtime manager (\<^verbatim>\<open>runtime_manager.py\<close>: one room
  per notebook, with its session, kernel, clients and jobs) and the shared notebooks, which belong to
  Jupyter's document rooms and are reached through an accessor.  The orchestrator
  (\<^verbatim>\<open>execution_orchestrator.py\<close>) ties them together: a request to execute queues a job and spawns a
  task, which takes its room's lock, asks Jupyter's execution stack to run each cell and records
  what happens; interrupting and answering \<^verbatim>\<open>input()\<close> go around the lock.  Kernels are driven through
  subshells (\<^verbatim>\<open>server/subshell.py\<close>).  The REST handlers (\<^verbatim>\<open>server/handlers.py\<close>) and the extension
  (\<^verbatim>\<open>server/extension.py\<close>: routes, initialisation, overrides of Jupyter's kernel routes) are the
  server's surface.  The SDK (\<^verbatim>\<open>sdk.py\<close>) keeps no state but its configuration: handles are identifiers,
  and snapshots are tokens that hold the fingerprint of a notebook.  The command line
  (\<^verbatim>\<open>cli/main.py\<close>) renders what the SDK returns, watches jobs and starts and diagnoses servers.

  \<^bold>\<open>Which theory models what.\<close>

  \<^item> \<^verbatim>\<open>Hn_Prelude\<close>: strings as lists of code points, dictionaries as association lists in insertion
    order, exceptions as values (\<open>pyexc\<close>), operations that may raise as functions to
    \<open>(pyexc + 'a) \<times> 's\<close> with \<open>mbind\<close>, \<open>catching\<close> and \<open>of_result\<close>, and the locale of invariants under runs.
  \<^item> \<^verbatim>\<open>Hn_Ledger\<close>: \<open>MemoryLedger\<close>, one definition per method.  Its lemmas: the index invariant, the
    refinement to bounded histories per notebook, the locale of the ledger laws the server relies
    on, interpreted on the model (\<open>memory_ledger\<close>).
  \<^item> \<^verbatim>\<open>Hn_Runtime\<close>: \<open>RuntimeManager\<close>; rooms are objects of a heap, the session and kernel managers a
    record of parameters.  Its lemmas: the room invariant under every operation that runs undisturbed,
    cleanup, the sweep, two opens that interleave at an await.  \<^verbatim>\<open>Hn_Rooms\<close>: the operations cut at their
    awaits, in any order and with \<open>set_runtime_state\<close> on any room; which events can leave a notebook with
    two live rooms, and that no other does.  \<^verbatim>\<open>Hn_GcLoop\<close>: the collection task as a state machine that
    stops at each await, what it collects when undisturbed, and what other operations do in between.
  \<^item> \<^verbatim>\<open>Hn_Json\<close>: JSON values with Python's truthiness, \<open>str\<close>, \<open>repr\<close>, \<open>json.dumps\<close> and sorting.
  \<^item> \<^verbatim>\<open>Hn_Notebook\<close>: \<open>SharedNotebookAccessor\<close>, over documents as lists of cells.  Its lemmas: exact
    effects of inserting, moving and deleting, and the order of the position keys.
  \<^item> \<^verbatim>\<open>Hn_Subshell\<close>: \<^verbatim>\<open>server/subshell.py\<close>, with clients as records of the attributes that are patched.
  \<^item> \<^verbatim>\<open>Hn_Orchestrator\<close>, \<^verbatim>\<open>Hn_Server\<close>: \<open>ExecutionOrchestrator\<close>; a task of \<open>_run_job\<close> is a program counter
    that moves from await to await (\<open>task_step\<close>); \<open>queue_execution\<close>, \<open>send_stdin\<close> and \<open>interrupt\<close> are
    calls in flight (\<open>call\<close>) that stop at each of their awaits (\<open>call_step\<close>).  \<open>system_step\<close> is the
    relation of all tasks, calls and other requests (\<open>server_step\<close>), \<open>system_run\<close> its closure.  Their
    lemmas: the invariant \<open>server_ok\<close> of tasks, locks and jobs by rule induction, mutual exclusion per
    room, when finished jobs are final and how a late reply breaks that, progress.
  \<^item> \<^verbatim>\<open>Hn_Handlers\<close>, \<^verbatim>\<open>Hn_Api\<close>, \<^verbatim>\<open>Hn_Schema\<close>: the handlers from decoded arguments to responses, the request
    type and \<open>serve\<close>, requests as runs of the system, attribution of edits, types of the answers.
  \<^item> \<^verbatim>\<open>Hn_Extension\<close>: the route table with the matching of its patterns, the overrides of Jupyter's
    routes, the single initialisation and its waiters.
  \<^item> \<^verbatim>\<open>Hn_Text\<close>, \<^verbatim>\<open>Hn_Cells\<close>: the SDK's previews and summaries, the views of cells and outputs.
  \<^item> \<^verbatim>\<open>Hn_Codec\<close>, \<^verbatim>\<open>Hn_Loads\<close>: UTF-8, base64 and \<open>json.loads\<close>, each with its round trip; what \<open>json.dumps\<close>
    writes of a value without floats reads back as that value.
  \<^item> \<^verbatim>\<open>Hn_Snapshot\<close>: fingerprints, snapshot tokens, status and diffs.
  \<^item> \<^verbatim>\<open>Hn_Url\<close>, \<^verbatim>\<open>Hn_Client\<close>: percent encoding, and every operation of the SDK as the requests it sends and
    what it makes of the answers; the transport is a parameter.
  \<^item> \<^verbatim>\<open>Hn_Web\<close>: headers, bodies, arguments and responses of the handlers, and the SDK with this server as
    its transport: \<open>web_serve\<close> composes routing, decoding and handlers, and the operations of the SDK
    that run or change cells are shown to be the server's.  \<^verbatim>\<open>Hn_EndToEnd\<close>: what the SDK reads after
    it wrote, through that server and the shared document.
  \<^item> \<^verbatim>\<open>Hn_CliText\<close>, \<^verbatim>\<open>Hn_CliRun\<close>, \<^verbatim>\<open>Hn_CliCommands\<close>, \<^verbatim>\<open>Hn_CliSetup\<close>: the command line's output and payloads,
    the commands that run cells (with the watcher of a job), the other commands, and
    \<open>setup serve\<close> and \<open>setup doctor\<close>.  \<^verbatim>\<open>Hn_Shell\<close>: the suggested commands read back by a shell.
    \<^verbatim>\<open>Hn_CliOptions\<close>: the arguments and options every command declares, a conservative reading of
    command lines, and the suggested commands held against the declarations.
  \<^item> \<^verbatim>\<open>Hn_Unused\<close>: the functions nothing calls (an earlier start page and status view, the SDK's copies of
    the accessor's position helpers, \<open>create_notebook\<close> and \<open>open_notebook\<close> of the orchestrator), related
    to those in use.

  \<^bold>\<open>Bounds and fuel.\<close>  Ledger and room operations are total functions.  Loops whose end depends on the
  outside take fuel and answer \<open>None\<close> when it is used up: the polling loop of \<open>Job.wait\<close> and of the
  watcher (\<open>poll\<close>) and the reply loop of \<open>ensure_subshell\<close>; for both it is proved that a clock that
  advances makes any fuel above the timeout's ticks enough.  \<open>json.loads\<close> is bounded by twice the
  length of its text, which is proved enough for everything \<open>json.dumps\<close> writes.  Times are
  integers (ticks); counts and identifiers are unbounded, as in Python.

  \<^bold>\<open>What is a parameter.\<close>  Jupyter's session, kernel and contents managers, its execution stack and
  document rooms, \<^verbatim>\<open>jupyter_ydoc\<close>, kernels' channels, tornado's argument and header access, httpx, the
  clock, identifiers, hashes and files are fields of environment records, and what a property needs of
  them is a named hypothesis (\<open>ydoc_laws\<close>, \<open>text_laws\<close>, \<open>contents_answer\<close>,
  \<open>services_keep\<close>, \<open>faithful_wire\<close>, \<open>library_failures\<close>).  Each such
  property has a witness on a concrete environment.  Two of these idealise: \<open>ydoc_laws\<close> says that cells
  are read back as they were set, while \<^verbatim>\<open>jupyter_ydoc\<close> also fills in defaults in cells that lack them, and
  the transport \<open>over_http\<close> of the end-to-end properties delivers every answer.  A float of a JSON
  value is its text, so numbers are compared by their texts where floats are involved.

  \<^bold>\<open>Not modelled.\<close>  Click's own parser (the declarations are modelled; the reading of
  command lines in \<^verbatim>\<open>Hn_CliOptions\<close> accepts less than click does), logging, the asynchronous glue (an operation
  runs to its next modelled await; cancellation is modelled for the collection task only), the texts
  of library exceptions, requests with argument types the SDK never sends, the base class of protocols
  and the package files that only import.
\<close>

end
